(* ===== verification/Prelude.thy ===== *)
theory Prelude
  imports Main "HOL-Library.Word" "HOL-Library.Monad_Syntax"
begin

text \<open>
  What every component of the development shares: the names of the C integer types, the
  character classes of the C library (\<^verbatim>\<open>ctype.h\<close> in the C locale), reads from a block of
  memory, the buffer writer behind the \<^verbatim>\<open>ADD_CHAR\<close> macros and a few list lemmas.

  Conventions of the whole development:
  \<^item> a \<^verbatim>\<open>char\<close> is HOL's \<open>char\<close>, eight bits; the firmware is built for ARM, where a plain
    \<^verbatim>\<open>char\<close> is unsigned, so its \<^verbatim>\<open>int\<close> value is \<open>code c\<close>, between 0 and 255;
  \<^item> a \<^verbatim>\<open>char *\<close> into a block is an offset (\<open>nat\<close>) into the \<open>char list\<close> that is the block's
    contents; a pointer that may be \<^verbatim>\<open>NULL\<close> is a \<open>nat option\<close>;
  \<^item> integers whose width cannot matter (offsets, lengths, counters bounded by a buffer) are
    \<open>nat\<close> or \<open>int\<close>; registers and converted numbers are \<open>word\<close>s of the C width;
  \<^item> a computation that may not come back, or that would read a string outside its memory, has
    type \<open>option\<close>, and \<open>None\<close> is that case.
\<close>

section \<open>C types\<close>

type_synonym u8 = "8 word"
type_synonym u16 = "16 word"
type_synonym u32 = "32 word"
type_synonym u64 = "64 word"

type_synonym mem = "char list"

abbreviation NUL :: char where "NUL \<equiv> CHR 0x00"

named_theorems ctype_defs \<open>the character classes unfolded\<close>

section \<open>Character classes\<close>

definition code :: "char \<Rightarrow> nat" where
  "code c = of_char c"

definition isdigit :: "char \<Rightarrow> bool" where
  "isdigit c = (48 \<le> code c \<and> code c \<le> 57)"

definition isupper :: "char \<Rightarrow> bool" where
  "isupper c = (65 \<le> code c \<and> code c \<le> 90)"

definition islower :: "char \<Rightarrow> bool" where
  "islower c = (97 \<le> code c \<and> code c \<le> 122)"

definition isalpha :: "char \<Rightarrow> bool" where
  "isalpha c = (isupper c \<or> islower c)"

definition isalnum :: "char \<Rightarrow> bool" where
  "isalnum c = (isalpha c \<or> isdigit c)"

definition isxdigit :: "char \<Rightarrow> bool" where
  "isxdigit c = (isdigit c \<or> (65 \<le> code c \<and> code c \<le> 70) \<or> (97 \<le> code c \<and> code c \<le> 102))"

definition isspace :: "char \<Rightarrow> bool" where
  "isspace c = (code c = 32 \<or> (9 \<le> code c \<and> code c \<le> 13))"

definition tolower :: "char \<Rightarrow> char" where
  "tolower c = (if isupper c then char_of (code c + 32) else c)"

lemmas [ctype_defs] = code_def isdigit_def isupper_def islower_def isalpha_def isalnum_def
  isxdigit_def isspace_def

lemma code_less_256 [simp]: "code c < 256"
  using nat_of_char_less_256 [of c] by (simp add: code_def)

lemma code_eq_iff [simp]: "code c = code d \<longleftrightarrow> c = d"
  by (simp add: code_def)

lemma code_char_of [simp]: "n < 256 \<Longrightarrow> code (char_of n) = n"
  by (simp add: code_def)

lemma code_NUL [simp]: "code NUL = 0"
  by (simp add: code_def)

lemma code_eq_0_iff [simp]: "code c = 0 \<longleftrightarrow> c = NUL"
  by (metis code_NUL code_eq_iff)

lemma code_Char [simp]:
  "code (Char b0 b1 b2 b3 b4 b5 b6 b7) = horner_sum of_bool 2 [b0, b1, b2, b3, b4, b5, b6, b7]"
  by (simp only: code_def of_char_Char)

lemma isdigit_NUL [simp]: "\<not> isdigit NUL"
  by (simp add: isdigit_def)

lemma code_tolower: "code (tolower c) = (if isupper c then code c + 32 else code c)"
  by (simp add: tolower_def isupper_def)

lemma tolower_NUL_iff [simp]: "tolower c = NUL \<longleftrightarrow> c = NUL"
proof -
  have "code (tolower c) = 0 \<longleftrightarrow> code c = 0"
    by (simp add: code_tolower isupper_def del: code_eq_0_iff)
  then show ?thesis by simp
qed

lemma tolower_NUL [simp]: "tolower NUL = NUL" "NUL = tolower c \<longleftrightarrow> c = NUL"
  by (metis tolower_NUL_iff)+

lemma tolower_idem [simp]: "tolower (tolower c) = tolower c"
proof -
  have "code (tolower (tolower c)) = code (tolower c)"
    by (auto simp: code_tolower isupper_def)
  then show ?thesis by simp
qed

lemma isdigit_tolower: "isdigit d \<Longrightarrow> tolower d = d"
  by (auto simp: isdigit_def tolower_def isupper_def)

section \<open>Reading a block of memory\<close>

text \<open>
  A C string literal and the input buffer are followed by a NUL; a read past the block is given
  the NUL as well.  Where an access outside the block is possible and matters, the model says so
  itself (\<open>rdz\<close> below, and the \<open>oob\<close> flag of the error queue).
\<close>

definition rd :: "mem \<Rightarrow> nat \<Rightarrow> char" where
  "rd m p = (if p < length m then m ! p else NUL)"

text \<open>
  A checked read of a C string with an \<^verbatim>\<open>int\<close> index: the NUL that ends it may be read, nothing
  before its start or beyond its NUL.
\<close>

definition rdz :: "char list \<Rightarrow> int \<Rightarrow> char option" where
  "rdz s i = (if 0 \<le> i \<and> i < int (length s) then Some (s ! nat i)
              else if i = int (length s) then Some NUL else None)"

definition hd0 :: "char list \<Rightarrow> char" where
  "hd0 s = (case s of [] \<Rightarrow> NUL | c # _ \<Rightarrow> c)"

lemma hd0_simps [simp]: "hd0 [] = NUL" "hd0 (c # s) = c"
  by (simp_all add: hd0_def)

lemma rd_less [simp]: "p < length m \<Longrightarrow> rd m p = m ! p"
  by (simp add: rd_def)

lemma rd_append1: "p < length a \<Longrightarrow> rd (a @ b) p = rd a p"
  by (simp add: rd_def nth_append)

lemma rd_append2: "rd (a @ b) (length a + p) = rd b p"
  by (simp add: rd_def)

lemma rdz_Some_iff: "(\<exists>c. rdz s i = Some c) \<longleftrightarrow> 0 \<le> i \<and> i \<le> int (length s)"
  by (auto simp: rdz_def)

lemma rdz_inside [simp]: "p < length s \<Longrightarrow> rdz s (int p) = Some (s ! p)"
  by (simp add: rdz_def)

section \<open>Lists\<close>

lemma takeWhile_append_stop:
  "\<forall>x\<in>set xs. P x \<Longrightarrow> ys = [] \<or> \<not> P (hd ys) \<Longrightarrow> takeWhile P (xs @ ys) = xs"
  by (induction xs) (auto simp: takeWhile_eq_Nil_iff)

lemma length_takeWhile_drop_le: "length (takeWhile P (drop n xs)) \<le> length xs - n"
  using length_takeWhile_le [of P "drop n xs"] by simp

text \<open>The last \<open>n\<close> elements: what a bounded queue that drops its oldest entry keeps.\<close>

definition newest :: "nat \<Rightarrow> 'a list \<Rightarrow> 'a list" where
  "newest n xs = drop (length xs - n) xs"

lemma newest_all: "length xs \<le> n \<Longrightarrow> newest n xs = xs"
  by (simp add: newest_def)

lemma length_newest [simp]: "length (newest n xs) = min n (length xs)"
  by (simp add: newest_def)

lemma newest_append_newest: "newest n (newest n xs @ ys) = newest n (xs @ ys)"
  by (cases "length xs \<le> n") (simp_all add: newest_def add.commute)

lemma newest_snoc:
  "length xs \<le> n \<Longrightarrow> 0 < n \<Longrightarrow>
     newest n (xs @ [x]) = (if length xs = n then tl xs else xs) @ [x]"
  by (cases xs) (auto simp: newest_def)

section \<open>Writing into a bounded buffer\<close>

text \<open>
  \<^verbatim>\<open>if (pos < len) str[pos++] = c\<close>, the macro \<^verbatim>\<open>ADD_CHAR\<close> of \<^verbatim>\<open>utils.c\<close>: the state is the
  buffer with the next write position.
\<close>

definition add_char :: "nat \<Rightarrow> char \<Rightarrow> char list \<times> nat \<Rightarrow> char list \<times> nat" where
  "add_char len c = (\<lambda>(str, pos). if pos < len then (str[pos := c], Suc pos) else (str, pos))"

lemma add_char_simps [simp]:
  "pos < len \<Longrightarrow> add_char len c (str, pos) = (str[pos := c], Suc pos)"
  "\<not> pos < len \<Longrightarrow> add_char len c (str, pos) = (str, pos)"
  by (simp_all add: add_char_def)

end
