(* ===== verification/Convert.thy ===== *)
theory Convert
  imports Prelude
begin

text \<open>
  Number conversions of \<^verbatim>\<open>Utilities/Scpi/Src/utils.c\<close>: integers to text in bases 2, 8, 10 and 16
  into a bounded buffer (lines 124 to 288), and text to integers through the C library's
  \<^verbatim>\<open>strtol\<close> and \<^verbatim>\<open>strtoul\<close> (lines 318 to 358), whose \<^verbatim>\<open>long\<close> has 32 bits on ARM.

  The two loops of the printing functions are the same for 32 and 64 bits.  They divide by \<open>x\<close>;
  a division by zero is the result \<open>None\<close>, and so is a loop that does not end: the theorems show
  that neither happens.  What is printed is compared with \<open>num_text\<close>, the usual numeral.
\<close>

section \<open>Integers to text\<close>

definition digit_chars :: "char list" where
  "digit_chars = ''0123456789ABCDEF''"

text \<open>\<^verbatim>\<open>while ((uval / x) == 0) x /= base;\<close>\<close>

partial_function (option) strip_zeros :: "'a::len word \<Rightarrow> 'a word \<Rightarrow> 'a word \<Rightarrow> 'a word option" where
  "strip_zeros base uval x =
     (if x = 0 then None
      else if uval div x = 0 then strip_zeros base uval (x div base) else Some x)"

text \<open>\<^verbatim>\<open>do { ... } while (x && (pos < len));\<close>\<close>

partial_function (option) emit_digits ::
  "'a::len word \<Rightarrow> nat \<Rightarrow> 'a word \<Rightarrow> 'a word \<Rightarrow> char list \<times> nat \<Rightarrow> (char list \<times> nat) option" where
  "emit_digits base len uval x buf =
     (if x = 0 then None
      else let digit = (ucast (uval div x) :: u8)
           in case rdz digit_chars (uint digit) of
                None \<Rightarrow> None
              | Some c \<Rightarrow>
                  let buf = add_char len c buf;
                      uval = uval - ucast digit * x;
                      x = x div base
                  in if x \<noteq> 0 \<and> snd buf < len then emit_digits base len uval x buf
                     else Some buf)"

text \<open>\<^verbatim>\<open>if (pos < len) str[pos] = 0;\<close>\<close>

definition put_nul :: "nat \<Rightarrow> char list \<times> nat \<Rightarrow> nat \<times> char list" where
  "put_nul len = (\<lambda>(str, pos). (pos, if pos < len then str[pos := NUL] else str))"

definition UInt32ToStrBaseSign ::
  "u32 \<Rightarrow> char list \<Rightarrow> nat \<Rightarrow> int \<Rightarrow> bool \<Rightarrow> (nat \<times> char list) option" where
  "UInt32ToStrBaseSign val str len base sign =
     (if val = 0 then Some (put_nul len (add_char len (CHR ''0'') (str, 0)))
      else
        let (x, base) =
              (if base = 2 then (0x80000000, base)
               else if base = 8 then (0x40000000, base)
               else if base = 10 then (1000000000, base)
               else if base = 16 then (0x10000000, base)
               else (1000000000, 10));
            neg = (sign \<and> sint val < 0 \<and> base = 10);
            uval = (if neg then - val else val);
            buf = (if neg then add_char len (CHR ''-'') (str, 0) else (str, 0))
        in case strip_zeros (word_of_int base) uval x of
             None \<Rightarrow> None
           | Some x \<Rightarrow> map_option (put_nul len) (emit_digits (word_of_int base) len uval x buf))"

definition SCPI_Int32ToStr :: "int \<Rightarrow> char list \<Rightarrow> nat \<Rightarrow> (nat \<times> char list) option" where
  "SCPI_Int32ToStr val str len = UInt32ToStrBaseSign (word_of_int val) str len 10 True"

definition SCPI_UInt32ToStrBase :: "u32 \<Rightarrow> char list \<Rightarrow> nat \<Rightarrow> int \<Rightarrow> (nat \<times> char list) option" where
  "SCPI_UInt32ToStrBase val str len base = UInt32ToStrBaseSign val str len base False"

definition UInt64ToStrBaseSign ::
  "u64 \<Rightarrow> char list \<Rightarrow> nat \<Rightarrow> int \<Rightarrow> bool \<Rightarrow> (nat \<times> char list) option" where
  "UInt64ToStrBaseSign val str len base sign =
     (if val = 0 then Some (put_nul len (add_char len (CHR ''0'') (str, 0)))
      else
        let (x, base) =
              (if base = 2 then (0x8000000000000000, base)
               else if base = 8 then (0x8000000000000000, base)
               else if base = 10 then (10000000000000000000, base)
               else if base = 16 then (0x1000000000000000, base)
               else (10000000000000000000, 10));
            neg = (sign \<and> sint val < 0 \<and> base = 10);
            uval = (if neg then - val else val);
            buf = (if neg then add_char len (CHR ''-'') (str, 0) else (str, 0))
        in case strip_zeros (word_of_int base) uval x of
             None \<Rightarrow> None
           | Some x \<Rightarrow> map_option (put_nul len) (emit_digits (word_of_int base) len uval x buf))"

definition SCPI_Int64ToStr :: "int \<Rightarrow> char list \<Rightarrow> nat \<Rightarrow> (nat \<times> char list) option" where
  "SCPI_Int64ToStr val str len = UInt64ToStrBaseSign (word_of_int val) str len 10 True"

definition SCPI_UInt64ToStrBase :: "u64 \<Rightarrow> char list \<Rightarrow> nat \<Rightarrow> int \<Rightarrow> (nat \<times> char list) option" where
  "SCPI_UInt64ToStrBase val str len base = UInt64ToStrBaseSign val str len base False"

section \<open>Text to integers\<close>

definition digit_val :: "char \<Rightarrow> nat" where
  "digit_val c =
     (if isdigit c then code c - 48
      else if isupper c then code c - 55
      else if islower c then code c - 87
      else 36)"

definition base_digit :: "nat \<Rightarrow> char \<Rightarrow> bool" where
  "base_digit base c \<longleftrightarrow> digit_val c < base"

definition digits_value :: "nat \<Rightarrow> char list \<Rightarrow> nat" where
  "digits_value base ds = foldl (\<lambda>n c. n * base + digit_val c) 0 ds"

text \<open>
  The subject of \<^verbatim>\<open>strtol\<close>: white space, a sign, for base 16 a prefix \<^verbatim>\<open>0x\<close> with a hexadecimal
  digit after it, and the digits.  The result is the sign, the magnitude and the characters used
  (none if there is no digit).
\<close>

definition strto_subject :: "nat \<Rightarrow> char list \<Rightarrow> bool \<times> nat \<times> nat" where
  "strto_subject base xs =
     (let w = length (takeWhile isspace xs); ys = drop w xs;
          neg = (hd0 ys = CHR ''-'');
          s = (if hd0 ys = CHR ''-'' \<or> hd0 ys = CHR ''+'' then 1 else 0); zs = drop s ys;
          p = (if base = 16 \<and> 3 \<le> length zs \<and> hd0 zs = CHR ''0'' \<and>
                  (zs ! 1 = CHR ''x'' \<or> zs ! 1 = CHR ''X'') \<and> base_digit 16 (zs ! 2)
               then 2 else 0);
          ds = takeWhile (base_digit base) (drop p zs)
      in if ds = [] then (False, 0, 0) else (neg, digits_value base ds, w + s + p + length ds))"

definition strtol :: "nat \<Rightarrow> char list \<Rightarrow> int \<times> nat" where
  "strtol base xs =
     (let (neg, n, used) = strto_subject base xs;
          v = (if neg then - int n else int n)
      in (max (- (2 ^ 31)) (min (2 ^ 31 - 1) v), used))"

definition strtoul :: "nat \<Rightarrow> char list \<Rightarrow> int \<times> nat" where
  "strtoul base xs =
     (let (neg, n, used) = strto_subject base xs
      in (if 2 ^ 32 \<le> n then 2 ^ 32 - 1
          else if neg then (- int n) mod 2 ^ 32 else int n, used))"

text \<open>The conversions return the characters used and the value.\<close>

definition strBaseToInt32 :: "char list \<Rightarrow> int \<Rightarrow> nat \<times> int" where
  "strBaseToInt32 str base = (let (v, n) = strtol (nat base) str in (n, v))"

definition strBaseToUInt32 :: "char list \<Rightarrow> int \<Rightarrow> nat \<times> int" where
  "strBaseToUInt32 str base = (let (v, n) = strtoul (nat base) str in (n, v))"

definition strBaseToInt64 :: "char list \<Rightarrow> int \<Rightarrow> nat \<times> int" where
  "strBaseToInt64 str base = (let (v, n) = strtol (nat base) str in (n, v))"

definition strBaseToUInt64 :: "char list \<Rightarrow> int \<Rightarrow> nat \<times> int" where
  "strBaseToUInt64 str base = (let (v, n) = strtoul (nat base) str in (n, v))"

section \<open>Writing characters\<close>

lemma add_chars:
  "pos \<le> len \<Longrightarrow> len \<le> length str \<Longrightarrow>
     fold (add_char len) cs (str, pos) =
       (take pos str @ take (len - pos) cs @ drop (min len (pos + length cs)) str,
        min len (pos + length cs))"
proof (induction cs arbitrary: str pos)
  case (Cons c cs)
  show ?case
  proof (cases "pos < len")
    case True
    then have "fold (add_char len) cs (str[pos := c], Suc pos) =
        (take (Suc pos) (str[pos := c]) @ take (len - Suc pos) cs @
         drop (min len (Suc pos + length cs)) (str[pos := c]), min len (Suc pos + length cs))"
      using Cons by simp
    moreover have "take (Suc pos) (str[pos := c]) = take pos str @ [c]"
      using True Cons.prems by (simp add: take_Suc_conv_app_nth)
    ultimately show ?thesis
      using True by (simp add: take_Cons' Suc_diff_Suc[symmetric] drop_update_cancel min_def)
  next
    case False
    then show ?thesis using Cons by (simp add: Cons.IH)
  qed
qed simp

lemma add_chars_full: "len \<le> pos \<Longrightarrow> fold (add_char len) cs (str, pos) = (str, pos)"
  by (induction cs) simp_all

section \<open>Numerals\<close>

definition dchar :: "nat \<Rightarrow> char" where
  "dchar n = digit_chars ! n"

fun num_text :: "nat \<Rightarrow> nat \<Rightarrow> char list" where
  "num_text b n =
     (if b < 2 \<or> n < b then [dchar n] else num_text b (n div b) @ [dchar (n mod b)])"

declare num_text.simps [simp del]

text \<open>The numeral with exactly \<open>k + 1\<close> digits, in the order the loop prints them.\<close>

fun pad_text :: "nat \<Rightarrow> nat \<Rightarrow> nat \<Rightarrow> char list" where
  "pad_text b 0 n = [dchar n]"
| "pad_text b (Suc k) n = dchar (n div b ^ Suc k) # pad_text b k (n mod b ^ Suc k)"

lemma pad_text_last:
  "0 < b \<Longrightarrow> pad_text b (Suc k) n = pad_text b k (n div b) @ [dchar (n mod b)]"
proof (induction k arbitrary: n)
  case (Suc k)
  have m: "n mod b ^ Suc (Suc k) = b * (n div b mod b ^ Suc k) + n mod b"
    using mod_mult2_eq [of n b "b ^ Suc k"] by simp
  have "n mod b ^ Suc (Suc k) div b = n div b mod b ^ Suc k"
    unfolding m using Suc.prems by simp
  moreover have "n mod b ^ Suc (Suc k) mod b = n mod b"
    unfolding m by simp
  moreover have "n div b ^ Suc (Suc k) = n div b div b ^ Suc k"
    by (simp add: div_mult2_eq)
  ultimately show ?case
    using Suc.IH [OF Suc.prems, of "n mod b ^ Suc (Suc k)"]
    by (subst pad_text.simps(2)) (simp del: power_Suc add: power_Suc [symmetric])
qed simp

lemma pad_text_num:
  "2 \<le> b \<Longrightarrow> b ^ k \<le> n \<Longrightarrow> n < b ^ Suc k \<Longrightarrow> pad_text b k n = num_text b n"
proof (induction k arbitrary: n)
  case 0
  then show ?case by (simp add: num_text.simps)
next
  case (Suc k)
  have "b ^ k \<le> n div b" using Suc.prems by (simp add: less_eq_div_iff_mult_less_eq mult.commute)
  moreover have "n div b < b ^ Suc k"
    using Suc.prems by (simp add: div_less_iff_less_mult mult.commute)
  ultimately have "pad_text b k (n div b) = num_text b (n div b)"
    using Suc.IH Suc.prems by simp
  moreover have "\<not> n < b"
  proof -
    have "b \<le> b ^ Suc k" using Suc.prems(1) by simp
    then show ?thesis using Suc.prems(2) by linarith
  qed
  moreover have "num_text b n = num_text b (n div b) @ [dchar (n mod b)]"
    using calculation(2) Suc.prems(1) by (subst num_text.simps) simp
  ultimately show ?case
    using Suc.prems(1) pad_text_last [of b k n] by simp
qed

section \<open>The two loops\<close>

lemma strip_zeros_eq:
  fixes x :: "'a::len word"
  assumes "2 \<le> unat base" "uval \<noteq> 0"
  shows "unat x = unat base ^ k \<Longrightarrow> unat uval < unat base ^ Suc k \<Longrightarrow>
     \<exists>j x'. strip_zeros base uval x = Some x' \<and> unat x' = unat base ^ j \<and>
       unat base ^ j \<le> unat uval \<and> unat uval < unat base ^ Suc j"
proof (induction k arbitrary: x)
  case 0
  then have x: "x = 1" by (simp add: word_unat_eq_iff)
  have "unat uval \<noteq> 0" using assms(2) by (simp add: unat_eq_zero)
  then show ?case using 0 x assms(2) by (subst strip_zeros.simps) (auto intro!: exI [of _ 0])
next
  case (Suc k)
  have b0: "0 < unat base" using assms(1) by simp
  have x0: "x \<noteq> 0"
  proof
    assume "x = 0"
    with Suc.prems(1) have "unat base ^ Suc k = 0" by simp
    then show False using b0 by simp
  qed
  have d: "unat (x div base) = unat base ^ k"
    using Suc.prems(1) b0 by (simp add: unat_div)
  show ?case
  proof (cases "unat uval < unat base ^ Suc k")
    case True
    then have "uval div x = 0"
      using Suc.prems(1) by (simp add: unat_div unat_eq_zero [symmetric] del: unat_eq_zero)
    then have "strip_zeros base uval x = strip_zeros base uval (x div base)"
      using x0 by (subst strip_zeros.simps) simp
    with Suc.IH [OF d True] show ?thesis by simp
  next
    case False
    then have "uval div x \<noteq> 0"
      using Suc.prems(1) b0 by (simp add: unat_div unat_eq_zero [symmetric] div_eq_0_iff del: unat_eq_zero)
    then have "strip_zeros base uval x = Some x"
      using x0 by (subst strip_zeros.simps) simp
    with False Suc.prems show ?thesis by (intro exI [of _ "Suc k"] exI [of _ x]) simp
  qed
qed

lemma emit_digits_eq:
  fixes x :: "'a::len word"
  assumes "2 \<le> unat base" "unat base \<le> 16"
  shows "unat x = unat base ^ k \<Longrightarrow> unat uval < unat base ^ Suc k \<Longrightarrow>
     emit_digits base len uval x buf = Some (fold (add_char len) (pad_text (unat base) k (unat uval)) buf)"
proof (induction k arbitrary: x uval buf)
  case (Suc k)
  have b0: "0 < unat base" using assms(1) by simp
  let ?d = "unat uval div unat base ^ Suc k"
  have x0: "x \<noteq> 0"
  proof
    assume "x = 0"
    with Suc.prems(1) have "unat base ^ Suc k = 0" by simp
    then show False using b0 by simp
  qed
  have d: "?d < unat base" using Suc.prems b0 by (simp add: div_less_iff_less_mult mult.commute)
  then have d16: "?d < 16" using assms(2) by simp
  have u: "unat (ucast (uval div x) :: u8) = ?d"
    using d16 Suc.prems(1) by (simp add: unsigned_ucast_eq unat_div take_bit_nat_eq_self)
  have l: "?d < length digit_chars" using d16 by (simp add: digit_chars_def)
  have "uint (ucast (uval div x) :: u8) = int ?d" using u by (simp only: uint_nat)
  then have r: "rdz digit_chars (uint (ucast (uval div x) :: u8)) = Some (dchar ?d)"
    by (simp only: dchar_def rdz_inside [OF l])
  have c: "(ucast (ucast (uval div x) :: u8) :: 'a word) = uval div x"
  proof (rule word_unat_eq_iff [THEN iffD2])
    have "?d < 2 ^ LENGTH('a)"
      using unsigned_less [of uval, where ?'a = nat] by (rule le_less_trans [OF div_le_dividend])
    then show "unat (ucast (ucast (uval div x) :: u8) :: 'a word) = unat (uval div x)"
      using u Suc.prems(1)
      by (simp add: unsigned_ucast_eq unsigned_take_bit_eq unat_div take_bit_nat_eq_self)
  qed
  have m: "uval - uval div x * x = uval mod x"
    by (simp add: minus_div_mult_eq_mod)
  have um: "unat (uval mod x) = unat uval mod unat base ^ Suc k"
    using Suc.prems(1) by (simp add: unat_mod)
  have xd: "unat (x div base) = unat base ^ k"
    using Suc.prems(1) b0 by (simp add: unat_div)
  have xd0: "x div base \<noteq> 0"
  proof
    assume "x div base = 0"
    with xd have "unat base ^ k = 0" by simp
    then show False using b0 by simp
  qed
  have "unat (uval mod x) < unat base ^ Suc k" using um b0 by simp
  from Suc.IH [OF xd this, of "add_char len (dchar ?d) buf"]
  have IH: "emit_digits base len (uval mod x) (x div base) (add_char len (dchar ?d) buf) =
     Some (fold (add_char len) (pad_text (unat base) k (unat uval mod unat base ^ Suc k))
       (add_char len (dchar ?d) buf))"
    by (simp add: um)
  obtain str pos where buf: "add_char len (dchar ?d) buf = (str, pos)" by fastforce
  show ?case
  proof (cases "pos < len")
    case True
    then show ?thesis
      using x0 r c m xd0 IH buf by (subst emit_digits.simps) (simp add: Let_def)
  next
    case False
    then have "fold (add_char len) (pad_text (unat base) k (unat uval mod unat base ^ Suc k)) (str, pos) = (str, pos)"
      by (intro add_chars_full) simp
    then show ?thesis
      using False x0 r buf by (subst emit_digits.simps) (simp add: Let_def)
  qed
next
  case 0
  then have x: "x = 1" by (simp add: word_unat_eq_iff)
  have d16: "unat uval < 16" using 0 assms(2) by simp
  have u: "unat (ucast uval :: u8) = unat uval"
    using d16 by (simp add: unsigned_ucast_eq take_bit_nat_eq_self)
  have l: "unat uval < length digit_chars" using d16 by (simp add: digit_chars_def)
  have "uint (ucast uval :: u8) = int (unat uval)" using u by (simp only: uint_nat)
  then have r: "rdz digit_chars (uint (ucast uval :: u8)) = Some (dchar (unat uval))"
    by (simp only: dchar_def rdz_inside [OF l])
  have "unat ((1 :: 'a word) div base) = 0" using assms(1) unfolding unat_div by simp
  then have nz: "(1 :: 'a word) div base = 0" by (simp only: unat_eq_zero)
  have "emit_digits base len uval 1 buf = Some (add_char len (dchar (unat uval)) buf)"
    by (subst emit_digits.simps)
       (simp only: one_neq_zero if_False Let_def div_by_1 r option.case nz simp_thms)
  then show ?case using x by simp
qed

section \<open>What the printing functions write\<close>

text \<open>\<open>written len t str (pos, out)\<close>: of the text \<open>t\<close> as much as the buffer's first \<open>len\<close> bytes hold has
  been written, with a NUL behind it if it fits; the rest of the buffer is as before.\<close>

definition written :: "nat \<Rightarrow> char list \<Rightarrow> char list \<Rightarrow> nat \<times> char list" where
  "written len t str =
     (let n = min len (length t)
      in (n, take len t @ (if n < len then NUL # drop (Suc n) str else drop n str)))"

lemma put_nul_written:
  assumes "len \<le> length str"
  shows "put_nul len (fold (add_char len) t (str, 0)) = written len t str"
proof -
  let ?n = "min len (length t)"
  have "(take len t @ drop ?n str)[?n := NUL] = take len t @ NUL # drop (Suc ?n) str"
    if "?n < len"
  proof -
    have "length (take len t) = ?n" by simp
    moreover have "drop ?n str = str ! ?n # drop (Suc ?n) str"
      using that assms by (intro Cons_nth_drop_Suc [symmetric]) simp
    ultimately show ?thesis by (simp add: list_update_append)
  qed
  then show ?thesis
    using add_chars [of 0 len str t] assms by (simp add: put_nul_def written_def Let_def)
qed

lemma take_written: "len \<le> length str \<Longrightarrow> take (fst (written len t str)) (snd (written len t str)) = take len t"
  by (simp add: written_def Let_def min_def)

lemma length_written: "len \<le> length str \<Longrightarrow> length (snd (written len t str)) = length str"
  by (auto simp: written_def Let_def)

text \<open>The text of a value in the base that is used, and with its sign in base 10.\<close>

definition out_base :: "int \<Rightarrow> nat" where
  "out_base base = (if base = 2 \<or> base = 8 \<or> base = 16 then nat base else 10)"

definition out_text :: "bool \<Rightarrow> int \<Rightarrow> int \<Rightarrow> nat \<Rightarrow> char list" where
  "out_text sign base sval uval =
     (if sign \<and> sval < 0 \<and> out_base base = 10 then CHR ''-'' # num_text 10 (nat (- sval))
      else num_text (out_base base) uval)"

lemma print_loops:
  fixes x :: "'a::len word"
  assumes "2 \<le> unat base" "unat base \<le> 16" "uval \<noteq> 0" "unat x = unat base ^ k"
    "unat uval < unat base ^ Suc k"
  shows "(case strip_zeros base uval x of None \<Rightarrow> None
          | Some x \<Rightarrow> map_option (put_nul len) (emit_digits base len uval x buf)) =
         Some (put_nul len (fold (add_char len) (num_text (unat base) (unat uval)) buf))"
proof -
  obtain j x' where j: "strip_zeros base uval x = Some x'" "unat x' = unat base ^ j"
    "unat base ^ j \<le> unat uval" "unat uval < unat base ^ Suc j"
    using strip_zeros_eq [OF assms(1,3-5)] by blast
  show ?thesis
    using j emit_digits_eq [OF assms(1,2) j(2,4)] pad_text_num [OF assms(1) j(3,4)] by simp
qed

lemma sint_neg_uint:
  fixes w :: "'a::len word"
  assumes "sint w < 0"
  shows "sint w = uint w - 2 ^ LENGTH('a)"
proof -
  have l: "Suc (LENGTH('a) - Suc 0) = LENGTH('a)" by simp
  have "sint w = take_bit LENGTH('a) (uint w) -
      2 ^ LENGTH('a) * of_bool (bit (uint w) (LENGTH('a) - Suc 0))"
    unfolding sint_uint signed_take_bit_eq_take_bit_minus l ..
  moreover have "take_bit LENGTH('a) (uint w) = uint w"
    by (rule take_bit_int_eq_self) simp_all
  moreover have "0 \<le> uint w" by simp
  ultimately show ?thesis using assms by (cases "bit (uint w) (LENGTH('a) - Suc 0)") auto
qed

lemma unat_neg:
  fixes w :: "'a::len word"
  assumes "sint w < 0"
  shows "unat (- w) = nat (- sint w)" "- w \<noteq> 0"
proof -
  have u0: "uint w \<noteq> 0" using assms by (metis sint_0 order_less_irrefl uint_0_iff)
  have "uint (- w) = (- uint w) mod 2 ^ LENGTH('a)"
    by (simp add: uint_word_ariths)
  also have "\<dots> = (2 ^ LENGTH('a) - uint w) mod 2 ^ LENGTH('a)" by (simp add: mod_diff_left_eq [symmetric])
  also have "\<dots> = 2 ^ LENGTH('a) - uint w"
  proof (rule mod_pos_pos_trivial)
    show "0 \<le> 2 ^ LENGTH('a) - uint w"
      using unsigned_less [of w, where ?'a = int] by linarith
    have "0 \<le> uint w" by simp
    then show "2 ^ LENGTH('a) - uint w < 2 ^ LENGTH('a)" using u0 by linarith
  qed
  finally have u: "uint (- w) = - sint w" using sint_neg_uint [OF assms] by linarith
  then show "unat (- w) = nat (- sint w)" by (metis unat_eq_nat_uint)
  show "- w \<noteq> 0" using u assms by auto
qed

lemma num_text_0: "2 \<le> b \<Longrightarrow> num_text b 0 = ''0''"
  by (subst num_text.simps) (simp add: dchar_def digit_chars_def)

lemma UInt32ToStr_text:
  assumes "len \<le> length str"
  shows "UInt32ToStrBaseSign val str len base sign =
           Some (written len (out_text sign base (sint val) (unat val)) str)"
proof (cases "val = 0")
  case True
  then have "out_text sign base (sint val) (unat val) = ''0''"
    by (simp add: out_text_def num_text_0 out_base_def)
  then show ?thesis
    using True put_nul_written [OF assms, of "''0''"] by (simp add: UInt32ToStrBaseSign_def)
next
  case False
  have u: "unat w < 4294967296" for w :: u32 using unsigned_less [of w, where ?'a = nat] by simp
  note L = print_loops [where ?'a = 32 and len = len]
  have loops:
    "w \<noteq> 0 \<Longrightarrow> (case strip_zeros 2 w 0x80000000 of None \<Rightarrow> None
       | Some x \<Rightarrow> map_option (put_nul len) (emit_digits 2 len w x buf)) =
       Some (put_nul len (fold (add_char len) (num_text 2 (unat w)) buf))"
    "w \<noteq> 0 \<Longrightarrow> (case strip_zeros 8 w 0x40000000 of None \<Rightarrow> None
       | Some x \<Rightarrow> map_option (put_nul len) (emit_digits 8 len w x buf)) =
       Some (put_nul len (fold (add_char len) (num_text 8 (unat w)) buf))"
    "w \<noteq> 0 \<Longrightarrow> (case strip_zeros 10 w 1000000000 of None \<Rightarrow> None
       | Some x \<Rightarrow> map_option (put_nul len) (emit_digits 10 len w x buf)) =
       Some (put_nul len (fold (add_char len) (num_text 10 (unat w)) buf))"
    "w \<noteq> 0 \<Longrightarrow> (case strip_zeros 16 w 0x10000000 of None \<Rightarrow> None
       | Some x \<Rightarrow> map_option (put_nul len) (emit_digits 16 len w x buf)) =
       Some (put_nul len (fold (add_char len) (num_text 16 (unat w)) buf))"
    for w :: u32 and buf
    using L [of 2 w "0x80000000" 31 buf] L [of 8 w "0x40000000" 10 buf]
      L [of 10 w 1000000000 9 buf] L [of 16 w "0x10000000" 7 buf] u [of w] by simp_all
  have neg: "sint val < 0 \<Longrightarrow> - val \<noteq> 0 \<and> unat (- val) = nat (- sint val)"
    using unat_neg [of val] by simp
  show ?thesis
    using False neg loops put_nul_written [OF assms]
      put_nul_written [OF assms, of "CHR ''-'' # num_text 10 (nat (- sint val))"]
    by (cases "base = 2"; cases "base = 8"; cases "base = 16"; cases sign; cases "sint val < 0")
       (simp_all add: UInt32ToStrBaseSign_def out_text_def out_base_def Let_def cong: option.case_cong)
qed

lemma UInt64ToStr_text:
  assumes "len \<le> length str"
  shows "UInt64ToStrBaseSign val str len base sign =
           Some (written len (out_text sign base (sint val) (unat val)) str)"
proof (cases "val = 0")
  case True
  then have "out_text sign base (sint val) (unat val) = ''0''"
    by (simp add: out_text_def num_text_0 out_base_def)
  then show ?thesis
    using True put_nul_written [OF assms, of "''0''"] by (simp add: UInt64ToStrBaseSign_def)
next
  case False
  have u: "unat w < 18446744073709551616" for w :: u64
    using unsigned_less [of w, where ?'a = nat] by simp
  note L = print_loops [where ?'a = 64 and len = len]
  have loops:
    "w \<noteq> 0 \<Longrightarrow> (case strip_zeros 2 w 0x8000000000000000 of None \<Rightarrow> None
       | Some x \<Rightarrow> map_option (put_nul len) (emit_digits 2 len w x buf)) =
       Some (put_nul len (fold (add_char len) (num_text 2 (unat w)) buf))"
    "w \<noteq> 0 \<Longrightarrow> (case strip_zeros 8 w 0x8000000000000000 of None \<Rightarrow> None
       | Some x \<Rightarrow> map_option (put_nul len) (emit_digits 8 len w x buf)) =
       Some (put_nul len (fold (add_char len) (num_text 8 (unat w)) buf))"
    "w \<noteq> 0 \<Longrightarrow> (case strip_zeros 10 w 10000000000000000000 of None \<Rightarrow> None
       | Some x \<Rightarrow> map_option (put_nul len) (emit_digits 10 len w x buf)) =
       Some (put_nul len (fold (add_char len) (num_text 10 (unat w)) buf))"
    "w \<noteq> 0 \<Longrightarrow> (case strip_zeros 16 w 0x1000000000000000 of None \<Rightarrow> None
       | Some x \<Rightarrow> map_option (put_nul len) (emit_digits 16 len w x buf)) =
       Some (put_nul len (fold (add_char len) (num_text 16 (unat w)) buf))"
    for w :: u64 and buf
    using L [of 2 w "0x8000000000000000" 63 buf] L [of 8 w "0x8000000000000000" 21 buf]
      L [of 10 w 10000000000000000000 19 buf] L [of 16 w "0x1000000000000000" 15 buf] u [of w]
    by simp_all
  have neg: "sint val < 0 \<Longrightarrow> - val \<noteq> 0 \<and> unat (- val) = nat (- sint val)"
    using unat_neg [of val] by simp
  show ?thesis
    using False neg loops put_nul_written [OF assms]
      put_nul_written [OF assms, of "CHR ''-'' # num_text 10 (nat (- sint val))"]
    by (cases "base = 2"; cases "base = 8"; cases "base = 16"; cases sign; cases "sint val < 0")
       (simp_all add: UInt64ToStrBaseSign_def out_text_def out_base_def Let_def cong: option.case_cong)
qed

section \<open>Reading numerals back\<close>

lemma digit_val_dchar: "n < 16 \<Longrightarrow> digit_val (dchar n) = n"
proof -
  assume "n < 16"
  then have "n \<in> {0, 1, 2, 3, 4, 5, 6, 7, 8, 9, 10, 11, 12, 13, 14, 15}"
    by (auto simp: less_Suc_eq numeral_eq_Suc)
  then show ?thesis
    by (auto simp: dchar_def digit_chars_def digit_val_def isdigit_def isupper_def numeral_eq_Suc)
qed

lemma base_digit_dchar: "n < b \<Longrightarrow> b \<le> 16 \<Longrightarrow> base_digit b (dchar n)"
  by (simp add: base_digit_def digit_val_dchar)

lemma digits_value_snoc: "digits_value b (ds @ [c]) = digits_value b ds * b + digit_val c"
  by (simp add: digits_value_def)

lemma num_text_digits:
  assumes "2 \<le> b" "b \<le> 16"
  shows "num_text b n \<noteq> [] \<and> (\<forall>c\<in>set (num_text b n). base_digit b c) \<and>
         digits_value b (num_text b n) = n"
  using assms
proof (induction b n rule: num_text.induct)
  case (1 b n)
  show ?case
  proof (cases "n < b")
    case True
    then show ?thesis
      using 1 by (simp add: num_text.simps [of b n] base_digit_dchar digits_value_def digit_val_dchar)
  next
    case False
    then have "num_text b n = num_text b (n div b) @ [dchar (n mod b)]"
      using 1 by (simp add: num_text.simps [of b n])
    moreover have "n mod b < b" using 1 by simp
    moreover from this have "digit_val (dchar (n mod b)) = n mod b"
      using 1(3) by (intro digit_val_dchar) linarith
    ultimately show ?thesis
      using 1 False by (auto simp: digits_value_snoc base_digit_dchar)
  qed
qed

lemma num_text_first:
  assumes "2 \<le> b" "b \<le> 16" "0 < n"
  shows "hd (num_text b n) \<noteq> CHR ''0''"
  using assms
proof (induction b n rule: num_text.induct)
  case (1 b n)
  show ?case
  proof (cases "n < b")
    case True
    then have "digit_val (dchar n) \<noteq> 0" using 1 digit_val_dchar [of n] by simp
    moreover have "digit_val (CHR ''0'') = 0" by (simp add: digit_val_def isdigit_def)
    ultimately show ?thesis using True 1 by (auto simp: num_text.simps [of b n])
  next
    case False
    then have "num_text b n = num_text b (n div b) @ [dchar (n mod b)]" "0 < n div b"
      using 1 by (simp_all add: num_text.simps [of b n] div_greater_zero_iff)
    then show ?thesis using 1 False num_text_digits [of b "n div b"] by simp
  qed
qed

lemma base_digit_alnum: "b \<le> 16 \<Longrightarrow> base_digit b c \<Longrightarrow> isalnum c"
  by (auto simp: base_digit_def digit_val_def isalnum_def isalpha_def split: if_splits)

lemma isalnum_facts:
  "isalnum c \<Longrightarrow> \<not> isspace c" "isalnum c \<Longrightarrow> c \<noteq> CHR ''-''" "isalnum c \<Longrightarrow> c \<noteq> CHR ''+''"
  by (auto simp: isalnum_def isalpha_def isdigit_def isupper_def islower_def isspace_def)

definition number_ends :: "char list \<Rightarrow> bool" where
  "number_ends ys \<longleftrightarrow> ys = [] \<or> \<not> isalnum (hd ys)"

lemma takeWhile_number:
  assumes "2 \<le> b" "b \<le> 16" "number_ends ys"
  shows "takeWhile (base_digit b) (num_text b n @ ys) = num_text b n"
  using num_text_digits [OF assms(1,2), of n] assms(3) base_digit_alnum [OF assms(2)]
  by (intro takeWhile_append_stop) (auto simp: number_ends_def)

lemma strto_subject_num:
  assumes "2 \<le> b" "b \<le> 16" "number_ends ys" "neg \<longrightarrow> 0 < n"
  shows "strto_subject b ((if neg then ''-'' else []) @ num_text b n @ ys) =
           (neg, n, length ((if neg then ''-'' else []) @ num_text b n))"
proof -
  note d = num_text_digits [OF assms(1,2), of n]
  obtain c cs where t: "num_text b n = c # cs" using d by (cases "num_text b n") auto
  have c: "isalnum c" using d t base_digit_alnum [OF assms(2)] by auto
  have pre: "\<not> (3 \<le> length (c # cs @ ys) \<and> c = CHR ''0'' \<and>
      ((cs @ ys) ! 0 = CHR ''x'' \<or> (cs @ ys) ! 0 = CHR ''X''))"
  proof (cases "n = 0")
    case True
    then have "cs = []" using t num_text_0 [OF assms(1)] by simp
    then show ?thesis
      using assms(3) by (cases ys) (auto simp: number_ends_def isalnum_def isalpha_def isupper_def islower_def)
  next
    case False
    then show ?thesis using num_text_first [OF assms(1,2), of n] t by auto
  qed
  have tw: "takeWhile (base_digit b) (c # cs @ ys) = c # cs"
    using takeWhile_number [OF assms(1-3), of n] t by simp
  have m: "takeWhile isspace (CHR ''-'' # c # cs @ ys) = []" "takeWhile isspace (c # cs @ ys) = []"
    using isalnum_facts(1) [OF c] by (simp_all add: isspace_def)
  show ?thesis
    using pre tw m isalnum_facts [OF c] d
    by (cases neg) (auto simp: strto_subject_def t Let_def simp del: takeWhile.simps)
qed

lemma num_text_length: "2 \<le> b \<Longrightarrow> n < b ^ Suc k \<Longrightarrow> length (num_text b n) \<le> Suc k"
proof (induction k arbitrary: n)
  case 0
  then show ?case by (simp add: num_text.simps [of b n])
next
  case (Suc k)
  have "n div b < b ^ Suc k" using Suc.prems by (simp add: div_less_iff_less_mult mult.commute)
  from Suc.IH [OF Suc.prems(1) this] show ?case by (simp add: num_text.simps [of b n])
qed

lemma sint_of_int:
  "- (2 ^ 31) \<le> v \<Longrightarrow> v < 2 ^ 31 \<Longrightarrow> sint (word_of_int v :: u32) = v"
  "- (2 ^ 63) \<le> v \<Longrightarrow> v < 2 ^ 63 \<Longrightarrow> sint (word_of_int v :: u64) = v"
  by (simp_all add: signed_of_int signed_take_bit_int_eq_self)

lemma unat_of_int32: "0 \<le> v \<Longrightarrow> v < 2 ^ 32 \<Longrightarrow> unat (word_of_int v :: u32) = nat v"
  by (simp add: unat_eq_nat_uint uint_word_of_int)

lemma unat_of_int64: "0 \<le> v \<Longrightarrow> v < 2 ^ 64 \<Longrightarrow> unat (word_of_int v :: u64) = nat v"
  by (simp add: unat_eq_nat_uint uint_word_of_int)

lemma signed_text:
  assumes "sval = v" "0 \<le> v \<Longrightarrow> uval = nat v"
  shows "out_text True 10 sval uval = (if v < 0 then ''-'' else []) @ num_text 10 (nat \<bar>v\<bar>)"
  using assms by (auto simp: out_text_def out_base_def)

lemma strtol_signed:
  assumes "number_ends ys"
  shows "strto_subject 10 ((if v < 0 then ''-'' else []) @ num_text 10 (nat \<bar>v\<bar>) @ ys) =
           (v < 0, nat \<bar>v\<bar>, length ((if v < 0 then ''-'' else []) @ num_text 10 (nat \<bar>v\<bar>)))"
  using strto_subject_num [of 10 ys "v < 0" "nat \<bar>v\<bar>"] assms by simp

section \<open>Properties\<close>

text \<open>Integers are printed as their numeral and inside the buffer.  For every 32-bit value,
  base and buffer, the division loops of \<^verbatim>\<open>UInt32ToStrBaseSign\<close> end, and what they write is the
  numeral of the value (with a minus sign for a negative signed value in base 10; base 10 for an
  unknown base), cut at the buffer's length, followed by a NUL if there is room; no byte behind that
  is touched, and the result is the number of characters written.\<close>

theorem UInt32ToStr_numeral:
  assumes "len \<le> length str"
  shows "UInt32ToStrBaseSign val str len base sign =
           Some (written len (out_text sign base (sint val) (unat val)) str)"
  using assms by (rule UInt32ToStr_text)

lemma UInt32ToStr_numeral_witness:
  "UInt32ToStrBaseSign (- 42) (replicate 8 (CHR ''x'')) 6 10 True =
     Some (3, ''-42'' @ [NUL] @ ''xxxx'')"
proof -
  have "sint (- 42 :: u32) = - 42" by simp
  moreover have "num_text 10 42 = ''42''"
    by (simp add: num_text.simps [of 10 42] num_text.simps [of 10 4] dchar_def digit_chars_def)
  ultimately have "out_text True 10 (sint (- 42 :: u32)) (unat (- 42 :: u32)) = ''-42''"
    by (simp add: out_text_def out_base_def)
  then show ?thesis
    using UInt32ToStr_numeral [of 6 "replicate 8 (CHR ''x'')" "- 42" 10 True]
    by (simp add: written_def Let_def numeral_eq_Suc)
qed

text \<open>A signed 32-bit number is read back as it was printed.  Printed by
  \<^verbatim>\<open>SCPI_Int32ToStr\<close> into a buffer of at least 12 bytes and followed by anything that cannot
  continue a number, it is read by \<^verbatim>\<open>strBaseToInt32\<close> in full and with the same value.\<close>

theorem Int32_roundtrip:
  assumes "- (2 ^ 31) \<le> v" "v < 2 ^ 31" "12 \<le> len" "len \<le> length str" "number_ends ys"
  shows "\<exists>n out. SCPI_Int32ToStr v str len = Some (n, out) \<and>
           strBaseToInt32 (take n out @ ys) 10 = (n, v)"
proof -
  let ?t = "(if v < 0 then ''-'' else []) @ num_text 10 (nat \<bar>v\<bar>)"
  have t: "out_text True 10 (sint (word_of_int v :: u32)) (unat (word_of_int v :: u32)) = ?t"
    using assms(1,2) by (intro signed_text sint_of_int(1) unat_of_int32) auto
  have "length (num_text 10 (nat \<bar>v\<bar>)) \<le> Suc 9"
    using assms(1,2) by (intro num_text_length) auto
  then have l: "length ?t < len" using assms(3) by (cases "v < 0") simp_all
  then have "SCPI_Int32ToStr v str len = Some (length ?t, ?t @ NUL # drop (Suc (length ?t)) str)"
    by (simp add: SCPI_Int32ToStr_def UInt32ToStr_text [OF assms(4)] t written_def Let_def)
  moreover have "strBaseToInt32 (?t @ ys) 10 = (length ?t, v)"
    using strtol_signed [OF assms(5), of v] assms(1,2)
    by (simp add: strBaseToInt32_def strtol_def)
  ultimately show ?thesis by (intro exI [of _ "length ?t"] exI) (rule conjI, assumption, simp)
qed

lemma Int32_roundtrip_witness:
  "\<exists>n out. SCPI_Int32ToStr (- 2147483648) (replicate 12 NUL) 12 = Some (n, out) \<and>
     strBaseToInt32 (take n out @ '', 1'') 10 = (n, - 2147483648)"
  by (rule Int32_roundtrip) (simp_all add: number_ends_def isalnum_def isalpha_def isupper_def
      islower_def isdigit_def)

text \<open>An unsigned 32-bit number is read back as it was printed, in each of the bases 2, 8, 10
  and 16, from a buffer of at least 33 bytes.\<close>

theorem UInt32_roundtrip:
  assumes "base \<in> {2, 8, 10, 16}" "33 \<le> len" "len \<le> length str" "number_ends ys"
  shows "\<exists>n out. SCPI_UInt32ToStrBase val str len base = Some (n, out) \<and>
           strBaseToUInt32 (take n out @ ys) base = (n, uint val)"
proof -
  let ?b = "nat base" and ?t = "num_text (nat base) (unat val)"
  have b: "2 \<le> ?b" "?b \<le> 16" "out_base base = ?b" using assms(1) by (auto simp: out_base_def)
  have u: "unat val < 2 ^ Suc 31" using unsigned_less [of val, where ?'a = nat] by simp
  also have "(2 :: nat) ^ Suc 31 \<le> ?b ^ Suc 31" by (rule power_mono) (use b in auto)
  finally have "length ?t \<le> Suc 31" by (rule num_text_length [OF b(1)])
  then have l: "length ?t < len" using assms(2) by simp
  then have "SCPI_UInt32ToStrBase val str len base = Some (length ?t, ?t @ NUL # drop (Suc (length ?t)) str)"
    by (simp add: SCPI_UInt32ToStrBase_def UInt32ToStr_text [OF assms(3)] out_text_def b written_def Let_def)
  moreover have "strBaseToUInt32 (?t @ ys) base = (length ?t, uint val)"
    using strto_subject_num [OF b(1,2) assms(4), of False "unat val"] u
    by (simp add: strBaseToUInt32_def strtoul_def)
  ultimately show ?thesis by (intro exI [of _ "length ?t"] exI) (rule conjI, assumption, simp)
qed

lemma UInt32_roundtrip_witness:
  "\<exists>n out. SCPI_UInt32ToStrBase 0xCAFE (replicate 40 NUL) 33 16 = Some (n, out) \<and>
     strBaseToUInt32 (take n out @ []) 16 = (n, 0xCAFE)"
  using UInt32_roundtrip [of 16 33 "replicate 40 NUL" "[]" "0xCAFE"]
  by (simp add: number_ends_def)

text \<open>A signed 64-bit number is not read back when it needs more than 32 bits.  What
  \<^verbatim>\<open>SCPI_Int64ToStr\<close> prints in full is read by \<^verbatim>\<open>strBaseToInt64\<close>, which calls
  \<^verbatim>\<open>strtol\<close>, as the nearest value of a 32-bit \<^verbatim>\<open>long\<close>.\<close>

theorem Int64_read_clamps:
  assumes "- (2 ^ 63) \<le> v" "v < 2 ^ 63" "21 \<le> len" "len \<le> length str" "number_ends ys"
  shows "\<exists>n out. SCPI_Int64ToStr v str len = Some (n, out) \<and>
           take n out = (if v < 0 then ''-'' else []) @ num_text 10 (nat \<bar>v\<bar>) \<and>
           strBaseToInt64 (take n out @ ys) 10 = (n, max (- (2 ^ 31)) (min (2 ^ 31 - 1) v))"
proof -
  let ?t = "(if v < 0 then ''-'' else []) @ num_text 10 (nat \<bar>v\<bar>)"
  have t: "out_text True 10 (sint (word_of_int v :: u64)) (unat (word_of_int v :: u64)) = ?t"
    using assms(1,2) by (intro signed_text sint_of_int(2) unat_of_int64) auto
  have "length (num_text 10 (nat \<bar>v\<bar>)) \<le> Suc 18"
    using assms(1,2) by (intro num_text_length) auto
  then have l: "length ?t < len" using assms(3) by (cases "v < 0") simp_all
  then have "SCPI_Int64ToStr v str len = Some (length ?t, ?t @ NUL # drop (Suc (length ?t)) str)"
    by (simp add: SCPI_Int64ToStr_def UInt64ToStr_text [OF assms(4)] t written_def Let_def)
  moreover have "strBaseToInt64 (?t @ ys) 10 = (length ?t, max (- (2 ^ 31)) (min (2 ^ 31 - 1) v))"
    using strtol_signed [OF assms(5), of v]
    by (simp add: strBaseToInt64_def strtol_def)
  ultimately show ?thesis
    by (intro exI [of _ "length ?t"] exI) (rule conjI, assumption, simp)
qed

lemma Int64_read_clamps_witness:
  "\<exists>n out. SCPI_Int64ToStr 10000000000 (replicate 21 NUL) 21 = Some (n, out) \<and>
     strBaseToInt64 (take n out @ []) 10 = (n, 2147483647)"
  using Int64_read_clamps [of 10000000000 21 "replicate 21 NUL" "[]"]
  by (auto simp: number_ends_def)

end
