(* ===== verification/Fifo.thy ===== *)
theory Fifo
  imports Prelude
begin

text \<open>
  The error queue's ring buffer, \<^verbatim>\<open>Utilities/Scpi/Src/fifo.c\<close> with the struct of
  \<^verbatim>\<open>Inc/fifo_private.h\<close>.  The indices run modulo \<^verbatim>\<open>size + 1\<close>, so that \<^verbatim>\<open>wr == rd\<close> means empty;
  the array has only \<^verbatim>\<open>FIFO_SIZE\<close> entries.  An access to \<^verbatim>\<open>data[]\<close> outside the array is
  undefined behaviour in C: the model records it in the ghost field \<open>fifo_oob\<close>, and nothing is
  claimed of the contents of a queue in which it is set.

  The locale \<open>error_fifo\<close> is the contract the error module relies on (a bounded queue that drops
  its oldest entry), with the ring buffer as its interpretation.
\<close>

section \<open>The ring buffer of fifo.c\<close>

definition FIFO_SIZE :: nat where
  "FIFO_SIZE = 16"

record scpi_fifo =
  fifo_wr :: int
  fifo_rd :: int
  fifo_size :: int
  fifo_data :: "int list"
  fifo_oob :: bool

definition fifo_store :: "scpi_fifo \<Rightarrow> int \<Rightarrow> int \<Rightarrow> scpi_fifo" where
  "fifo_store f i v =
     (if 0 \<le> i \<and> i < int (length (fifo_data f))
      then f\<lparr>fifo_data := (fifo_data f)[nat i := v]\<rparr> else f\<lparr>fifo_oob := True\<rparr>)"

definition fifo_fetch :: "scpi_fifo \<Rightarrow> int \<Rightarrow> int \<times> scpi_fifo" where
  "fifo_fetch f i =
     (if 0 \<le> i \<and> i < int (length (fifo_data f))
      then (fifo_data f ! nat i, f) else (0, f\<lparr>fifo_oob := True\<rparr>))"

definition fifo_init :: "scpi_fifo \<Rightarrow> scpi_fifo" where
  "fifo_init f = f\<lparr>fifo_wr := 0, fifo_rd := 0, fifo_size := int FIFO_SIZE\<rparr>"

definition fifo_clear :: "scpi_fifo \<Rightarrow> scpi_fifo" where
  "fifo_clear f = f\<lparr>fifo_wr := 0, fifo_rd := 0\<rparr>"

text \<open>
  \<open>fifo_remove f want\<close>: \<open>want\<close> says that the caller's \<^verbatim>\<open>value\<close> pointer is not NULL; the
  middle component is what is stored through it.
\<close>

definition fifo_remove :: "scpi_fifo \<Rightarrow> bool \<Rightarrow> bool \<times> int option \<times> scpi_fifo" where
  "fifo_remove f want =
     (if fifo_wr f = fifo_rd f then (False, None, f)
      else let (v, f) = (if want then apfst Some (fifo_fetch f (fifo_rd f)) else (None, f))
           in (True, v, f\<lparr>fifo_rd := (fifo_rd f + 1) mod (fifo_size f + 1)\<rparr>))"

definition fifo_add :: "scpi_fifo \<Rightarrow> int \<Rightarrow> bool \<times> scpi_fifo" where
  "fifo_add f v =
     (let f = (if fifo_wr f = (fifo_rd f + fifo_size f) mod (fifo_size f + 1)
               then snd (snd (fifo_remove f False)) else f);
          f = fifo_store f (fifo_wr f) v
      in (True, f\<lparr>fifo_wr := (fifo_wr f + 1) mod (fifo_size f + 1)\<rparr>))"

definition fifo_count :: "scpi_fifo \<Rightarrow> bool \<times> int" where
  "fifo_count f =
     (let v = fifo_wr f - fifo_rd f in (True, if v < 0 then v + (fifo_size f + 1) else v))"

section \<open>The queue it stands for\<close>

abbreviation fifo_mod :: "scpi_fifo \<Rightarrow> int" where
  "fifo_mod f \<equiv> fifo_size f + 1"

definition fifo_level :: "scpi_fifo \<Rightarrow> nat" where
  "fifo_level f = nat ((fifo_wr f - fifo_rd f) mod fifo_mod f)"

definition fifo_slot :: "scpi_fifo \<Rightarrow> nat \<Rightarrow> nat" where
  "fifo_slot f k = nat ((fifo_rd f + int k) mod fifo_mod f)"

definition fifo_contents :: "scpi_fifo \<Rightarrow> int list" where
  "fifo_contents f = map (\<lambda>k. fifo_data f ! fifo_slot f k) [0..<fifo_level f]"

definition fifo_inv :: "scpi_fifo \<Rightarrow> bool" where
  "fifo_inv f \<longleftrightarrow>
     0 < fifo_size f \<and> 0 \<le> fifo_rd f \<and> fifo_rd f \<le> fifo_size f \<and>
     0 \<le> fifo_wr f \<and> fifo_wr f \<le> fifo_size f \<and> \<not> fifo_oob f \<and>
     (\<forall>k<fifo_level f. fifo_slot f k < length (fifo_data f))"

text \<open>The write index is an entry of the array, so that the next add stays inside it.\<close>

definition fifo_ready :: "scpi_fifo \<Rightarrow> bool" where
  "fifo_ready f \<longleftrightarrow> fifo_wr f < int (length (fifo_data f))"

definition fifo_cap :: "scpi_fifo \<Rightarrow> nat" where
  "fifo_cap f = nat (fifo_size f)"

lemmas fifo_ops = fifo_remove_def fifo_fetch_def fifo_store_def fifo_add_def Let_def


section \<open>Indices modulo size + 1\<close>

lemma mod_Suc_le: "0 \<le> (n::int) \<Longrightarrow> x mod (n + 1) \<le> n"
  using pos_mod_bound [of "n + 1" x] by simp

lemma fifo_inv_wr:
  assumes "fifo_inv f"
  shows "fifo_wr f = (fifo_rd f + int (fifo_level f)) mod fifo_mod f"
    and "fifo_level f \<le> fifo_cap f"
proof -
  have m: "0 < fifo_mod f" using assms by (simp add: fifo_inv_def)
  have l: "int (fifo_level f) = (fifo_wr f - fifo_rd f) mod fifo_mod f"
    using m by (simp add: fifo_level_def)
  have "(fifo_rd f + int (fifo_level f)) mod fifo_mod f = fifo_wr f mod fifo_mod f"
    unfolding l by (simp add: mod_add_right_eq)
  also have "\<dots> = fifo_wr f"
    using assms by (simp add: fifo_inv_def)
  finally show "fifo_wr f = (fifo_rd f + int (fifo_level f)) mod fifo_mod f" by simp
  have "int (fifo_level f) \<le> fifo_size f" unfolding l using m by (simp add: mod_Suc_le)
  then show "fifo_level f \<le> fifo_cap f" using m by (simp add: fifo_cap_def)
qed

lemma fifo_slot_inj:
  assumes "0 < fifo_size f" "j \<le> fifo_cap f" "k \<le> fifo_cap f" "fifo_slot f j = fifo_slot f k"
  shows "j = k"
proof -
  let ?m = "fifo_mod f"
  have "(fifo_rd f + int j) mod ?m = (fifo_rd f + int k) mod ?m"
    using assms(1,4) by (simp add: fifo_slot_def eq_nat_nat_iff)
  then have "?m dvd (int j - int k)"
    by (simp add: mod_eq_dvd_iff)
  moreover have "\<bar>int j - int k\<bar> < ?m"
    using assms(1-3) by (auto simp: fifo_cap_def)
  ultimately have "int j - int k = 0"
    using zdvd_not_zless [of "\<bar>int j - int k\<bar>" ?m] by (cases "int j - int k = 0") auto
  then show ?thesis by simp
qed

lemma fifo_wr_slot: "fifo_inv f \<Longrightarrow> nat (fifo_wr f) = fifo_slot f (fifo_level f)"
  using fifo_inv_wr(1) [of f] by (simp add: fifo_slot_def)

lemma fifo_full_iff:
  assumes "fifo_inv f"
  shows "fifo_wr f = (fifo_rd f + fifo_size f) mod fifo_mod f \<longleftrightarrow> fifo_level f = fifo_cap f"
proof
  have c: "int (fifo_cap f) = fifo_size f" and pos: "0 < fifo_size f"
    using assms by (simp_all add: fifo_cap_def fifo_inv_def)
  assume "fifo_wr f = (fifo_rd f + fifo_size f) mod fifo_mod f"
  then have "fifo_slot f (fifo_level f) = fifo_slot f (fifo_cap f)"
    using fifo_inv_wr(1) [OF assms] by (simp add: fifo_slot_def c)
  then show "fifo_level f = fifo_cap f"
    by (rule fifo_slot_inj [OF pos fifo_inv_wr(2) [OF assms] order_refl])
next
  assume "fifo_level f = fifo_cap f"
  moreover have "int (fifo_cap f) = fifo_size f"
    using assms by (simp add: fifo_cap_def fifo_inv_def)
  ultimately show "fifo_wr f = (fifo_rd f + fifo_size f) mod fifo_mod f"
    using fifo_inv_wr(1) [OF assms] by simp
qed

lemma fifo_level_0_iff: "fifo_inv f \<Longrightarrow> fifo_level f = 0 \<longleftrightarrow> fifo_wr f = fifo_rd f"
proof -
  assume i: "fifo_inv f"
  then have "\<bar>fifo_wr f - fifo_rd f\<bar> < fifo_mod f" by (auto simp: fifo_inv_def)
  then have "fifo_mod f dvd (fifo_wr f - fifo_rd f) \<longleftrightarrow> fifo_wr f - fifo_rd f = 0"
    using zdvd_not_zless [of "\<bar>fifo_wr f - fifo_rd f\<bar>" "fifo_mod f"] by auto
  moreover have "0 \<le> (fifo_wr f - fifo_rd f) mod fifo_mod f"
    using i by (simp add: fifo_inv_def)
  ultimately show ?thesis
    by (simp add: fifo_level_def dvd_eq_mod_eq_0)
qed

section \<open>Dropping and appending one entry\<close>

text \<open>The two halves of an add: the read index moves on (the queue loses its oldest entry), and
  a value is stored at the write index, which then moves on.\<close>

abbreviation fifo_drop :: "scpi_fifo \<Rightarrow> scpi_fifo" where
  "fifo_drop f \<equiv> f\<lparr>fifo_rd := (fifo_rd f + 1) mod fifo_mod f\<rparr>"

abbreviation fifo_put :: "scpi_fifo \<Rightarrow> int \<Rightarrow> scpi_fifo" where
  "fifo_put f v \<equiv> f\<lparr>fifo_data := (fifo_data f)[nat (fifo_wr f) := v],
                     fifo_wr := (fifo_wr f + 1) mod fifo_mod f\<rparr>"

lemma fifo_drop_slot: "fifo_slot (fifo_drop f) k = fifo_slot f (Suc k)"
  by (simp add: fifo_slot_def mod_add_left_eq [of "fifo_rd f + 1"] add.assoc)

lemma fifo_drop_level:
  assumes "fifo_inv f" "0 < fifo_level f"
  shows "fifo_level (fifo_drop f) = fifo_level f - 1"
proof -
  let ?m = "fifo_mod f" and ?d = "(fifo_wr f - fifo_rd f) mod fifo_mod f"
  have "(fifo_wr f - (fifo_rd f + 1) mod ?m) mod ?m = (fifo_wr f - fifo_rd f - 1) mod ?m"
    by (simp add: mod_diff_right_eq algebra_simps)
  also have "\<dots> = (?d - 1) mod ?m"
    by (simp add: mod_diff_left_eq)
  also have "\<dots> = ?d - 1"
  proof (rule mod_pos_pos_trivial)
    show "0 \<le> ?d - 1" using assms(2) by (simp add: fifo_level_def)
    have "?d \<le> fifo_size f" using assms(1) by (simp add: fifo_inv_def mod_Suc_le)
    then show "?d - 1 < ?m" by simp
  qed
  finally show ?thesis
    by (simp add: fifo_level_def)
qed

lemma fifo_drop_inv:
  assumes "fifo_inv f" "0 < fifo_level f"
  shows "fifo_inv (fifo_drop f)" "fifo_contents (fifo_drop f) = tl (fifo_contents f)"
proof -
  have r: "(fifo_rd f + 1) mod fifo_mod f \<le> fifo_size f"
    using assms(1) pos_mod_bound [of "fifo_mod f" "fifo_rd f + 1"] by (simp add: fifo_inv_def)
  show "fifo_inv (fifo_drop f)"
    using assms r unfolding fifo_inv_def fifo_drop_slot fifo_drop_level [OF assms] by auto
  obtain n where n: "fifo_level f = Suc n" using assms(2) by (cases "fifo_level f") auto
  have "tl (map h [0..<Suc n]) = map (\<lambda>k. h (Suc k)) [0..<n]" for h :: "nat \<Rightarrow> int"
    by (simp add: upt_rec [of 0 "Suc n"] map_Suc_upt [symmetric] comp_def del: upt_Suc map_Suc_upt)
  then show "fifo_contents (fifo_drop f) = tl (fifo_contents f)"
    unfolding fifo_contents_def fifo_drop_slot fifo_drop_level [OF assms] n
    by (simp del: upt_Suc)
qed

lemma fifo_put_level:
  assumes "fifo_inv f" "fifo_level f < fifo_cap f"
  shows "fifo_level (fifo_put f v) = Suc (fifo_level f)"
proof -
  let ?m = "fifo_mod f" and ?d = "(fifo_wr f - fifo_rd f) mod fifo_mod f"
  have "((fifo_wr f + 1) mod ?m - fifo_rd f) mod ?m = (fifo_wr f - fifo_rd f + 1) mod ?m"
    by (simp add: mod_diff_left_eq algebra_simps)
  also have "\<dots> = (?d + 1) mod ?m"
    by (simp add: mod_add_left_eq)
  also have "\<dots> = ?d + 1"
  proof (rule mod_pos_pos_trivial)
    show "0 \<le> ?d + 1" using assms(1) by (simp add: fifo_inv_def)
    show "?d + 1 < ?m" using assms by (simp add: fifo_level_def fifo_cap_def fifo_inv_def)
  qed
  finally have "((fifo_wr f + 1) mod ?m - fifo_rd f) mod ?m = ?d + 1" .
  moreover have "0 \<le> ?d" using assms(1) by (simp add: fifo_inv_def)
  ultimately show ?thesis by (simp add: fifo_level_def nat_add_distrib)
qed

lemma fifo_put_inv:
  assumes "fifo_inv f" "fifo_level f < fifo_cap f" "fifo_ready f"
  shows "fifo_inv (fifo_put f v)" "fifo_contents (fifo_put f v) = fifo_contents f @ [v]"
proof -
  let ?g = "fifo_put f v"
  have s: "fifo_slot ?g k = fifo_slot f k" for k by (simp add: fifo_slot_def)
  have w: "nat (fifo_wr f) = fifo_slot f (fifo_level f)" by (rule fifo_wr_slot [OF assms(1)])
  have wl: "fifo_slot f (fifo_level f) < length (fifo_data f)"
    using assms(1,3) w by (simp add: fifo_ready_def fifo_inv_def) linarith
  have "(fifo_wr f + 1) mod fifo_mod f \<le> fifo_size f"
    using assms(1) pos_mod_bound [of "fifo_mod f" "fifo_wr f + 1"] by (simp add: fifo_inv_def)
  then show "fifo_inv ?g"
    using assms(1) wl unfolding fifo_inv_def s fifo_put_level [OF assms(1,2)]
    by (auto simp: less_Suc_eq)
  have "fifo_data ?g ! fifo_slot f k = fifo_data f ! fifo_slot f k" if "k < fifo_level f" for k
  proof -
    have "fifo_slot f k \<noteq> fifo_slot f (fifo_level f)"
      using fifo_slot_inj [of f k "fifo_level f"] that assms(1,2) by (auto simp: fifo_inv_def)
    then show ?thesis by (simp add: w)
  qed
  moreover have "fifo_data ?g ! fifo_slot f (fifo_level f) = v"
    using wl by (simp add: w)
  ultimately show "fifo_contents ?g = fifo_contents f @ [v]"
    unfolding fifo_contents_def s fifo_put_level [OF assms(1,2)] by simp
qed

lemma fifo_contents_length [simp]: "length (fifo_contents f) = fifo_level f"
  by (simp add: fifo_contents_def)


section \<open>The operations on a queue that satisfies the invariant\<close>

lemma fifo_remove_empty: "fifo_wr f = fifo_rd f \<Longrightarrow> fifo_remove f w = (False, None, f)"
  by (simp add: fifo_remove_def)

lemma fifo_remove_nonempty:
  assumes "fifo_inv f" "0 < fifo_level f"
  shows "fifo_remove f True = (True, Some (hd (fifo_contents f)), fifo_drop f)"
    and "fifo_remove f False = (True, None, fifo_drop f)"
proof -
  have ne: "fifo_wr f \<noteq> fifo_rd f"
    using assms fifo_level_0_iff [of f] by auto
  have s0: "fifo_slot f 0 = nat (fifo_rd f)" and r: "0 \<le> fifo_rd f"
    using assms(1) by (simp_all add: fifo_slot_def fifo_inv_def)
  have "nat (fifo_rd f) < length (fifo_data f)"
    using assms s0 by (auto simp: fifo_inv_def)
  then have i: "fifo_rd f < int (length (fifo_data f))" by linarith
  have "hd (fifo_contents f) = fifo_data f ! fifo_slot f 0"
    unfolding fifo_contents_def using assms(2) by (simp add: upt_rec [of 0] del: upt_Suc)
  with ne s0 r i show "fifo_remove f True = (True, Some (hd (fifo_contents f)), fifo_drop f)"
    by (simp add: fifo_remove_def fifo_fetch_def apfst_def)
  from ne show "fifo_remove f False = (True, None, fifo_drop f)"
    by (simp add: fifo_remove_def)
qed

lemma fifo_add_eq:
  assumes "fifo_inv f" "fifo_ready f"
  shows "fifo_add f v =
           (True, fifo_put (if fifo_level f = fifo_cap f then fifo_drop f else f) v)"
proof -
  have c: "0 < fifo_cap f" and w: "0 \<le> fifo_wr f"
    using assms(1) by (simp_all add: fifo_cap_def fifo_inv_def)
  show ?thesis
    using assms c w fifo_remove_nonempty(2) [OF assms(1)]
    by (simp add: fifo_add_def fifo_full_iff fifo_store_def fifo_ready_def)
qed

lemma fifo_count_eq: "fifo_inv f \<Longrightarrow> fifo_count f = (True, int (fifo_level f))"
proof -
  assume i: "fifo_inv f"
  let ?d = "fifo_wr f - fifo_rd f" and ?m = "fifo_mod f"
  have b: "- ?m < ?d" "?d < ?m" "0 < ?m" using i by (auto simp: fifo_inv_def)
  have "?d mod ?m = (if ?d < 0 then ?d + ?m else ?d)"
  proof (cases "?d < 0")
    case True
    have "?d mod ?m = (?d + ?m) mod ?m" by simp
    also have "\<dots> = ?d + ?m" using b True by (intro mod_pos_pos_trivial) auto
    finally show ?thesis using True by simp
  next
    case False
    then show ?thesis using b by (simp add: mod_pos_pos_trivial)
  qed
  moreover have "0 \<le> ?d mod ?m" using b by simp
  ultimately show "fifo_count f = (True, int (fifo_level f))"
    by (simp add: fifo_count_def fifo_level_def Let_def)
qed

section \<open>The contract of the error queue\<close>

text \<open>
  \<open>ready q\<close> is what an add needs to stay inside its memory; the laws say nothing of an add
  without it.
\<close>

locale error_fifo =
  fixes enq :: "'q \<Rightarrow> 'a \<Rightarrow> 'q"
    and deq :: "'q \<Rightarrow> 'a option \<times> 'q"
    and cnt :: "'q \<Rightarrow> int"
    and clr :: "'q \<Rightarrow> 'q"
    and contents :: "'q \<Rightarrow> 'a list"
    and inv :: "'q \<Rightarrow> bool"
    and ready :: "'q \<Rightarrow> bool"
    and cap :: "'q \<Rightarrow> nat"
  assumes contents_le: "inv q \<Longrightarrow> length (contents q) \<le> cap q"
    and cap_pos: "inv q \<Longrightarrow> 0 < cap q"
    and enq_inv: "inv q \<Longrightarrow> ready q \<Longrightarrow> inv (enq q x)"
    and enq_cap: "cap (enq q x) = cap q"
    and enq_contents: "inv q \<Longrightarrow> ready q \<Longrightarrow>
          contents (enq q x) =
            (if length (contents q) = cap q then tl (contents q) else contents q) @ [x]"
    and deq_empty: "inv q \<Longrightarrow> contents q = [] \<Longrightarrow> deq q = (None, q)"
    and deq_nonempty: "inv q \<Longrightarrow> contents q \<noteq> [] \<Longrightarrow>
          fst (deq q) = Some (hd (contents q)) \<and> contents (snd (deq q)) = tl (contents q) \<and>
          inv (snd (deq q)) \<and> cap (snd (deq q)) = cap q"
    and cnt_contents: "inv q \<Longrightarrow> cnt q = int (length (contents q))"
    and clr_empty: "inv q \<Longrightarrow> contents (clr q) = [] \<and> inv (clr q) \<and> cap (clr q) = cap q"
begin

lemma enq_newest: "inv q \<Longrightarrow> ready q \<Longrightarrow> contents (enq q x) = newest (cap q) (contents q @ [x])"
  using enq_contents contents_le cap_pos newest_snoc [of "contents q" "cap q" x] by auto

lemma deq_inv: "inv q \<Longrightarrow> inv (snd (deq q))"
  by (cases "contents q = []") (simp_all add: deq_empty deq_nonempty)

lemma deq_cap: "inv q \<Longrightarrow> cap (snd (deq q)) = cap q"
  by (cases "contents q = []") (simp_all add: deq_empty deq_nonempty)

lemma deq_value:
  "inv q \<Longrightarrow> fst (deq q) = (case contents q of [] \<Rightarrow> None | x # _ \<Rightarrow> Some x)"
  by (cases "contents q") (simp_all add: deq_empty deq_nonempty)

lemma deq_contents: "inv q \<Longrightarrow> contents (snd (deq q)) = tl (contents q)"
  by (cases "contents q = []") (simp_all add: deq_empty deq_nonempty)

lemma cnt_0_iff: "inv q \<Longrightarrow> cnt q = 0 \<longleftrightarrow> contents q = []"
  by (simp add: cnt_contents)

lemma enq_run:
  "inv q \<Longrightarrow> (\<forall>k<length xs. ready (foldl enq q (take k xs))) \<Longrightarrow>
     inv (foldl enq q xs) \<and> cap (foldl enq q xs) = cap q \<and>
     contents (foldl enq q xs) = newest (cap q) (contents q @ xs)"
proof (induction xs rule: rev_induct)
  case Nil
  then show ?case by (simp add: newest_all contents_le)
next
  case (snoc x xs)
  have "ready (foldl enq q (take k xs))" if "k < length xs" for k
    using snoc.prems(2) [rule_format, of k] that by simp
  with snoc have IH: "inv (foldl enq q xs)" "cap (foldl enq q xs) = cap q"
    "contents (foldl enq q xs) = newest (cap q) (contents q @ xs)" by auto
  have r: "ready (foldl enq q xs)"
    using snoc.prems(2) [rule_format, of "length xs"] by simp
  show ?case
    using enq_inv [OF IH(1) r, of x] enq_newest [OF IH(1) r, of x] enq_cap IH
      newest_append_newest [of "cap q" "contents q @ xs" "[x]"]
    by simp
qed

end

section \<open>The ring buffer satisfies the contract\<close>

definition fifo_enq :: "scpi_fifo \<Rightarrow> int \<Rightarrow> scpi_fifo" where
  "fifo_enq f v = snd (fifo_add f v)"

definition fifo_deq :: "scpi_fifo \<Rightarrow> int option \<times> scpi_fifo" where
  "fifo_deq f = snd (fifo_remove f True)"

lemma fifo_put_cong:
  assumes "fifo_inv f" "fifo_ready f"
  defines "g \<equiv> if fifo_level f = fifo_cap f then fifo_drop f else f"
  shows "fifo_inv g" "fifo_level g < fifo_cap g" "fifo_ready g"
    and "fifo_contents g =
           (if fifo_level f = fifo_cap f then tl (fifo_contents f) else fifo_contents f)"
proof -
  have c: "0 < fifo_cap f" using assms(1) by (simp add: fifo_cap_def fifo_inv_def)
  show "fifo_inv g" "fifo_ready g"
    using assms c fifo_drop_inv(1) [of f] by (auto simp: g_def fifo_ready_def)
  show "fifo_level g < fifo_cap g"
    using assms(1) c fifo_drop_level [of f] fifo_inv_wr(2) [of f] by (auto simp: g_def fifo_cap_def)
  show "fifo_contents g =
          (if fifo_level f = fifo_cap f then tl (fifo_contents f) else fifo_contents f)"
    using assms(1) c fifo_drop_inv(2) [of f] by (simp add: g_def)
qed

interpretation eq: error_fifo fifo_enq fifo_deq "\<lambda>f. snd (fifo_count f)" fifo_clear
  fifo_contents fifo_inv fifo_ready fifo_cap
proof (unfold_locales, goal_cases)
  case (1 q) then show ?case by (simp add: fifo_inv_wr(2))
next
  case (2 q) then show ?case by (simp add: fifo_cap_def fifo_inv_def)
next
  case (3 q x)
  then show ?case
    by (simp add: fifo_enq_def fifo_add_eq fifo_put_inv(1) [OF fifo_put_cong(1-3)] del: if_split)
next
  case (4 q x)
  then show ?case
    by (simp add: fifo_enq_def fifo_ops fifo_cap_def)
next
  case (5 q x)
  then show ?case
    by (simp add: fifo_enq_def fifo_add_eq fifo_put_inv(2) [OF fifo_put_cong(1-3)]
        fifo_put_cong(4) del: if_split)
next
  case (6 q)
  then have "fifo_level q = 0" using fifo_contents_length [of q] by simp
  with 6 show ?case
    using fifo_level_0_iff [of q] by (simp add: fifo_deq_def fifo_remove_empty)
next
  case (7 q)
  then have "0 < fifo_level q" by (metis fifo_contents_length length_greater_0_conv)
  with 7 show ?case
    by (simp add: fifo_deq_def fifo_remove_nonempty fifo_drop_inv fifo_cap_def)
next
  case (8 q) then show ?case by (simp add: fifo_count_eq)
next
  case (9 q)
  then show ?case
    by (auto simp: fifo_clear_def fifo_contents_def fifo_level_def fifo_inv_def fifo_cap_def)
qed


section \<open>Runs of queue operations\<close>

datatype fifo_op = Add int | Remove bool | Count

fun fifo_step :: "scpi_fifo \<Rightarrow> fifo_op \<Rightarrow> scpi_fifo" where
  "fifo_step f (Add v) = snd (fifo_add f v)"
| "fifo_step f (Remove want) = snd (snd (fifo_remove f want))"
| "fifo_step f Count = f"

definition fifo_run :: "scpi_fifo \<Rightarrow> fifo_op list \<Rightarrow> scpi_fifo" where
  "fifo_run f ops = foldl fifo_step f ops"

lemma fifo_run_snoc [simp]: "fifo_run f (ops @ [op]) = fifo_step (fifo_run f ops) op"
  by (simp add: fifo_run_def)

definition n_adds :: "fifo_op list \<Rightarrow> nat" where
  "n_adds ops = length (filter (\<lambda>op. \<exists>v. op = Add v) ops)"

lemma fifo_oob_step: "fifo_oob f \<Longrightarrow> fifo_oob (fifo_step f op)"
  by (cases op) (simp_all add: fifo_ops)

lemma fifo_data_step [simp]: "length (fifo_data (fifo_step f op)) = length (fifo_data f)"
  by (cases op) (simp_all add: fifo_ops)

lemma fifo_size_step [simp]: "fifo_size (fifo_step f op) = fifo_size f"
  by (cases op) (simp_all add: fifo_ops)

text \<open>Before the seventeenth add the indices have not wrapped, and the queue is not full.\<close>

definition fifo_young :: "nat \<Rightarrow> scpi_fifo \<Rightarrow> bool" where
  "fifo_young n f \<longleftrightarrow> fifo_size f = 16 \<and> length (fifo_data f) = 16 \<and> \<not> fifo_oob f \<and>
     fifo_wr f = int n \<and> 0 \<le> fifo_rd f \<and> fifo_rd f \<le> int n \<and> n \<le> 16"

lemma fifo_young_add:
  assumes "fifo_young n f"
  shows "n < 16 \<Longrightarrow> fifo_young (Suc n) (fifo_step f (Add v))"
    and "n = 16 \<Longrightarrow> fifo_oob (fifo_step f (Add v))"
proof -
  from assms have f: "fifo_size f = 16" "length (fifo_data f) = 16" "\<not> fifo_oob f"
    "fifo_wr f = int n" "0 \<le> fifo_rd f" "fifo_rd f \<le> int n" "n \<le> 16"
    by (simp_all add: fifo_young_def)
  have full: "(fifo_rd f + 16) mod 17 = (if fifo_rd f = 0 then 16 else fifo_rd f - 1)"
    using f(5-7) by (simp split: if_split) presburger
  show "n < 16 \<Longrightarrow> fifo_young (Suc n) (fifo_step f (Add v))"
    using f full by (auto simp: fifo_ops fifo_young_def)
  show "n = 16 \<Longrightarrow> fifo_oob (fifo_step f (Add v))"
    using f full by (auto simp: fifo_ops)
qed


lemma fifo_young_remove: "fifo_young n f \<Longrightarrow> fifo_young n (fifo_step f (Remove want))"
  by (cases "fifo_rd f = 16") (auto simp: fifo_ops fifo_young_def mod_pos_pos_trivial)

lemma fifo_young_init:
  "length (fifo_data f) = FIFO_SIZE \<Longrightarrow> \<not> fifo_oob f \<Longrightarrow> fifo_young 0 (fifo_init f)"
  by (simp add: fifo_young_def fifo_init_def FIFO_SIZE_def)

lemma fifo_young_run:
  assumes "fifo_young 0 f"
  shows "if n_adds ops \<le> 16 then fifo_young (n_adds ops) (fifo_run f ops)
         else fifo_oob (fifo_run f ops)"
proof (induction ops rule: rev_induct)
  case Nil
  then show ?case using assms by (simp add: fifo_run_def n_adds_def)
next
  case (snoc op ops)
  show ?case
  proof (cases op)
    case (Add v)
    then have "n_adds (ops @ [op]) = Suc (n_adds ops)" by (simp add: n_adds_def)
    then show ?thesis
      using snoc.IH fifo_young_add [of "n_adds ops" "fifo_run f ops" v]
        fifo_oob_step [of "fifo_run f ops" op] Add
      by (cases "n_adds ops = 16") (auto split: if_splits simp del: fifo_step.simps)
  next
    case (Remove want)
    then have "n_adds (ops @ [op]) = n_adds ops" by (simp add: n_adds_def)
    then show ?thesis
      using snoc.IH fifo_young_remove fifo_oob_step [of "fifo_run f ops" op] Remove
      by (auto split: if_splits simp del: fifo_step.simps)
  next
    case Count
    then have "n_adds (ops @ [op]) = n_adds ops" by (simp add: n_adds_def)
    then show ?thesis using snoc.IH Count by simp
  qed
qed

lemma fifo_young_inv: "fifo_young n f \<Longrightarrow> fifo_inv f"
  by (auto simp: fifo_young_def fifo_inv_def fifo_level_def fifo_slot_def mod_pos_pos_trivial)

text \<open>The queue the operations are meant to be: a list that keeps its newest \<open>c\<close> entries.\<close>

fun queue_step :: "nat \<Rightarrow> int list \<Rightarrow> fifo_op \<Rightarrow> int list" where
  "queue_step c q (Add v) = newest c (q @ [v])"
| "queue_step c q (Remove want) = tl q"
| "queue_step c q Count = q"

lemma fifo_step_refines:
  assumes "fifo_inv f" and "\<And>v. op = Add v \<Longrightarrow> fifo_ready f"
  shows "fifo_contents (fifo_step f op) = queue_step (fifo_cap f) (fifo_contents f) op \<and>
         fifo_inv (fifo_step f op)"
proof (cases op)
  case (Add v)
  then show ?thesis
    using assms eq.enq_newest [of f v] eq.enq_inv [of f v] by (simp add: fifo_enq_def)
next
  case (Remove want)
  show ?thesis
  proof (cases "fifo_level f = 0")
    case True
    moreover have "fifo_contents f = []" using True by (simp add: fifo_contents_def)
    ultimately show ?thesis
      using assms(1) Remove fifo_level_0_iff [of f] by (simp add: fifo_remove_empty)
  next
    case False
    then show ?thesis
      using assms(1) Remove fifo_remove_nonempty [of f] fifo_drop_inv [of f] by (cases want) auto
  qed
next
  case Count
  then show ?thesis using assms by simp
qed

lemma fifo_run_refines_if:
  assumes "fifo_inv f"
    and "\<And>xs v ys. ops = xs @ Add v # ys \<Longrightarrow> fifo_ready (fifo_run f xs)"
  shows "fifo_contents (fifo_run f ops) =
           foldl (queue_step (fifo_cap f)) (fifo_contents f) ops \<and>
         fifo_inv (fifo_run f ops) \<and> fifo_cap (fifo_run f ops) = fifo_cap f"
  using assms
proof (induction ops rule: rev_induct)
  case Nil
  then show ?case by (simp add: fifo_run_def)
next
  case (snoc op ops)
  have IH: "fifo_contents (fifo_run f ops) = foldl (queue_step (fifo_cap f)) (fifo_contents f) ops"
    "fifo_inv (fifo_run f ops)" "fifo_cap (fifo_run f ops) = fifo_cap f"
    using snoc by auto
  have r: "fifo_ready (fifo_run f ops)" if "op = Add v" for v
    using snoc.prems(2) [of ops v "[]"] that by simp
  show ?case
    using fifo_step_refines [OF IH(2), of op] r IH by (auto simp: fifo_cap_def)
qed

section \<open>Properties\<close>

text \<open>Adding to a queue keeps the newest entries.  As long as the write index lies inside
  the array, \<^verbatim>\<open>fifo_add\<close> appends the value and, when the queue holds \<^verbatim>\<open>size\<close> entries already,
  drops exactly the oldest one; the ring buffer stays well formed.\<close>

theorem fifo_add_keeps_newest:
  assumes "fifo_inv f" "fifo_ready f"
  shows "fifo_contents (snd (fifo_add f v)) = newest (fifo_cap f) (fifo_contents f @ [v]) \<and>
         fifo_inv (snd (fifo_add f v))"
  using assms eq.enq_newest [of f v] eq.enq_inv [of f v] by (simp add: fifo_enq_def)

definition fifo_example :: scpi_fifo where
  "fifo_example = \<lparr>fifo_wr = 0, fifo_rd = 1, fifo_size = 2, fifo_data = [7, 8, 9], fifo_oob = False\<rparr>"

lemma fifo_add_keeps_newest_witness:
  "fifo_contents fifo_example = [8, 9] \<and>
   fifo_contents (snd (fifo_add fifo_example 5)) = [9, 5]"
proof -
  have l: "fifo_level fifo_example = 2"
    by (simp add: fifo_level_def fifo_example_def)
  have c: "fifo_contents fifo_example = [8, 9]"
    by (simp add: fifo_contents_def l upt_rec fifo_slot_def)
       (simp add: fifo_example_def)
  have "fifo_slot fifo_example 0 = 1" "fifo_slot fifo_example 1 = 2"
    by (simp_all add: fifo_slot_def fifo_example_def)
  then have "fifo_inv fifo_example"
    unfolding fifo_inv_def l by (auto simp: fifo_example_def less_2_cases_iff)
  moreover have "fifo_ready fifo_example" by (simp add: fifo_ready_def fifo_example_def)
  ultimately show ?thesis
    using fifo_add_keeps_newest [of fifo_example 5] c by (simp add: newest_def fifo_cap_def)
       (simp add: fifo_example_def)
qed

text \<open>C19: The error queue's array is one entry too short for its index arithmetic.  Starting
  from \<^verbatim>\<open>fifo_init\<close> with the declared array of \<^verbatim>\<open>FIFO_SIZE\<close> entries, any sequence of adds, removes
  and counts writes outside \<^verbatim>\<open>data[]\<close> exactly when it contains more than \<^verbatim>\<open>FIFO_SIZE\<close> adds, however
  many entries are removed in between.\<close>

theorem fifo_overruns_array:
  assumes "length (fifo_data f) = FIFO_SIZE" "\<not> fifo_oob f"
  shows "fifo_oob (fifo_run (fifo_init f) ops) \<longleftrightarrow> FIFO_SIZE < n_adds ops"
  using fifo_young_run [OF fifo_young_init [OF assms], of ops]
  by (auto simp: FIFO_SIZE_def fifo_young_def split: if_splits)

definition fifo_zero :: scpi_fifo where
  "fifo_zero = \<lparr>fifo_wr = 0, fifo_rd = 0, fifo_size = 0, fifo_data = replicate FIFO_SIZE 0,
                fifo_oob = False\<rparr>"

lemma fifo_overruns_array_witness:
  "fifo_oob (fifo_run (fifo_init fifo_zero) (concat (replicate 17 [Add (-113), Remove True])))"
  using fifo_overruns_array [of fifo_zero "concat (replicate 17 [Add (-113), Remove True])"]
  by (simp add: fifo_zero_def FIFO_SIZE_def n_adds_def numeral_eq_Suc)

text \<open>With one entry more than the index arithmetic's size the write index is always inside the array.\<close>

lemma fifo_long_run:
  assumes "fifo_inv f" "fifo_size f < int (length (fifo_data f))"
  shows "fifo_inv (fifo_run f ops) \<and> fifo_ready (fifo_run f ops)"
proof (induction ops rule: rev_induct)
  case Nil
  then show ?case using assms by (simp add: fifo_run_def fifo_inv_def fifo_ready_def)
next
  case (snoc op ops)
  have l: "length (fifo_data (fifo_run f ops)) = length (fifo_data f)" "fifo_size (fifo_run f ops) = fifo_size f"
    by (induction ops rule: rev_induct) (simp_all add: fifo_run_def)
  have i: "fifo_inv (fifo_step (fifo_run f ops) op)" using fifo_step_refines [of "fifo_run f ops" op] snoc.IH by simp
  then have "fifo_ready (fifo_step (fifo_run f ops) op)"
    using assms(2) l by (simp add: fifo_ready_def fifo_inv_def)
  with i show ?case by simp
qed

text \<open>C28: The ring buffer is a bounded queue wherever its array is long enough: for every sequence of operations
  after \<^verbatim>\<open>fifo_init\<close>, of any length, if the array has more than \<^verbatim>\<open>FIFO_SIZE\<close> entries, and up to the
  sixteenth add with the \<^verbatim>\<open>FIFO_SIZE\<close> entries it is declared with.  Its contents are those of a list
  that appends at its end, takes its head away, and drops its oldest entry when it would hold more than
  \<^verbatim>\<open>FIFO_SIZE\<close>; a removal returns the head, and the count is the length; nothing outside the array is
  accessed.\<close>

theorem fifo_run_refines:
  assumes "\<not> fifo_oob f"
    and "FIFO_SIZE < length (fifo_data f) \<or> length (fifo_data f) = FIFO_SIZE \<and> n_adds ops \<le> FIFO_SIZE"
  defines "q \<equiv> foldl (queue_step FIFO_SIZE) [] ops" and "g \<equiv> fifo_run (fifo_init f) ops"
  shows "fifo_contents g = q \<and> \<not> fifo_oob g \<and> snd (fifo_count g) = int (length q) \<and>
    fst (snd (fifo_remove g True)) = (case q of [] \<Rightarrow> None | x # _ \<Rightarrow> Some x)"
proof -
  have inv: "fifo_inv (fifo_init f)"
    using assms(1) by (simp add: fifo_inv_def fifo_init_def fifo_level_def FIFO_SIZE_def)
  have "fifo_ready (fifo_run (fifo_init f) xs)" if "ops = xs @ Add v # ys" for xs v ys
  proof (cases "FIFO_SIZE < length (fifo_data f)")
    case True
    then show ?thesis using fifo_long_run [OF inv, of xs] by (simp add: fifo_init_def)
  next
    case False
    then have f: "length (fifo_data f) = FIFO_SIZE" "n_adds ops \<le> FIFO_SIZE" using assms(2) by auto
    have y: "fifo_young 0 (fifo_init f)" by (rule fifo_young_init [OF f(1) assms(1)])
    have "n_adds xs < 16" using f(2) that by (simp add: n_adds_def FIFO_SIZE_def)
    then show ?thesis
      using fifo_young_run [OF y, of xs] by (auto simp: fifo_ready_def fifo_young_def)
  qed
  with fifo_run_refines_if [OF inv, of ops]
  have g: "fifo_contents g = q" "fifo_inv g"
    by (simp_all add: fifo_init_def fifo_cap_def FIFO_SIZE_def fifo_contents_def fifo_level_def g_def q_def)
  then show ?thesis
    using eq.cnt_contents [OF g(2)] eq.deq_value [OF g(2)] by (simp add: fifo_inv_def fifo_deq_def)
qed

text \<open>Eighteen adds to an array of seventeen entries, and the two oldest are gone.\<close>

lemma fifo_run_refines_witness:
  "fifo_contents (fifo_run (fifo_init (fifo_zero\<lparr>fifo_data := replicate 17 0\<rparr>)) (map (\<lambda>k. Add (int k)) [0..<18])) =
     map int [2..<18] \<and>
   fifo_contents (fifo_run (fifo_init fifo_zero) [Add 1, Add 2, Remove False, Add 3]) = [2, 3]"
  using fifo_run_refines [of "fifo_zero\<lparr>fifo_data := replicate 17 0\<rparr>" "map (\<lambda>k. Add (int k)) [0..<18]"]
    fifo_run_refines [of fifo_zero "[Add 1, Add 2, Remove False, Add 3]"]
  by (simp add: fifo_zero_def FIFO_SIZE_def n_adds_def newest_def upt_rec)

end
