(* ===== verification/Context.thy ===== *)
theory Context
  imports Fifo
begin

text \<open>
  The data of the SCPI library: the enums and structs of \<^verbatim>\<open>Utilities/Scpi/Inc/types.h\<close>.

  A command callback and the interface's functions take the whole \<^verbatim>\<open>scpi_t\<close> and change it, so
  the command list, the unit list and the interface, constant pointers in \<^verbatim>\<open>scpi_t\<close>, are separate
  arguments of the operations that use them; everything that changes is a field of \<open>scpi_t\<close>.
  What the device behind the callbacks keeps is the polymorphic \<open>user_context\<close>.

  The text that is parsed lies in one block, the data of the context's input buffer; \<^verbatim>\<open>char *\<close>
  fields are offsets into it.
\<close>

section \<open>Enumerations\<close>

datatype scpi_reg_name =
  SCPI_REG_STB | SCPI_REG_SRE | SCPI_REG_ESR | SCPI_REG_ESE | SCPI_REG_OPER | SCPI_REG_OPERE |
  SCPI_REG_QUES | SCPI_REG_QUESE | SCPI_REG_COUNT

datatype scpi_ctrl_name =
  SCPI_CTRL_SRQ | SCPI_CTRL_GTL | SCPI_CTRL_SDC | SCPI_CTRL_PPC | SCPI_CTRL_GET | SCPI_CTRL_TCT |
  SCPI_CTRL_LLO | SCPI_CTRL_DCL | SCPI_CTRL_PPU | SCPI_CTRL_SPE | SCPI_CTRL_SPD | SCPI_CTRL_MLA |
  SCPI_CTRL_UNL | SCPI_CTRL_MTA | SCPI_CTRL_UNT | SCPI_CTRL_MSA

datatype scpi_result = SCPI_RES_OK | SCPI_RES_ERR

datatype scpi_token_type =
  SCPI_TOKEN_COMMA | SCPI_TOKEN_SEMICOLON | SCPI_TOKEN_COLON | SCPI_TOKEN_SPECIFIC_CHARACTER |
  SCPI_TOKEN_QUESTION | SCPI_TOKEN_NL | SCPI_TOKEN_HEXNUM | SCPI_TOKEN_OCTNUM |
  SCPI_TOKEN_BINNUM | SCPI_TOKEN_PROGRAM_MNEMONIC | SCPI_TOKEN_DECIMAL_NUMERIC_PROGRAM_DATA |
  SCPI_TOKEN_DECIMAL_NUMERIC_PROGRAM_DATA_WITH_SUFFIX | SCPI_TOKEN_SUFFIX_PROGRAM_DATA |
  SCPI_TOKEN_ARBITRARY_BLOCK_PROGRAM_DATA | SCPI_TOKEN_SINGLE_QUOTE_PROGRAM_DATA |
  SCPI_TOKEN_DOUBLE_QUOTE_PROGRAM_DATA | SCPI_TOKEN_PROGRAM_EXPRESSION |
  SCPI_TOKEN_COMPOUND_PROGRAM_HEADER | SCPI_TOKEN_INCOMPLETE_COMPOUND_PROGRAM_HEADER |
  SCPI_TOKEN_COMMON_PROGRAM_HEADER | SCPI_TOKEN_INCOMPLETE_COMMON_PROGRAM_HEADER |
  SCPI_TOKEN_COMPOUND_QUERY_PROGRAM_HEADER | SCPI_TOKEN_COMMON_QUERY_PROGRAM_HEADER |
  SCPI_TOKEN_WS | SCPI_TOKEN_ALL_PROGRAM_DATA | SCPI_TOKEN_INVALID | SCPI_TOKEN_UNKNOWN

datatype message_termination =
  SCPI_MESSAGE_TERMINATION_NONE | SCPI_MESSAGE_TERMINATION_NL |
  SCPI_MESSAGE_TERMINATION_SEMICOLON

datatype scpi_unit =
  SCPI_UNIT_NONE | SCPI_UNIT_VOLT | SCPI_UNIT_AMPER | SCPI_UNIT_OHM | SCPI_UNIT_HERTZ |
  SCPI_UNIT_CELSIUS | SCPI_UNIT_SECONDS | SCPI_UNIT_DISTANCE

datatype scpi_special_number =
  SCPI_NUM_NUMBER | SCPI_NUM_MIN | SCPI_NUM_MAX | SCPI_NUM_DEF | SCPI_NUM_UP | SCPI_NUM_DOWN |
  SCPI_NUM_NAN | SCPI_NUM_INF | SCPI_NUM_NINF | SCPI_NUM_AUTO

section \<open>Lexer and parser state\<close>

record scpi_token =
  tk_type :: scpi_token_type
  tk_ptr :: "nat option"
  tk_len :: int

record lex_state =
  lx_buffer :: nat
  lx_pos :: nat
  lx_len :: int

record scpi_parser_state =
  programHeader :: scpi_token
  programData :: scpi_token
  numberOfParameters :: int
  termination_kind :: message_termination

text \<open>The parameter list of the command being executed: \<open>pl_cmd\<close> is the index of the command in
  the command list, the other fields are the lexer state of its parameters and the raw header.\<close>

record scpi_param_list =
  pl_cmd :: "nat option"
  pl_lex :: lex_state
  pl_raw_data :: "nat option"
  pl_raw_position :: nat
  pl_raw_length :: nat

section \<open>The context\<close>

text \<open>
  \<open>error_queue\<close> is a pointer: \<open>None\<close> is NULL, and \<open>Some q\<close> the queue it points to.  The functions of
  the queue have no way to fail, so an access through NULL, which is undefined in C, is recorded in
  the ghost field \<open>null_used\<close>; once it is set nothing is claimed of the run.
\<close>

record 'u scpi_t =
  buf_length :: nat
  buf_position :: nat
  buf_data :: mem
  param_list :: scpi_param_list
  output_count :: int
  input_count :: int
  cmd_error :: bool
  error_queue :: "scpi_fifo option"
  registers :: "(scpi_reg_name \<Rightarrow> u16) option"
  user_context :: 'u
  parser_state :: scpi_parser_state
  idn :: "char list option list"
  null_used :: bool

text \<open>A call through the interface; a NULL function pointer is \<open>None\<close>.\<close>

record 'u scpi_interface =
  if_error :: "('u scpi_t \<Rightarrow> int \<Rightarrow> int \<times> 'u scpi_t) option"
  if_write :: "('u scpi_t \<Rightarrow> char list \<Rightarrow> nat \<times> 'u scpi_t) option"
  if_control :: "('u scpi_t \<Rightarrow> scpi_ctrl_name \<Rightarrow> u16 \<Rightarrow> scpi_result \<times> 'u scpi_t) option"
  if_flush :: "('u scpi_t \<Rightarrow> scpi_result \<times> 'u scpi_t) option"
  if_reset :: "('u scpi_t \<Rightarrow> scpi_result \<times> 'u scpi_t) option"

text \<open>A command of the list; its callback may fail to come back (\<open>None\<close>).\<close>

type_synonym 'u scpi_callback = "'u scpi_t \<Rightarrow> (scpi_result \<times> 'u scpi_t) option"

record 'u scpi_command =
  cmd_pattern :: "char list"
  cmd_callback :: "'u scpi_callback option"
  cmd_tag :: int

text \<open>
  The default tokens and the addresses of nullable pointers.  A pointer difference against NULL is
  the absolute address, which the model takes from offset 0 of the block.
\<close>

definition addr :: "nat option \<Rightarrow> nat" where
  "addr p = (case p of None \<Rightarrow> 0 | Some a \<Rightarrow> a)"

lemma addr_simps [simp]: "addr None = 0" "addr (Some a) = a"
  by (simp_all add: addr_def)

text \<open>A signed 16-bit counter: the conversion of an \<^verbatim>\<open>int\<close> to \<^verbatim>\<open>INT16\<close> wraps around.\<close>

definition int16 :: "int \<Rightarrow> int" where
  "int16 x = (x + 32768) mod 65536 - 32768"

lemma int16_id [simp]: "- 32768 \<le> x \<Longrightarrow> x < 32768 \<Longrightarrow> int16 x = x"
  by (simp add: int16_def mod_pos_pos_trivial)

lemma int16_bounds: "- 32768 \<le> int16 x" "int16 x < 32768"
  using pos_mod_bound [of 65536 "x + 32768"] by (simp_all add: int16_def)

section \<open>What a callback may change\<close>

text \<open>
  The device's functions behind the interface keep their own state in \<open>user_context\<close> and leave the
  library's fields alone: the contract every module below relies on, stated once as a locale.
\<close>

definition keeps_library :: "'u scpi_t \<Rightarrow> 'u scpi_t \<Rightarrow> bool" where
  "keeps_library c d \<longleftrightarrow> d = c\<lparr>user_context := user_context d\<rparr>"

lemma keeps_library_refl [simp, intro]: "keeps_library c c"
  by (simp add: keeps_library_def)

lemma keeps_library_trans: "keeps_library a b \<Longrightarrow> keeps_library b c \<Longrightarrow> keeps_library a c"
  unfolding keeps_library_def
  by (metis (no_types, lifting) scpi_t.surjective scpi_t.update_convs(10))

lemma keeps_library_fields:
  assumes "keeps_library c d"
  shows "buf_length d = buf_length c" "buf_position d = buf_position c" "buf_data d = buf_data c"
    "param_list d = param_list c" "output_count d = output_count c"
    "input_count d = input_count c" "cmd_error d = cmd_error c" "error_queue d = error_queue c"
    "registers d = registers c" "parser_state d = parser_state c" "idn d = idn c"
    "null_used d = null_used c"
  by (subst assms [unfolded keeps_library_def], simp)+

lemma keeps_library_user [simp]: "keeps_library c (c\<lparr>user_context := u\<rparr>)"
  by (simp add: keeps_library_def)

locale scpi_port =
  fixes ifc :: "'u scpi_interface"
  assumes error_keeps: "if_error ifc = Some f \<Longrightarrow> keeps_library c (snd (f c e))"
    and write_keeps: "if_write ifc = Some g \<Longrightarrow> keeps_library c (snd (g c data))"
    and control_keeps: "if_control ifc = Some h \<Longrightarrow> keeps_library c (snd (h c ctrl v))"
    and flush_keeps: "if_flush ifc = Some k \<Longrightarrow> keeps_library c (snd (k c))"
    and reset_keeps: "if_reset ifc = Some k \<Longrightarrow> keeps_library c (snd (k c))"
begin

lemma control_fields:
  assumes "if_control ifc = Some h"
  shows "registers (snd (h c ctrl v)) = registers c"
    "error_queue (snd (h c ctrl v)) = error_queue c"
    "cmd_error (snd (h c ctrl v)) = cmd_error c" "null_used (snd (h c ctrl v)) = null_used c"
  using keeps_library_fields [OF control_keeps [OF assms]] by simp_all

lemma error_fields:
  assumes "if_error ifc = Some f"
  shows "registers (snd (f c e)) = registers c" "error_queue (snd (f c e)) = error_queue c"
    "cmd_error (snd (f c e)) = cmd_error c" "null_used (snd (f c e)) = null_used c"
  using keeps_library_fields [OF error_keeps [OF assms]] by simp_all

end

end
