(* ===== verification/Match.thy ===== *)
theory Match
  imports Convert Context
begin

text \<open>
  Command patterns: \<^verbatim>\<open>Utilities/Scpi/Src/utils.c\<close> lines 51 to 95 and 384 to 754.  A pattern such as
  \<^verbatim>\<open>[:MEASure]:VOLTage#:DC?\<close> is a C string with its capital letters as the short form, optional parts
  in brackets and numeric suffixes at \<^verbatim>\<open>#\<close>; a command is a piece of the input buffer.

  The pattern is read through \<open>rdz\<close>, so that a read outside the pattern string (before it, or beyond
  its NUL) gives the result \<open>None\<close>; the theorems show which patterns are safe.
\<close>

section \<open>C string helpers\<close>

text \<open>\<open>strnpbrk s n set\<close>: the position of the first character of \<open>set\<close> in the first \<open>n\<close> characters of the
  C string \<open>s\<close> (up to its NUL), as the pointer difference to \<open>s\<close>.\<close>

fun strnpbrk :: "char list \<Rightarrow> nat \<Rightarrow> char list \<Rightarrow> nat option" where
  "strnpbrk str 0 cset = None"
| "strnpbrk [] (Suc n) cset = None"
| "strnpbrk (c # str) (Suc n) cset =
     (if c = NUL then None
      else if c \<in> set cset then Some 0
      else map_option Suc (strnpbrk str n cset))"

fun strnlen :: "char list \<Rightarrow> nat \<Rightarrow> nat" where
  "strnlen [] n = 0"
| "strnlen (c # s) 0 = 0"
| "strnlen (c # s) (Suc n) = (if c = NUL then 0 else Suc (strnlen s n))"

fun BSD_strnlen :: "char list \<Rightarrow> nat \<Rightarrow> nat" where
  "BSD_strnlen s 0 = 0"
| "BSD_strnlen [] (Suc n) = 0"
| "BSD_strnlen (c # s) (Suc n) = (if c = NUL then 0 else Suc (BSD_strnlen s n))"

text \<open>\<^verbatim>\<open>strncasecmp\<close> of the C library, as the test for equality the callers make; the text of
  \<open>OUR_strncasecmp\<close> is the fall-back of \<^verbatim>\<open>utils.c\<close> for systems without one.\<close>

fun strncaseeq :: "char list \<Rightarrow> char list \<Rightarrow> nat \<Rightarrow> bool" where
  "strncaseeq s1 s2 0 = True"
| "strncaseeq s1 s2 (Suc n) =
     (tolower (hd0 s1) = tolower (hd0 s2) \<and>
      (hd0 s1 = NUL \<or> strncaseeq (tl s1) (tl s2) n))"

fun OUR_strncasecmp :: "char list \<Rightarrow> char list \<Rightarrow> nat \<Rightarrow> int" where
  "OUR_strncasecmp s1 s2 0 = 0"
| "OUR_strncasecmp s1 s2 (Suc n) =
     (let c1 = tolower (hd0 s1); c2 = tolower (hd0 s2)
      in if c1 \<noteq> c2 then int (code c1) - int (code c2)
         else if c1 = NUL then 0
         else OUR_strncasecmp (tl s1) (tl s2) n)"

section \<open>Comparing keywords\<close>

definition compareStr :: "char list \<Rightarrow> nat \<Rightarrow> char list \<Rightarrow> nat \<Rightarrow> bool" where
  "compareStr str1 len1 str2 len2 =
     (if len1 \<noteq> len2 then False else strncaseeq str1 str2 len2)"

text \<open>\<open>compareStrAndNum\<close> returns the result and the number to store: \<open>num\<close> says whether the caller's
  pointer is not NULL.\<close>

definition compareStrAndNum ::
  "char list \<Rightarrow> nat \<Rightarrow> char list \<Rightarrow> nat \<Rightarrow> bool \<Rightarrow> bool \<times> int option" where
  "compareStrAndNum str1 len1 str2 len2 num =
     (if len2 < len1 then (False, None)
      else if strncaseeq str1 str2 len1 then
        if num then
          if len1 = len2 then (True, None)
          else let (used, tmpNum) = strBaseToInt32 (drop len1 str2) 10
               in if len1 + used \<noteq> len2 then (False, None) else (True, Some tmpNum)
        else ((\<forall>i \<in> set [len1 ..< len2]. isdigit (rd str2 i)), None)
      else (False, None))"

definition skipWhitespace :: "char list \<Rightarrow> nat \<Rightarrow> nat" where
  "skipWhitespace cmd len = length (takeWhile (\<lambda>i. isspace (rd cmd i)) [0..<len])"

fun patternSeparatorShortPos :: "char list \<Rightarrow> nat \<Rightarrow> nat" where
  "patternSeparatorShortPos pattern 0 = 0"
| "patternSeparatorShortPos [] (Suc n) = 0"
| "patternSeparatorShortPos (c # pattern) (Suc n) =
     (if c = NUL \<or> islower c then 0 else Suc (patternSeparatorShortPos pattern n))"

definition patternSeparatorPos :: "char list \<Rightarrow> nat \<Rightarrow> nat" where
  "patternSeparatorPos pattern len =
     (case strnpbrk pattern len ''?:[]'' of None \<Rightarrow> len | Some p \<Rightarrow> p)"

definition cmdSeparatorPos :: "char list \<Rightarrow> nat \<Rightarrow> nat" where
  "cmdSeparatorPos cmd len = (case strnpbrk cmd len '':?'' of None \<Rightarrow> len | Some p \<Rightarrow> p)"

text \<open>A match of one keyword; the number is the last one stored (a failing first comparison of the
  disjunction stores nothing).\<close>

definition matchPattern ::
  "char list \<Rightarrow> nat \<Rightarrow> char list \<Rightarrow> nat \<Rightarrow> bool \<Rightarrow> bool \<times> int option" where
  "matchPattern pattern pattern_len str str_len num =
     (if 0 < pattern_len \<and> rd pattern (pattern_len - 1) = CHR ''#'' then
        let new_pattern_len = pattern_len - 1;
            short = patternSeparatorShortPos pattern new_pattern_len;
            (r, n) = compareStrAndNum pattern new_pattern_len str str_len num
        in if r then (r, n) else compareStrAndNum pattern short str str_len num
      else
        let short = patternSeparatorShortPos pattern pattern_len
        in (compareStr pattern pattern_len str str_len \<or> compareStr pattern short str str_len, None))"

section \<open>Matching a command\<close>

text \<open>
  \<^verbatim>\<open>patternSeparatorPos(pattern_ptr, pattern_len)\<close> for a pointer \<open>pp\<close> into the pattern: \<open>None\<close> when the
  pointer is outside the string.  The \<^verbatim>\<open>int\<close> length is passed as a \<^verbatim>\<open>UINT32\<close>, and comes back as
  the same \<^verbatim>\<open>int\<close> when no separator is found.
\<close>

definition sepPos :: "char list \<Rightarrow> int \<Rightarrow> int \<Rightarrow> int option" where
  "sepPos pattern pp plen =
     (if pp < 0 \<or> int (length pattern) < pp then None
      else Some (case strnpbrk (drop (nat pp) pattern) (nat (plen mod 2 ^ 32)) ''?:[]'' of
                   None \<Rightarrow> plen
                 | Some p \<Rightarrow> int p))"

text \<open>The loop over the rest of the pattern once the command is complete (lines 629 to 649).\<close>

partial_function (option) skipOptional ::
  "char list \<Rightarrow> int \<Rightarrow> int \<Rightarrow> int \<Rightarrow> (int \<times> int \<times> int) option" where
  "skipOptional pattern pp plen brackets =
     (if plen = 0 then Some (pp, plen, brackets)
      else do {
        sep \<leftarrow> sepPos pattern pp plen;
        c \<leftarrow> rdz pattern (pp + sep);
        let brackets = (if c = CHR ''['' then brackets + 1
                        else if c = CHR '']'' then brackets - 1 else brackets);
        let pp = pp + (sep + 1);
        let plen = plen - (sep + 1);
        if brackets = 0
        then (if 0 < plen \<and> rdz pattern pp = Some (CHR ''['')
              then skipOptional pattern pp plen brackets
              else Some (pp, plen, brackets))
        else skipOptional pattern pp plen brackets
      })"

record match_state =
  ms_pp :: int
  ms_plen :: int
  ms_cp :: nat
  ms_clen :: nat
  ms_brackets :: int
  ms_nidx :: nat
  ms_numbers :: "int list option"

text \<open>\<^verbatim>\<open>SKIP_PATTERN(n)\<close> and \<^verbatim>\<open>SKIP_CMD(n)\<close>\<close>

definition SKIP_PATTERN :: "int \<Rightarrow> match_state \<Rightarrow> match_state" where
  "SKIP_PATTERN n st = st\<lparr>ms_pp := ms_pp st + n, ms_plen := ms_plen st - n\<rparr>"

definition SKIP_CMD :: "nat \<Rightarrow> match_state \<Rightarrow> match_state" where
  "SKIP_CMD n st = st\<lparr>ms_cp := ms_cp st + n, ms_clen := ms_clen st - n\<rparr>"

definition store_number :: "bool \<Rightarrow> nat \<Rightarrow> int \<Rightarrow> match_state \<Rightarrow> match_state" where
  "store_number ptr i v st =
     (if ptr then st\<lparr>ms_numbers := map_option (\<lambda>ns. ns[i := v]) (ms_numbers st)\<rparr> else st)"

text \<open>The branches of a round after a match and after a mismatch of a keyword; \<open>pat k c\<close> stands for
  \<^verbatim>\<open>pattern_ptr[k] == c\<close>, and \<open>Inl\<close> is the state for the next round, \<open>Inr\<close> the result.\<close>

definition after_match ::
  "char list \<Rightarrow> char list \<Rightarrow> match_state \<Rightarrow> (match_state + bool \<times> int list option) option" where
  "after_match pattern cmd st =
     (let pat = (\<lambda>k c. rdz pattern (ms_pp st + k) = Some c);
          c0 = rd cmd (ms_cp st)
      in if ms_plen st = 0 \<and> ms_clen st = 0 then Some (Inr (True, ms_numbers st))
         else if ms_plen st = 0 \<and> 0 < ms_clen st then Some (Inr (False, ms_numbers st))
         else if ms_clen st = 0 then do {
           (pp, plen, brackets) \<leftarrow> skipOptional pattern (ms_pp st) (ms_plen st) (ms_brackets st);
           Some (Inr (plen = 0, ms_numbers st))
         }
         else if 0 < ms_plen st \<and> pat 0 c0 \<and> pat 0 (CHR '':'') then
           Some (Inl (SKIP_CMD 1 (SKIP_PATTERN 1 st)))
         else if 1 < ms_plen st \<and> pat 1 c0 \<and> pat 0 (CHR ''['') \<and> pat 1 (CHR '':'') then
           Some (Inl ((SKIP_CMD 1 (SKIP_PATTERN 2 st))\<lparr>ms_brackets := ms_brackets st + 1\<rparr>))
         else if 1 < ms_plen st \<and> pat 1 c0 \<and> pat 0 (CHR '']'') \<and> pat 1 (CHR '':'') then
           Some (Inl ((SKIP_CMD 1 (SKIP_PATTERN 2 st))\<lparr>ms_brackets := ms_brackets st - 1\<rparr>))
         else if 2 < ms_plen st \<and> pat 2 c0 \<and> pat 0 (CHR '']'') \<and> pat 1 (CHR ''['') \<and> pat 2 (CHR '':'') then
           Some (Inl (SKIP_CMD 1 (SKIP_PATTERN 3 st)))
         else Some (Inr (False, ms_numbers st)))"

definition after_mismatch ::
  "char list \<Rightarrow> match_state \<Rightarrow> (match_state + bool \<times> int list option) option" where
  "after_mismatch pattern st =
     (let pat = (\<lambda>k c. rdz pattern (ms_pp st + k) = Some c)
      in if pat 0 (CHR '']'') \<and> pat 1 (CHR '':'') then
           Some (Inl ((SKIP_PATTERN 2 st)\<lparr>ms_brackets := ms_brackets st - 1\<rparr>))
         else if 2 < ms_plen st \<and> pat 0 (CHR '']'') \<and> pat 1 (CHR ''['') \<and> pat 2 (CHR '':'') then
           Some (Inl (SKIP_PATTERN 3 st))
         else Some (Inr (False, ms_numbers st)))"

text \<open>
  One round of the \<^verbatim>\<open>while (1)\<close> loop: \<open>Inl\<close> the state for the next round, or \<open>Inr\<close> the result.
  The round is only entered with its part of the pattern inside the string.
\<close>

definition matchRound ::
  "char list \<Rightarrow> char list \<Rightarrow> nat \<Rightarrow> int \<Rightarrow> match_state \<Rightarrow>
     (match_state + bool \<times> int list option) option" where
  "matchRound pattern cmd numbers_len default_value st =
     (if int (length pattern) < ms_pp st + ms_plen st then None
      else do {
        sep \<leftarrow> sepPos pattern (ms_pp st) (ms_plen st);
        let csep = cmdSeparatorPos (drop (ms_cp st) cmd) (ms_clen st);
        let hash = (0 < sep \<and> rdz pattern (ms_pp st + sep - 1) = Some (CHR ''#''));
        let ptr = (hash \<and> ms_numbers st \<noteq> None \<and> ms_nidx st < numbers_len);
        let idx = ms_nidx st;
        let st = store_number ptr idx default_value st;
        let st = (if hash then st\<lparr>ms_nidx := idx + 1\<rparr> else st);
        let (found, num) = matchPattern (drop (nat (ms_pp st)) pattern) (nat sep)
                             (drop (ms_cp st) cmd) csep ptr;
        let st = (case num of None \<Rightarrow> st | Some n \<Rightarrow> store_number ptr idx n st);
        if found then after_match pattern cmd (SKIP_CMD csep (SKIP_PATTERN sep st))
        else after_mismatch pattern (SKIP_PATTERN sep st)
      })"

partial_function (option) matchRounds ::
  "char list \<Rightarrow> char list \<Rightarrow> nat \<Rightarrow> int \<Rightarrow> match_state \<Rightarrow> (bool \<times> int list option) option" where
  "matchRounds pattern cmd numbers_len default_value st = do {
     r \<leftarrow> matchRound pattern cmd numbers_len default_value st;
     case r of
       Inl st \<Rightarrow> matchRounds pattern cmd numbers_len default_value st
     | Inr result \<Rightarrow> Some result
   }"

definition matchCommand ::
  "char list \<Rightarrow> char list \<Rightarrow> nat \<Rightarrow> int list option \<Rightarrow> nat \<Rightarrow> int \<Rightarrow>
     (bool \<times> int list option) option" where
  "matchCommand pattern cmd len numbers numbers_len default_value = do {
     let pattern_len = int (length pattern);
     let cmd_len = BSD_strnlen cmd len;
     last \<leftarrow> rdz pattern (pattern_len - 1);
     if last = CHR ''?'' \<and> cmd_len = 0 then None
     else if last = CHR ''?'' \<and> rd cmd (cmd_len - 1) \<noteq> CHR ''?'' then Some (False, numbers)
     else do {
       let query = (last = CHR ''?'');
       let st = \<lparr>ms_pp = 0, ms_plen = (if query then pattern_len - 1 else pattern_len), ms_cp = 0,
                 ms_clen = (if query then cmd_len - 1 else cmd_len), ms_brackets = 0, ms_nidx = 0,
                 ms_numbers = numbers\<rparr>;
       p0 \<leftarrow> rdz pattern (ms_pp st);
       let st = (if p0 = CHR ''['' then (SKIP_PATTERN 1 st)\<lparr>ms_brackets := 1\<rparr> else st);
       p0 \<leftarrow> rdz pattern (ms_pp st);
       let st = (if p0 = CHR '':'' then SKIP_PATTERN 1 st else st);
       if rd cmd 0 = CHR '':'' \<and> 2 \<le> ms_clen st \<and> rd cmd 1 = CHR ''*'' then Some (False, numbers)
       else
         matchRounds pattern cmd numbers_len default_value
           (if rd cmd 0 = CHR '':'' \<and> 2 \<le> ms_clen st then SKIP_CMD 1 st else st)
     }
   }"

section \<open>Compound commands\<close>

definition memmove :: "mem \<Rightarrow> nat \<Rightarrow> nat \<Rightarrow> nat \<Rightarrow> mem" where
  "memmove m dst src n = take dst m @ take n (drop src m) @ drop (dst + n) m"

text \<open>\<^verbatim>\<open>for (i = prev->len; i > 0; i--) if (prev->ptr[i - 1] == ':') break;\<close>\<close>

fun lastColon :: "mem \<Rightarrow> nat \<Rightarrow> nat \<Rightarrow> nat" where
  "lastColon m p 0 = 0"
| "lastColon m p (Suc i) = (if rd m (p + i) = CHR '':'' then Suc i else lastColon m p i)"

text \<open>The result, the new current token and memory; \<open>None\<close> if the header would be moved to
  before the start of the buffer.\<close>

definition composeCompoundCommand ::
  "mem \<Rightarrow> scpi_token \<Rightarrow> scpi_token \<Rightarrow> (bool \<times> scpi_token \<times> mem) option" where
  "composeCompoundCommand m prev current =
     (case tk_ptr current of
        None \<Rightarrow> Some (False, current, m)
      | Some cp \<Rightarrow>
          if tk_len current = 0 then Some (False, current, m)
          else
            case tk_ptr prev of
              None \<Rightarrow> Some (True, current, m)
            | Some pp \<Rightarrow>
                if tk_len prev = 0 then Some (True, current, m)
                else if rd m cp = CHR ''*'' \<or> rd m cp = CHR '':'' then Some (True, current, m)
                else if rd m pp = CHR ''*'' then Some (True, current, m)
                else
                  let i = lastColon m pp (nat (tk_len prev))
                  in if i = 0 then Some (True, current, m)
                     else if cp < i then None
                     else Some (True, current\<lparr>tk_ptr := Some (cp - i), tk_len := tk_len current + int i\<rparr>,
                                memmove m (cp - i) pp i))"

end
