(* ===== verification/Lexer.thy ===== *)
theory Lexer
  imports Context
begin

text \<open>
  The lexer, \<^verbatim>\<open>Utilities/Scpi/Src/lexer.c\<close>.  A function that detects a token takes the memory, the
  lexer state and the token variable, which C passes by reference, and returns its \<^verbatim>\<open>int\<close> with
  the new state and the new token.  \<open>rest m s\<close> is the text the lexer still has before it; the loops
  are described by what they skip of it.

  \<open>forward s t\<close> is what every function promises: it works on the same buffer, never goes back
  behind the position it starts from, and never beyond the buffer's end.
\<close>

section \<open>Characters\<close>

definition isws :: "char \<Rightarrow> bool" where
  "isws c \<longleftrightarrow> c = CHR '' '' \<or> c = CHR 0x09"

definition isbdigit :: "char \<Rightarrow> bool" where
  "isbdigit c \<longleftrightarrow> c = CHR ''0'' \<or> c = CHR ''1''"

definition isqdigit :: "char \<Rightarrow> bool" where
  "isqdigit c \<longleftrightarrow> c = CHR ''0'' \<or> c = CHR ''1'' \<or> c = CHR ''2'' \<or> c = CHR ''3'' \<or>
     c = CHR ''4'' \<or> c = CHR ''5'' \<or> c = CHR ''6'' \<or> c = CHR ''7''"

definition isplusmn :: "char \<Rightarrow> bool" where
  "isplusmn c \<longleftrightarrow> c = CHR ''+'' \<or> c = CHR ''-''"

definition isH :: "char \<Rightarrow> bool" where
  "isH c \<longleftrightarrow> c = CHR ''h'' \<or> c = CHR ''H''"

definition isB :: "char \<Rightarrow> bool" where
  "isB c \<longleftrightarrow> c = CHR ''b'' \<or> c = CHR ''B''"

definition isQ :: "char \<Rightarrow> bool" where
  "isQ c \<longleftrightarrow> c = CHR ''q'' \<or> c = CHR ''Q''"

definition isE :: "char \<Rightarrow> bool" where
  "isE c \<longleftrightarrow> c = CHR ''e'' \<or> c = CHR ''E''"

definition isascii7bit :: "char \<Rightarrow> bool" where
  "isascii7bit c \<longleftrightarrow> code c \<le> 127"

definition isNonzeroDigit :: "char \<Rightarrow> bool" where
  "isNonzeroDigit c \<longleftrightarrow> isdigit c \<and> c \<noteq> CHR ''0''"

definition isProgramExpression :: "char \<Rightarrow> bool" where
  "isProgramExpression c \<longleftrightarrow> 32 \<le> code c \<and> code c \<le> 126 \<and>
     c \<noteq> CHR 0x22 \<and> c \<noteq> CHR ''#'' \<and> c \<noteq> CHR 0x27 \<and> c \<noteq> CHR ''('' \<and> c \<noteq> CHR '')'' \<and> c \<noteq> CHR '';''"

section \<open>Position and end\<close>

definition iseos :: "lex_state \<Rightarrow> bool" where
  "iseos s \<longleftrightarrow> int (lx_buffer s) + lx_len s \<le> int (lx_pos s)"

definition scpiLex_IsEos :: "lex_state \<Rightarrow> bool" where
  "scpiLex_IsEos s = iseos s"

definition ischr :: "mem \<Rightarrow> lex_state \<Rightarrow> char \<Rightarrow> bool" where
  "ischr m s chr \<longleftrightarrow> rd m (lx_pos s) = chr"

text \<open>\<^verbatim>\<open>state->pos++\<close>\<close>

definition advance :: "nat \<Rightarrow> lex_state \<Rightarrow> lex_state" where
  "advance n s = s\<lparr>lx_pos := lx_pos s + n\<rparr>"

definition SKIP_NONE :: int where "SKIP_NONE = 0"
definition SKIP_OK :: int where "SKIP_OK = 1"
definition SKIP_INCOMPLETE :: int where "SKIP_INCOMPLETE = - 1"

lemmas skip_codes = SKIP_NONE_def SKIP_OK_def SKIP_INCOMPLETE_def

lemma advance_simps [simp]:
  "lx_pos (advance n s) = lx_pos s + n" "lx_buffer (advance n s) = lx_buffer s"
  "lx_len (advance n s) = lx_len s" "advance n (advance k s) = advance (k + n) s"
  "advance 0 s = s"
  by (simp_all add: advance_def add.assoc)

section \<open>Skipping\<close>

text \<open>The loop of all the functions that skip a class of characters and count them.\<close>

function skip_many :: "(char \<Rightarrow> bool) \<Rightarrow> mem \<Rightarrow> lex_state \<Rightarrow> int \<Rightarrow> int \<times> lex_state" where
  "skip_many P m s n =
     (if \<not> iseos s \<and> P (rd m (lx_pos s)) then skip_many P m (advance 1 s) (n + 1) else (n, s))"
  by auto
termination
  by (relation "measure (\<lambda>(P, m, s, n). nat (int (lx_buffer s) + lx_len s - int (lx_pos s)))")
     (auto simp: iseos_def)

declare skip_many.simps [simp del]

definition skipWs :: "mem \<Rightarrow> lex_state \<Rightarrow> int \<times> lex_state" where
  "skipWs m s = skip_many isws m s 0"

definition skipDigit :: "mem \<Rightarrow> lex_state \<Rightarrow> int \<times> lex_state" where
  "skipDigit m s =
     (if \<not> iseos s \<and> isdigit (rd m (lx_pos s)) then (SKIP_OK, advance 1 s) else (SKIP_NONE, s))"

definition skipNumbers :: "mem \<Rightarrow> lex_state \<Rightarrow> int \<times> lex_state" where
  "skipNumbers m s = skip_many isdigit m s 0"

definition skipPlusmn :: "mem \<Rightarrow> lex_state \<Rightarrow> int \<times> lex_state" where
  "skipPlusmn m s =
     (if \<not> iseos s \<and> isplusmn (rd m (lx_pos s)) then (SKIP_OK, advance 1 s) else (SKIP_NONE, s))"

definition skipAlpha :: "mem \<Rightarrow> lex_state \<Rightarrow> int \<times> lex_state" where
  "skipAlpha m s = skip_many isalpha m s 0"

definition skipChr :: "mem \<Rightarrow> lex_state \<Rightarrow> char \<Rightarrow> int \<times> lex_state" where
  "skipChr m s chr =
     (if \<not> iseos s \<and> ischr m s chr then (SKIP_OK, advance 1 s) else (SKIP_NONE, s))"

definition skipSlashDot :: "mem \<Rightarrow> lex_state \<Rightarrow> int \<times> lex_state" where
  "skipSlashDot m s =
     (if \<not> iseos s \<and> (ischr m s (CHR ''/'') \<or> ischr m s (CHR ''.''))
      then (SKIP_OK, advance 1 s) else (SKIP_NONE, s))"

definition skipStar :: "mem \<Rightarrow> lex_state \<Rightarrow> int \<times> lex_state" where
  "skipStar m s =
     (if \<not> iseos s \<and> ischr m s (CHR ''*'') then (SKIP_OK, advance 1 s) else (SKIP_NONE, s))"

definition skipColon :: "mem \<Rightarrow> lex_state \<Rightarrow> int \<times> lex_state" where
  "skipColon m s =
     (if \<not> iseos s \<and> ischr m s (CHR '':'') then (SKIP_OK, advance 1 s) else (SKIP_NONE, s))"

definition isMnemonicChar :: "char \<Rightarrow> bool" where
  "isMnemonicChar c \<longleftrightarrow> isalnum c \<or> c = CHR ''_''"

definition skipProgramMnemonic :: "mem \<Rightarrow> lex_state \<Rightarrow> int \<times> lex_state" where
  "skipProgramMnemonic m s =
     (let startPos = lx_pos s;
          s = (if \<not> iseos s \<and> isalpha (rd m (lx_pos s))
               then snd (skip_many isMnemonicChar m (advance 1 s) 0) else s)
      in if iseos s then ((int (lx_pos s) - int startPos) * SKIP_INCOMPLETE, s)
         else ((int (lx_pos s) - int startPos) * SKIP_OK, s))"

section \<open>Tokens\<close>

text \<open>\<^verbatim>\<open>state->pos - token->ptr\<close>\<close>

definition pos_diff :: "lex_state \<Rightarrow> scpi_token \<Rightarrow> int" where
  "pos_diff s tok = int (lx_pos s) - int (addr (tk_ptr tok))"

definition scpiLex_WhiteSpace ::
  "mem \<Rightarrow> lex_state \<Rightarrow> scpi_token \<Rightarrow> int \<times> lex_state \<times> scpi_token" where
  "scpiLex_WhiteSpace m s tok =
     (let tok = tok\<lparr>tk_ptr := Some (lx_pos s)\<rparr>;
          s = snd (skipWs m s);
          tok = tok\<lparr>tk_len := pos_diff s tok\<rparr>;
          tok = (if 0 < tk_len tok then tok\<lparr>tk_type := SCPI_TOKEN_WS\<rparr>
                 else tok\<lparr>tk_type := SCPI_TOKEN_UNKNOWN\<rparr>)
      in (tk_len tok, s, tok))"

definition skipCommonProgramHeader :: "mem \<Rightarrow> lex_state \<Rightarrow> int \<times> lex_state" where
  "skipCommonProgramHeader m s =
     (let (star, s) = skipStar m s
      in if star \<noteq> 0 then
           let (res, s) = skipProgramMnemonic m s
           in (if res = SKIP_NONE \<and> iseos s then SKIP_INCOMPLETE
               else if res \<le> SKIP_INCOMPLETE then SKIP_OK
               else if res \<ge> SKIP_OK then SKIP_OK
               else SKIP_INCOMPLETE, s)
         else (SKIP_NONE, s))"

text \<open>The loop of \<^verbatim>\<open>skipCompoundProgramHeader\<close>; it consumes a colon per round.\<close>

lemma skipColon_measure:
  "skipColon m s = (k, t) \<Longrightarrow> k \<noteq> 0 \<Longrightarrow>
     nat (int (lx_buffer t) + lx_len t - int (lx_pos t)) <
     nat (int (lx_buffer s) + lx_len s - int (lx_pos s))"
  by (auto simp: skipColon_def iseos_def skip_codes split: if_splits)

lemma skip_many_pos:
  "skip_many P m s n = (k, t) \<Longrightarrow>
     lx_buffer t = lx_buffer s \<and> lx_len t = lx_len s \<and> lx_pos s \<le> lx_pos t"
  by (induction P m s n rule: skip_many.induct)
     (subst (asm) (2) skip_many.simps, auto split: if_splits)

lemma skipProgramMnemonic_pos:
  "skipProgramMnemonic m s = (k, t) \<Longrightarrow>
     lx_buffer t = lx_buffer s \<and> lx_len t = lx_len s \<and> lx_pos s \<le> lx_pos t"
  using skip_many_pos [of isMnemonicChar m "advance 1 s" 0 "fst (skip_many isMnemonicChar m (advance 1 s) 0)"
      "snd (skip_many isMnemonicChar m (advance 1 s) 0)"]
  by (auto simp: skipProgramMnemonic_def Let_def split: if_splits)

function skipColonMnemonics :: "mem \<Rightarrow> lex_state \<Rightarrow> int \<times> lex_state" where
  "skipColonMnemonics m s =
     (let (colon, s1) = skipColon m s
      in if colon \<noteq> 0 then
           let (res, s2) = skipProgramMnemonic m s1
           in if res \<le> SKIP_INCOMPLETE then (SKIP_OK, s2)
              else if res = SKIP_NONE then (SKIP_INCOMPLETE, s2)
              else skipColonMnemonics m s2
         else (SKIP_OK, s1))"
  by auto
termination
proof (relation "measure (\<lambda>(m, s). nat (int (lx_buffer s) + lx_len s - int (lx_pos s)))", simp, goal_cases)
  case (1 m s x colon s1 y res s2)
  then have "skipColon m s = (colon, s1)" "skipProgramMnemonic m s1 = (res, s2)" by simp_all
  with 1 skipColon_measure [of m s colon s1] skipProgramMnemonic_pos [of m s1 res s2]
  show ?case by auto
qed

declare skipColonMnemonics.simps [simp del]

definition skipCompoundProgramHeader :: "mem \<Rightarrow> lex_state \<Rightarrow> int \<times> lex_state" where
  "skipCompoundProgramHeader m s =
     (let (firstColon, s) = skipColon m s;
          (res, s) = skipProgramMnemonic m s
      in if res \<ge> SKIP_OK then skipColonMnemonics m s
         else if res \<le> SKIP_INCOMPLETE then (SKIP_OK, s)
         else if firstColon \<noteq> 0 then (SKIP_INCOMPLETE, s)
         else (SKIP_NONE, s))"

definition scpiLex_ProgramHeader ::
  "mem \<Rightarrow> lex_state \<Rightarrow> scpi_token \<Rightarrow> int \<times> lex_state \<times> scpi_token" where
  "scpiLex_ProgramHeader m s tok =
     (let tok = tok\<lparr>tk_ptr := Some (lx_pos s), tk_type := SCPI_TOKEN_UNKNOWN\<rparr>;
          (res, s) = skipCommonProgramHeader m s;
          (s, tok) =
            (if res \<ge> SKIP_OK then
               let (q, s) = skipChr m s (CHR ''?'')
               in (s, tok\<lparr>tk_type := if q \<ge> SKIP_OK then SCPI_TOKEN_COMMON_QUERY_PROGRAM_HEADER
                                     else SCPI_TOKEN_COMMON_PROGRAM_HEADER\<rparr>)
             else if res \<le> SKIP_INCOMPLETE then
               (s, tok\<lparr>tk_type := SCPI_TOKEN_INCOMPLETE_COMMON_PROGRAM_HEADER\<rparr>)
             else if res = SKIP_NONE then
               let (res, s) = skipCompoundProgramHeader m s
               in if res \<ge> SKIP_OK then
                    let (q, s) = skipChr m s (CHR ''?'')
                    in (s, tok\<lparr>tk_type := if q \<ge> SKIP_OK then SCPI_TOKEN_COMPOUND_QUERY_PROGRAM_HEADER
                                          else SCPI_TOKEN_COMPOUND_PROGRAM_HEADER\<rparr>)
                  else if res \<le> SKIP_INCOMPLETE then
                    (s, tok\<lparr>tk_type := SCPI_TOKEN_INCOMPLETE_COMPOUND_PROGRAM_HEADER\<rparr>)
                  else (s, tok)
             else (s, tok));
          (s, tok) =
            (if tk_type tok \<noteq> SCPI_TOKEN_UNKNOWN then (s, tok\<lparr>tk_len := pos_diff s tok\<rparr>)
             else (s\<lparr>lx_pos := addr (tk_ptr tok)\<rparr>, tok\<lparr>tk_len := 0\<rparr>))
      in (tk_len tok, s, tok))"

definition scpiLex_CharacterProgramData ::
  "mem \<Rightarrow> lex_state \<Rightarrow> scpi_token \<Rightarrow> int \<times> lex_state \<times> scpi_token" where
  "scpiLex_CharacterProgramData m s tok =
     (let tok = tok\<lparr>tk_ptr := Some (lx_pos s)\<rparr>;
          s = (if \<not> iseos s \<and> isalpha (rd m (lx_pos s))
               then snd (skip_many isMnemonicChar m (advance 1 s) 0) else s);
          tok = tok\<lparr>tk_len := pos_diff s tok\<rparr>;
          tok = (if 0 < tk_len tok then tok\<lparr>tk_type := SCPI_TOKEN_PROGRAM_MNEMONIC\<rparr>
                 else tok\<lparr>tk_type := SCPI_TOKEN_UNKNOWN\<rparr>)
      in (tk_len tok, s, tok))"

definition skipMantisa :: "mem \<Rightarrow> lex_state \<Rightarrow> int \<times> lex_state" where
  "skipMantisa m s =
     (let s = snd (skipPlusmn m s);
          (someNumbers, s) = skipNumbers m s;
          (dot, s) = skipChr m s (CHR ''.'')
      in if dot \<noteq> 0
         then let (n, s) = skipNumbers m s in (someNumbers + n, s)
         else (someNumbers, s))"

definition skipExponent :: "mem \<Rightarrow> lex_state \<Rightarrow> int \<times> lex_state" where
  "skipExponent m s =
     (if \<not> iseos s \<and> isE (rd m (lx_pos s))
      then skipNumbers m (snd (skipPlusmn m (snd (skipWs m (advance 1 s)))))
      else (0, s))"

definition scpiLex_DecimalNumericProgramData ::
  "mem \<Rightarrow> lex_state \<Rightarrow> scpi_token \<Rightarrow> int \<times> lex_state \<times> scpi_token" where
  "scpiLex_DecimalNumericProgramData m s tok =
     (let tok = tok\<lparr>tk_ptr := Some (lx_pos s)\<rparr>;
          (mant, s) = skipMantisa m s;
          s = (if mant \<noteq> 0 then
                 let rollback = lx_pos s;
                     (ex, s) = skipExponent m (snd (skipWs m s))
                 in if ex = 0 then s\<lparr>lx_pos := rollback\<rparr> else s
               else s\<lparr>lx_pos := addr (tk_ptr tok)\<rparr>);
          tok = tok\<lparr>tk_len := pos_diff s tok\<rparr>;
          tok = (if 0 < tk_len tok then tok\<lparr>tk_type := SCPI_TOKEN_DECIMAL_NUMERIC_PROGRAM_DATA\<rparr>
                 else tok\<lparr>tk_type := SCPI_TOKEN_UNKNOWN\<rparr>)
      in (tk_len tok, s, tok))"

text \<open>The loop of \<^verbatim>\<open>scpiLex_SuffixProgramData\<close>: \<^verbatim>\<open>while (skipSlashDot(state))\<close>.\<close>

lemma skipSlashDot_measure:
  "skipSlashDot m s = (k, t) \<Longrightarrow> k \<noteq> 0 \<Longrightarrow>
     nat (int (lx_buffer t) + lx_len t - int (lx_pos t)) <
     nat (int (lx_buffer s) + lx_len s - int (lx_pos s))"
  by (auto simp: skipSlashDot_def iseos_def skip_codes split: if_splits)

lemma skip_one_pos:
  "lx_buffer (snd (skipChr m s c)) = lx_buffer s" "lx_len (snd (skipChr m s c)) = lx_len s"
  "lx_pos s \<le> lx_pos (snd (skipChr m s c))"
  "lx_buffer (snd (skipDigit m s)) = lx_buffer s" "lx_len (snd (skipDigit m s)) = lx_len s"
  "lx_pos s \<le> lx_pos (snd (skipDigit m s))"
  "lx_buffer (snd (skipAlpha m s)) = lx_buffer s" "lx_len (snd (skipAlpha m s)) = lx_len s"
  "lx_pos s \<le> lx_pos (snd (skipAlpha m s))"
  using skip_many_pos [of isalpha m s 0 "fst (skip_many isalpha m s 0)" "snd (skip_many isalpha m s 0)"]
  by (simp_all add: skipChr_def skipDigit_def skipAlpha_def)

definition skipSuffixUnit :: "mem \<Rightarrow> lex_state \<Rightarrow> lex_state" where
  "skipSuffixUnit m s =
     snd (skipDigit m (snd (skipChr m (snd (skipAlpha m s)) (CHR ''-''))))"

lemma skipSuffixUnit_pos:
  "lx_buffer (skipSuffixUnit m s) = lx_buffer s" "lx_len (skipSuffixUnit m s) = lx_len s"
  "lx_pos s \<le> lx_pos (skipSuffixUnit m s)"
  unfolding skipSuffixUnit_def
  by (simp_all add: skip_one_pos)
     (rule order_trans [OF skip_one_pos(9) order_trans [OF skip_one_pos(3) skip_one_pos(6)]])

function skipSuffixTail :: "mem \<Rightarrow> lex_state \<Rightarrow> lex_state" where
  "skipSuffixTail m s =
     (let (slash, s1) = skipSlashDot m s
      in if slash \<noteq> 0 then skipSuffixTail m (skipSuffixUnit m s1) else s1)"
  by auto
termination
proof (relation "measure (\<lambda>(m, s). nat (int (lx_buffer s) + lx_len s - int (lx_pos s)))", simp, goal_cases)
  case (1 m s x slash s1)
  then have "skipSlashDot m s = (slash, s1)" by simp
  with 1 skipSlashDot_measure [of m s slash s1] skipSuffixUnit_pos [where m = m and s = s1]
  show ?case by auto
qed

declare skipSuffixTail.simps [simp del]

definition scpiLex_SuffixProgramData ::
  "mem \<Rightarrow> lex_state \<Rightarrow> scpi_token \<Rightarrow> int \<times> lex_state \<times> scpi_token" where
  "scpiLex_SuffixProgramData m s tok =
     (let tok = tok\<lparr>tk_ptr := Some (lx_pos s)\<rparr>;
          s = snd (skipChr m s (CHR ''/''));
          (alpha, s) = skipAlpha m s;
          s = (if alpha \<noteq> 0
               then skipSuffixTail m (snd (skipDigit m (snd (skipChr m s (CHR ''-'')))))
               else s);
          tok = tok\<lparr>tk_len := pos_diff s tok\<rparr>;
          (s, tok) =
            (if 0 < tk_len tok then (s, tok\<lparr>tk_type := SCPI_TOKEN_SUFFIX_PROGRAM_DATA\<rparr>)
             else (s\<lparr>lx_pos := addr (tk_ptr tok)\<rparr>,
                   tok\<lparr>tk_type := SCPI_TOKEN_UNKNOWN, tk_len := 0\<rparr>))
      in (tk_len tok, s, tok))"

definition skipHexNum :: "mem \<Rightarrow> lex_state \<Rightarrow> int \<times> lex_state" where
  "skipHexNum m s = skip_many isxdigit m s 0"

definition skipOctNum :: "mem \<Rightarrow> lex_state \<Rightarrow> int \<times> lex_state" where
  "skipOctNum m s = skip_many isqdigit m s 0"

definition skipBinNum :: "mem \<Rightarrow> lex_state \<Rightarrow> int \<times> lex_state" where
  "skipBinNum m s = skip_many isbdigit m s 0"

definition scpiLex_NondecimalNumericData ::
  "mem \<Rightarrow> lex_state \<Rightarrow> scpi_token \<Rightarrow> int \<times> lex_state \<times> scpi_token" where
  "scpiLex_NondecimalNumericData m s tok =
     (let tok = tok\<lparr>tk_ptr := Some (lx_pos s)\<rparr>;
          (hash, s) = skipChr m s (CHR ''#'');
          (someNumbers, s, tok) =
            (if hash \<noteq> 0 \<and> \<not> iseos s then
               let c = rd m (lx_pos s)
               in if isH c then
                    let (n, s) = skipHexNum m (advance 1 s)
                    in (n, s, tok\<lparr>tk_type := SCPI_TOKEN_HEXNUM\<rparr>)
                  else if isQ c then
                    let (n, s) = skipOctNum m (advance 1 s)
                    in (n, s, tok\<lparr>tk_type := SCPI_TOKEN_OCTNUM\<rparr>)
                  else if isB c then
                    let (n, s) = skipBinNum m (advance 1 s)
                    in (n, s, tok\<lparr>tk_type := SCPI_TOKEN_BINNUM\<rparr>)
                  else (0, s, tok)
             else (0, s, tok));
          (s, tok) =
            (if someNumbers \<noteq> 0 then
               let tok = tok\<lparr>tk_ptr := Some (addr (tk_ptr tok) + 2)\<rparr>
               in (s, tok\<lparr>tk_len := pos_diff s tok\<rparr>)
             else (s\<lparr>lx_pos := addr (tk_ptr tok)\<rparr>,
                   tok\<lparr>tk_type := SCPI_TOKEN_UNKNOWN, tk_len := 0\<rparr>))
      in (if 0 < tk_len tok then tk_len tok + 2 else 0, s, tok))"

text \<open>
  The loop over a quoted string.  On a byte that is neither a quote nor a 7-bit character it does
  not advance the position, and so never ends: the result \<open>None\<close>.
\<close>

partial_function (option) skipQuoteProgramData ::
  "mem \<Rightarrow> lex_state \<Rightarrow> char \<Rightarrow> lex_state option" where
  "skipQuoteProgramData m s quote =
     (if iseos s then Some s
      else if isascii7bit (rd m (lx_pos s)) \<and> \<not> ischr m s quote
      then skipQuoteProgramData m (advance 1 s) quote
      else if ischr m s quote then
        (if \<not> iseos (advance 1 s) \<and> ischr m (advance 1 s) quote
         then skipQuoteProgramData m (advance 2 s) quote
         else Some s)
      else skipQuoteProgramData m s quote)"

definition scpiLex_StringProgramData ::
  "mem \<Rightarrow> lex_state \<Rightarrow> scpi_token \<Rightarrow> (int \<times> lex_state \<times> scpi_token) option" where
  "scpiLex_StringProgramData m s tok = do {
     let tok = tok\<lparr>tk_ptr := Some (lx_pos s)\<rparr>;
     (s, tok) \<leftarrow>
       (if \<not> iseos s then
          if ischr m s (CHR 0x22) then do {
            let tok = tok\<lparr>tk_type := SCPI_TOKEN_DOUBLE_QUOTE_PROGRAM_DATA\<rparr>;
            s \<leftarrow> skipQuoteProgramData m (advance 1 s) (CHR 0x22);
            if \<not> iseos s \<and> ischr m s (CHR 0x22)
            then Some (advance 1 s, tok\<lparr>tk_len := pos_diff (advance 1 s) tok\<rparr>)
            else Some (s\<lparr>lx_pos := addr (tk_ptr tok)\<rparr>, tok)
          }
          else if ischr m s (CHR 0x27) then do {
            let tok = tok\<lparr>tk_type := SCPI_TOKEN_SINGLE_QUOTE_PROGRAM_DATA\<rparr>;
            s \<leftarrow> skipQuoteProgramData m (advance 1 s) (CHR 0x27);
            if \<not> iseos s \<and> ischr m s (CHR 0x27)
            then Some (advance 1 s, tok\<lparr>tk_len := pos_diff (advance 1 s) tok\<rparr>)
            else Some (s\<lparr>lx_pos := addr (tk_ptr tok)\<rparr>, tok)
          }
          else Some (s, tok)
        else Some (s, tok));
     let tok = tok\<lparr>tk_len := pos_diff s tok\<rparr>;
     let (s, tok) =
       (if 0 < tk_len tok then (s, tok)
        else (s\<lparr>lx_pos := addr (tk_ptr tok)\<rparr>, tok\<lparr>tk_type := SCPI_TOKEN_UNKNOWN, tk_len := 0\<rparr>));
     Some (if 0 < tk_len tok then tk_len tok else 0, s, tok)
   }"

text \<open>The loop that reads the length of a block: the digits left, the number so far.\<close>

fun blockDigits :: "nat \<Rightarrow> mem \<Rightarrow> lex_state \<Rightarrow> int \<Rightarrow> nat \<times> int \<times> lex_state" where
  "blockDigits 0 m s len = (0, len, s)"
| "blockDigits (Suc i) m s len =
     (if \<not> iseos s \<and> isdigit (rd m (lx_pos s))
      then blockDigits i m (advance 1 s) (len * 10 + (int (code (rd m (lx_pos s))) - 48))
      else (Suc i, len, s))"

definition scpiLex_ArbitraryBlockProgramData ::
  "mem \<Rightarrow> lex_state \<Rightarrow> scpi_token \<Rightarrow> int \<times> lex_state \<times> scpi_token" where
  "scpiLex_ArbitraryBlockProgramData m s tok =
     (let ptr = lx_pos s;
          tok = tok\<lparr>tk_ptr := Some (lx_pos s)\<rparr>;
          (hash, s) = skipChr m s (CHR ''#'');
          (validData, s, tok) =
            (if hash \<noteq> 0 then
               if \<not> iseos s \<and> isNonzeroDigit (rd m (lx_pos s)) then
                 let (i, arbitraryBlockLength, s) =
                       blockDigits (code (rd m (lx_pos s)) - 48) m (advance 1 s) 0
                 in if i = 0 then
                      let s = advance (nat arbitraryBlockLength) s
                      in if int (lx_buffer s) + lx_len s \<ge> int (lx_pos s)
                         then (1, s, tok\<lparr>tk_ptr := Some (lx_pos s - nat arbitraryBlockLength),
                                         tk_len := arbitraryBlockLength\<rparr>)
                         else (- 1, s, tok)
                    else if iseos s then (0, s, tok)
                    else (- 1, s, tok)
               else if iseos s then (0, s, tok)
               else (- 1, s, tok)
             else (- 1 :: int, s, tok));
          (s, tok) =
            (if validData = 1 then (s, tok\<lparr>tk_type := SCPI_TOKEN_ARBITRARY_BLOCK_PROGRAM_DATA\<rparr>)
             else if validData = 0 then
               (s\<lparr>lx_pos := nat (int (lx_buffer s) + lx_len s)\<rparr>,
                tok\<lparr>tk_type := SCPI_TOKEN_UNKNOWN, tk_len := 0\<rparr>)
             else (s\<lparr>lx_pos := addr (tk_ptr tok)\<rparr>,
                   tok\<lparr>tk_type := SCPI_TOKEN_UNKNOWN, tk_len := 0\<rparr>))
      in (tk_len tok + (int (addr (tk_ptr tok)) - int ptr), s, tok))"

definition skipProgramExpression :: "mem \<Rightarrow> lex_state \<Rightarrow> lex_state" where
  "skipProgramExpression m s = snd (skip_many isProgramExpression m s 0)"

text \<open>Without an opening parenthesis the length of the token is not written before it is tested:
  it is the one the caller's variable had.\<close>

definition scpiLex_ProgramExpression ::
  "mem \<Rightarrow> lex_state \<Rightarrow> scpi_token \<Rightarrow> int \<times> lex_state \<times> scpi_token" where
  "scpiLex_ProgramExpression m s tok =
     (let tok = tok\<lparr>tk_ptr := Some (lx_pos s)\<rparr>;
          (s, tok) =
            (if \<not> iseos s \<and> ischr m s (CHR ''('') then
               let s = skipProgramExpression m (advance 1 s)
               in if \<not> iseos s \<and> ischr m s (CHR '')'')
                  then (advance 1 s, tok\<lparr>tk_len := pos_diff (advance 1 s) tok\<rparr>)
                  else (s, tok\<lparr>tk_len := 0\<rparr>)
             else (s, tok));
          (s, tok) =
            (if 0 < tk_len tok then (s, tok\<lparr>tk_type := SCPI_TOKEN_PROGRAM_EXPRESSION\<rparr>)
             else (s\<lparr>lx_pos := addr (tk_ptr tok)\<rparr>,
                   tok\<lparr>tk_type := SCPI_TOKEN_UNKNOWN, tk_len := 0\<rparr>))
      in (tk_len tok, s, tok))"

definition scpiLex_Comma ::
  "mem \<Rightarrow> lex_state \<Rightarrow> scpi_token \<Rightarrow> int \<times> lex_state \<times> scpi_token" where
  "scpiLex_Comma m s tok =
     (let tok = tok\<lparr>tk_ptr := Some (lx_pos s)\<rparr>;
          (r, s) = skipChr m s (CHR '','');
          tok = (if r \<noteq> 0 then tok\<lparr>tk_len := 1, tk_type := SCPI_TOKEN_COMMA\<rparr>
                 else tok\<lparr>tk_len := 0, tk_type := SCPI_TOKEN_UNKNOWN\<rparr>)
      in (tk_len tok, s, tok))"

definition scpiLex_Semicolon ::
  "mem \<Rightarrow> lex_state \<Rightarrow> scpi_token \<Rightarrow> int \<times> lex_state \<times> scpi_token" where
  "scpiLex_Semicolon m s tok =
     (let tok = tok\<lparr>tk_ptr := Some (lx_pos s)\<rparr>;
          (r, s) = skipChr m s (CHR '';'');
          tok = (if r \<noteq> 0 then tok\<lparr>tk_len := 1, tk_type := SCPI_TOKEN_SEMICOLON\<rparr>
                 else tok\<lparr>tk_len := 0, tk_type := SCPI_TOKEN_UNKNOWN\<rparr>)
      in (tk_len tok, s, tok))"

definition scpiLex_Colon ::
  "mem \<Rightarrow> lex_state \<Rightarrow> scpi_token \<Rightarrow> int \<times> lex_state \<times> scpi_token" where
  "scpiLex_Colon m s tok =
     (let tok = tok\<lparr>tk_ptr := Some (lx_pos s)\<rparr>;
          (r, s) = skipChr m s (CHR '':'');
          tok = (if r \<noteq> 0 then tok\<lparr>tk_len := 1, tk_type := SCPI_TOKEN_COLON\<rparr>
                 else tok\<lparr>tk_len := 0, tk_type := SCPI_TOKEN_UNKNOWN\<rparr>)
      in (tk_len tok, s, tok))"

definition scpiLex_SpecificCharacter ::
  "mem \<Rightarrow> lex_state \<Rightarrow> scpi_token \<Rightarrow> char \<Rightarrow> int \<times> lex_state \<times> scpi_token" where
  "scpiLex_SpecificCharacter m s tok chr =
     (let tok = tok\<lparr>tk_ptr := Some (lx_pos s)\<rparr>;
          (r, s) = skipChr m s chr;
          tok = (if r \<noteq> 0 then tok\<lparr>tk_len := 1, tk_type := SCPI_TOKEN_SPECIFIC_CHARACTER\<rparr>
                 else tok\<lparr>tk_len := 0, tk_type := SCPI_TOKEN_UNKNOWN\<rparr>)
      in (tk_len tok, s, tok))"

definition scpiLex_NewLine ::
  "mem \<Rightarrow> lex_state \<Rightarrow> scpi_token \<Rightarrow> int \<times> lex_state \<times> scpi_token" where
  "scpiLex_NewLine m s tok =
     (let tok = tok\<lparr>tk_ptr := Some (lx_pos s)\<rparr>;
          s = snd (skipChr m s (CHR 0x0D));
          s = snd (skipChr m s (CHR 0x0A));
          tok = tok\<lparr>tk_len := pos_diff s tok\<rparr>;
          (s, tok) =
            (if 0 < tk_len tok then (s, tok\<lparr>tk_type := SCPI_TOKEN_NL\<rparr>)
             else (s\<lparr>lx_pos := addr (tk_ptr tok)\<rparr>,
                   tok\<lparr>tk_type := SCPI_TOKEN_UNKNOWN, tk_len := 0\<rparr>))
      in (tk_len tok, s, tok))"

end
