(* ===== verification/LexerFacts.thy ===== *)
theory LexerFacts
  imports Lexer
begin

text \<open>
  What the lexer's functions do to the text they see.  Each of them is shown equal to a scanner
  on the remaining text (a list), which returns the number of characters it takes: the pointer
  arithmetic, the end tests and the roll-backs of the code are discharged here once, and the
  scanners carry the later proofs.
\<close>

section \<open>The remaining text\<close>

definition rest :: "mem \<Rightarrow> lex_state \<Rightarrow> char list" where
  "rest m s = map (rd m) [lx_pos s ..< nat (int (lx_buffer s) + lx_len s)]"

definition starts :: "(char \<Rightarrow> bool) \<Rightarrow> char list \<Rightarrow> bool" where
  "starts P xs = (case xs of [] \<Rightarrow> False | c # _ \<Rightarrow> P c)"

definition span_of :: "(char \<Rightarrow> bool) \<Rightarrow> char list \<Rightarrow> nat" where
  "span_of P xs = length (takeWhile P xs)"

definition opt :: "(char \<Rightarrow> bool) \<Rightarrow> char list \<Rightarrow> nat" where
  "opt P xs = (if starts P xs then 1 else 0)"

lemma starts_simps [simp]: "\<not> starts P []" "starts P (c # xs) \<longleftrightarrow> P c"
  by (simp_all add: starts_def)

lemma span_simps [simp]: "span_of P [] = 0" "span_of P (c # xs) = (if P c then Suc (span_of P xs) else 0)"
  by (simp_all add: span_of_def)

lemma span_le [simp]: "span_of P xs \<le> length xs"
  by (simp add: span_of_def length_takeWhile_le)

lemma span_append_stop:
  "\<forall>c\<in>set xs. P c \<Longrightarrow> \<not> starts P ys \<Longrightarrow> span_of P (xs @ ys) = length xs"
  by (induction xs) (auto simp: span_of_def starts_def split: list.splits)

lemma span_0_iff: "span_of P xs = 0 \<longleftrightarrow> \<not> starts P xs"
  by (cases xs) simp_all

lemma opt_simps [simp]: "opt P [] = 0" "opt P (c # xs) = (if P c then 1 else 0)"
  by (simp_all add: opt_def)

lemma opt_le [simp]: "opt P xs \<le> length xs"
  by (cases xs) simp_all

lemma opt_append: "xs \<noteq> [] \<Longrightarrow> opt P (xs @ ys) = opt P xs"
  by (cases xs) simp_all

lemma starts_append: "xs \<noteq> [] \<Longrightarrow> starts P (xs @ ys) = starts P xs"
  by (cases xs) simp_all

lemma iseos_rest: "iseos s \<longleftrightarrow> rest m s = []"
  by (auto simp: iseos_def rest_def)

lemma rest_unfold:
  "\<not> iseos s \<Longrightarrow> rest m s = rd m (lx_pos s) # rest m (advance 1 s)"
proof -
  assume "\<not> iseos s"
  then have "lx_pos s < nat (int (lx_buffer s) + lx_len s)" by (auto simp: iseos_def)
  then show ?thesis by (simp add: rest_def upt_conv_Cons)
qed

lemma rest_advance [simp]: "rest m (advance n s) = drop n (rest m s)"
  by (simp add: rest_def drop_map)

lemma length_rest: "length (rest m s) = nat (int (lx_buffer s) + lx_len s) - lx_pos s"
  by (simp add: rest_def)

lemma at_rest: "\<not> iseos s \<and> P (rd m (lx_pos s)) \<longleftrightarrow> starts P (rest m s)"
proof (cases "iseos s")
  case True
  then show ?thesis by (simp add: iseos_rest [of s m])
next
  case False
  then obtain cs where "rest m s = rd m (lx_pos s) # cs" using rest_unfold by blast
  with False show ?thesis by simp
qed

lemma at_chr_rest: "\<not> iseos s \<and> ischr m s c \<longleftrightarrow> starts (\<lambda>d. d = c) (rest m s)"
  using at_rest [of s "\<lambda>d. d = c" m] by (simp add: ischr_def)

text \<open>A text at the lexer's position, for concrete inputs.\<close>

lemma rest_block:
  assumes "m = pre @ txt @ post" "lx_buffer s + nat (lx_len s) = length (pre @ txt)"
    "lx_pos s = length pre" "0 \<le> lx_len s"
  shows "rest m s = txt"
proof -
  have "nat (int (lx_buffer s) + lx_len s) = length pre + length txt"
    using assms(2,4) by simp
  then show ?thesis
    using assms(1,3) by (auto simp: rest_def rd_def nth_append intro: nth_equalityI)
qed

section \<open>Positions\<close>

definition forward :: "lex_state \<Rightarrow> lex_state \<Rightarrow> bool" where
  "forward s t \<longleftrightarrow> lx_buffer t = lx_buffer s \<and> lx_len t = lx_len s \<and> lx_pos s \<le> lx_pos t \<and>
     (int (lx_pos s) \<le> int (lx_buffer s) + lx_len s \<longrightarrow>
      int (lx_pos t) \<le> int (lx_buffer t) + lx_len t)"

lemma forward_refl [simp, intro]: "forward s s"
  by (simp add: forward_def)

lemma forward_trans: "forward s t \<Longrightarrow> forward t u \<Longrightarrow> forward s u"
  by (auto simp: forward_def)

lemma forward_advance: "k \<le> length (rest m s) \<Longrightarrow> forward s (advance k s)"
  by (auto simp: forward_def length_rest)

lemma pos_update [simp]:
  "(advance n s)\<lparr>lx_pos := p\<rparr> = s\<lparr>lx_pos := p\<rparr>" "s\<lparr>lx_pos := lx_pos s + n\<rparr> = advance n s"
  "s\<lparr>lx_pos := lx_pos s\<rparr> = s"
  by (simp_all add: advance_def)

section \<open>The skipping functions\<close>

lemma skip_many_eq:
  "skip_many P m s n = (n + int (span_of P (rest m s)), advance (span_of P (rest m s)) s)"
proof (induction P m s n rule: skip_many.induct)
  case (1 P m s n)
  show ?case
  proof (cases "\<not> iseos s \<and> P (rd m (lx_pos s))")
    case True
    then have "skip_many P m s n = skip_many P m (advance 1 s) (n + 1)"
      by (subst skip_many.simps) simp
    moreover have "rest m s = rd m (lx_pos s) # rest m (advance 1 s)"
      using True rest_unfold by blast
    ultimately show ?thesis using 1 True by (simp del: rest_advance)
  next
    case False
    then have "skip_many P m s n = (n, s)" by (subst skip_many.simps) auto
    moreover have "span_of P (rest m s) = 0"
      using False at_rest [of s P m] by (simp add: span_0_iff)
    ultimately show ?thesis by simp
  qed
qed

lemma skip_one_eq:
  "skipDigit m s = (int (opt isdigit (rest m s)), advance (opt isdigit (rest m s)) s)"
  "skipPlusmn m s = (int (opt isplusmn (rest m s)), advance (opt isplusmn (rest m s)) s)"
  "skipChr m s c = (int (opt (\<lambda>d. d = c) (rest m s)), advance (opt (\<lambda>d. d = c) (rest m s)) s)"
  "skipStar m s = (int (opt (\<lambda>d. d = CHR ''*'') (rest m s)),
                   advance (opt (\<lambda>d. d = CHR ''*'') (rest m s)) s)"
  "skipColon m s = (int (opt (\<lambda>d. d = CHR '':'') (rest m s)),
                    advance (opt (\<lambda>d. d = CHR '':'') (rest m s)) s)"
  "skipSlashDot m s = (int (opt (\<lambda>d. d = CHR ''/'' \<or> d = CHR ''.'') (rest m s)),
                       advance (opt (\<lambda>d. d = CHR ''/'' \<or> d = CHR ''.'') (rest m s)) s)"
  by (simp_all add: skipDigit_def skipPlusmn_def skipChr_def skipStar_def skipColon_def
      skipSlashDot_def at_rest at_chr_rest opt_def skip_codes ischr_def
      at_rest [of _ "\<lambda>d. d = CHR ''/'' \<or> d = CHR ''.''"] at_rest [of _ "\<lambda>d. d = _"])

lemmas skip_eq = skip_one_eq skipWs_def skipNumbers_def skipAlpha_def skipHexNum_def
  skipOctNum_def skipBinNum_def skip_many_eq

definition mnem_len :: "char list \<Rightarrow> nat" where
  "mnem_len xs = (case xs of [] \<Rightarrow> 0 | c # cs \<Rightarrow> if isalpha c then Suc (span_of isMnemonicChar cs) else 0)"

lemma mnem_len_le [simp]: "mnem_len xs \<le> length xs"
  by (simp add: mnem_len_def split: list.splits)

lemma mnem_state_eq:
  "(if \<not> iseos s \<and> isalpha (rd m (lx_pos s))
    then snd (skip_many isMnemonicChar m (advance 1 s) 0) else s) = advance (mnem_len (rest m s)) s"
proof (cases "iseos s")
  case True
  then show ?thesis by (simp add: iseos_rest [of s m] mnem_len_def)
next
  case False
  then show ?thesis using rest_unfold [of s m]
    by (simp add: skip_many_eq mnem_len_def del: rest_advance)
qed

lemma skipProgramMnemonic_eq:
  "skipProgramMnemonic m s =
     (let k = mnem_len (rest m s)
      in (if length (rest m s) \<le> k then - int k else int k, advance k s))"
  unfolding skipProgramMnemonic_def Let_def mnem_state_eq
  by (simp add: skip_codes iseos_rest [of _ m])

section \<open>The tokens as scanners of the remaining text\<close>

text \<open>A token of \<open>k\<close> characters at the lexer's position: its kind if it is not empty.\<close>

definition token_at :: "lex_state \<Rightarrow> scpi_token_type \<Rightarrow> nat \<Rightarrow> scpi_token" where
  "token_at s ty k = \<lparr>tk_type = (if k = 0 then SCPI_TOKEN_UNKNOWN else ty),
     tk_ptr = Some (lx_pos s), tk_len = int k\<rparr>"

lemma token_eqI:
  "tk_type t = tk_type u \<Longrightarrow> tk_ptr t = tk_ptr u \<Longrightarrow> tk_len t = tk_len u \<Longrightarrow> t = (u :: scpi_token)"
  by simp

lemma pos_diff_eq [simp]:
  "tk_ptr tok = Some p \<Longrightarrow> pos_diff t tok = int (lx_pos t) - int p"
  by (simp add: pos_diff_def)

lemma WhiteSpace_eq:
  "scpiLex_WhiteSpace m s tok =
     (let k = span_of isws (rest m s) in (int k, advance k s, token_at s SCPI_TOKEN_WS k))"
  by (simp add: scpiLex_WhiteSpace_def skip_eq token_at_def Let_def)

lemma CharacterProgramData_eq:
  "scpiLex_CharacterProgramData m s tok =
     (let k = mnem_len (rest m s) in (int k, advance k s, token_at s SCPI_TOKEN_PROGRAM_MNEMONIC k))"
  unfolding scpiLex_CharacterProgramData_def mnem_state_eq
  by (simp add: token_at_def Let_def)

definition mantissa_scan :: "char list \<Rightarrow> nat \<times> nat" where
  "mantissa_scan xs =
     (let a = opt isplusmn xs; b = span_of isdigit (drop a xs);
          d = opt (\<lambda>c. c = CHR ''.'') (drop (a + b) xs);
          e = (if d = 0 then 0 else span_of isdigit (drop (a + b + d) xs))
      in (b + e, a + b + d + e))"

definition exponent_scan :: "char list \<Rightarrow> nat \<times> nat" where
  "exponent_scan xs =
     (if starts isE xs then
        let w = span_of isws (drop 1 xs); p = opt isplusmn (drop (1 + w) xs);
            n = span_of isdigit (drop (1 + w + p) xs)
        in (n, 1 + w + p + n)
      else (0, 0))"

definition decimal_len :: "char list \<Rightarrow> nat" where
  "decimal_len xs =
     (let (n, k) = mantissa_scan xs
      in if n = 0 then 0
         else let w = span_of isws (drop k xs); (e, j) = exponent_scan (drop (k + w) xs)
              in if e = 0 then k else k + w + j)"

lemma span_drop_le: "span_of P (drop n xs) \<le> length xs - n"
  using span_le [of P "drop n xs"] by simp

lemma opt_drop_le: "opt P (drop n xs) \<le> length xs - n"
  using opt_le [of P "drop n xs"] by simp

lemma mnem_len_drop_le: "mnem_len (drop n xs) \<le> length xs - n"
  using mnem_len_le [of "drop n xs"] by simp

lemma mantissa_scan_le: "mantissa_scan xs = (n, k) \<Longrightarrow> k \<le> length xs \<and> n \<le> k"
proof -
  assume *: "mantissa_scan xs = (n, k)"
  define a b d where "a = opt isplusmn xs" and "b = span_of isdigit (drop a xs)"
    and "d = opt (\<lambda>c. c = CHR ''.'') (drop (a + b) xs)"
  have "a \<le> length xs" "b \<le> length xs - a" "d \<le> length xs - (a + b)"
    "span_of isdigit (drop (a + b + d) xs) \<le> length xs - (a + b + d)"
    by (simp_all only: a_def b_def d_def opt_le span_drop_le opt_drop_le)
  then show ?thesis
    using * by (auto simp: mantissa_scan_def Let_def simp flip: a_def b_def d_def split: if_splits)
qed

lemma exponent_scan_le: "exponent_scan xs = (n, k) \<Longrightarrow> k \<le> length xs \<and> n \<le> k"
proof -
  assume *: "exponent_scan xs = (n, k)"
  define w p where "w = span_of isws (drop (Suc 0) xs)" and "p = opt isplusmn (drop (Suc w) xs)"
  have "w \<le> length xs - Suc 0" "p \<le> length xs - Suc w"
    "span_of isdigit (drop (Suc (w + p)) xs) \<le> length xs - Suc (w + p)"
    "starts isE xs \<Longrightarrow> 1 \<le> length xs"
    by (simp_all only: w_def p_def span_drop_le opt_drop_le) (cases xs, simp_all)
  then show ?thesis
    using * by (auto simp: exponent_scan_def Let_def simp flip: w_def p_def split: if_splits)
qed

lemma decimal_len_le [simp]: "decimal_len xs \<le> length xs"
proof -
  obtain n k where m: "mantissa_scan xs = (n, k)" by fastforce
  obtain e j where e: "exponent_scan (drop (k + span_of isws (drop k xs)) xs) = (e, j)" by fastforce
  show ?thesis
    using mantissa_scan_le [OF m] exponent_scan_le [OF e] span_drop_le [of isws k xs]
    by (auto simp: decimal_len_def m e Let_def)
qed

lemma skipMantisa_eq:
  "skipMantisa m s =
     (case mantissa_scan (rest m s) of (n, k) \<Rightarrow> (int n, advance k s))"
  by (simp add: skipMantisa_def skip_eq mantissa_scan_def Let_def add_ac)

lemma skipExponent_eq:
  "skipExponent m s =
     (case exponent_scan (rest m s) of (n, k) \<Rightarrow> (int n, advance k s))"
  by (simp add: skipExponent_def skip_eq exponent_scan_def Let_def at_rest add_ac)

lemma DecimalNumericProgramData_eq:
  "scpiLex_DecimalNumericProgramData m s tok =
     (let k = decimal_len (rest m s)
      in (int k, advance k s, token_at s SCPI_TOKEN_DECIMAL_NUMERIC_PROGRAM_DATA k))"
proof -
  obtain n k where m: "mantissa_scan (rest m s) = (n, k)" by fastforce
  let ?w = "span_of isws (drop k (rest m s))"
  obtain e j where e: "exponent_scan (drop (?w + k) (rest m s)) = (e, j)" by fastforce
  then have e': "exponent_scan (drop (k + ?w) (rest m s)) = (e, j)" by (simp add: add.commute)
  show ?thesis
    using mantissa_scan_le [OF m]
    by (cases "n = 0") (simp_all add: scpiLex_DecimalNumericProgramData_def skip_eq skipMantisa_eq skipExponent_eq
        decimal_len_def token_at_def m e e' Let_def)
qed

lemma rest_Cons:
  assumes "rest m s = c # cs"
  shows "\<not> iseos s" "rd m (lx_pos s) = c" "rest m (advance 1 s) = cs" "ischr m s d \<longleftrightarrow> c = d"
proof -
  show n: "\<not> iseos s" using assms iseos_rest [of s m] by simp
  from rest_unfold [OF n, of m] assms
  show "rd m (lx_pos s) = c" by (metis list.inject)
  then show "ischr m s d \<longleftrightarrow> c = d" by (simp add: ischr_def)
  show "rest m (advance 1 s) = cs" using assms by simp
qed

lemma rest_Nil: "rest m s = [] \<Longrightarrow> iseos s"
  using iseos_rest [of s m] by simp

definition suffix_unit :: "char list \<Rightarrow> nat" where
  "suffix_unit xs =
     (let a = span_of isalpha xs; h = opt (\<lambda>c. c = CHR ''-'') (drop a xs)
      in a + h + opt isdigit (drop (a + h) xs))"

lemma suffix_unit_le [simp]: "suffix_unit xs \<le> length xs"
  unfolding suffix_unit_def Let_def
  using span_le [of isalpha xs] opt_drop_le [of "\<lambda>c. c = CHR ''-''" "span_of isalpha xs" xs]
    opt_drop_le [of isdigit "span_of isalpha xs + opt (\<lambda>c. c = CHR ''-'') (drop (span_of isalpha xs) xs)" xs]
  by linarith

function suffix_tail :: "char list \<Rightarrow> nat" where
  "suffix_tail [] = 0"
| "suffix_tail (c # cs) =
     (if c = CHR ''/'' \<or> c = CHR ''.''
      then 1 + suffix_unit cs + suffix_tail (drop (suffix_unit cs) cs) else 0)"
  by pat_completeness auto
termination by (relation "measure length") auto

lemma suffix_tail_le [simp]: "suffix_tail xs \<le> length xs"
proof (induction xs rule: suffix_tail.induct)
  case (2 c cs)
  then show ?case using suffix_unit_le [of cs] by (auto simp del: suffix_unit_le)
qed simp

definition suffix_len :: "char list \<Rightarrow> nat" where
  "suffix_len xs =
     (let f = opt (\<lambda>c. c = CHR ''/'') xs; ys = drop f xs; a = span_of isalpha ys
      in if a = 0 then f
         else f + suffix_unit ys + suffix_tail (drop (suffix_unit ys) ys))"

lemma suffix_len_le [simp]: "suffix_len xs \<le> length xs"
proof -
  let ?ys = "drop (opt (\<lambda>c. c = CHR ''/'') xs) xs"
  have "opt (\<lambda>c. c = CHR ''/'') xs \<le> length xs" "suffix_unit ?ys \<le> length ?ys"
    "suffix_tail (drop (suffix_unit ?ys) ?ys) \<le> length (drop (suffix_unit ?ys) ?ys)"
    by (simp_all only: opt_le suffix_unit_le suffix_tail_le)
  then show ?thesis
    by (auto simp: suffix_len_def Let_def simp del: opt_le suffix_unit_le suffix_tail_le)
qed

lemma skipSuffixUnit_eq: "skipSuffixUnit m s = advance (suffix_unit (rest m s)) s"
  by (simp add: skipSuffixUnit_def skip_eq suffix_unit_def Let_def add_ac)

lemma skipSuffixTail_eq: "skipSuffixTail m s = advance (suffix_tail (rest m s)) s"
proof (induction m s rule: skipSuffixTail.induct)
  case (1 m s)
  show ?case
  proof (cases "rest m s")
    case Nil
    then show ?thesis by (subst skipSuffixTail.simps) (simp add: skip_eq)
  next
    case (Cons c cs)
    show ?thesis
    proof (cases "c = CHR ''/'' \<or> c = CHR ''.''")
      case True
      with Cons have "skipSlashDot m s = (1, advance 1 s)" by (simp add: skip_eq)
      from 1 [OF this [symmetric] refl] this Cons True
      show ?thesis
        by (subst skipSuffixTail.simps) (simp add: skipSuffixUnit_eq add_ac)
    next
      case False
      with Cons show ?thesis by (subst skipSuffixTail.simps) (simp add: skip_eq)
    qed
  qed
qed

lemma SuffixProgramData_eq:
  "scpiLex_SuffixProgramData m s tok =
     (let k = suffix_len (rest m s)
      in (int k, advance k s, token_at s SCPI_TOKEN_SUFFIX_PROGRAM_DATA k))"
proof -
  let ?f = "opt (\<lambda>c. c = CHR ''/'') (rest m s)"
  let ?ys = "drop ?f (rest m s)"
  have u: "snd (skipDigit m (snd (skipChr m (snd (skipAlpha m t)) (CHR ''-'')))) = skipSuffixUnit m t" for t
    by (simp add: skipSuffixUnit_def)
  have a: "snd (skipChr m s (CHR ''/'')) = advance ?f s" by (simp add: skip_eq)
  show ?thesis
  proof (cases "span_of isalpha ?ys = 0")
    case True
    then show ?thesis
      by (cases "?f = 0")
        (simp_all add: scpiLex_SuffixProgramData_def a suffix_len_def token_at_def Let_def skip_eq)
  next
    case False
    then have "0 < suffix_unit ?ys" by (simp add: suffix_unit_def Let_def)
    moreover have "fst (skipAlpha m (advance ?f s)) \<noteq> 0" using False by (simp add: skip_eq)
    ultimately show ?thesis
      using u [of "advance ?f s"] False
      by (simp add: scpiLex_SuffixProgramData_def a suffix_len_def token_at_def Let_def
          split_beta skipSuffixUnit_eq skipSuffixTail_eq add_ac)
  qed
qed

definition nondec_scan :: "char list \<Rightarrow> scpi_token_type \<times> nat" where
  "nondec_scan xs =
     (case xs of
        h # c # cs \<Rightarrow>
          if h \<noteq> CHR ''#'' then (SCPI_TOKEN_UNKNOWN, 0)
          else if isH c then (SCPI_TOKEN_HEXNUM, span_of isxdigit cs)
          else if isQ c then (SCPI_TOKEN_OCTNUM, span_of isqdigit cs)
          else if isB c then (SCPI_TOKEN_BINNUM, span_of isbdigit cs)
          else (SCPI_TOKEN_UNKNOWN, 0)
      | _ \<Rightarrow> (SCPI_TOKEN_UNKNOWN, 0))"

lemma nondec_scan_le: "nondec_scan xs = (ty, n) \<Longrightarrow> n = 0 \<or> n + 2 \<le> length xs"
  using span_le by (auto simp: nondec_scan_def split: list.splits if_splits)

lemma NondecimalNumericData_eq:
  "scpiLex_NondecimalNumericData m s tok =
     (case nondec_scan (rest m s) of (ty, n) \<Rightarrow>
        if n = 0 then (0, s, \<lparr>tk_type = SCPI_TOKEN_UNKNOWN, tk_ptr = Some (lx_pos s), tk_len = 0\<rparr>)
        else (int n + 2, advance (n + 2) s,
              \<lparr>tk_type = ty, tk_ptr = Some (lx_pos s + 2), tk_len = int n\<rparr>))"
proof (cases "starts (\<lambda>c. c = CHR ''#'') (rest m s)")
  case False
  then have "skipChr m s (CHR ''#'') = (0, s)" "nondec_scan (rest m s) = (SCPI_TOKEN_UNKNOWN, 0)"
    by (auto simp: skip_eq opt_def nondec_scan_def starts_def split: list.splits)
  then show ?thesis by (simp add: scpiLex_NondecimalNumericData_def Let_def)
next
  case True
  then obtain cs where r: "rest m s = CHR ''#'' # cs" by (cases "rest m s") auto
  have h: "skipChr m s (CHR ''#'') = (1, advance 1 s)" by (simp add: skip_eq r)
  show ?thesis
  proof (cases cs)
    case Nil
    then have "iseos (advance 1 s)" by (intro rest_Nil [of m]) (simp add: r)
    then show ?thesis
      by (simp add: scpiLex_NondecimalNumericData_def Let_def h r Nil nondec_scan_def)
  next
    case (Cons c ds)
    have "rest m (advance 1 s) = c # ds" using r Cons by simp
    from rest_Cons(1,2) [OF this] show ?thesis
      by (simp add: scpiLex_NondecimalNumericData_def Let_def h r Cons nondec_scan_def skip_eq
          add_ac)
  qed
qed

text \<open>Expressions: the parentheses and what is between them, or nothing.\<close>

definition expression_len :: "char list \<Rightarrow> nat" where
  "expression_len xs =
     (case xs of
        [] \<Rightarrow> 0
      | c # cs \<Rightarrow>
          if c = CHR ''('' \<and> starts (\<lambda>d. d = CHR '')'') (drop (span_of isProgramExpression cs) cs)
          then span_of isProgramExpression cs + 2 else 0)"

lemma expression_len_le: "expression_len xs \<le> length xs"
proof (cases xs)
  case (Cons c cs)
  show ?thesis
    using Cons span_le [of isProgramExpression cs]
    by (cases "drop (span_of isProgramExpression cs) cs")
       (auto simp: expression_len_def dest: arg_cong [where f = length] simp del: span_le)
qed (simp add: expression_len_def)

lemma ProgramExpression_eq:
  assumes "tk_len tok \<le> 0"
  shows "scpiLex_ProgramExpression m s tok =
     (let k = expression_len (rest m s)
      in (int k, advance k s, token_at s SCPI_TOKEN_PROGRAM_EXPRESSION k))"
proof (cases "rest m s")
  case Nil
  from rest_Nil [OF this] Nil assms show ?thesis
    by (simp add: scpiLex_ProgramExpression_def expression_len_def token_at_def Let_def)
next
  case (Cons c cs)
  show ?thesis
    using rest_Cons [OF Cons] Cons assms
      at_chr_rest [of "advance (Suc (span_of isProgramExpression cs)) s" m "CHR '')''"]
    by (auto simp: scpiLex_ProgramExpression_def expression_len_def token_at_def Let_def
        skipProgramExpression_def skip_many_eq)
qed

lemma separator_eq:
  "scpiLex_Comma m s tok =
     (let k = opt (\<lambda>d. d = CHR '','') (rest m s) in (int k, advance k s, token_at s SCPI_TOKEN_COMMA k))"
  "scpiLex_Semicolon m s tok =
     (let k = opt (\<lambda>d. d = CHR '';'') (rest m s) in (int k, advance k s, token_at s SCPI_TOKEN_SEMICOLON k))"
  "scpiLex_Colon m s tok =
     (let k = opt (\<lambda>d. d = CHR '':'') (rest m s) in (int k, advance k s, token_at s SCPI_TOKEN_COLON k))"
  "scpiLex_SpecificCharacter m s tok c =
     (let k = opt (\<lambda>d. d = c) (rest m s)
      in (int k, advance k s, token_at s SCPI_TOKEN_SPECIFIC_CHARACTER k))"
  by (simp_all add: scpiLex_Comma_def scpiLex_Semicolon_def scpiLex_Colon_def
      scpiLex_SpecificCharacter_def skip_eq token_at_def opt_def Let_def)

definition newline_len :: "char list \<Rightarrow> nat" where
  "newline_len xs =
     (let a = opt (\<lambda>d. d = CHR 0x0D) xs in a + opt (\<lambda>d. d = CHR 0x0A) (drop a xs))"

lemma newline_len_le: "newline_len xs \<le> length xs"
  using opt_le [of "\<lambda>d. d = CHR 0x0D" xs]
    opt_drop_le [of "\<lambda>d. d = CHR 0x0A" "opt (\<lambda>d. d = CHR 0x0D) xs" xs]
  unfolding newline_len_def Let_def by linarith

lemma NewLine_eq:
  "scpiLex_NewLine m s tok =
     (let k = newline_len (rest m s) in (int k, advance k s, token_at s SCPI_TOKEN_NL k))"
  by (cases "newline_len (rest m s) = 0")
     (auto simp: scpiLex_NewLine_def skip_eq newline_len_def token_at_def Let_def)

section \<open>Strings\<close>

text \<open>How many characters the loop over a quoted string takes: up to a quote that is not doubled,
  or to the end of the text; none if a byte outside 7-bit ASCII comes first.\<close>

fun quote_end :: "char \<Rightarrow> char list \<Rightarrow> nat option" where
  "quote_end q [] = Some 0"
| "quote_end q (c # cs) =
     (if isascii7bit c \<and> c \<noteq> q then map_option Suc (quote_end q cs)
      else if c = q then
        (case cs of
           [] \<Rightarrow> Some 0
         | d # ds \<Rightarrow> if d = q then map_option (\<lambda>n. n + 2) (quote_end q ds) else Some 0)
      else None)"

lemma quote_end_le: "quote_end q xs = Some k \<Longrightarrow> k \<le> length xs"
  by (induction q xs arbitrary: k rule: quote_end.induct)
     (auto split: if_splits list.splits)

lemma advance_Suc: "advance (Suc k) s = advance k (advance 1 s)"
  by simp

lemma skipQuote_step:
  assumes "rest m s = c # cs"
  shows "skipQuoteProgramData m s q =
     (if isascii7bit c \<and> c \<noteq> q then skipQuoteProgramData m (advance 1 s) q
      else if c = q then
        (case cs of
           [] \<Rightarrow> Some s
         | d # ds \<Rightarrow> if d = q then skipQuoteProgramData m (advance 2 s) q else Some s)
      else skipQuoteProgramData m s q)"
proof (cases cs)
  case Nil
  then have "iseos (advance 1 s)" by (intro rest_Nil [of m]) (simp add: assms)
  then show ?thesis
    using rest_Cons [OF assms] Nil by (subst skipQuoteProgramData.simps) simp
next
  case (Cons d ds)
  have "rest m (advance 1 s) = d # ds" using assms Cons by simp
  from rest_Cons [OF this] rest_Cons [OF assms] Cons show ?thesis
    by (subst skipQuoteProgramData.simps) simp
qed

lemma skipQuote_ends:
  "quote_end q (rest m s) = Some k \<Longrightarrow> skipQuoteProgramData m s q = Some (advance k s)"
proof (induction q "rest m s" arbitrary: s k rule: quote_end.induct)
  case (1 q s)
  from rest_Nil [of m s] 1 show ?case by (subst skipQuoteProgramData.simps) simp
next
  case (2 q c cs s)
  note r = 2(3) [symmetric]
  show ?case
  proof (cases "isascii7bit c \<and> c \<noteq> q")
    case True
    with 2(4) r obtain j where j: "quote_end q cs = Some j" "k = Suc j" by auto
    have "cs = rest m (advance 1 s)" using r by simp
    from 2(1) [OF True this] j this have "skipQuoteProgramData m (advance 1 s) q = Some (advance j (advance 1 s))"
      by simp
    then show ?thesis using True j by (simp add: skipQuote_step [OF r])
  next
    case False
    then have c: "c = q" using 2(4) r by (auto split: if_splits)
    show ?thesis
    proof (cases cs)
      case Nil
      then show ?thesis using c 2(4) r by (simp add: skipQuote_step [OF r])
    next
      case (Cons d ds)
      show ?thesis
      proof (cases "d = q")
        case True
        with Cons c 2(4) r obtain j where j: "quote_end q ds = Some j" "k = j + 2" by auto
        have ds: "ds = rest m (advance 2 s)" using r Cons by simp
        have "\<not> (isascii7bit c \<and> c \<noteq> q)" using c by simp
        from 2(2) [OF this c Cons [unfolded ds] True] j ds
        have "skipQuoteProgramData m (advance 2 s) q = Some (advance j (advance 2 s))" by simp
        then show ?thesis using True Cons c j by (simp add: skipQuote_step [OF r])
      next
        case False
        then show ?thesis using Cons c 2(4) r by (simp add: skipQuote_step [OF r])
      qed
    qed
  qed
qed

text \<open>The loop returns only what the scan finds: where the scan stops at a byte it cannot take,
  the loop does not return.\<close>

lemma skipQuote_only:
  assumes "skipQuoteProgramData m s q = Some t"
  shows "quote_end q (rest m s) \<noteq> None"
proof (rule skipQuoteProgramData.raw_induct [OF _ assms])
  fix f m s q t
  assume IH0: "\<And>m s q t. f m s q = Some t \<Longrightarrow> quote_end q (rest m s) \<noteq> None"
    and *: "(if iseos s then Some s
      else if isascii7bit (rd m (lx_pos s)) \<and> \<not> ischr m s q then f m (advance 1 s) q
      else if ischr m s q then
        (if \<not> iseos (advance 1 s) \<and> ischr m (advance 1 s) q then f m (advance 2 s) q else Some s)
      else f m s q) = Some t"
  have IH: "f m u q = Some t \<Longrightarrow> quote_end q (rest m u) \<noteq> None" for u using IH0 by blast
  show "quote_end q (rest m s) \<noteq> None"
  proof (cases "rest m s")
    case Nil
    then show ?thesis by simp
  next
    case r: (Cons c cs)
    note rs = rest_Cons [OF r]
    show ?thesis
    proof (cases cs)
      case Nil
      then have "iseos (advance 1 s)" by (intro rest_Nil [of m]) (simp add: r)
      then show ?thesis
        using * rs r Nil IH [of "advance 1 s"] IH [of s] by (auto split: if_splits)
    next
      case (Cons d ds)
      then have "rest m (advance 1 s) = d # ds" using r by simp
      from rest_Cons [OF this] show ?thesis
        using * rs r Cons IH [of "advance 1 s"] IH [of "advance 2 s"] IH [of s]
        by (auto split: if_splits)
    qed
  qed
qed

lemma skipQuote_eq:
  "skipQuoteProgramData m s q = map_option (\<lambda>k. advance k s) (quote_end q (rest m s))"
proof (cases "quote_end q (rest m s)")
  case None
  then show ?thesis using skipQuote_only [of m s q] by (cases "skipQuoteProgramData m s q") auto
next
  case (Some k)
  then show ?thesis by (simp add: skipQuote_ends)
qed

definition string_len :: "char list \<Rightarrow> nat option" where
  "string_len xs =
     (case xs of
        [] \<Rightarrow> Some 0
      | c # cs \<Rightarrow>
          if c = CHR 0x22 \<or> c = CHR 0x27 then
            map_option (\<lambda>k. if starts (\<lambda>d. d = c) (drop k cs) then k + 2 else 0) (quote_end c cs)
          else Some 0)"

definition string_type :: "char list \<Rightarrow> scpi_token_type" where
  "string_type xs = (if starts (\<lambda>c. c = CHR 0x22) xs then SCPI_TOKEN_DOUBLE_QUOTE_PROGRAM_DATA
                     else SCPI_TOKEN_SINGLE_QUOTE_PROGRAM_DATA)"

lemma string_len_le: "string_len xs = Some k \<Longrightarrow> k \<le> length xs"
proof (cases xs)
  case (Cons c cs)
  assume "string_len xs = Some k"
  then show ?thesis
    using Cons quote_end_le [of c cs]
    by (cases "quote_end c cs"; cases "drop (the (quote_end c cs)) cs")
       (auto simp: string_len_def split: if_splits dest: arg_cong [where f = length])
qed (simp add: string_len_def)

lemma StringProgramData_eq:
  "scpiLex_StringProgramData m s tok =
     map_option (\<lambda>k. (int k, advance k s, token_at s (string_type (rest m s)) k))
       (string_len (rest m s))"
proof (cases "rest m s")
  case Nil
  then show ?thesis
    using rest_Nil [OF Nil] by (simp add: scpiLex_StringProgramData_def string_len_def token_at_def)
next
  case (Cons c cs)
  note rs = rest_Cons [OF Cons]
  have q: "skipQuoteProgramData m (advance (Suc 0) s) d = map_option (\<lambda>k. advance (Suc k) s) (quote_end d cs)"
    for d using Cons by (simp add: skipQuote_eq)
  have e: "\<not> iseos (advance (Suc k) s) \<and> ischr m (advance (Suc k) s) d \<longleftrightarrow>
      starts (\<lambda>c. c = d) (drop k cs)" for k d
    using Cons by (simp add: at_chr_rest)
  show ?thesis
    using rs Cons
    by (cases "quote_end c cs"; cases "c = CHR 0x22"; cases "c = CHR 0x27")
       (simp_all add: scpiLex_StringProgramData_def string_len_def string_type_def token_at_def q e
         Let_def)
qed

section \<open>Blocks\<close>

definition dec_val :: "char list \<Rightarrow> int" where
  "dec_val cs = foldl (\<lambda>n c. n * 10 + (int (code c) - 48)) 0 cs"

lemma blockDigits_eq:
  "blockDigits i m s len =
     (let j = min i (span_of isdigit (rest m s))
      in (i - j, foldl (\<lambda>n c. n * 10 + (int (code c) - 48)) len (take j (rest m s)), advance j s))"
proof (induction i m s len rule: blockDigits.induct)
  case (1 m s len)
  show ?case by simp
next
  case (2 i m s len)
  show ?case
  proof (cases "rest m s")
    case Nil
    then show ?thesis using rest_Nil [OF Nil] by simp
  next
    case (Cons c cs)
    then show ?thesis using 2 rest_Cons [OF Cons] by (simp add: Let_def)
  qed
qed

datatype block_result = Block nat nat | Incomplete | NotBlock

definition block_scan :: "char list \<Rightarrow> block_result" where
  "block_scan xs =
     (case xs of
        [] \<Rightarrow> NotBlock
      | h # ds \<Rightarrow>
          if h \<noteq> CHR ''#'' then NotBlock
          else case ds of
                 [] \<Rightarrow> Incomplete
               | d # es \<Rightarrow>
                   if isNonzeroDigit d then
                     let n = code d - 48; j = min n (span_of isdigit es); len = nat (dec_val (take j es))
                     in if j = n then (if n + len \<le> length es then Block (n + 2) len else NotBlock)
                        else if length es \<le> j then Incomplete else NotBlock
                   else NotBlock)"

lemma isNonzeroDigit_code: "isNonzeroDigit d \<longleftrightarrow> 49 \<le> code d \<and> code d \<le> 57"
  using code_eq_iff [of d "CHR ''0''"] by (auto simp: isNonzeroDigit_def isdigit_def simp del: code_eq_iff)

lemma block_scan_le:
  assumes "block_scan xs = Block a n"
  shows "a + n \<le> length xs \<and> 3 \<le> a"
proof -
  obtain h d es where xs: "xs = h # d # es"
    using assms by (auto simp: block_scan_def split: list.splits if_splits)
  have d: "isNonzeroDigit d"
    using assms by (simp add: block_scan_def xs split: if_splits)
  then have c: "1 \<le> code d - 48" by (auto simp: isNonzeroDigit_code)
  have "a = code d - 48 + 2" "code d - 48 + n \<le> length es"
    using assms d by (simp_all add: block_scan_def xs Let_def split: if_splits)
  then show ?thesis using c by (simp add: xs)
qed

lemma dec_val_nonneg: "\<forall>c\<in>set cs. isdigit c \<Longrightarrow> 0 \<le> n \<Longrightarrow>
    0 \<le> foldl (\<lambda>n c. n * 10 + (int (code c) - 48)) n cs"
  by (induction cs arbitrary: n) (auto simp: isdigit_def)

lemma take_span_all: "\<forall>c\<in>set (take (min n (span_of P xs)) xs). P c"
proof -
  have "take (span_of P xs) xs = takeWhile P xs"
    unfolding span_of_def by (rule takeWhile_eq_take [symmetric])
  moreover have "set (take (min n (span_of P xs)) xs) \<subseteq> set (take (span_of P xs) xs)"
    by (rule set_take_subset_set_take) simp
  ultimately show ?thesis by (auto dest: set_takeWhileD)
qed

lemma ArbitraryBlockProgramData_eq:
  "scpiLex_ArbitraryBlockProgramData m s tok =
     (case block_scan (rest m s) of
        Block a n \<Rightarrow> (int (a + n), advance (a + n) s,
          \<lparr>tk_type = SCPI_TOKEN_ARBITRARY_BLOCK_PROGRAM_DATA, tk_ptr = Some (lx_pos s + a),
           tk_len = int n\<rparr>)
      | Incomplete \<Rightarrow> (0, advance (length (rest m s)) s,
          \<lparr>tk_type = SCPI_TOKEN_UNKNOWN, tk_ptr = Some (lx_pos s), tk_len = 0\<rparr>)
      | NotBlock \<Rightarrow> (0, s, \<lparr>tk_type = SCPI_TOKEN_UNKNOWN, tk_ptr = Some (lx_pos s), tk_len = 0\<rparr>))"
proof (cases "starts (\<lambda>c. c = CHR ''#'') (rest m s)")
  case False
  then have "skipChr m s (CHR ''#'') = (0, s)" "block_scan (rest m s) = NotBlock"
    by (auto simp: skip_eq opt_def block_scan_def starts_def split: list.splits)
  then show ?thesis by (simp add: scpiLex_ArbitraryBlockProgramData_def Let_def)
next
  case True
  then obtain ds where r: "rest m s = CHR ''#'' # ds" by (cases "rest m s") auto
  have h: "skipChr m s (CHR ''#'') = (1, advance 1 s)" by (simp add: skip_eq r)
  have len: "int (lx_buffer s) + lx_len s = int (lx_pos s + length (rest m s))"
    using length_rest [of m s] r by simp
  have e: "s\<lparr>lx_pos := nat (int (lx_buffer s) + lx_len s)\<rparr> = advance (length (rest m s)) s"
    by (simp only: len nat_int advance_def)
  show ?thesis
  proof (cases ds)
    case Nil
    then have "iseos (advance 1 s)" by (intro rest_Nil [of m]) (simp add: r)
    then show ?thesis
      using e by (simp add: scpiLex_ArbitraryBlockProgramData_def Let_def h r Nil block_scan_def)
  next
    case (Cons d es)
    have rd: "rest m (advance 1 s) = d # es" using r Cons by simp
    have re: "rest m (advance (Suc (Suc 0)) s) = es" using r Cons by simp
    define n j v where "n = code d - 48" and "j = min n (span_of isdigit es)"
      and "v = nat (dec_val (take j es))"
    have "0 \<le> dec_val (take j es)"
      unfolding dec_val_def j_def by (rule dec_val_nonneg) (simp_all add: take_span_all)
    then have b: "blockDigits (code d - 48) m (advance (Suc (Suc 0)) s) 0 = (n - j, int v, advance (Suc (Suc j)) s)"
      using blockDigits_eq [of n m "advance (Suc (Suc 0)) s" 0]
      unfolding re by (simp add: Let_def dec_val_def v_def flip: n_def j_def)
    have bs: "block_scan (rest m s) =
        (if isNonzeroDigit d then
           if j = n then (if n + v \<le> length es then Block (n + 2) v else NotBlock)
           else if length es \<le> j then Incomplete else NotBlock
         else NotBlock)"
      by (simp add: block_scan_def r Cons Let_def v_def flip: n_def j_def)
    have eos: "iseos (advance (Suc (Suc j)) s) \<longleftrightarrow> length es \<le> j"
      using r Cons by (auto simp: iseos_rest [of _ m])
    have l: "length (rest m s) = Suc (Suc (length es))" by (simp add: r Cons)
    have jn: "j \<le> n" by (simp add: j_def)
    note R = rest_Cons(1,2) [OF rd]
    note U = scpiLex_ArbitraryBlockProgramData_def Let_def h
    consider "\<not> isNonzeroDigit d" | "isNonzeroDigit d" "j < n" "length es \<le> j"
      | "isNonzeroDigit d" "j < n" "\<not> length es \<le> j"
      | "isNonzeroDigit d" "j = n" using jn by linarith
    then show ?thesis
    proof cases
      case 1
      then show ?thesis using R bs by (simp add: U)
    next
      case 2
      then show ?thesis using R b eos e bs l by (simp add: U)
    next
      case 3
      then show ?thesis using R b eos bs by (simp add: U)
    next
      case 4
      then show ?thesis using R b len bs l by (simp add: U)
    qed
  qed
qed

section \<open>Headers\<close>

text \<open>After the first mnemonic: whether the list of further mnemonics is complete, and its length.\<close>

function colon_mnems :: "char list \<Rightarrow> bool \<times> nat" where
  "colon_mnems [] = (True, 0)"
| "colon_mnems (c # cs) =
     (if c = CHR '':'' then
        let k = mnem_len cs
        in if k = 0 then (False, 1)
           else if length cs \<le> k then (True, 1 + k)
           else (case colon_mnems (drop k cs) of (ok, n) \<Rightarrow> (ok, 1 + k + n))
      else (True, 0))"
  by pat_completeness auto
termination by (relation "measure length") auto

lemma colon_mnems_le: "colon_mnems xs = (ok, n) \<Longrightarrow> n \<le> length xs"
proof (induction xs arbitrary: ok n rule: colon_mnems.induct)
  case (2 c cs)
  obtain ok' n' where r: "colon_mnems (drop (mnem_len cs) cs) = (ok', n')" by fastforce
  have l: "mnem_len cs \<le> length cs" by (rule mnem_len_le)
  have IH: "c = CHR '':'' \<Longrightarrow> mnem_len cs \<noteq> 0 \<Longrightarrow> \<not> length cs \<le> mnem_len cs \<Longrightarrow>
      n' \<le> length (drop (mnem_len cs) cs)"
    using 2(1) r by blast
  show ?case
    using 2(2) r l IH
    by (auto simp: Let_def simp del: mnem_len_le split: if_splits)
qed simp

definition header_scan :: "char list \<Rightarrow> scpi_token_type \<times> nat" where
  "header_scan xs =
     (if starts (\<lambda>c. c = CHR ''*'') xs then
        let cs = drop 1 xs; k = mnem_len cs; q = opt (\<lambda>c. c = CHR ''?'') (drop k cs)
        in if k = 0 then (SCPI_TOKEN_INCOMPLETE_COMMON_PROGRAM_HEADER, 1)
           else (if q = 0 then SCPI_TOKEN_COMMON_PROGRAM_HEADER
                 else SCPI_TOKEN_COMMON_QUERY_PROGRAM_HEADER, 1 + k + q)
      else
        let f = opt (\<lambda>c. c = CHR '':'') xs; cs = drop f xs; k = mnem_len cs;
            (ok, n) = colon_mnems (drop k cs);
            q = opt (\<lambda>c. c = CHR ''?'') (drop (k + n) cs)
        in if k = 0 then
             (if f = 0 then (SCPI_TOKEN_UNKNOWN, 0)
              else (SCPI_TOKEN_INCOMPLETE_COMPOUND_PROGRAM_HEADER, f))
           else if \<not> ok then (SCPI_TOKEN_INCOMPLETE_COMPOUND_PROGRAM_HEADER, f + k + n)
           else (if q = 0 then SCPI_TOKEN_COMPOUND_PROGRAM_HEADER
                 else SCPI_TOKEN_COMPOUND_QUERY_PROGRAM_HEADER, f + k + n + q))"

lemma header_scan_le: "header_scan xs = (ty, n) \<Longrightarrow> n \<le> length xs"
proof -
  assume *: "header_scan xs = (ty, n)"
  define f where "f = opt (\<lambda>c. c = CHR '':'') xs"
  define k where "k = mnem_len (drop f xs)"
  obtain ok j where c: "colon_mnems (drop k (drop f xs)) = (ok, j)" by fastforce
  have b: "f \<le> length xs" "k \<le> length (drop f xs)" "j \<le> length (drop k (drop f xs))"
    "opt (\<lambda>c. c = CHR ''?'') (drop (k + j) (drop f xs)) \<le> length (drop (k + j) (drop f xs))"
    "mnem_len (drop 1 xs) \<le> length (drop 1 xs)"
    "opt (\<lambda>c. c = CHR ''?'') (drop (mnem_len (drop 1 xs)) (drop 1 xs)) \<le>
       length (drop (mnem_len (drop 1 xs)) (drop 1 xs))"
    "starts (\<lambda>c. c = CHR ''*'') xs \<Longrightarrow> 1 \<le> length xs"
    using colon_mnems_le [OF c] by (simp_all only: f_def k_def opt_le mnem_len_le) (cases xs, simp_all)
  show ?thesis
    using * b c
    by (auto simp: header_scan_def Let_def simp del: opt_le mnem_len_le simp flip: f_def k_def
        split: if_splits)
qed

lemma skipColonMnemonics_eq:
  "skipColonMnemonics m s =
     (case colon_mnems (rest m s) of (ok, n) \<Rightarrow>
        (if ok then SKIP_OK else SKIP_INCOMPLETE, advance n s))"
proof (induction m s rule: skipColonMnemonics.induct)
  case (1 m s)
  show ?case
  proof (cases "starts (\<lambda>c. c = CHR '':'') (rest m s)")
    case False
    then have "colon_mnems (rest m s) = (True, 0)" by (cases "rest m s") auto
    then show ?thesis using False by (subst skipColonMnemonics.simps) (simp add: skip_eq opt_def)
  next
    case True
    then obtain cs where r: "rest m s = CHR '':'' # cs" by (cases "rest m s") auto
    define k where "k = mnem_len cs"
    have c: "skipColon m s = (1, advance 1 s)" by (simp add: skip_eq r)
    have p: "skipProgramMnemonic m (advance (Suc 0) s) =
        (if length cs \<le> k then - int k else int k, advance (1 + k) s)"
      by (simp add: skipProgramMnemonic_eq r Let_def flip: k_def)
    show ?thesis
    proof (cases "k = 0 \<or> length cs \<le> k")
      case True
      then show ?thesis
        by (subst skipColonMnemonics.simps)
           (auto simp: c p r skip_codes Let_def simp flip: k_def)
    next
      case False
      have p1: "skipProgramMnemonic m (advance 1 s) = (int k, advance (Suc k) s)"
        using p False by simp
      from 1 [OF c [symmetric] refl _ p1 [symmetric] refl] False
      show ?thesis
        by (subst skipColonMnemonics.simps)
           (auto simp: c p r skip_codes Let_def simp flip: k_def split: prod.splits)
    qed
  qed
qed

lemma ProgramHeader_eq:
  "scpiLex_ProgramHeader m s tok =
     (case header_scan (rest m s) of (ty, k) \<Rightarrow>
        (int k, advance k s, \<lparr>tk_type = ty, tk_ptr = Some (lx_pos s), tk_len = int k\<rparr>))"
proof (cases "starts (\<lambda>c. c = CHR ''*'') (rest m s)")
  case True
  then obtain cs where r: "rest m s = CHR ''*'' # cs" by (cases "rest m s") auto
  define k where "k = mnem_len cs"
  have c: "skipStar m s = (1, advance 1 s)" by (simp add: skip_eq r)
  have p: "skipProgramMnemonic m (advance (Suc 0) s) =
      (if length cs \<le> k then - int k else int k, advance (1 + k) s)"
    by (simp add: skipProgramMnemonic_eq r Let_def flip: k_def)
  have e: "iseos (advance (Suc k) s) \<longleftrightarrow> length cs \<le> k" using r by (simp add: iseos_rest [of _ m])
  have q: "skipChr m (advance (Suc k) s) (CHR ''?'') =
      (int (opt (\<lambda>c. c = CHR ''?'') (drop k cs)), advance (Suc k + opt (\<lambda>c. c = CHR ''?'') (drop k cs)) s)"
    by (simp add: skip_eq r)
  have sc: "skipCommonProgramHeader m s =
      (if k = 0 then SKIP_INCOMPLETE else SKIP_OK, advance (Suc k) s)"
    using e by (auto simp: skipCommonProgramHeader_def c p skip_codes)
  show ?thesis
    by (simp add: scpiLex_ProgramHeader_def sc q header_scan_def r skip_codes Let_def opt_def
        flip: k_def)
next
  case False
  then have sc: "skipCommonProgramHeader m s = (SKIP_NONE, s)"
    by (simp add: skipCommonProgramHeader_def skip_eq opt_def)
  define f cs where "f = opt (\<lambda>c. c = CHR '':'') (rest m s)" and "cs = drop f (rest m s)"
  define k where "k = mnem_len cs"
  obtain ok n where cm: "colon_mnems (drop k cs) = (ok, n)" by fastforce
  have c: "skipColon m s = (int f, advance f s)" by (simp add: skip_eq f_def)
  have p: "skipProgramMnemonic m (advance f s) =
      (if length cs \<le> k then - int k else int k, advance (f + k) s)"
    by (simp add: skipProgramMnemonic_eq k_def cs_def Let_def)
  have t: "skipColonMnemonics m (advance (f + k) s) =
      (if ok then SKIP_OK else SKIP_INCOMPLETE, advance (f + k + n) s)"
    using cm by (simp add: skipColonMnemonics_eq cs_def add.commute)
  have z: "ok \<and> n = 0" if "length cs \<le> k" using that cm by simp
  have sch: "skipCompoundProgramHeader m s =
      (if k = 0 then (if f = 0 then SKIP_NONE else SKIP_INCOMPLETE, advance f s)
       else (if ok then SKIP_OK else SKIP_INCOMPLETE, advance (f + k + n) s))"
    using z by (auto simp: skipCompoundProgramHeader_def c p t skip_codes Let_def)
  have q: "skipChr m (advance (f + k + n) s) (CHR ''?'') =
      (int (opt (\<lambda>c. c = CHR ''?'') (drop (k + n) cs)),
       advance (f + k + n + opt (\<lambda>c. c = CHR ''?'') (drop (k + n) cs)) s)"
    by (simp add: skip_eq cs_def add_ac)
  have hs: "header_scan (rest m s) =
      (if k = 0 then
         (if f = 0 then (SCPI_TOKEN_UNKNOWN, 0)
          else (SCPI_TOKEN_INCOMPLETE_COMPOUND_PROGRAM_HEADER, f))
       else if \<not> ok then (SCPI_TOKEN_INCOMPLETE_COMPOUND_PROGRAM_HEADER, f + k + n)
       else (if opt (\<lambda>c. c = CHR ''?'') (drop (k + n) cs) = 0 then SCPI_TOKEN_COMPOUND_PROGRAM_HEADER
             else SCPI_TOKEN_COMPOUND_QUERY_PROGRAM_HEADER,
             f + k + n + opt (\<lambda>c. c = CHR ''?'') (drop (k + n) cs)))"
    using False cm by (simp add: header_scan_def Let_def del: drop_drop flip: f_def cs_def k_def)
  show ?thesis
    by (simp add: scpiLex_ProgramHeader_def sc sch q hs skip_codes Let_def opt_def)
qed

end
