(* ===== verification/LexerProps.thy ===== *)
theory LexerProps
  imports LexerFacts
begin

text \<open>
  Properties of the lexer: it stays inside its buffer, it recognises the headers and the quoted
  strings that it should, and the one input on which it does not return.
\<close>

section \<open>Staying inside the buffer\<close>

definition total_lex ::
  "(mem \<Rightarrow> lex_state \<Rightarrow> scpi_token \<Rightarrow> int \<times> lex_state \<times> scpi_token) \<Rightarrow>
   mem \<Rightarrow> lex_state \<Rightarrow> scpi_token \<Rightarrow> (int \<times> lex_state \<times> scpi_token) option" where
  "total_lex f m s tok = Some (f m s tok)"

definition lex_functions ::
  "(mem \<Rightarrow> lex_state \<Rightarrow> scpi_token \<Rightarrow> (int \<times> lex_state \<times> scpi_token) option) list" where
  "lex_functions =
     [total_lex scpiLex_WhiteSpace, total_lex scpiLex_ProgramHeader,
      total_lex scpiLex_CharacterProgramData, total_lex scpiLex_DecimalNumericProgramData,
      total_lex scpiLex_SuffixProgramData, total_lex scpiLex_NondecimalNumericData,
      scpiLex_StringProgramData, total_lex scpiLex_ArbitraryBlockProgramData,
      total_lex scpiLex_ProgramExpression, total_lex scpiLex_Comma, total_lex scpiLex_Semicolon,
      total_lex scpiLex_Colon, total_lex scpiLex_NewLine]"

text \<open>The result covers at most what was skipped, and the token lies in the skipped text.\<close>

definition lex_sound :: "lex_state \<Rightarrow> int \<times> lex_state \<times> scpi_token \<Rightarrow> bool" where
  "lex_sound s = (\<lambda>(r, t, tok). forward s t \<and> 0 \<le> r \<and> r \<le> int (lx_pos t) - int (lx_pos s) \<and>
     0 \<le> tk_len tok \<and> tk_ptr tok \<noteq> None \<and> lx_pos s \<le> addr (tk_ptr tok) \<and>
     int (addr (tk_ptr tok)) + tk_len tok \<le> int (lx_pos t))"

lemma lex_sound_token_at:
  "k \<le> length (rest m s) \<Longrightarrow> lex_sound s (int k, advance k s, token_at s ty k)"
  by (auto simp: lex_sound_def token_at_def intro: forward_advance)

lemma lex_sound_simple:
  "lex_sound s (scpiLex_WhiteSpace m s tok)"
  "lex_sound s (scpiLex_CharacterProgramData m s tok)"
  "lex_sound s (scpiLex_DecimalNumericProgramData m s tok)"
  "lex_sound s (scpiLex_SuffixProgramData m s tok)"
  "tk_len tok \<le> 0 \<Longrightarrow> lex_sound s (scpiLex_ProgramExpression m s tok)"
  "lex_sound s (scpiLex_Comma m s tok)"
  "lex_sound s (scpiLex_Semicolon m s tok)"
  "lex_sound s (scpiLex_Colon m s tok)"
  "lex_sound s (scpiLex_SpecificCharacter m s tok c)"
  "lex_sound s (scpiLex_NewLine m s tok)"
  by (simp_all add: WhiteSpace_eq CharacterProgramData_eq DecimalNumericProgramData_eq
      SuffixProgramData_eq ProgramExpression_eq separator_eq NewLine_eq Let_def
      lex_sound_token_at [of _ m] expression_len_le newline_len_le)

lemma lex_sound_header: "lex_sound s (scpiLex_ProgramHeader m s tok)"
  unfolding ProgramHeader_eq
  using header_scan_le
  by (auto simp: lex_sound_def split: prod.splits intro!: forward_advance [of _ m])

lemma lex_sound_nondec: "lex_sound s (scpiLex_NondecimalNumericData m s tok)"
proof -
  obtain ty n where n: "nondec_scan (rest m s) = (ty, n)" by fastforce
  have "n \<noteq> 0 \<Longrightarrow> forward s (advance (n + 2) s)"
    using nondec_scan_le [OF n] by (intro forward_advance [of _ m]) simp
  then show ?thesis by (auto simp: NondecimalNumericData_eq n lex_sound_def)
qed

lemma lex_sound_block: "lex_sound s (scpiLex_ArbitraryBlockProgramData m s tok)"
proof (cases "block_scan (rest m s)")
  case (Block a n)
  have "forward s (advance (a + n) s)"
    using block_scan_le [OF Block] by (intro forward_advance [of _ m]) simp
  then show ?thesis by (simp add: ArbitraryBlockProgramData_eq Block lex_sound_def)
qed (simp_all add: ArbitraryBlockProgramData_eq lex_sound_def forward_advance [of _ m])

lemma lex_sound_string:
  "scpiLex_StringProgramData m s tok = Some r \<Longrightarrow> lex_sound s r"
  using string_len_le [of "rest m s"]
  by (auto simp: StringProgramData_eq intro!: lex_sound_token_at [of _ m])

text \<open>C30: The lexer stays inside its buffer.  Every token function of the lexer, called with a
  token variable that does not hold a stale length, moves the position forward and not beyond
  the end of the buffer, never returns more than it skipped, and leaves the token on a piece of the
  skipped text.\<close>

theorem lexer_stays_inside:
  assumes "f \<in> set lex_functions" "tk_len tok \<le> 0" "f m s tok = Some r"
  shows "lex_sound s r"
  using assms lex_sound_string [of m s tok r]
  by (auto simp: lex_functions_def total_lex_def lex_sound_simple lex_sound_header lex_sound_nondec
      lex_sound_block)

definition whole :: "char list \<Rightarrow> lex_state" where
  "whole body = \<lparr>lx_buffer = 0, lx_pos = 0, lx_len = int (length body)\<rparr>"

lemma rest_whole [simp]: "rest body (whole body) = body"
  by (rule rest_block [of _ "[]" _ "[]"]) (simp_all add: whole_def)

lemma lexer_stays_inside_witness:
  "lex_sound (whole ''12 , 3'') (2, advance 2 (whole ''12 , 3''),
     token_at (whole ''12 , 3'') SCPI_TOKEN_DECIMAL_NUMERIC_PROGRAM_DATA 2)"
  by (rule lexer_stays_inside [of "total_lex scpiLex_DecimalNumericProgramData"
        "token_at (whole ''12 , 3'') SCPI_TOKEN_WS 0" "''12 , 3''"])
     (simp_all add: lex_functions_def total_lex_def token_at_def DecimalNumericProgramData_eq
       decimal_len_def mantissa_scan_def exponent_scan_def isplusmn_def isdigit_def isws_def
       isE_def Let_def)

section \<open>Quoted strings\<close>

definition quote_text :: "char \<Rightarrow> char list \<Rightarrow> char list" where
  "quote_text q body = q # concat (map (\<lambda>c. if c = q then [q, q] else [c]) body) @ [q]"

definition is_quote :: "char \<Rightarrow> bool" where
  "is_quote q \<longleftrightarrow> q = CHR 0x22 \<or> q = CHR 0x27"

lemma quote_end_quoted:
  "\<forall>c\<in>set body. isascii7bit c \<Longrightarrow> \<not> starts (\<lambda>c. c = q) ys \<Longrightarrow> isascii7bit q \<Longrightarrow>
     quote_end q (concat (map (\<lambda>c. if c = q then [q, q] else [c]) body) @ q # ys) =
       Some (length (concat (map (\<lambda>c. if c = q then [q, q] else [c]) body)))"
  by (induction body) (auto simp: starts_def split: list.splits)

lemma is_quote_7bit: "is_quote q \<Longrightarrow> isascii7bit q"
  by (auto simp: is_quote_def isascii7bit_def)

lemma string_len_quoted:
  assumes "is_quote q" "\<forall>c\<in>set body. isascii7bit c" "\<not> starts (\<lambda>c. c = q) ys"
  shows "string_len (quote_text q body @ ys) = Some (length (quote_text q body))"
  using assms quote_end_quoted [of body q ys] is_quote_7bit [OF assms(1)]
  by (auto simp: string_len_def quote_text_def is_quote_def)

text \<open>C33: A string that is quoted is read back as one token.  For any 7-bit text, its quotes
  doubled and a quote put before and after it, followed by anything but another quote,
  \<^verbatim>\<open>scpiLex_StringProgramData\<close> returns and its token is exactly the quoted text.\<close>

theorem lex_string_quoted:
  assumes "rest m s = quote_text q body @ ys" "is_quote q" "\<forall>c\<in>set body. isascii7bit c"
    "\<not> starts (\<lambda>c. c = q) ys"
  shows "scpiLex_StringProgramData m s tok =
           (let k = length (quote_text q body)
            in Some (int k, advance k s,
                 \<lparr>tk_type = (if q = CHR 0x22 then SCPI_TOKEN_DOUBLE_QUOTE_PROGRAM_DATA
                            else SCPI_TOKEN_SINGLE_QUOTE_PROGRAM_DATA),
                  tk_ptr = Some (lx_pos s), tk_len = int k\<rparr>))"
  unfolding StringProgramData_eq assms(1) string_len_quoted [OF assms(2-4)]
  by (auto simp: token_at_def string_type_def quote_text_def Let_def)

lemma lex_string_quoted_witness:
  "scpiLex_StringProgramData (''xx'' @ [CHR 0x27] @ ''a'' @ [CHR 0x27, CHR 0x27] @ ''b'' @ [CHR 0x27] @ '', 1'')
     \<lparr>lx_buffer = 2, lx_pos = 2, lx_len = 9\<rparr> (token_at (whole []) SCPI_TOKEN_WS 0) =
   Some (6, \<lparr>lx_buffer = 2, lx_pos = 8, lx_len = 9\<rparr>,
     \<lparr>tk_type = SCPI_TOKEN_SINGLE_QUOTE_PROGRAM_DATA, tk_ptr = Some 2, tk_len = 6\<rparr>)"
proof -
  let ?s = "\<lparr>lx_buffer = 2, lx_pos = 2, lx_len = 9\<rparr>"
  let ?m = "''xx'' @ [CHR 0x27] @ ''a'' @ [CHR 0x27, CHR 0x27] @ ''b'' @ [CHR 0x27] @ '', 1''"
  have "rest ?m ?s = quote_text (CHR 0x27) (''a'' @ [CHR 0x27] @ ''b'') @ '', 1''"
    by (rule rest_block [of _ "''xx''" _ "[]"]) (simp_all add: quote_text_def)
  from lex_string_quoted [OF this, of "token_at (whole []) SCPI_TOKEN_WS 0"] show ?thesis
    by (simp add: is_quote_def isascii7bit_def quote_text_def advance_def Let_def)
qed

lemma quote_end_hang:
  "\<forall>d\<in>set body. isascii7bit d \<and> d \<noteq> q \<Longrightarrow> \<not> isascii7bit c \<Longrightarrow> c \<noteq> q \<Longrightarrow>
     quote_end q (body @ c # ys) = None"
  by (induction body) auto

text \<open>The lexer does not return on a byte above 0x7F inside a quoted string: the loop of
  \<^verbatim>\<open>skipQuoteProgramData\<close> neither advances nor leaves.  The lexer is left with no result
  on an opening quote, followed by any 7-bit text without that quote, and such a byte.\<close>

theorem lex_string_hangs:
  assumes "rest m s = q # body @ c # ys" "is_quote q" "\<forall>d\<in>set body. isascii7bit d \<and> d \<noteq> q"
    "\<not> isascii7bit c"
  shows "scpiLex_StringProgramData m s tok = None"
  unfolding StringProgramData_eq assms(1)
  using assms quote_end_hang [of body q c ys] is_quote_7bit [OF assms(2)]
  by (auto simp: string_len_def is_quote_def)

lemma lex_string_hangs_witness:
  "scpiLex_StringProgramData [CHR 0x22, CHR ''5'', CHR 0xB5, CHR ''m'', CHR 0x22]
     (whole [CHR 0x22, CHR ''5'', CHR 0xB5, CHR ''m'', CHR 0x22])
     (token_at (whole []) SCPI_TOKEN_WS 0) = None"
  using lex_string_hangs [of "[CHR 0x22, CHR ''5'', CHR 0xB5, CHR ''m'', CHR 0x22]"
      "whole [CHR 0x22, CHR ''5'', CHR 0xB5, CHR ''m'', CHR 0x22]" "CHR 0x22" "''5''" "CHR 0xB5"
      "[CHR ''m'', CHR 0x22]"]
  by (simp add: is_quote_def isascii7bit_def)

text \<open>Any 7-bit text is lexed.\<close>

lemma quote_end_7bit: "\<forall>c\<in>set xs. isascii7bit c \<Longrightarrow> quote_end q xs \<noteq> None"
  by (induction q xs rule: quote_end.induct) (auto split: list.splits)

lemma lex_string_returns:
  assumes "\<forall>c\<in>set (rest m s). isascii7bit c"
  shows "scpiLex_StringProgramData m s tok \<noteq> None"
  using assms quote_end_7bit by (auto simp: StringProgramData_eq string_len_def split: list.splits)

section \<open>Headers\<close>

definition is_mnemonic :: "char list \<Rightarrow> bool" where
  "is_mnemonic w \<longleftrightarrow> starts isalpha w \<and> (\<forall>c\<in>set w. isMnemonicChar c)"

definition header_text :: "bool \<Rightarrow> char list list \<Rightarrow> bool \<Rightarrow> char list" where
  "header_text colon ws query =
     (if colon then '':'' else []) @ hd ws @ concat (map (\<lambda>w. CHR '':'' # w) (tl ws)) @
     (if query then ''?'' else [])"

lemma isMnemonicChar_alpha: "isalpha c \<Longrightarrow> isMnemonicChar c"
  by (simp add: isMnemonicChar_def isalnum_def)

lemma mnem_len_mnemonic:
  assumes "is_mnemonic w" "\<not> starts isMnemonicChar ys"
  shows "mnem_len (w @ ys) = length w"
proof -
  obtain c cs where "w = c # cs" "isalpha c" "\<forall>c\<in>set cs. isMnemonicChar c"
    using assms(1) by (cases w) (auto simp: is_mnemonic_def)
  then show ?thesis by (simp add: mnem_len_def span_append_stop [OF _ assms(2)])
qed

lemma special_not_mnemonic [simp]:
  "\<not> isMnemonicChar (CHR '':'')" "\<not> isMnemonicChar (CHR ''?'')" "\<not> isMnemonicChar (CHR ''*'')"
  "\<not> isMnemonicChar (CHR '' '')"
  by (simp_all add: isMnemonicChar_def isalnum_def isalpha_def isupper_def islower_def isdigit_def)

lemma colon_mnems_list:
  assumes "\<forall>w\<in>set ws. is_mnemonic w" "\<not> starts isMnemonicChar ys" "\<not> starts (\<lambda>c. c = CHR '':'') ys"
  shows "colon_mnems (concat (map (\<lambda>w. CHR '':'' # w) ws) @ ys) =
           (True, length (concat (map (\<lambda>w. CHR '':'' # w) ws)))"
  using assms(1)
proof (induction ws)
  case Nil
  then show ?case using assms(3) by (cases ys) auto
next
  case (Cons w ws)
  let ?zs = "concat (map (\<lambda>w. CHR '':'' # w) ws) @ ys"
  have n: "\<not> starts isMnemonicChar ?zs" using assms(2) by (cases ws) (auto simp: starts_def)
  have w: "mnem_len (w @ ?zs) = length w" "0 < length w"
    using Cons.prems n mnem_len_mnemonic by (auto simp: is_mnemonic_def)
  have e: "colon_mnems ?zs = (True, length (concat (map (\<lambda>w. CHR '':'' # w) ws)))"
    using Cons by simp
  show ?case
  proof (cases "?zs = []")
    case True
    then show ?thesis using w by (simp add: Let_def)
  next
    case False
    then show ?thesis using w e by (simp add: Let_def)
  qed
qed

lemma header_scan_text:
  assumes "ws \<noteq> []" "\<forall>w\<in>set ws. is_mnemonic w"
    "\<not> starts (\<lambda>c. isMnemonicChar c \<or> c = CHR '':'' \<or> c = CHR ''?'') ys"
  shows "header_scan (header_text colon ws query @ ys) =
           (if query then SCPI_TOKEN_COMPOUND_QUERY_PROGRAM_HEADER
            else SCPI_TOKEN_COMPOUND_PROGRAM_HEADER, length (header_text colon ws query))"
proof -
  obtain w vs where ws: "ws = w # vs" using assms(1) by (cases ws) auto
  define q where "q = (if query then ''?'' else [])"
  define zs where "zs = concat (map (\<lambda>w. CHR '':'' # w) vs)"
  have y: "\<not> starts isMnemonicChar (q @ ys)" "\<not> starts (\<lambda>c. c = CHR '':'') (q @ ys)"
    "\<not> starts (\<lambda>c. c = CHR ''?'') ys"
    using assms(3) by (auto simp: q_def starts_def split: list.splits)
  have n: "\<not> starts isMnemonicChar (zs @ q @ ys)"
    using y(1) by (cases vs) (auto simp: zs_def starts_def)
  have w: "mnem_len (w @ zs @ q @ ys) = length w" "w \<noteq> []" "starts isalpha w"
    using assms(2) n mnem_len_mnemonic by (auto simp: ws is_mnemonic_def)
  have c: "colon_mnems (zs @ q @ ys) = (True, length zs)"
    unfolding zs_def using assms(2) y by (intro colon_mnems_list) (auto simp: ws)
  obtain a as where wa: "w = a # as" "isalpha a" using w(2,3) by (cases w) auto
  then have a: "a \<noteq> CHR ''*''" "a \<noteq> CHR '':''"
    by (auto simp: isalpha_def isupper_def islower_def)
  have t: "header_text colon ws query @ ys = (if colon then '':'' else []) @ w @ zs @ q @ ys"
    by (simp add: header_text_def ws zs_def q_def)
  have o: "opt (\<lambda>c. c = CHR ''?'') (q @ ys) = length q"
    using y(3) by (auto simp: q_def opt_def)
  have d: "drop (length w + length zs) (w @ zs @ q @ ys) = q @ ys" by simp
  show ?thesis
    unfolding t header_scan_def
    using w(1) c a o d wa
    by (cases colon) (simp_all add: Let_def header_text_def ws zs_def q_def)
qed

text \<open>C34: A compound header is read back as one token.  A list of mnemonics joined by colons,
  with or without a leading colon and a final question mark, followed by a character that cannot
  continue it, is the token that \<^verbatim>\<open>scpiLex_ProgramHeader\<close> finds, with the type of a query exactly
  if the question mark is there.\<close>

theorem lex_header_text:
  assumes "rest m s = header_text colon ws query @ ys" "ws \<noteq> []" "\<forall>w\<in>set ws. is_mnemonic w"
    "\<not> starts (\<lambda>c. isMnemonicChar c \<or> c = CHR '':'' \<or> c = CHR ''?'') ys"
  shows "scpiLex_ProgramHeader m s tok =
           (let k = length (header_text colon ws query)
            in (int k, advance k s,
                \<lparr>tk_type = (if query then SCPI_TOKEN_COMPOUND_QUERY_PROGRAM_HEADER
                           else SCPI_TOKEN_COMPOUND_PROGRAM_HEADER),
                 tk_ptr = Some (lx_pos s), tk_len = int k\<rparr>))"
  unfolding ProgramHeader_eq assms(1) header_scan_text [OF assms(2-4)] by (simp add: Let_def)

lemma lex_header_text_witness:
  "scpiLex_ProgramHeader ''SYSTem:ERRor? 1'' (whole ''SYSTem:ERRor? 1'')
     (token_at (whole []) SCPI_TOKEN_WS 0) =
   (13, advance 13 (whole ''SYSTem:ERRor? 1''),
    \<lparr>tk_type = SCPI_TOKEN_COMPOUND_QUERY_PROGRAM_HEADER, tk_ptr = Some 0, tk_len = 13\<rparr>)"
proof -
  have "rest ''SYSTem:ERRor? 1'' (whole ''SYSTem:ERRor? 1'') =
      header_text False [''SYSTem'', ''ERRor''] True @ '' 1''"
    by (simp add: header_text_def)
  from lex_header_text [OF this, of "token_at (whole []) SCPI_TOKEN_WS 0"] show ?thesis
    by (simp add: is_mnemonic_def isMnemonicChar_def isalnum_def isalpha_def isupper_def
        islower_def isdigit_def header_text_def whole_def Let_def)
qed

end
