(* ===== verification/MatchProps.thy ===== *)
theory MatchProps
  imports Match LexerProps
begin

text \<open>
  What \<^verbatim>\<open>matchCommand\<close> decides.  A pattern is a list of parts, each a keyword that may be optional;
  a command is a list of words.  \<open>greedy_match\<close> is the specification: the parts are taken from left
  to right, a part that does not match is passed over if it is optional, and the parts left at the
  end must be optional.
\<close>

section \<open>Keywords\<close>

lemma strncaseeq_take:
  "n \<le> length a \<Longrightarrow> n \<le> length b \<Longrightarrow> NUL \<notin> set (take n a) \<Longrightarrow>
     strncaseeq a b n \<longleftrightarrow> map tolower (take n a) = map tolower (take n b)"
proof (induction n arbitrary: a b)
  case (Suc n)
  then obtain x xs y ys where "a = x # xs" "b = y # ys" by (cases a; cases b) auto
  with Suc show ?case by auto
qed simp

lemma strncaseeq_append:
  "n \<le> length a \<Longrightarrow> n \<le> length b \<Longrightarrow> strncaseeq (a @ c) (b @ d) n = strncaseeq a b n"
proof (induction n arbitrary: a b)
  case (Suc n)
  then obtain x xs y ys where "a = x # xs" "b = y # ys" by (cases a; cases b) auto
  with Suc show ?case by auto
qed simp

lemma OUR_strncasecmp_0: "OUR_strncasecmp a b n = 0 \<longleftrightarrow> strncaseeq a b n"
  by (induction a b n rule: OUR_strncasecmp.induct) (auto simp: Let_def)

lemma patternSeparatorShortPos_eq:
  "n \<le> length p \<Longrightarrow> NUL \<notin> set (take n p) \<Longrightarrow>
     patternSeparatorShortPos p n = length (takeWhile (\<lambda>c. \<not> islower c) (take n p))"
  by (induction p n rule: patternSeparatorShortPos.induct) auto

lemma patternSeparatorShortPos_le: "patternSeparatorShortPos p n \<le> min n (length p)"
  by (induction p n rule: patternSeparatorShortPos.induct) auto

lemma patternSeparatorShortPos_append:
  "n \<le> length p \<Longrightarrow> patternSeparatorShortPos (p @ q) n = patternSeparatorShortPos p n"
  by (induction p n rule: patternSeparatorShortPos.induct) auto

lemma compareStr_append:
  "len1 \<le> length a \<Longrightarrow> len2 \<le> length b \<Longrightarrow>
     compareStr (a @ c) len1 (b @ d) len2 = compareStr a len1 b len2"
  by (auto simp: compareStr_def strncaseeq_append)

lemma compareStrAndNum_append:
  "len1 \<le> length a \<Longrightarrow> len2 \<le> length b \<Longrightarrow>
     compareStrAndNum (a @ c) len1 (b @ d) len2 False = compareStrAndNum a len1 b len2 False"
  by (auto simp: compareStrAndNum_def strncaseeq_append nth_append)

lemma compareStrAndNum_none: "snd (compareStrAndNum a n b k False) = None"
  by (simp add: compareStrAndNum_def)

text \<open>The comparison of one keyword; \<open>keyword_match_plain\<close> and \<open>keyword_match_number\<close> below say what it decides.\<close>

definition keyword_match :: "char list \<Rightarrow> char list \<Rightarrow> bool" where
  "keyword_match kw w = fst (matchPattern kw (length kw) w (length w) False)"

lemma matchPattern_append:
  "matchPattern (kw @ a) (length kw) (w @ b) (length w) False = (keyword_match kw w, None)"
proof -
  have s: "patternSeparatorShortPos kw n \<le> length kw" for n
    using patternSeparatorShortPos_le [of kw n] by simp
  show ?thesis
  proof (cases "0 < length kw \<and> rd kw (length kw - 1) = CHR ''#''")
    case True
    let ?n = "length kw - Suc 0" and ?k = "patternSeparatorShortPos kw (length kw - Suc 0)"
    have le: "?n \<le> length kw" "?k \<le> length kw" using s [of ?n] by simp_all
    obtain r1 r2 where r: "compareStrAndNum kw ?n w (length w) False = (r1, None)"
      "compareStrAndNum kw ?k w (length w) False = (r2, None)"
      using compareStrAndNum_none by (metis prod.collapse)
    have "rd (kw @ a) ?n = rd kw ?n" using True by (simp add: rd_append1 del: rd_less)
    moreover have "compareStrAndNum (kw @ a) ?n (w @ b) (length w) False = (r1, None)"
      "compareStrAndNum (kw @ a) ?k (w @ b) (length w) False = (r2, None)"
      using le r by (simp_all add: compareStrAndNum_append)
    moreover have "patternSeparatorShortPos (kw @ a) ?n = ?k"
      using le by (simp add: patternSeparatorShortPos_append)
    ultimately show ?thesis
      using True r by (simp add: keyword_match_def matchPattern_def Let_def del: rd_less)
  next
    case False
    then have "\<not> (0 < length kw \<and> rd (kw @ a) (length kw - 1) = CHR ''#'')"
      by (auto simp: rd_append1)
    then show ?thesis
      using False s [of "length kw"]
      by (auto simp: keyword_match_def matchPattern_def Let_def compareStr_append
          patternSeparatorShortPos_append simp del: rd_less)
  qed
qed

text \<open>The short form of a keyword: its characters before the first lower case letter.\<close>

definition short_form :: "char list \<Rightarrow> char list" where
  "short_form kw = takeWhile (\<lambda>c. \<not> islower c) kw"

definition same_nocase :: "char list \<Rightarrow> char list \<Rightarrow> bool" where
  "same_nocase a b \<longleftrightarrow> map tolower a = map tolower b"

lemma compareStr_same:
  assumes "NUL \<notin> set a"
  shows "n \<le> length a \<Longrightarrow> compareStr a n w (length w) \<longleftrightarrow> same_nocase (take n a) w"
proof -
  assume n: "n \<le> length a"
  have "NUL \<notin> set (take n a)" using assms by (auto dest: in_set_takeD)
  note t = strncaseeq_take [OF n _ this, of w]
  show ?thesis
  proof (cases "n = length w")
    case True
    then show ?thesis using t by (simp add: compareStr_def same_nocase_def)
  next
    case False
    then have "length (map tolower (take n a)) \<noteq> length (map tolower w)" using n by simp
    then have "map tolower (take n a) \<noteq> map tolower w" by metis
    then show ?thesis using False by (simp add: compareStr_def same_nocase_def)
  qed
qed

lemma compareStrAndNum_same:
  assumes "NUL \<notin> set a" "n \<le> length a"
  shows "fst (compareStrAndNum a n w (length w) False) \<longleftrightarrow>
           n \<le> length w \<and> same_nocase (take n a) (take n w) \<and> (\<forall>c\<in>set (drop n w). isdigit c)"
proof -
  have "NUL \<notin> set (take n a)" using assms(1) by (auto dest: in_set_takeD)
  moreover have "(\<forall>i\<in>set [n..<length w]. isdigit (rd w i)) \<longleftrightarrow> (\<forall>c\<in>set (drop n w). isdigit c)"
    if "n \<le> length w"
  proof
    assume *: "\<forall>i\<in>set [n..<length w]. isdigit (rd w i)"
    show "\<forall>c\<in>set (drop n w). isdigit c"
    proof
      fix c assume "c \<in> set (drop n w)"
      then obtain j where "j < length w - n" "c = w ! (n + j)" by (auto simp: set_conv_nth)
      then show "isdigit c" using * by auto
    qed
  next
    assume *: "\<forall>c\<in>set (drop n w). isdigit c"
    show "\<forall>i\<in>set [n..<length w]. isdigit (rd w i)"
    proof
      fix i assume i: "i \<in> set [n..<length w]"
      then have "w ! i = drop n w ! (i - n)" "i - n < length (drop n w)" by auto
      then have "w ! i \<in> set (drop n w)" by (metis nth_mem)
      then show "isdigit (rd w i)" using * i by simp
    qed
  qed
  ultimately show ?thesis
    using strncaseeq_take [OF assms(2), of w]
    by (simp add: compareStrAndNum_def same_nocase_def del: set_upt)
qed


section \<open>One round of the loop\<close>

text \<open>A character that ends a keyword of a pattern, and one that ends a word of a command.\<close>

definition kw_char :: "char \<Rightarrow> bool" where
  "kw_char c \<longleftrightarrow> c \<notin> {NUL, CHR ''?'', CHR '':'', CHR ''['', CHR '']''}"

definition word_char :: "char \<Rightarrow> bool" where
  "word_char c \<longleftrightarrow> c \<notin> {NUL, CHR ''?'', CHR '':''}"

abbreviation mst :: "nat \<Rightarrow> nat \<Rightarrow> nat \<Rightarrow> nat \<Rightarrow> int \<Rightarrow> nat \<Rightarrow> match_state" where
  "mst pp plen cp clen b i \<equiv> \<lparr>ms_pp = int pp, ms_plen = int plen, ms_cp = cp, ms_clen = clen,
     ms_brackets = b, ms_nidx = i, ms_numbers = None\<rparr>"

lemma strnpbrk_skip:
  "\<forall>c\<in>set a. c \<noteq> NUL \<and> c \<notin> set cs \<Longrightarrow>
     strnpbrk (a @ b) (length a + n) cs = map_option ((+) (length a)) (strnpbrk b n cs)"
proof (induction a)
  case Nil
  then show ?case by (cases "strnpbrk b n cs") simp_all
next
  case (Cons c a)
  then show ?case by (cases "strnpbrk b n cs") simp_all
qed

lemma strnpbrk_hd:
  "b = [] \<or> hd b \<noteq> NUL \<and> hd b \<in> set cs \<Longrightarrow>
     strnpbrk (b @ c) (length b) cs = (if b = [] then None else Some 0)"
  by (cases b) auto

lemma rdz_append: "0 \<le> k \<Longrightarrow> rdz (a @ b) (int (length a) + k) = rdz b k"
  by (auto simp: rdz_def nth_append nat_add_distrib)

lemma rdz_append0: "rdz (a @ b) (int (length a)) = rdz b 0"
  using rdz_append [of 0 a b] by simp

lemma rdz_Cons: "rdz (c # s) i = (if i = 0 then Some c else rdz s (i - 1))"
  by (auto simp: rdz_def nth_Cons' nat_diff_distrib)

lemma rdz_Nil: "rdz [] i = (if i = 0 then Some NUL else None)"
  by (simp add: rdz_def)

lemma sepPos_kw:
  assumes "\<forall>c\<in>set kw. kw_char c" "R = [] \<or> hd R \<in> set '':[]''"
    "length kw + length R < 2 ^ 32"
  shows "sepPos (pre @ kw @ R @ q) (int (length pre)) (int (length kw + length R))
           = Some (int (length kw))"
proof -
  have "\<forall>c\<in>set kw. c \<noteq> NUL \<and> c \<notin> set ''?:[]''" using assms(1) by (auto simp: kw_char_def)
  moreover have "strnpbrk (R @ q) (length R) ''?:[]'' = (if R = [] then None else Some 0)"
    using assms(2) by (intro strnpbrk_hd) auto
  moreover have "nat (int (length kw + length R) mod 2 ^ 32) = length kw + length R"
    using assms(3) by (subst mod_pos_pos_trivial) (simp_all del: of_nat_add)
  ultimately show ?thesis
    by (simp add: sepPos_def strnpbrk_skip del: of_nat_add)
qed

lemma cmdSeparatorPos_word:
  assumes "\<forall>c\<in>set w. word_char c" "CR = [] \<or> hd CR \<in> set '':?''"
  shows "cmdSeparatorPos (w @ CR @ ctail) (length w + length CR) = length w"
proof -
  have "\<forall>c\<in>set w. c \<noteq> NUL \<and> c \<notin> set '':?''" using assms(1) by (auto simp: word_char_def)
  moreover have "strnpbrk (CR @ ctail) (length CR) '':?'' = (if CR = [] then None else Some 0)"
    using assms(2) by (intro strnpbrk_hd) auto
  ultimately show ?thesis by (simp add: cmdSeparatorPos_def strnpbrk_skip)
qed

definition next_nidx :: "char list \<Rightarrow> nat \<Rightarrow> nat" where
  "next_nidx kw i = (if kw \<noteq> [] \<and> last kw = CHR ''#'' then Suc i else i)"

lemma matchRound_word:
  assumes "\<forall>c\<in>set kw. kw_char c" "R = [] \<or> hd R \<in> set '':[]''"
    "\<forall>c\<in>set w. word_char c" "CR = [] \<or> hd CR \<in> set '':?''"
    "length kw + length R < 2 ^ 32"
  shows "matchRound (pre @ kw @ R @ q) (cpre @ w @ CR @ ctail) n d
           (mst (length pre) (length kw + length R) (length cpre) (length w + length CR) b i) =
         (if keyword_match kw w
          then after_match (pre @ kw @ R @ q) (cpre @ w @ CR @ ctail)
                 (mst (length pre + length kw) (length R) (length cpre + length w) (length CR) b
                   (next_nidx kw i))
          else after_mismatch (pre @ kw @ R @ q)
                 (mst (length pre + length kw) (length R) (length cpre) (length w + length CR) b
                   (next_nidx kw i)))"
proof -
  note sp = sepPos_kw [OF assms(1,2,5), of pre q]
  note cp = cmdSeparatorPos_word [OF assms(3,4), of ctail]
  note mp = matchPattern_append [of kw "R @ q" w "CR @ ctail"]
  have hash: "(0 < int (length kw) \<and>
      rdz (pre @ kw @ R @ q) (int (length pre) + int (length kw) - 1) = Some (CHR ''#''))
      = (kw \<noteq> [] \<and> last kw = CHR ''#'')"
    by (cases kw rule: rev_cases) (auto simp: rdz_def nth_append nat_add_distrib)
  show ?thesis
    using sp cp mp hash
    by (simp add: matchRound_def Let_def store_number_def SKIP_PATTERN_def SKIP_CMD_def
        next_nidx_def algebra_simps del: rd_less cong: option.case_cong)
qed

section \<open>Patterns as lists of parts\<close>

type_synonym pattern_part = "bool \<times> char list"

fun part_text :: "pattern_part \<Rightarrow> char list" where
  "part_text (True, kw) = CHR ''['' # CHR '':'' # kw @ [CHR '']'']"
| "part_text (False, kw) = CHR '':'' # kw"

definition parts_text :: "pattern_part list \<Rightarrow> char list" where
  "parts_text ps = concat (map part_text ps)"

lemma parts_text_simps [simp]:
  "parts_text [] = []"
  "parts_text ((True, kw) # ps) = CHR ''['' # CHR '':'' # kw @ CHR '']'' # parts_text ps"
  "parts_text ((False, kw) # ps) = CHR '':'' # kw @ parts_text ps"
  by (simp_all add: parts_text_def)

definition good_part :: "pattern_part \<Rightarrow> bool" where
  "good_part p \<longleftrightarrow> snd p \<noteq> [] \<and> (\<forall>c\<in>set (snd p). kw_char c)"

lemma good_part_pair [simp]: "good_part (b, kw) \<longleftrightarrow> kw \<noteq> [] \<and> (\<forall>c\<in>set kw. kw_char c)"
  by (simp add: good_part_def)

lemma parts_text_hd: "parts_text ps = [] \<or> hd (parts_text ps) \<in> set '':[]''"
proof (cases ps)
  case (Cons p ps')
  then show ?thesis by (cases p; cases "fst p") simp_all
qed simp

lemma kw_char_neq: "kw_char c \<Longrightarrow> c \<noteq> CHR ''['' \<and> c \<noteq> CHR '':'' \<and> c \<noteq> CHR '']'' \<and> c \<noteq> CHR ''?''"
  by (simp add: kw_char_def)

text \<open>One round of the loop over the optional rest.\<close>

lemma skipOptional_step:
  assumes "\<forall>c\<in>set kw. kw_char c" "x \<in> set '':[]''" "length kw + length (x # R) < 2 ^ 32"
  shows "skipOptional (pre @ kw @ x # R @ q) (int (length pre)) (int (length kw + length (x # R))) b =
           (let b = (if x = CHR ''['' then b + 1 else if x = CHR '']'' then b - 1 else b);
                pp = int (length (pre @ kw @ [x])); plen = int (length R)
            in if b = 0
               then (if 0 < plen \<and> rdz (pre @ kw @ x # R @ q) pp = Some (CHR ''['')
                     then skipOptional (pre @ kw @ x # R @ q) pp plen b
                     else Some (pp, plen, b))
               else skipOptional (pre @ kw @ x # R @ q) pp plen b)"
proof -
  have s: "sepPos (pre @ kw @ x # R @ q) (int (length pre)) (int (length kw + length (x # R)))
             = Some (int (length kw))"
    using sepPos_kw [OF assms(1) _ assms(3), of pre q] assms(2) by simp
  have r: "rdz (pre @ kw @ x # R @ q) (int (length pre) + int (length kw)) = Some x"
    by (simp add: rdz_append rdz_append0 rdz_Cons)
  have a: "int (length pre) + (int (length kw) + 1) = int (length (pre @ kw @ [x]))"
    "int (length kw + length (x # R)) - (int (length kw) + 1) = int (length R)"
    by simp_all
  have n: "int (length kw + length (x # R)) \<noteq> 0" by simp
  show ?thesis
    by (subst skipOptional.simps) (simp only: n s r a if_False bind.bind_lunit Let_def)
qed

lemma skipOptional_at:
  assumes "P = pre @ kw @ x # R @ q" "p = int (length pre)" "l = int (length kw + length (x # R))"
    "\<forall>c\<in>set kw. kw_char c" "x \<in> set '':[]''" "l < 2 ^ 32"
  shows "skipOptional P p l b =
           (let b = (if x = CHR ''['' then b + 1 else if x = CHR '']'' then b - 1 else b);
                pp = int (length (pre @ kw @ [x])); plen = int (length R)
            in if b = 0
               then (if 0 < plen \<and> rdz P pp = Some (CHR ''['')
                     then skipOptional P pp plen b
                     else Some (pp, plen, b))
               else skipOptional P pp plen b)"
  unfolding assms(1-3) using assms(3,6) by (intro skipOptional_step assms(4,5)) simp

lemma skipOptional_open:
  assumes "P = pre @ CHR ''['' # CHR '':'' # R @ q" "length R + 2 < 2 ^ 32"
  shows "skipOptional P (int (length pre)) (int (length R + 2)) 0 =
           skipOptional P (int (length pre + 2)) (int (length R)) 1"
proof -
  have "skipOptional P (int (length pre)) (int (length R + 2)) 0 =
          skipOptional P (int (length (pre @ ''[''))) (int (length (CHR '':'' # R))) 1"
    using assms(2) by (subst skipOptional_at [of _ pre "[]" "CHR ''[''" "CHR '':'' # R" q]) (simp_all add: assms(1))
  also have "\<dots> = skipOptional P (int (length pre + 2)) (int (length R)) 1"
    using assms(2) by (subst skipOptional_at [of _ "pre @ ''[''" "[]" "CHR '':''" R q]) (simp_all add: assms(1))
  finally show ?thesis .
qed

lemma skipOptional_closing:
  assumes "list_all good_part ps" "\<forall>c\<in>set kw. kw_char c"
    "length kw + Suc (length (parts_text ps)) < 2 ^ 32"
    "P = pre @ kw @ CHR '']'' # parts_text ps @ q"
  shows "\<exists>pp plen b. skipOptional P (int (length pre)) (int (length kw + Suc (length (parts_text ps)))) 1
           = Some (pp, plen, b) \<and> (plen = 0 \<longleftrightarrow> (\<forall>p\<in>set ps. fst p))"
  using assms
proof (induction ps arbitrary: kw pre)
  case Nil
  then show ?case
    by (subst skipOptional_at [of _ pre kw "CHR '']''" "[]" q]) simp_all
next
  case (Cons p ps)
  obtain o' kw' where p: "p = (o', kw')" by (cases p)
  note kw = Cons.prems(2) and len = Cons.prems(3) and P = Cons.prems(4)
  have good: "\<forall>c\<in>set kw'. kw_char c" "list_all good_part ps"
    using Cons.prems(1) by (simp_all add: p)
  let ?R = "parts_text (p # ps)" and ?pre = "pre @ kw @ [CHR '']'']"
  have first: "skipOptional P (int (length pre)) (int (length kw + Suc (length ?R))) 1 =
      (if 0 < int (length ?R) \<and> rdz P (int (length ?pre)) = Some (CHR ''['')
       then skipOptional P (int (length ?pre)) (int (length ?R)) 0
       else Some (int (length ?pre), int (length ?R), 0))"
    using kw len by (subst skipOptional_at [of _ pre kw "CHR '']''" ?R q]) (simp_all add: P del: of_nat_add)
  have hd: "rdz P (int (length ?pre)) = rdz (?R @ q) 0"
    using rdz_append0 [of ?pre "?R @ q"] by (simp add: P)
  show ?case
  proof (cases o')
    case True
    let ?R' = "kw' @ CHR '']'' # parts_text ps"
    have "skipOptional P (int (length ?pre)) (int (length ?R' + 2)) 0
        = skipOptional P (int (length ?pre + 2)) (int (length ?R')) 1"
      using len by (intro skipOptional_open [of _ _ _ q]) (simp_all add: P p True)
    moreover have "skipOptional P (int (length pre)) (int (length kw + Suc (length ?R))) 1 =
        skipOptional P (int (length ?pre)) (int (length ?R' + 2)) 0"
      unfolding first hd by (simp add: p True rdz_Cons algebra_simps)
    ultimately have eq: "skipOptional P (int (length pre)) (int (length kw + Suc (length ?R))) 1 =
        skipOptional P (int (length ?pre + 2)) (int (length ?R')) 1" by simp
    have "\<exists>pp plen b. skipOptional P (int (length (?pre @ ''[:'')))
        (int (length kw' + Suc (length (parts_text ps)))) 1
           = Some (pp, plen, b) \<and> (plen = 0 \<longleftrightarrow> (\<forall>p\<in>set ps. fst p))"
      using len by (intro Cons.IH good) (simp_all add: P p True)
    then show ?thesis unfolding eq by (simp add: p True)
  next
    case False
    then show ?thesis unfolding first hd by (simp add: p rdz_Cons)
  qed
qed

lemma skipOptional_plain:
  assumes "list_all good_part ps" "length (parts_text ps) < 2 ^ 32"
    "P = pre @ parts_text ps @ q"
  shows "\<exists>pp plen b. skipOptional P (int (length pre)) (int (length (parts_text ps))) 0
           = Some (pp, plen, b) \<and> (plen = 0 \<longleftrightarrow> (\<forall>p\<in>set ps. fst p))"
proof (cases ps)
  case Nil
  then show ?thesis by (simp add: skipOptional.simps)
next
  case (Cons p ps')
  obtain o' kw' where p: "p = (o', kw')" by (cases p)
  have good: "\<forall>c\<in>set kw'. kw_char c" "list_all good_part ps'" "kw' \<noteq> []"
    using assms(1) by (simp_all add: Cons p)
  show ?thesis
  proof (cases o')
    case True
    let ?R' = "kw' @ CHR '']'' # parts_text ps'"
    have "skipOptional P (int (length pre)) (int (length ?R' + 2)) 0
        = skipOptional P (int (length pre + 2)) (int (length ?R')) 1"
      using assms(2,3) by (intro skipOptional_open [of _ _ _ q]) (simp_all add: Cons p True)
    moreover have "\<exists>pp plen b. skipOptional P (int (length (pre @ ''[:'')))
        (int (length kw' + Suc (length (parts_text ps')))) 1
           = Some (pp, plen, b) \<and> (plen = 0 \<longleftrightarrow> (\<forall>p\<in>set ps'. fst p))"
      using assms(2,3) by (intro skipOptional_closing good) (simp_all add: Cons p True)
    ultimately show ?thesis by (simp add: Cons p True algebra_simps)
  next
    case False
    obtain k ks where kw': "kw' = k # ks" using good(3) by (cases kw') blast+
    have "k \<noteq> CHR ''[''" using good(1) kw_char_neq [of k] by (simp add: kw')
    moreover have "rdz P (int (length (pre @ '':''))) = Some k"
      using rdz_append0 [of "pre @ '':''" "ks @ parts_text ps' @ q"] rdz_append0 [of "pre @ '':''"]
      by (simp add: assms(3) Cons p False kw' rdz_Cons rdz_append)
    ultimately show ?thesis
      using assms(2)
      by (subst skipOptional_at [of _ pre "[]" "CHR '':''" "kw' @ parts_text ps'" q])
        (simp_all add: assms(3) Cons p False kw' del: of_nat_add)
  qed
qed

section \<open>The loop\<close>

definition closing :: "bool \<Rightarrow> char list" where
  "closing optl = (if optl then '']'' else [])"

lemma closing_simps [simp]: "closing True = '']''" "closing False = []"
  by (simp_all add: closing_def)

text \<open>The rest of a pattern after a keyword, and where its next part begins.\<close>

definition rest_text :: "bool \<Rightarrow> pattern_part list \<Rightarrow> char list" where
  "rest_text optl ps = closing optl @ parts_text ps"

definition joint :: "bool \<Rightarrow> bool \<Rightarrow> char list" where
  "joint optl optl' = closing optl @ (if optl' then ''[:'' else '':'')"

lemma rest_text_Cons: "rest_text optl ((optl', kw) # ps) = joint optl optl' @ kw @ rest_text optl' ps"
  by (cases optl') (simp_all add: rest_text_def joint_def)

lemma rest_text_hd: "rest_text optl ps = [] \<or> hd (rest_text optl ps) \<in> set '':[]''"
  using parts_text_hd [of ps] by (simp add: rest_text_def closing_def)

definition words_rest :: "char list list \<Rightarrow> char list" where
  "words_rest ws = concat (map ((#) (CHR '':'')) ws)"

lemma words_rest_simps [simp]:
  "words_rest [] = []" "words_rest (w # ws) = CHR '':'' # w @ words_rest ws"
  by (simp_all add: words_rest_def)

lemma words_rest_hd:
  "t = [] \<or> hd t = CHR ''?'' \<Longrightarrow> words_rest ws @ t = [] \<or> hd (words_rest ws @ t) \<in> set '':?''"
  by (cases ws) auto

lemma after_match_next:
  assumes "P = pre @ joint optl optl' @ kw @ q" "C = cpre @ CHR '':'' # ctail" "kw \<noteq> []"
  shows "after_match P C (mst (length pre) (length (joint optl optl') + length kw + l) (length cpre)
            (Suc k) (of_bool optl) i) =
         Some (Inl (mst (length (pre @ joint optl optl')) (length kw + l) (length (cpre @ '':'')) k
            (of_bool optl') i))"
  using assms
  by (cases optl; cases optl')
    (simp_all add: after_match_def Let_def SKIP_CMD_def SKIP_PATTERN_def joint_def rdz_append
      rdz_append0 rdz_Cons rd_def nth_append)

lemma after_match_last:
  assumes "P = pre @ closing optl @ q"
  shows "after_match P C (mst (length pre) (length (closing optl)) cp (Suc k) b i)
    = Some (Inr (False, None))"
  using assms by (cases optl) (simp_all add: after_match_def Let_def rdz_append0 rdz_Cons)

lemma after_match_question:
  assumes "C = cpre @ CHR ''?'' # ctail"
  shows "after_match P C (mst pp l (length cpre) (Suc k) b i) = Some (Inr (False, None))"
proof -
  have c0: "rd C (length cpre) = CHR ''?''" by (simp add: assms rd_def)
  have no: "rdz P j = Some (CHR ''?'') \<Longrightarrow> rdz P j \<noteq> Some (CHR '':'')" for j by simp
  show ?thesis
    unfolding after_match_def Let_def
    by (auto simp: c0 dest: no)
qed

lemma after_match_done:
  assumes "P = pre @ rest_text optl ps @ q" "list_all good_part ps" "length P < 2 ^ 32"
  shows "after_match P C (mst (length pre) (length (rest_text optl ps)) cp 0 (of_bool optl) i)
    = Some (Inr (\<forall>p\<in>set ps. fst p, None))"
proof -
  have "\<exists>pp plen b. skipOptional P (int (length pre)) (int (length (rest_text optl ps))) (of_bool optl)
           = Some (pp, plen, b) \<and> (plen = 0 \<longleftrightarrow> (\<forall>p\<in>set ps. fst p))"
  proof (cases optl)
    case True
    then show ?thesis
      using skipOptional_closing [OF assms(2), of "[]" P pre q] assms(1,3)
      by (simp add: rest_text_def)
  next
    case False
    then show ?thesis
      using skipOptional_plain [OF assms(2), of P pre q] assms(1,3) by (simp add: rest_text_def)
  qed
  then obtain pp plen b where
    s: "skipOptional P (int (length pre)) (int (length (rest_text optl ps))) (of_bool optl)
         = Some (pp, plen, b)" "plen = 0 \<longleftrightarrow> (\<forall>p\<in>set ps. fst p)" by blast
  show ?thesis
  proof (cases "rest_text optl ps = []")
    case True
    then have "ps = []" by (cases ps) (auto simp: rest_text_Cons joint_def split: if_splits)
    then show ?thesis using True by (simp add: after_match_def)
  next
    case False
    then show ?thesis using s by (simp add: after_match_def Let_def)
  qed
qed

lemma after_mismatch_next:
  assumes "P = pre @ joint True optl' @ kw @ q" "kw \<noteq> []"
  shows "after_mismatch P (mst (length pre) (length (joint True optl') + length kw + l) cp clen 1 i) =
         Some (Inl (mst (length (pre @ joint True optl')) (length kw + l) cp clen (of_bool optl') i))"
  using assms
  by (cases optl')
    (simp_all add: after_mismatch_def Let_def SKIP_PATTERN_def joint_def rdz_append
      rdz_append0 rdz_Cons)

lemma after_mismatch_plain:
  assumes "P = pre @ parts_text ps @ q" "q \<in> {[], ''?''}"
  shows "after_mismatch P (mst (length pre) l cp clen b i) = Some (Inr (False, None))"
proof -
  obtain x where "rdz P (int (length pre)) = Some x" "x \<noteq> CHR '']''"
  proof (cases ps)
    case Nil
    then show ?thesis using that assms by (auto simp: rdz_append0 rdz_Cons rdz_Nil)
  next
    case (Cons p ps')
    then show ?thesis using that assms(1)
      by (cases p; cases "fst p") (simp_all add: rdz_append0 rdz_Cons)
  qed
  then show ?thesis by (simp add: after_mismatch_def)
qed

lemma after_mismatch_last:
  assumes "P = pre @ CHR '']'' # q" "q \<in> {[], ''?''}"
  shows "after_mismatch P (mst (length pre) 1 cp clen b i) = Some (Inr (False, None))"
  using assms by (auto simp: after_mismatch_def rdz_append rdz_append0 rdz_Cons rdz_Nil)

text \<open>The specification.\<close>

fun greedy_match :: "pattern_part list \<Rightarrow> char list list \<Rightarrow> bool" where
  "greedy_match ps [] = (\<forall>p\<in>set ps. fst p)"
| "greedy_match [] (w # ws) = False"
| "greedy_match ((optl, kw) # ps) (w # ws) =
     (if keyword_match kw w then greedy_match ps ws else optl \<and> greedy_match ps (w # ws))"

lemma matchRounds_unfold:
  "matchRound P C n d st = Some (Inl st') \<Longrightarrow> matchRounds P C n d st = matchRounds P C n d st'"
  "matchRound P C n d st = Some (Inr r) \<Longrightarrow> matchRounds P C n d st = Some r"
  by (subst matchRounds.simps, simp)+

lemma matchRounds_greedy:
  assumes "list_all good_part ((optl, kw) # ps)" "\<forall>c\<in>set w. word_char c"
    "\<forall>w\<in>set ws. \<forall>c\<in>set w. word_char c"
    "P = pre @ kw @ rest_text optl ps @ q" "q \<in> {[], ''?''}" "length P < 2 ^ 32"
    "C = cpre @ w @ (words_rest ws @ t) @ ctail" "t = [] \<or> hd t = CHR ''?''"
  shows "matchRounds P C n d (mst (length pre) (length kw + length (rest_text optl ps)) (length cpre)
           (length w + length (words_rest ws @ t)) (of_bool optl) i)
         = Some (greedy_match ((optl, kw) # ps) (w # ws) \<and> t = [], None)"
  using assms
proof (induction ps arbitrary: optl kw w ws pre cpre i)
  case Nil
  note P = Nil.prems(4) and q = Nil.prems(5) and C = Nil.prems(7) and t = Nil.prems(8)
  have kw: "\<forall>c\<in>set kw. kw_char c" using Nil.prems(1) by simp
  have "length kw + length (rest_text optl []) < 2 ^ 32" using Nil.prems(6) by (simp add: P)
  note round = matchRound_word [where R = "rest_text optl []" and CR = "words_rest ws @ t" and pre = pre and
      q = q and cpre = cpre and ctail = ctail and n = n and d = d and b = "of_bool optl" and i = i,
      OF kw rest_text_hd Nil.prems(2) words_rest_hd [OF t] this, folded P C]
  show ?case
  proof (cases "keyword_match kw w")
    case True
    show ?thesis
    proof (cases "words_rest ws @ t = []")
      case True
      then have "after_match P C (mst (length pre + length kw) (length (rest_text optl [])) cp 0
                   (of_bool optl) (next_nidx kw i)) = Some (Inr (True, None))" for cp
        using after_match_done [of P "pre @ kw" optl "[]" q C cp "next_nidx kw i"] Nil.prems(6)
        by (simp add: P)
      with True \<open>keyword_match kw w\<close> round show ?thesis
        by (cases ws) (simp_all add: matchRounds_unfold(2))
    next
      case False
      then obtain k where "length (words_rest ws @ t) = Suc k"
        by (metis length_0_conv not0_implies_Suc)
      moreover have "after_match P C (mst (length pre + length kw) (length (rest_text optl [])) cp (Suc k)
                   (of_bool optl) (next_nidx kw i)) = Some (Inr (False, None))" for cp k
        using after_match_last [of P "pre @ kw" optl q C cp] by (simp add: P rest_text_def)
      ultimately show ?thesis
        using False \<open>keyword_match kw w\<close> round
        by (cases ws) (auto simp: matchRounds_unfold(2))
    qed
  next
    case False
    have "after_mismatch P (mst (length pre + length kw) (length (rest_text optl [])) cp l
                   (of_bool optl) (next_nidx kw i)) = Some (Inr (False, None))" for cp l
      using after_mismatch_plain [of P "pre @ kw" "[]" q 0] after_mismatch_last [of P "pre @ kw" q] q
      by (cases optl) (simp_all add: P rest_text_def)
    with False round show ?thesis
      by (simp add: matchRounds_unfold(2))
  qed
next
  case (Cons p ps)
  obtain optl' kw' where p: "p = (optl', kw')" by (cases p)
  note P = Cons.prems(4) and q = Cons.prems(5) and C = Cons.prems(7) and t = Cons.prems(8)
  have kw: "\<forall>c\<in>set kw. kw_char c" and good: "list_all good_part (p # ps)" "kw' \<noteq> []"
    using Cons.prems(1) by (simp_all add: p)
  let ?R = "rest_text optl (p # ps)"
  have R: "?R = joint optl optl' @ kw' @ rest_text optl' ps" by (simp add: p rest_text_Cons)
  have "length kw + length ?R < 2 ^ 32" using Cons.prems(6) by (simp add: P)
  note round = matchRound_word [where R = "?R" and CR = "words_rest ws @ t" and pre = pre and
      q = q and cpre = cpre and ctail = ctail and n = n and d = d and b = "of_bool optl" and i = i,
      OF kw rest_text_hd Cons.prems(2) words_rest_hd [OF t] this, folded P C]
  show ?case
  proof (cases "keyword_match kw w")
    case match: True
    show ?thesis
    proof (cases ws)
      case Nil
      show ?thesis
      proof (cases "t = []")
        case True
        then show ?thesis
          using after_match_done [of P "pre @ kw" optl "p # ps" q C _ "next_nidx kw i"] good(1)
            Cons.prems(6) match round
          by (simp add: P Nil matchRounds_unfold(2))
      next
        case False
        then obtain t' where "t = CHR ''?'' # t'" using t by (cases t) auto
        then show ?thesis
          using after_match_question [of C "cpre @ w" "t' @ ctail" P "length (pre @ kw)" "length ?R" "length t'"
              "of_bool optl" "next_nidx kw i"] match round
          by (simp add: C Nil matchRounds_unfold(2))
      qed
    next
      case (Cons w' ws')
      let ?st = "mst (length ((pre @ kw) @ joint optl optl')) (length kw' + length (rest_text optl' ps))
        (length ((cpre @ w) @ '':'')) (length w' + length (words_rest ws' @ t)) (of_bool optl')
        (next_nidx kw i)"
      have "after_match P C (mst (length (pre @ kw)) (length (joint optl optl') + length kw'
              + length (rest_text optl' ps)) (length (cpre @ w)) (Suc (length w' + length (words_rest ws' @ t)))
              (of_bool optl) (next_nidx kw i)) = Some (Inl ?st)"
        by (rule after_match_next [of _ _ _ _ _ "rest_text optl' ps @ q" _ _ "w' @ words_rest ws' @ t @ ctail"])
          (simp_all add: P C R Cons good(2))
      then have "matchRounds P C n d (mst (length pre) (length kw + length ?R) (length cpre)
           (length w + length (words_rest ws @ t)) (of_bool optl) i) = matchRounds P C n d ?st"
        using match round by (intro matchRounds_unfold(1)) (simp add: R Cons algebra_simps)
      also have "\<dots> = Some (greedy_match (p # ps) (w' # ws') \<and> t = [], None)"
        unfolding p using Cons.prems good(1)
        by (intro Cons.IH) (simp_all add: P rest_text_Cons p Cons C)
      finally show ?thesis using match by (simp add: Cons)
    qed
  next
    case miss: False
    show ?thesis
    proof (cases optl)
      case True
      let ?st = "mst (length ((pre @ kw) @ joint True optl')) (length kw' + length (rest_text optl' ps))
        (length cpre) (length w + length (words_rest ws @ t)) (of_bool optl') (next_nidx kw i)"
      have "after_mismatch P (mst (length (pre @ kw)) (length (joint True optl') + length kw'
              + length (rest_text optl' ps)) (length cpre) (length w + length (words_rest ws @ t))
              1 (next_nidx kw i)) = Some (Inl ?st)"
        by (rule after_mismatch_next [of _ _ _ _ "rest_text optl' ps @ q"]) (simp_all add: P p rest_text_Cons True good(2))
      then have "matchRounds P C n d (mst (length pre) (length kw + length ?R) (length cpre)
           (length w + length (words_rest ws @ t)) (of_bool optl) i) = matchRounds P C n d ?st"
        using miss round by (intro matchRounds_unfold(1)) (simp add: p rest_text_Cons True algebra_simps)
      also have "\<dots> = Some (greedy_match (p # ps) (w # ws) \<and> t = [], None)"
        unfolding p using Cons.prems good(1)
        by (intro Cons.IH) (simp_all add: P rest_text_Cons p C True)
      finally show ?thesis using miss True by simp
    next
      case False
      then show ?thesis
        using after_mismatch_plain [of P "pre @ kw" "p # ps" q] q miss round
        by (simp add: P rest_text_def matchRounds_unfold(2))
    qed
  qed
qed

section \<open>What matchCommand decides\<close>

lemma keyword_match_plain:
  assumes "NUL \<notin> set kw" "kw = [] \<or> last kw \<noteq> CHR ''#''"
  shows "keyword_match kw w \<longleftrightarrow> same_nocase kw w \<or> same_nocase (short_form kw) w"
proof -
  have n: "(0 < length kw \<and> rd kw (length kw - 1) = CHR ''#'') = False"
    using assms(2) by (cases kw rule: rev_cases) auto
  have k: "patternSeparatorShortPos kw (length kw) = length (short_form kw)"
    using assms(1) by (simp add: patternSeparatorShortPos_eq short_form_def)
  moreover have "length (short_form kw) \<le> length kw"
    by (simp add: short_form_def length_takeWhile_le)
  moreover have "take (length (short_form kw)) kw = short_form kw"
    by (simp add: short_form_def takeWhile_eq_take [symmetric])
  ultimately show ?thesis
    using assms(1)
    unfolding keyword_match_def matchPattern_def n if_False Let_def fst_conv
    by (simp add: k compareStr_same)
qed

lemma digits_after:
  "(length a \<le> length w \<and> same_nocase a (take (length a) w) \<and> (\<forall>c\<in>set (drop (length a) w). isdigit c))
     \<longleftrightarrow> (\<exists>ds. (\<forall>c\<in>set ds. isdigit c) \<and> same_nocase (a @ ds) w)"
proof
  assume l: "length a \<le> length w \<and> same_nocase a (take (length a) w) \<and>
    (\<forall>c\<in>set (drop (length a) w). isdigit c)"
  then have "same_nocase (a @ drop (length a) w) (take (length a) w @ drop (length a) w)"
    unfolding same_nocase_def map_append by simp
  then show "\<exists>ds. (\<forall>c\<in>set ds. isdigit c) \<and> same_nocase (a @ ds) w"
    using l by (intro exI [of _ "drop (length a) w"]) simp
next
  assume "\<exists>ds. (\<forall>c\<in>set ds. isdigit c) \<and> same_nocase (a @ ds) w"
  then obtain ds where ds: "\<forall>c\<in>set ds. isdigit c" "map tolower (a @ ds) = map tolower w"
    by (auto simp: same_nocase_def)
  have len: "length (a @ ds) = length w" using arg_cong [OF ds(2), of length] by simp
  have "map tolower (drop (length a) w) = drop (length a) (map tolower (a @ ds))"
    by (simp only: ds(2) drop_map)
  also have "\<dots> = ds" using ds(1) by (simp add: map_idI isdigit_tolower)
  finally have d: "map tolower (drop (length a) w) = ds" .
  have "isdigit c" if "c \<in> set (drop (length a) w)" for c
  proof -
    have "tolower c \<in> set ds" using that d by (metis image_eqI set_map)
    then have "isdigit (tolower c)" using ds(1) by blast
    then show ?thesis by (auto simp: isdigit_def code_tolower split: if_splits) (auto simp: isupper_def)
  qed
  moreover have "map tolower (take (length a) w) = map tolower a"
    using arg_cong [OF ds(2), of "take (length a)"] by (simp add: take_map)
  ultimately show "length a \<le> length w \<and> same_nocase a (take (length a) w) \<and>
    (\<forall>c\<in>set (drop (length a) w). isdigit c)"
    using len by (auto simp: same_nocase_def)
qed

lemma keyword_match_number:
  assumes "NUL \<notin> set kw"
  shows "keyword_match (kw @ ''#'') w \<longleftrightarrow>
           (\<exists>ds. (\<forall>c\<in>set ds. isdigit c) \<and>
                 (same_nocase (kw @ ds) w \<or> same_nocase (short_form kw @ ds) w))"
proof -
  let ?k = "patternSeparatorShortPos (kw @ ''#'') (length kw)"
  have k: "?k = length (short_form kw)"
    using assms by (simp add: patternSeparatorShortPos_append patternSeparatorShortPos_eq short_form_def)
  have le: "length (short_form kw) \<le> length kw"
    by (simp add: short_form_def length_takeWhile_le)
  have t: "take (length (short_form kw)) (kw @ ''#'') = short_form kw"
    using le by (simp add: short_form_def takeWhile_eq_take [symmetric])
  have n: "NUL \<notin> set (kw @ ''#'')" using assms by simp
  note same = compareStrAndNum_same [OF n]
  have 1: "fst (compareStrAndNum (kw @ ''#'') (length kw) w (length w) False) \<longleftrightarrow>
      (\<exists>ds. (\<forall>c\<in>set ds. isdigit c) \<and> same_nocase (kw @ ds) w)"
    using same [of "length kw" w] by (simp add: digits_after)
  have 2: "fst (compareStrAndNum (kw @ ''#'') (length (short_form kw)) w (length w) False) \<longleftrightarrow>
      (\<exists>ds. (\<forall>c\<in>set ds. isdigit c) \<and> same_nocase (short_form kw @ ds) w)"
    using same [of "length (short_form kw)" w] le unfolding t digits_after by simp
  have "keyword_match (kw @ ''#'') w \<longleftrightarrow>
      fst (compareStrAndNum (kw @ ''#'') (length kw) w (length w) False) \<or>
      fst (compareStrAndNum (kw @ ''#'') (length (short_form kw)) w (length w) False)"
    by (simp add: keyword_match_def matchPattern_def Let_def k split: prod.split)
  then show ?thesis unfolding 1 2 by blast
qed

text \<open>The text of a pattern and of a header.\<close>

fun pattern_text :: "bool \<Rightarrow> pattern_part list \<Rightarrow> bool \<Rightarrow> char list" where
  "pattern_text colon [] query = []"
| "pattern_text colon ((optl, kw) # ps) query =
     (if optl then ''['' else []) @ (if colon then '':'' else []) @ kw @ rest_text optl ps @
     (if query then ''?'' else [])"

fun command_text :: "bool \<Rightarrow> char list list \<Rightarrow> bool \<Rightarrow> char list" where
  "command_text colon [] query = []"
| "command_text colon (w # ws) query =
     (if colon then '':'' else []) @ w @ words_rest ws @ (if query then ''?'' else [])"

definition good_word :: "char list \<Rightarrow> bool" where
  "good_word w \<longleftrightarrow> w \<noteq> [] \<and> (\<forall>c\<in>set w. word_char c)"

lemma strnlen_header:
  "NUL \<notin> set h \<Longrightarrow> BSD_strnlen (h @ tail) (length h) = length h"
  by (induction h) auto

lemma words_rest_chars:
  "\<forall>w\<in>set ws. good_word w \<Longrightarrow> c \<in> set (words_rest ws) \<Longrightarrow> c \<noteq> NUL \<and> c \<noteq> CHR ''?''"
  by (induction ws) (auto simp: good_word_def word_char_def)

lemma parts_text_chars:
  "list_all good_part ps \<Longrightarrow> c \<in> set (parts_text ps) \<Longrightarrow> c \<noteq> CHR ''?''"
proof (induction ps)
  case (Cons p ps)
  then show ?case by (cases p; cases "fst p") (auto simp: kw_char_def)
qed simp

lemma rest_text_chars:
  "list_all good_part ps \<Longrightarrow> c \<in> set (rest_text optl ps) \<Longrightarrow> c \<noteq> CHR ''?''"
  by (cases optl) (auto simp: rest_text_def dest: parts_text_chars)

text \<open>The part of \<open>matchCommand\<close> after the query marks are dealt with.\<close>

definition match_body :: "char list \<Rightarrow> char list \<Rightarrow> int \<Rightarrow> nat \<Rightarrow> nat \<Rightarrow> int \<Rightarrow>
    (bool \<times> int list option) option" where
  "match_body P C plen clen n d = do {
      let st = \<lparr>ms_pp = 0, ms_plen = plen, ms_cp = 0, ms_clen = clen,
                ms_brackets = 0, ms_nidx = 0, ms_numbers = None\<rparr>;
      p0 \<leftarrow> rdz P (ms_pp st);
      let st = (if p0 = CHR ''['' then (SKIP_PATTERN 1 st)\<lparr>ms_brackets := 1\<rparr> else st);
      p0 \<leftarrow> rdz P (ms_pp st);
      let st = (if p0 = CHR '':'' then SKIP_PATTERN 1 st else st);
      if rd C 0 = CHR '':'' \<and> 2 \<le> ms_clen st \<and> rd C 1 = CHR ''*'' then Some (False, None)
      else matchRounds P C n d
             (if rd C 0 = CHR '':'' \<and> 2 \<le> ms_clen st then SKIP_CMD 1 st else st)
    }"

lemma matchCommand_body:
  assumes "P \<noteq> []" "BSD_strnlen C len = cl" "0 < cl"
  shows "last P \<noteq> CHR ''?'' \<Longrightarrow>
      matchCommand P C len None n d = match_body P C (int (length P)) cl n d"
    "last P = CHR ''?'' \<Longrightarrow> rd C (cl - 1) \<noteq> CHR ''?'' \<Longrightarrow>
      matchCommand P C len None n d = Some (False, None)"
    "last P = CHR ''?'' \<Longrightarrow> rd C (cl - 1) = CHR ''?'' \<Longrightarrow>
      matchCommand P C len None n d = match_body P C (int (length P) - 1) (cl - 1) n d"
proof -
  have r: "rdz P (int (length P) - 1) = Some (last P)"
    using assms(1) rdz_inside [of "length P - 1" P] by (simp add: last_conv_nth of_nat_diff Suc_le_eq)
  note unf = matchCommand_def match_body_def assms(2) Let_def r bind.bind_lunit
  show "last P \<noteq> CHR ''?'' \<Longrightarrow>
      matchCommand P C len None n d = match_body P C (int (length P)) cl n d"
    unfolding unf by (simp only: simp_thms if_False)
  show "last P = CHR ''?'' \<Longrightarrow> rd C (cl - 1) \<noteq> CHR ''?'' \<Longrightarrow>
      matchCommand P C len None n d = Some (False, None)"
    unfolding unf using assms(3) by simp
  show "last P = CHR ''?'' \<Longrightarrow> rd C (cl - 1) = CHR ''?'' \<Longrightarrow>
      matchCommand P C len None n d = match_body P C (int (length P) - 1) (cl - 1) n d"
    unfolding unf using assms(3) by (simp only: simp_thms if_True if_False) simp
qed

lemma match_body_start:
  assumes "kw \<noteq> []" "\<forall>c\<in>set kw. kw_char c"
    "P = ((if optl then ''['' else []) @ (if colon then '':'' else [])) @ kw @ rest_text optl ps @ q"
    "plen = int (length P) - int (length q)"
  shows "match_body P C plen clen n d =
      (if rd C 0 = CHR '':'' \<and> 2 \<le> clen \<and> rd C 1 = CHR ''*'' then Some (False, None)
       else matchRounds P C n d
         (mst (length ((if optl then ''['' else []) @ (if colon then '':'' else [])))
            (length kw + length (rest_text optl ps))
            (if rd C 0 = CHR '':'' \<and> 2 \<le> clen then 1 else 0)
            (if rd C 0 = CHR '':'' \<and> 2 \<le> clen then clen - 1 else clen) (of_bool optl) 0))"
proof -
  obtain k ks where kw: "kw = k # ks" using assms(1) by (cases kw) auto
  have k: "kw_char k" using assms(2) by (simp add: kw)
  have "rdz P 0 = Some (if optl then CHR ''['' else if colon then CHR '':'' else k)"
    by (simp add: assms(3) rdz_Cons kw)
  moreover have "rdz P 1 = Some (if colon then CHR '':'' else k)" if optl
    using that by (simp add: assms(3) rdz_Cons kw)
  ultimately show ?thesis
    using kw_char_neq [OF k]
    by (cases optl; cases colon)
      (simp_all add: match_body_def Let_def SKIP_PATTERN_def SKIP_CMD_def assms(3,4) algebra_simps)
qed

lemma match_body_greedy:
  assumes "list_all good_part ((optl, kw) # ps)" "\<forall>w\<in>set (w # ws). good_word w"
    "q \<in> {[], ''?''}" "t = [] \<or> hd t = CHR ''?''"
    "P = (if optl then ''['' else []) @ (if colon then '':'' else []) @ kw @ rest_text optl ps @ q"
    "length P < 2 ^ 32"
    "C = (if colon' then '':'' else []) @ w @ (words_rest ws @ t) @ ctail"
    "colon' \<Longrightarrow> hd w \<noteq> CHR ''*''" "plen = int (length P) - int (length q)"
    "clen = length C - length ctail"
  shows "match_body P C plen clen n d
         = Some (greedy_match ((optl, kw) # ps) (w # ws) \<and> t = [], None)"
proof -
  obtain c cs where w: "w = c # cs" using assms(2) by (cases w) (auto simp: good_word_def)
  have c: "c \<noteq> CHR '':''" using assms(2) by (simp add: w good_word_def word_char_def)
  have kw: "kw \<noteq> []" "\<forall>c\<in>set kw. kw_char c" using assms(1) by simp_all
  have wc: "\<forall>c\<in>set w. word_char c" "\<forall>w\<in>set ws. \<forall>c\<in>set w. word_char c"
    using assms(2) by (auto simp: good_word_def)
  let ?pre = "(if optl then ''['' else []) @ (if colon then '':'' else [])"
  have P: "P = ?pre @ kw @ rest_text optl ps @ q" by (simp add: assms(5))
  have c0: "rd C 0 = (if colon' then CHR '':'' else c)" "colon' \<Longrightarrow> rd C 1 = c"
    by (simp_all add: assms(7) w rd_def)
  have cl: "colon' \<Longrightarrow> 2 \<le> clen" "clen = (if colon' then 1 else 0) + (length w + length (words_rest ws @ t))"
    by (simp_all add: assms(7,10) w)
  show ?thesis
    unfolding match_body_start [OF kw P assms(9)]
    using matchRounds_greedy [OF assms(1) wc P assms(3,6,7,4)] c c0 cl assms(8)
    by (cases colon') (simp_all add: w)
qed

lemma matchCommand_greedy_core:
  assumes "ps \<noteq> []" "list_all good_part ps" "ws \<noteq> []" "list_all good_word ws"
    "colon' \<Longrightarrow> hd (hd ws) \<noteq> CHR ''*''" "length (pattern_text colon ps pq) < 2 ^ 32"
  shows "matchCommand (pattern_text colon ps pq) (command_text colon' ws cq @ tail)
           (length (command_text colon' ws cq)) None n d
         = Some (pq = cq \<and> greedy_match ps ws, None)"
proof -
  obtain optl kw ps' where ps: "ps = (optl, kw) # ps'" using assms(1) by (cases ps) auto
  obtain w ws' where ws: "ws = w # ws'" using assms(3) by (cases ws) auto
  let ?q = "if pq then ''?'' else []" and ?t = "if cq then ''?'' else []"
  let ?P = "pattern_text colon ps pq" and ?c = "if colon' then '':'' else []"
  let ?H = "?c @ w @ words_rest ws'" and ?h = "command_text colon' ws cq"
  let ?len = "length ?h"
  have words: "\<forall>w\<in>set (w # ws'). good_word w" using assms(4) by (simp add: list_all_iff ws)
  have star: "colon' \<Longrightarrow> hd w \<noteq> CHR ''*''" using assms(5) by (simp add: ws)
  have H: "?H \<noteq> []" "kw \<noteq> []" using assms(2) words by (simp_all add: ps good_word_def)
  have "\<forall>c\<in>set w. word_char c" "\<And>c. c \<in> set (words_rest ws') \<Longrightarrow> c \<noteq> NUL \<and> c \<noteq> CHR ''?''"
    using words words_rest_chars [of ws'] by (simp_all add: good_word_def)
  then have Hq: "CHR ''?'' \<notin> set ?H" "NUL \<notin> set ?H"
    by (cases colon'; simp; fastforce simp: word_char_def)+
  have h: "?h = ?H @ ?t" by (simp add: ws)
  have len: "BSD_strnlen (?h @ tail) ?len = ?len"
    using Hq(2) by (intro strnlen_header) (simp add: h)
  have pos: "0 < ?len" using H(1) by (metis h append_is_Nil_conv length_greater_0_conv)
  have lasth: "rd (?h @ tail) (?len - 1) = last ?h"
    using pos by (simp add: rd_append1 last_conv_nth)
  have cq: "last ?h = CHR ''?'' \<longleftrightarrow> cq"
    using H(1) Hq(1) last_in_set [of ?H] unfolding h by auto
  have P: "?P = (if optl then ''['' else []) @ (if colon then '':'' else []) @ kw @
      rest_text optl ps' @ ?q" by (simp add: ps)
  have Pne: "?P \<noteq> []" using H(2) by (simp add: P)
  have pq: "last ?P = CHR ''?'' \<longleftrightarrow> pq"
  proof -
    have "CHR ''?'' \<notin> set (kw @ rest_text optl ps')"
      using assms(2) rest_text_chars [of ps' _ optl] by (auto simp: ps kw_char_def)
    moreover have "kw @ rest_text optl ps' \<noteq> []" using H(2) by simp
    ultimately have "last (kw @ rest_text optl ps') \<noteq> CHR ''?''" using last_in_set by metis
    then show ?thesis using H(2) by (auto simp: P)
  qed
  note body = matchCommand_body [OF Pne len pos, of n d, unfolded lasth cq pq]
  have good: "list_all good_part ((optl, kw) # ps')" using assms(2) by (simp add: ps)
  have greedy: "t = [] \<or> hd t = CHR ''?'' \<Longrightarrow> ?H @ ?t = ?H @ t @ u \<Longrightarrow> clen = ?len - length u \<Longrightarrow>
      plen = int (length ?P) - int (length ?q) \<Longrightarrow>
      match_body ?P (?h @ tail) plen clen n d = Some (greedy_match ps ws \<and> t = [], None)"
    for t u clen plen
    unfolding ps ws
    by (rule match_body_greedy [where ctail = "u @ tail", OF good words _ _ P assms(6) _ star, unfolded ps])
      (simp_all add: h ws)
  show ?thesis
  proof (cases pq)
    case False
    then show ?thesis using body(1) greedy [of ?t "[]"] by simp
  next
    case True
    then show ?thesis using body(2,3) greedy [of "[]" "''?''"] by (cases cq) simp_all
  qed
qed

text \<open>Any text is words separated by colons up to its first question mark, so the loops end on every
  header.\<close>

lemma split_words:
  "NUL \<notin> set s \<Longrightarrow> \<exists>w ws t. s = w @ words_rest ws @ t \<and> (t = [] \<or> hd t = CHR ''?'') \<and>
     (\<forall>c\<in>set w. word_char c) \<and> (\<forall>w\<in>set ws. \<forall>c\<in>set w. word_char c)"
proof (induction s)
  case Nil
  show ?case by (rule exI [of _ "[]"], rule exI [of _ "[]"]) simp
next
  case (Cons c s)
  then obtain w ws t where s: "s = w @ words_rest ws @ t" "t = [] \<or> hd t = CHR ''?''"
    "\<forall>c\<in>set w. word_char c" "\<forall>w\<in>set ws. \<forall>c\<in>set w. word_char c" by auto
  consider "c = CHR ''?''" | "c = CHR '':''" | "word_char c"
    using Cons.prems by (auto simp: word_char_def)
  then show ?case
  proof cases
    case 1
    then show ?thesis
      by (intro exI [of _ "[]"] exI [of _ "c # s"]) simp
  next
    case 2
    then show ?thesis
      using s by (intro exI [of _ "[]"] exI [of _ "w # ws"] exI [of _ t]) simp
  next
    case 3
    then show ?thesis
      using s by (intro exI [of _ "c # w"] exI [of _ ws] exI [of _ t]) simp
  qed
qed

lemma match_body_returns:
  assumes "list_all good_part ((optl, kw) # ps)" "q \<in> {[], ''?''}"
    "P = ((if optl then ''['' else []) @ (if colon then '':'' else [])) @ kw @ rest_text optl ps @ q"
    "length P < 2 ^ 32" "plen = int (length P) - int (length q)" "NUL \<notin> set h"
  shows "\<exists>b. \<forall>tail. match_body P (h @ tail) plen (length h) n d = Some (b, None)"
proof (cases "rd h 0 = CHR '':'' \<and> 2 \<le> length h \<and> rd h 1 = CHR ''*''")
  case True
  have kw: "kw \<noteq> []" "\<forall>c\<in>set kw. kw_char c" using assms(1) by simp_all
  have l: "0 < length h" "1 < length h" using True by linarith+
  have "rd (h @ tail) 0 = CHR '':'' \<and> 2 \<le> length h \<and> rd (h @ tail) 1 = CHR ''*''" for tail
    unfolding rd_append1 [OF l(1)] rd_append1 [OF l(2)] by (rule True)
  then have "match_body P (h @ tail) plen (length h) n d = Some (False, None)" for tail
    unfolding match_body_start [OF kw assms(3,5)] by (simp only: if_True simp_thms)
  then show ?thesis by blast
next
  case False
  define k where "k = (if rd h 0 = CHR '':'' \<and> 2 \<le> length h then 1 else 0 :: nat)"
  have k: "k \<le> length h" by (auto simp: k_def)
  have "NUL \<notin> set (drop k h)" using assms(6) by (meson in_set_dropD)
  then obtain w ws t where s: "drop k h = w @ words_rest ws @ t" "t = [] \<or> hd t = CHR ''?''"
    "\<forall>c\<in>set w. word_char c" "\<forall>w\<in>set ws. \<forall>c\<in>set w. word_char c"
    using split_words by blast
  have kw: "kw \<noteq> []" "\<forall>c\<in>set kw. kw_char c" using assms(1) by simp_all
  have l: "length w + length (words_rest ws @ t) = length h - k"
    using arg_cong [OF s(1), of length] by simp
  have "match_body P (h @ tail) plen (length h) n d =
      Some (greedy_match ((optl, kw) # ps) (w # ws) \<and> t = [], None)" for tail
  proof -
    have C: "h @ tail = take k h @ w @ (words_rest ws @ t) @ tail"
      using append_take_drop_id [of k h] by (metis append.assoc s(1))
    have lk: "length (take k h) = k" using k by simp
    have c: "rd (h @ tail) 0 = CHR '':'' \<and> 2 \<le> length h \<longleftrightarrow> k = 1"
      "(rd (h @ tail) 0 = CHR '':'' \<and> 2 \<le> length h \<and> rd (h @ tail) 1 = CHR ''*'') = False"
    proof -
      have "2 \<le> length h \<Longrightarrow> rd (h @ tail) 0 = rd h 0 \<and> rd (h @ tail) 1 = rd h 1"
        by (simp only: rd_append1)
      then show "rd (h @ tail) 0 = CHR '':'' \<and> 2 \<le> length h \<longleftrightarrow> k = 1"
        "(rd (h @ tail) 0 = CHR '':'' \<and> 2 \<le> length h \<and> rd (h @ tail) 1 = CHR ''*'') = False"
        using False by (auto simp: k_def simp del: rd_less)
    qed
    have b: "(if rd (h @ tail) 0 = CHR '':'' \<and> 2 \<le> length h then length h - 1 else length h) = length h - k"
      "(if rd (h @ tail) 0 = CHR '':'' \<and> 2 \<le> length h then 1 else 0) = k"
      unfolding c by (auto simp: k_def)
    show ?thesis
      unfolding match_body_start [OF kw assms(3,5)] c(2) if_False b
      using matchRounds_greedy [OF assms(1) s(3,4) assms(3,2,4) C s(2), of n d 0]
      unfolding l lk .
  qed
  then show ?thesis by blast
qed

lemma BSD_strnlen_text:
  "BSD_strnlen C len \<le> length C" "NUL \<notin> set (take (BSD_strnlen C len) C)"
  by (induction C len rule: BSD_strnlen.induct) auto

definition is_pattern :: "char list \<Rightarrow> bool" where
  "is_pattern p \<longleftrightarrow> (\<exists>colon ps query. p = pattern_text colon ps query \<and> ps \<noteq> [] \<and>
     list_all good_part ps \<and> length p < 2 ^ 32)"

text \<open>The answer for a header is the same whatever follows it.\<close>

lemma matchCommand_header:
  assumes "is_pattern P" "h \<noteq> []" "NUL \<notin> set h"
  shows "\<exists>b. \<forall>tail. matchCommand P (h @ tail) (length h) None n d = Some (b, None)"
proof -
  obtain colon ps0 query where P: "P = pattern_text colon ps0 query" "ps0 \<noteq> []" "list_all good_part ps0"
    "length P < 2 ^ 32" using assms(1) by (auto simp: is_pattern_def)
  obtain optl kw ps where ps: "ps0 = (optl, kw) # ps" using P(2) by (cases ps0) auto
  let ?q = "if query then ''?'' else []"
  have P': "P = ((if optl then ''['' else []) @ (if colon then '':'' else [])) @ kw @ rest_text optl ps @ ?q"
    by (simp add: P(1) ps)
  have good: "list_all good_part ((optl, kw) # ps)" using P(3) by (simp add: ps)
  have Pne: "P \<noteq> []" using good by (simp add: P')
  have lastP: "last P = CHR ''?'' \<longleftrightarrow> query"
  proof (cases query)
    case False
    have "last (kw @ rest_text optl ps) \<in> set (kw @ rest_text optl ps)"
      using good by (intro last_in_set) simp
    then have "last (kw @ rest_text optl ps) \<noteq> CHR ''?''"
      using good rest_text_chars [of ps _ optl] by (auto simp: kw_char_def)
    then show ?thesis using False good by (simp add: P')
  qed (simp add: P')
  have pos: "0 < length h" using assms(2) by simp
  note body = matchCommand_body [OF Pne strnlen_header [OF assms(3)] pos, of _ n d]
  have last: "rd (h @ tail) (length h - 1) = last h" for tail
    using pos by (simp add: rd_append1 last_conv_nth)
  obtain a where a: "\<And>tail. match_body P (h @ tail) (int (length P) - int (length ?q)) (length h) n d = Some (a, None)"
    using match_body_returns [OF good _ P' P(4) refl assms(3), of n d] by (cases query) auto
  have h: "h = butlast h @ [last h]" using assms(2) by simp
  have "NUL \<notin> set (butlast h)" using assms(3) in_set_butlastD by fastforce
  then obtain b where b: "\<And>tail. match_body P (butlast h @ tail) (int (length P) - int (length ?q))
      (length (butlast h)) n d = Some (b, None)"
    using match_body_returns [OF good _ P' P(4) refl, of "butlast h" n d] by (cases query) auto
  have b': "match_body P (h @ tail) (int (length P) - int (length ?q)) (length h - 1) n d = Some (b, None)" for tail
    using b [of "[last h] @ tail"] h by (metis append.assoc length_butlast)
  show ?thesis
    using body a b' lastP unfolding last
    by (cases query; cases "last h = CHR ''?''") auto
qed

lemma matchCommand_returns:
  assumes "is_pattern P" "0 < BSD_strnlen C len"
  shows "\<exists>b. matchCommand P C len None n d = Some (b, None)"
proof -
  define h where "h = take (BSD_strnlen C len) C"
  have h: "h \<noteq> []" "NUL \<notin> set h" "C = h @ drop (length h) C" "length h = BSD_strnlen C len"
    using assms(2) BSD_strnlen_text [of C len] by (auto simp: h_def min_def)
  obtain b where "matchCommand P (h @ drop (length h) C) (length h) None n d = Some (b, None)"
    using matchCommand_header [OF assms(1) h(1,2), of n d] by blast
  moreover have "BSD_strnlen C (BSD_strnlen C len) = BSD_strnlen C len"
    using strnlen_header [OF h(2), of "drop (length h) C"] h(3,4) by metis
  then have "matchCommand P C (length h) None n d = matchCommand P C len None n d"
    unfolding matchCommand_def h(4) by simp
  ultimately show ?thesis using h(3) by metis
qed

text \<open>C25: \<^verbatim>\<open>matchCommand\<close> is a greedy match of the header against the parts of the pattern.  For a
  pattern that is a list of keywords, some of them optional, and a header that is a list of words,
  whatever follows the header in the buffer, the loops end without a read outside the pattern, and
  the answer is yes exactly when both or neither ask a query and the words match the keywords from
  left to right, passing over an optional keyword that does not match.\<close>

theorem matchCommand_greedy:
  assumes "ps \<noteq> []" "list_all good_part ps" "ws \<noteq> []" "list_all good_word ws"
    "colon' \<Longrightarrow> hd (hd ws) \<noteq> CHR ''*''" "length (pattern_text colon ps pq) < 2 ^ 32"
  shows "matchCommand (pattern_text colon ps pq) (command_text colon' ws cq @ tail)
           (length (command_text colon' ws cq)) None n d
         = Some (pq = cq \<and> greedy_match ps ws, None)"
  by (rule matchCommand_greedy_core [OF assms])

lemma matchCommand_greedy_witness:
  "matchCommand (pattern_text True [(True, ''MEAS''), (False, ''Volt#'')] True)
     (command_text False [''v2''] True @ '' 1'') 3 None 0 1 = Some (True, None)"
proof -
  let ?ps = "[(True, ''MEAS''), (False, ''Volt#'')]" and ?ws = "[''v2'']"
  have facts: "list_all good_part ?ps \<and>
      list_all good_word ?ws \<and>
      greedy_match ?ps ?ws \<and>
      length (command_text False ?ws True) = 3 \<and>
      length (pattern_text True ?ps True) = 14"
    by code_simp
  note facts = facts [THEN conjunct1] facts [THEN conjunct2, THEN conjunct1] facts [THEN conjunct2, THEN conjunct2, THEN conjunct1] facts [THEN conjunct2, THEN conjunct2, THEN conjunct2, THEN conjunct1] facts [THEN conjunct2, THEN conjunct2, THEN conjunct2, THEN conjunct2]
  show ?thesis
    using matchCommand_greedy [of ?ps ?ws False True True True "'' 1''" 0 1, OF _ facts(1) _ facts(2),
        unfolded facts(3-5)]
    by (simp add: facts(3) del: greedy_match.simps)
qed

text \<open>The headers that spell a pattern: every keyword of the pattern is matched by a word or, if it is
  optional, left out.\<close>

fun spells :: "pattern_part list \<Rightarrow> char list list \<Rightarrow> bool" where
  "spells [] ws = (ws = [])"
| "spells ((optl, kw) # ps) [] = (optl \<and> spells ps [])"
| "spells ((optl, kw) # ps) (w # ws) =
     (keyword_match kw w \<and> spells ps ws \<or> optl \<and> spells ps (w # ws))"

definition unambiguous :: "pattern_part list \<Rightarrow> char list list \<Rightarrow> bool" where
  "unambiguous ps ws \<longleftrightarrow> list_all (\<lambda>w. length (filter (\<lambda>p. keyword_match (snd p) w) ps) \<le> 1) ws"

lemma spells_empty: "spells ps [] \<longleftrightarrow> (\<forall>p\<in>set ps. fst p)"
  by (induction ps) auto

lemma spells_first: "spells ps (w # ws) \<Longrightarrow> \<exists>p\<in>set ps. keyword_match (snd p) w"
  by (induction ps) auto

lemma unambiguous_ConsD:
  assumes "unambiguous (p # ps) (w # ws)"
  shows "unambiguous ps (w # ws)" "unambiguous ps ws"
    "p' \<in> set ps \<Longrightarrow> keyword_match (snd p') w \<Longrightarrow> \<not> keyword_match (snd p) w"
proof -
  show "unambiguous ps (w # ws)" "unambiguous ps ws"
    using assms by (simp_all add: unambiguous_def)
      (auto elim!: list.pred_mono_strong split: if_splits)
  assume p': "p' \<in> set ps" "keyword_match (snd p') w"
  then have "filter (\<lambda>p. keyword_match (snd p) w) ps \<noteq> []" by (auto simp: filter_empty_conv)
  then show "\<not> keyword_match (snd p) w"
    using assms by (simp add: unambiguous_def split: if_splits)
qed

lemma greedy_spells: "greedy_match ps ws \<Longrightarrow> spells ps ws"
  by (induction ps ws rule: greedy_match.induct) (auto simp: spells_empty split: if_splits)

lemma spells_greedy: "unambiguous ps ws \<Longrightarrow> spells ps ws \<Longrightarrow> greedy_match ps ws"
proof (induction ps ws rule: greedy_match.induct)
  case (3 optl kw ps w ws)
  note u = unambiguous_ConsD [OF "3.prems"(1)]
  show ?case
  proof (cases "keyword_match kw w")
    case True
    then have "\<not> spells ps (w # ws)" using u(3) spells_first by fastforce
    then show ?thesis using True 3 u(2) by simp
  next
    case False
    then show ?thesis using 3 u(1) by simp
  qed
qed (simp_all add: spells_empty)

text \<open>C4: A header is recognised exactly when it spells the pattern.  If no word of the header
  matches two keywords of the pattern, what \<^verbatim>\<open>matchCommand\<close> accepts is every header that takes the
  keywords of the pattern in order, each optional one either spelled or left out, with the same
  query mark.\<close>

theorem matchCommand_spells:
  assumes "ps \<noteq> []" "list_all good_part ps" "ws \<noteq> []" "list_all good_word ws"
    "colon' \<Longrightarrow> hd (hd ws) \<noteq> CHR ''*''" "length (pattern_text colon ps pq) < 2 ^ 32"
    "unambiguous ps ws"
  shows "matchCommand (pattern_text colon ps pq) (command_text colon' ws cq @ tail)
           (length (command_text colon' ws cq)) None n d
         = Some (pq = cq \<and> spells ps ws, None)"
  using greedy_spells [of ps ws] spells_greedy [OF assms(7)]
  by (subst matchCommand_greedy_core [OF assms(1-6)]) auto

lemma matchCommand_spells_witness:
  "matchCommand (pattern_text False [(False, ''STATus''), (True, ''OPERation''), (False, ''EVENt'')] True)
     (command_text True [''stat'', ''EVENT''] True) 12 None 0 0 = Some (True, None)"
proof -
  let ?ps = "[(False, ''STATus''), (True, ''OPERation''), (False, ''EVENt'')]"
    and ?ws = "[''stat'', ''EVENT'']"
  have facts: "list_all good_part ?ps \<and>
      list_all good_word ?ws \<and>
      unambiguous ?ps ?ws \<and>
      spells ?ps ?ws \<and>
      length (command_text True ?ws True) = 12 \<and>
      length (pattern_text False ?ps True) = 25 \<and>
      hd (hd ?ws) \<noteq> CHR ''*''"
    by code_simp
  note facts = facts [THEN conjunct1] facts [THEN conjunct2, THEN conjunct1] facts [THEN conjunct2, THEN conjunct2, THEN conjunct1] facts [THEN conjunct2, THEN conjunct2, THEN conjunct2, THEN conjunct1] facts [THEN conjunct2, THEN conjunct2, THEN conjunct2, THEN conjunct2, THEN conjunct1] facts [THEN conjunct2, THEN conjunct2, THEN conjunct2, THEN conjunct2, THEN conjunct2, THEN conjunct1] facts [THEN conjunct2, THEN conjunct2, THEN conjunct2, THEN conjunct2, THEN conjunct2, THEN conjunct2]
  show ?thesis
    using matchCommand_spells [of ?ps ?ws True False True True "[]" 0 0, OF _ facts(1) _ facts(2) facts(7)
        _ facts(3), unfolded facts(4-6)]
    by (simp add: facts(4) del: spells.simps)
qed

text \<open>A keyword is matched in its long or its short form, in either case of letters.  A keyword
  without a number mark is matched by exactly the words that are equal to it, or to its characters
  before the first lower case letter, up to the case of letters; after \<^verbatim>\<open>#\<close> any digits may follow,
  none included.  What follows the keyword in the pattern and the word in the command does not
  matter.\<close>

theorem matchPattern_decides:
  assumes "NUL \<notin> set kw" "kw \<noteq> []" "last kw \<noteq> CHR ''#''"
  shows "matchPattern (kw @ a) (length kw) (w @ b) (length w) False =
           (same_nocase kw w \<or> same_nocase (short_form kw) w, None) \<and>
         matchPattern (kw @ CHR ''#'' # a) (length kw + 1) (w @ b) (length w) False =
           (\<exists>ds. list_all isdigit ds \<and>
              (same_nocase (kw @ ds) w \<or> same_nocase (short_form kw @ ds) w), None)"
  using matchPattern_append [of kw a w b] matchPattern_append [of "kw @ ''#''" a w b] assms
  by (simp add: keyword_match_plain keyword_match_number list_all_iff)

lemma matchPattern_decides_witness:
  "matchPattern (''VOLTage'' @ ''#:DC'') 7 (''volt'' @ '':dc'') 4 False = (True, None)"
proof -
  have facts: "same_nocase (short_form ''VOLTage'') ''volt'' \<and>
      NUL \<notin> set ''VOLTage'' \<and>
      last ''VOLTage'' \<noteq> CHR ''#''"
    by code_simp
  note facts = facts [THEN conjunct1] facts [THEN conjunct2, THEN conjunct1] facts [THEN conjunct2, THEN conjunct2]
  show ?thesis
    using matchPattern_decides [of "''VOLTage''" "''#:DC''" "''volt''" "'':dc''"] facts by (simp add: eval_nat_numeral)
qed

section \<open>Compound commands\<close>

text \<open>The path of a header: its characters up to the last colon.\<close>

definition header_path :: "char list \<Rightarrow> char list" where
  "header_path s = rev (dropWhile (\<lambda>c. c \<noteq> CHR '':'') (rev s))"

definition token_text :: "mem \<Rightarrow> scpi_token \<Rightarrow> char list" where
  "token_text m t = take (nat (tk_len t)) (drop (addr (tk_ptr t)) m)"

lemma header_path_snoc:
  "header_path (s @ [c]) = (if c = CHR '':'' then s @ [c] else header_path s)"
  by (simp add: header_path_def)

lemma length_header_path: "length (header_path s) \<le> length s"
  using length_dropWhile_le [of _ "rev s"] by (simp add: header_path_def)

lemma header_path_prefix: "header_path s = take (length (header_path s)) s"
  by (induction s rule: rev_induct) (simp_all add: header_path_snoc length_header_path, simp add: header_path_def)

lemma lastColon_eq: "p + n \<le> length m \<Longrightarrow> lastColon m p n = length (header_path (take n (drop p m)))"
proof (induction n)
  case 0
  then show ?case by (simp add: header_path_def)
next
  case (Suc n)
  have "take (Suc n) (drop p m) = take n (drop p m) @ [m ! (p + n)]"
    using Suc.prems by (simp add: take_Suc_conv_app_nth)
  then show ?case using Suc by (simp add: header_path_snoc)
qed

lemma hd_token_text:
  "tk_ptr t = Some p \<Longrightarrow> 0 < tk_len t \<Longrightarrow> p < length m \<Longrightarrow> hd (token_text m t) = rd m p"
  by (simp add: token_text_def hd_drop_conv_nth)

text \<open>What the composed header is to be: the path of the header before it, unless one of the two is a
  common command or the new one starts at the root.\<close>

definition composed :: "char list \<Rightarrow> char list \<Rightarrow> char list" where
  "composed prev current =
     (if hd current \<in> {CHR ''*'', CHR '':''} \<or> hd prev = CHR ''*'' then [] else header_path prev)"

lemma length_composed: "length (composed s c) \<le> length s"
  using length_header_path [of s] by (simp add: composed_def)

lemma memmove_parts:
  assumes "i \<le> cp" "cp \<le> length m" "src + i \<le> length m"
  shows "length (memmove m (cp - i) src i) = length m"
    "drop cp (memmove m (cp - i) src i) = drop cp m"
    "take (cp - i) (memmove m (cp - i) src i) = take (cp - i) m"
    "drop (cp - i) (memmove m (cp - i) src i) = take i (drop src m) @ drop cp m"
  using assms by (simp_all add: memmove_def)

text \<open>A compound command is put together inside the input buffer.  When the header before lies in
  front of the current one, \<^verbatim>\<open>composeCompoundCommand\<close> leaves the current token holding the path of
  the header before it followed by its own text; it moves characters only into the bytes just before
  the current header, never before the start of the buffer, and everything from the current header
  on keeps its contents.\<close>

theorem compose_path:
  assumes "tk_ptr prev = Some pp" "tk_ptr current = Some cp" "0 < tk_len prev" "0 < tk_len current"
    "pp + nat (tk_len prev) \<le> cp" "cp + nat (tk_len current) \<le> length m"
  shows "\<exists>current' m'. composeCompoundCommand m prev current = Some (True, current', m') \<and>
           token_text m' current' =
             composed (token_text m prev) (token_text m current) @ token_text m current \<and>
           length m' = length m \<and> drop cp m' = drop cp m \<and>
           take (addr (tk_ptr current')) m' = take (addr (tk_ptr current')) m"
proof -
  let ?s = "token_text m prev" and ?c = "token_text m current"
  let ?i = "lastColon m pp (nat (tk_len prev))"
  have lt: "cp < length m" "pp < length m" using assms(3-6) by auto
  have hd: "hd ?s = rd m pp" "hd ?c = rd m cp"
    using hd_token_text [OF assms(1,3) lt(2)] hd_token_text [OF assms(2,4) lt(1)] by auto
  have i: "?i = length (header_path ?s)"
    using assms(1,5,6) by (simp add: lastColon_eq token_text_def)
  have ls: "length ?s = nat (tk_len prev)" using assms(1,5,6) by (simp add: token_text_def)
  show ?thesis
  proof (cases "hd ?c \<in> {CHR ''*'', CHR '':''} \<or> hd ?s = CHR ''*'' \<or> header_path ?s = []")
    case True
    then have "composeCompoundCommand m prev current = Some (True, current, m)"
      using assms(1-4) i by (auto simp: composeCompoundCommand_def hd)
    moreover have "composed ?s ?c = []" using True by (auto simp: composed_def)
    ultimately show ?thesis by simp
  next
    case False
    let ?cur = "current\<lparr>tk_ptr := Some (cp - ?i), tk_len := tk_len current + int ?i\<rparr>"
    let ?m = "memmove m (cp - ?i) pp ?i"
    have le: "?i \<le> nat (tk_len prev)" using length_header_path [of ?s] by (simp add: i ls)
    then have icp: "?i \<le> cp" "pp + ?i \<le> length m" using assms(5,6) by simp_all
    have m: "composeCompoundCommand m prev current = Some (True, ?cur, ?m)"
      using assms(1-4) False i icp(1) by (auto simp: composeCompoundCommand_def hd Let_def)
    have path: "take ?i (drop pp m) = header_path ?s"
      using header_path_prefix [of ?s] le assms(1) by (simp add: i token_text_def min_def)
    note mm = memmove_parts [OF icp(1) _ icp(2)]
    have "token_text ?m ?cur = header_path ?s @ ?c"
      using mm(4) lt assms(2,4) path i
      by (simp add: token_text_def nat_add_distrib)
    moreover have "composed ?s ?c = header_path ?s" using False by (simp add: composed_def)
    ultimately show ?thesis using m mm(1-3) lt by auto
  qed
qed

lemma compose_path_witness:
  "let prev = \<lparr>tk_type = SCPI_TOKEN_COMPOUND_PROGRAM_HEADER, tk_ptr = Some 0, tk_len = 9\<rparr>;
       current = \<lparr>tk_type = SCPI_TOKEN_COMPOUND_PROGRAM_HEADER, tk_ptr = Some 12, tk_len = 4\<rparr>
   in \<exists>current' m'. composeCompoundCommand ''VOLT:RANG 1;PROT'' prev current = Some (True, current', m') \<and>
        token_text m' current' = ''VOLT:PROT''"
  using compose_path [of "\<lparr>tk_type = SCPI_TOKEN_COMPOUND_PROGRAM_HEADER, tk_ptr = Some 0, tk_len = 9\<rparr>" 0
      "\<lparr>tk_type = SCPI_TOKEN_COMPOUND_PROGRAM_HEADER, tk_ptr = Some 12, tk_len = 4\<rparr>" 12 "''VOLT:RANG 1;PROT''"]
  by (simp add: token_text_def composed_def header_path_def Let_def) blast

end
