(* ===== verification/ErrorTable.thy ===== *)
theory ErrorTable
  imports Prelude
begin

text \<open>
  The table of error numbers and texts, \<^verbatim>\<open>LIST_OF_ERRORS\<close> of \<^verbatim>\<open>Utilities/Scpi/Inc/error.h\<close>, and
  \<^verbatim>\<open>SCPI_ErrorTranslate\<close> of \<^verbatim>\<open>Src/error.c\<close>.  A row written with \<^verbatim>\<open>XE\<close> is compiled only with
  \<^verbatim>\<open>USE_FULL_ERROR_LIST\<close>, which \<^verbatim>\<open>config.h\<close> sets to 0 for a bare-metal system.
\<close>

datatype error_row = X int "char list" | XE int "char list"

definition USE_FULL_ERROR_LIST :: bool where
  "USE_FULL_ERROR_LIST = False"

definition SCPI_ERROR_INVALID_CHARACTER :: int where "SCPI_ERROR_INVALID_CHARACTER = -101"
definition SCPI_ERROR_INVALID_SEPARATOR :: int where "SCPI_ERROR_INVALID_SEPARATOR = -103"
definition SCPI_ERROR_DATA_TYPE_ERROR :: int where "SCPI_ERROR_DATA_TYPE_ERROR = -104"
definition SCPI_ERROR_PARAMETER_NOT_ALLOWED :: int where "SCPI_ERROR_PARAMETER_NOT_ALLOWED = -108"
definition SCPI_ERROR_MISSING_PARAMETER :: int where "SCPI_ERROR_MISSING_PARAMETER = -109"
definition SCPI_ERROR_UNDEFINED_HEADER :: int where "SCPI_ERROR_UNDEFINED_HEADER = -113"
definition SCPI_ERROR_INVALID_SUFFIX :: int where "SCPI_ERROR_INVALID_SUFFIX = -131"
definition SCPI_ERROR_SUFFIX_NOT_ALLOWED :: int where "SCPI_ERROR_SUFFIX_NOT_ALLOWED = -138"
definition SCPI_ERROR_INVALID_STRING_DATA :: int where "SCPI_ERROR_INVALID_STRING_DATA = -151"
definition SCPI_ERROR_EXPRESSION_PARSING_ERROR :: int where "SCPI_ERROR_EXPRESSION_PARSING_ERROR = -170"
definition SCPI_ERROR_EXECUTION_ERROR :: int where "SCPI_ERROR_EXECUTION_ERROR = -200"
definition SCPI_ERROR_ILLEGAL_PARAMETER_VALUE :: int where "SCPI_ERROR_ILLEGAL_PARAMETER_VALUE = -224"
definition SCPI_ERROR_SYSTEM_ERROR :: int where "SCPI_ERROR_SYSTEM_ERROR = -310"
definition SCPI_ERROR_INPUT_BUFFER_OVERRUN :: int where "SCPI_ERROR_INPUT_BUFFER_OVERRUN = -363"

lemmas error_numbers = SCPI_ERROR_INVALID_CHARACTER_def
  SCPI_ERROR_INVALID_SEPARATOR_def
  SCPI_ERROR_DATA_TYPE_ERROR_def
  SCPI_ERROR_PARAMETER_NOT_ALLOWED_def
  SCPI_ERROR_MISSING_PARAMETER_def
  SCPI_ERROR_UNDEFINED_HEADER_def
  SCPI_ERROR_INVALID_SUFFIX_def
  SCPI_ERROR_SUFFIX_NOT_ALLOWED_def
  SCPI_ERROR_INVALID_STRING_DATA_def
  SCPI_ERROR_EXPRESSION_PARSING_ERROR_def
  SCPI_ERROR_EXECUTION_ERROR_def
  SCPI_ERROR_ILLEGAL_PARAMETER_VALUE_def
  SCPI_ERROR_SYSTEM_ERROR_def
  SCPI_ERROR_INPUT_BUFFER_OVERRUN_def

definition LIST_OF_ERRORS :: "error_row list" where
  "LIST_OF_ERRORS = [
    XE (-100) ''Command error'',
    X (SCPI_ERROR_INVALID_CHARACTER) ''Invalid character'',
    XE (-102) ''Syntax error'',
    X (SCPI_ERROR_INVALID_SEPARATOR) ''Invalid separator'',
    X (SCPI_ERROR_DATA_TYPE_ERROR) ''Data type error'',
    XE (-105) ''GET not allowed'',
    X (SCPI_ERROR_PARAMETER_NOT_ALLOWED) ''Parameter not allowed'',
    X (SCPI_ERROR_MISSING_PARAMETER) ''Missing parameter'',
    XE (-110) ''Command header error'',
    XE (-111) ''Header separator error'',
    XE (-112) ''Program mnemonic too long'',
    X (SCPI_ERROR_UNDEFINED_HEADER) ''Undefined header'',
    XE (-114) ''Header suffix out of range'',
    XE (-115) ''Unexpected number of parameters'',
    XE (-120) ''Numeric data error'',
    XE (-121) ''Invalid character in number'',
    XE (-123) ''Exponent too large'',
    XE (-124) ''Too many digits'',
    XE (-128) ''Numeric data not allowed'',
    XE (-130) ''Suffix error'',
    X (SCPI_ERROR_INVALID_SUFFIX) ''Invalid suffix'',
    XE (-134) ''Suffix too long'',
    X (SCPI_ERROR_SUFFIX_NOT_ALLOWED) ''Suffix not allowed'',
    XE (-140) ''Character data error'',
    XE (-141) ''Invalid character data'',
    XE (-144) ''Character data too long'',
    XE (-148) ''Character data not allowed'',
    XE (-150) ''String data error'',
    X (SCPI_ERROR_INVALID_STRING_DATA) ''Invalid string data'',
    XE (-158) ''String data not allowed'',
    XE (-160) ''Block data error'',
    XE (-161) ''Invalid block data'',
    XE (-168) ''Block data not allowed'',
    X (SCPI_ERROR_EXPRESSION_PARSING_ERROR) ''Expression error'',
    XE (-171) ''Invalid expression'',
    XE (-178) ''Expression data not allowed'',
    XE (-180) ''Macro error'',
    XE (-181) ''Invalid outside macro definition'',
    XE (-183) ''Invalid inside macro definition'',
    XE (-184) ''Macro parameter error'',
    X (SCPI_ERROR_EXECUTION_ERROR) ''Execution error'',
    XE (-201) ''Invalid while in local'',
    XE (-202) ''Settings lost due to rtl'',
    XE (-203) ''Command protected'',
    XE (-210) ''Trigger error'',
    XE (-211) ''Trigger ignored'',
    XE (-212) ''Arm ignored'',
    XE (-213) ''Init ignored'',
    XE (-214) ''Trigger deadlock'',
    XE (-215) ''Arm deadlock'',
    XE (-220) ''Parameter error'',
    XE (-221) ''Settings conflict'',
    XE (-222) ''Data out of range'',
    XE (-223) ''Too much data'',
    X (SCPI_ERROR_ILLEGAL_PARAMETER_VALUE) ''Illegal parameter value'',
    XE (-225) ''Out of memory'',
    XE (-226) ''Lists not same length'',
    XE (-230) ''Data corrupt or stale'',
    XE (-231) ''Data questionable'',
    XE (-233) ''Invalid version'',
    XE (-240) ''Hardware error'',
    XE (-241) ''Hardware missing'',
    XE (-250) ''Mass storage error'',
    XE (-251) ''Missing mass storage'',
    XE (-252) ''Missing media'',
    XE (-253) ''Corrupt media'',
    XE (-254) ''Media full'',
    XE (-255) ''Directory full'',
    XE (-256) ''File name not found'',
    XE (-257) ''File name error'',
    XE (-258) ''Media protected'',
    XE (-260) ''Expression error'',
    XE (-261) ''Math error in expression'',
    XE (-270) ''Macro error'',
    XE (-271) ''Macro syntax error'',
    XE (-272) ''Macro execution error'',
    XE (-273) ''Illegal macro label'',
    XE (-274) ''Macro parameter error'',
    XE (-275) ''Macro definition too long'',
    XE (-276) ''Macro recursion error'',
    XE (-277) ''Macro redefinition not allowed'',
    XE (-278) ''Macro header not found'',
    XE (-280) ''Program error'',
    XE (-281) ''Cannot create program'',
    XE (-282) ''Illegal program name'',
    XE (-283) ''Illegal variable name'',
    XE (-284) ''Program currently running'',
    XE (-285) ''Program syntax error'',
    XE (-286) ''Program runtime error'',
    XE (-290) ''Memory use error'',
    XE (-291) ''Out of memory'',
    XE (-292) ''Referenced name does not exist'',
    XE (-293) ''Referenced name already exists'',
    XE (-294) ''Incompatible type'',
    XE (-300) ''Device specific error'',
    X (SCPI_ERROR_SYSTEM_ERROR) ''System error'',
    XE (-311) ''Memory error'',
    XE (-312) ''PUD memory lost'',
    XE (-313) ''Calibration memory lost'',
    XE (-314) ''Save/recall memory lost'',
    XE (-315) ''Configuration memory lost'',
    XE (-320) ''Storage fault'',
    XE (-321) ''Out of memory'',
    XE (-330) ''Self-test failed'',
    XE (-340) ''Calibration failed'',
    XE (-350) ''Queue overflow'',
    XE (-360) ''Communication error'',
    XE (-361) ''Parity error in program message'',
    XE (-362) ''Framing error in program message'',
    X (SCPI_ERROR_INPUT_BUFFER_OVERRUN) ''Input buffer overrun'',
    XE (-365) ''Time out error'',
    XE (-400) ''Query error'',
    XE (-410) ''Query INTERRUPTED'',
    XE (-420) ''Query UNTERMINATED'',
    XE (-430) ''Query DEADLOCKED'',
    XE (-440) ''Query UNTERMINATED after indefinite response'',
    XE (-500) ''Power on'',
    XE (-600) ''User request'',
    XE (-700) ''Request control'',
    XE (-800) ''Operation complete'']"

fun compiled_rows :: "bool \<Rightarrow> error_row list \<Rightarrow> (int \<times> char list) list" where
  "compiled_rows full [] = []"
| "compiled_rows full (X val str # rows) = (val, str) # compiled_rows full rows"
| "compiled_rows full (XE val str # rows) =
     (if full then [(val, str)] else []) @ compiled_rows full rows"

definition SCPI_ErrorTranslate :: "int \<Rightarrow> char list" where
  "SCPI_ErrorTranslate err =
     (if err = 0 then ''No error''
      else case map_of (compiled_rows USE_FULL_ERROR_LIST LIST_OF_ERRORS) err of
             Some str \<Rightarrow> str
           | None \<Rightarrow> ''Unknown error'')"

text \<open>The errors the library itself reports.\<close>

definition library_errors :: "int list" where
  "library_errors = [SCPI_ERROR_INVALID_CHARACTER,
    SCPI_ERROR_INVALID_SEPARATOR,
    SCPI_ERROR_DATA_TYPE_ERROR,
    SCPI_ERROR_PARAMETER_NOT_ALLOWED,
    SCPI_ERROR_MISSING_PARAMETER,
    SCPI_ERROR_UNDEFINED_HEADER,
    SCPI_ERROR_INVALID_SUFFIX,
    SCPI_ERROR_SUFFIX_NOT_ALLOWED,
    SCPI_ERROR_INVALID_STRING_DATA,
    SCPI_ERROR_EXPRESSION_PARSING_ERROR,
    SCPI_ERROR_EXECUTION_ERROR,
    SCPI_ERROR_ILLEGAL_PARAMETER_VALUE,
    SCPI_ERROR_SYSTEM_ERROR,
    SCPI_ERROR_INPUT_BUFFER_OVERRUN]"

lemma library_errors_translated:
  "err \<in> set library_errors \<Longrightarrow> SCPI_ErrorTranslate err \<noteq> ''Unknown error''"
  by (auto simp: library_errors_def SCPI_ErrorTranslate_def LIST_OF_ERRORS_def error_numbers
      USE_FULL_ERROR_LIST_def)

lemma error_numbers_distinct: "distinct (map fst (compiled_rows True LIST_OF_ERRORS))"
  by (simp add: LIST_OF_ERRORS_def error_numbers)

end
