(* ===== verification/Double.thy ===== *)
theory Double
  imports Convert Complex_Main
begin

text \<open>
  The C types \<^verbatim>\<open>float\<close> and \<^verbatim>\<open>double\<close> (IEEE 754 binary32 and binary64, rounding to nearest, ties to
  even) as far as the program uses them, and the C library's \<^verbatim>\<open>strtod\<close> and \<^verbatim>\<open>strtof\<close> with the
  wrappers of \<^verbatim>\<open>utils.c\<close>, lines 360 to 382.

  A number is its value, an infinity or NaN.  The two zeros are one value: the program never divides
  and never looks at a sign bit, so it cannot tell them apart.  Every operation is the exact result
  rounded.  A conversion to an integer type that cannot hold the truncated value is undefined in C and
  is \<open>None\<close>.
\<close>

section \<open>Numbers and rounding\<close>

datatype double = Fin rat | DInf bool | DNaN

text \<open>The binary digits of an integer, and the exponent of the leading bit of a positive number.\<close>

function bit_len :: "int \<Rightarrow> nat" where
  "bit_len n = (if n \<le> 0 then 0 else Suc (bit_len (n div 2)))"
  by auto
termination by (relation "measure nat") auto

declare bit_len.simps [simp del]

definition ilog2 :: "rat \<Rightarrow> int" where
  "ilog2 x = (let (a, b) = quotient_of x;
                  k = int (bit_len a) - int (bit_len b)
              in if 2 powi k \<le> x then k else k - 1)"

text \<open>The nearest integer, the even one of two.\<close>

definition nearest_even :: "rat \<Rightarrow> int" where
  "nearest_even x =
     (let n = \<lfloor>x\<rfloor>; d = x - of_int n
      in if d < 1 / 2 then n else if 1 / 2 < d then n + 1 else if even n then n else n + 1)"

text \<open>Rounding to \<open>p\<close> binary digits, with the least exponent \<open>emin\<close> and the greatest \<open>emax\<close>.\<close>

definition round_exponent :: "nat \<Rightarrow> int \<Rightarrow> rat \<Rightarrow> int" where
  "round_exponent p emin x = max (ilog2 \<bar>x\<bar> - (int p - 1)) emin"

definition round_to :: "nat \<Rightarrow> int \<Rightarrow> rat \<Rightarrow> rat" where
  "round_to p emin x =
     (if x = 0 then 0
      else let u = 2 powi round_exponent p emin x in of_int (nearest_even (x / u)) * u)"

definition fp_round :: "nat \<Rightarrow> int \<Rightarrow> int \<Rightarrow> rat \<Rightarrow> double" where
  "fp_round p emin emax x =
     (let y = round_to p emin x in if 2 powi (emax + 1) \<le> \<bar>y\<bar> then DInf (x < 0) else Fin y)"

definition double_of :: "rat \<Rightarrow> double" where
  "double_of = fp_round 53 (- 1074) 1023"

definition float_of :: "rat \<Rightarrow> double" where
  "float_of = fp_round 24 (- 149) 127"

section \<open>Operations on doubles\<close>

fun dneg :: "double \<Rightarrow> double" where
  "dneg (Fin x) = Fin (- x)"
| "dneg (DInf s) = DInf (\<not> s)"
| "dneg DNaN = DNaN"

fun dadd :: "double \<Rightarrow> double \<Rightarrow> double" where
  "dadd (Fin x) (Fin y) = double_of (x + y)"
| "dadd (Fin x) (DInf s) = DInf s"
| "dadd (DInf s) (Fin y) = DInf s"
| "dadd (DInf s) (DInf t) = (if s = t then DInf s else DNaN)"
| "dadd x y = DNaN"

definition dsub :: "double \<Rightarrow> double \<Rightarrow> double" where
  "dsub x y = dadd x (dneg y)"

fun dmul :: "double \<Rightarrow> double \<Rightarrow> double" where
  "dmul (Fin x) (Fin y) = double_of (x * y)"
| "dmul (Fin x) (DInf s) = (if x = 0 then DNaN else DInf ((x < 0) \<noteq> s))"
| "dmul (DInf s) (Fin y) = (if y = 0 then DNaN else DInf ((y < 0) \<noteq> s))"
| "dmul (DInf s) (DInf t) = DInf (s \<noteq> t)"
| "dmul x y = DNaN"

fun dle :: "double \<Rightarrow> double \<Rightarrow> bool" where
  "dle (Fin x) (Fin y) = (x \<le> y)"
| "dle (Fin x) (DInf s) = (\<not> s)"
| "dle (DInf s) (Fin y) = s"
| "dle (DInf s) (DInf t) = (s \<or> \<not> t)"
| "dle x y = False"

text \<open>\<^verbatim>\<open>x < 0\<close>\<close>

fun dneg_sign :: "double \<Rightarrow> bool" where
  "dneg_sign (Fin x) = (x < 0)"
| "dneg_sign (DInf s) = s"
| "dneg_sign DNaN = False"

text \<open>The conversion to an integer type with the given range.\<close>

definition rat_trunc :: "rat \<Rightarrow> int" where
  "rat_trunc x = (if 0 \<le> x then \<lfloor>x\<rfloor> else - \<lfloor>- x\<rfloor>)"

fun dtrunc :: "int \<Rightarrow> int \<Rightarrow> double \<Rightarrow> int option" where
  "dtrunc lo hi (Fin x) = (let n = rat_trunc x in if lo \<le> n \<and> n \<le> hi then Some n else None)"
| "dtrunc lo hi d = None"

definition double_to_long :: "double \<Rightarrow> int option" where
  "double_to_long = dtrunc (- (2 ^ 31)) (2 ^ 31 - 1)"

definition double_to_u8 :: "double \<Rightarrow> int option" where
  "double_to_u8 = dtrunc 0 255"

text \<open>A double cast to \<^verbatim>\<open>float\<close>; a \<^verbatim>\<open>float\<close> is a double without change.\<close>

fun double_to_float :: "double \<Rightarrow> double" where
  "double_to_float (Fin x) = float_of x"
| "double_to_float d = d"

section \<open>Text to floating point\<close>

text \<open>
  The subject of \<^verbatim>\<open>strtod\<close> (C90): white space, a sign, digits with at most one point among or around
  them, and an exponent if at least one digit follows its sign.  The result is the exact value and the
  number of characters used, none if there is no digit.
\<close>

definition strtod_exponent :: "char list \<Rightarrow> int \<times> nat" where
  "strtod_exponent xs =
     (if hd0 xs = CHR ''e'' \<or> hd0 xs = CHR ''E'' then
        let ys = tl xs;
            s = (if hd0 ys = CHR ''-'' \<or> hd0 ys = CHR ''+'' then 1 else 0);
            ds = takeWhile isdigit (drop s ys);
            v = int (digits_value 10 ds)
        in if ds = [] then (0, 0) else (if hd0 ys = CHR ''-'' then - v else v, 1 + s + length ds)
      else (0, 0))"

definition strtod_subject :: "char list \<Rightarrow> rat \<times> nat" where
  "strtod_subject xs =
     (let w = length (takeWhile isspace xs); ys = drop w xs;
          s = (if hd0 ys = CHR ''-'' \<or> hd0 ys = CHR ''+'' then 1 else 0); zs = drop s ys;
          a = takeWhile isdigit zs; bs = drop (length a) zs;
          point = (hd0 bs = CHR ''.'');
          b = (if point then takeWhile isdigit (tl bs) else []);
          k = length a + (if point then 1 else 0) + length b;
          (e, n) = strtod_exponent (drop k zs);
          m = rat_of_nat (digits_value 10 (a @ b)) * 10 powi (e - int (length b))
      in if a @ b = [] then (0, 0) else (if hd0 ys = CHR ''-'' then - m else m, w + s + k + n))"

definition strtod :: "char list \<Rightarrow> double \<times> nat" where
  "strtod xs = (let (x, n) = strtod_subject xs in (double_of x, n))"

definition strtof :: "char list \<Rightarrow> double \<times> nat" where
  "strtof xs = (let (x, n) = strtod_subject xs in (float_of x, n))"

text \<open>The conversions return the characters used and the value.\<close>

definition strToFloat :: "char list \<Rightarrow> nat \<times> double" where
  "strToFloat str = (let (v, n) = strtof str in (n, v))"

definition strToDouble :: "char list \<Rightarrow> nat \<times> double" where
  "strToDouble str = (let (v, n) = strtod str in (n, v))"

end
