(* ===== verification/Port.thy ===== *)
theory Port
  imports Context ErrorTable Double
begin

text \<open>
  The firmware's end of the interface, \<^verbatim>\<open>Src/Src/scpi-def.c\<close> lines 42 to 73 and 516 to 522: the
  functions behind the function pointers of \<^verbatim>\<open>scpi_interface\<close>.  They write to the standard output,
  whose history is the device state; a \<^verbatim>\<open>printf\<close> is recorded with its format and arguments, a
  \<^verbatim>\<open>fwrite\<close> with the bytes it writes.

  They keep the library's fields, so the interface satisfies \<open>scpi_port\<close>.
\<close>

datatype fmt_arg = Num int | Str "char list" | Dbl double

datatype out_event = Fwrite "char list" | Printf "char list" "fmt_arg list"

record device =
  dev_stdout :: "out_event list"

definition emit :: "out_event \<Rightarrow> 'r device_scheme scpi_t \<Rightarrow> 'r device_scheme scpi_t" where
  "emit e ctx = ctx\<lparr>user_context :=
     (user_context ctx)\<lparr>dev_stdout := dev_stdout (user_context ctx) @ [e]\<rparr>\<rparr>"

definition SCPI_Write ::
  "'r device_scheme scpi_t \<Rightarrow> char list \<Rightarrow> nat \<times> 'r device_scheme scpi_t" where
  "SCPI_Write ctx data = (length data, emit (Fwrite data) ctx)"

definition SCPI_Flush ::
  "'r device_scheme scpi_t \<Rightarrow> scpi_result \<times> 'r device_scheme scpi_t" where
  "SCPI_Flush ctx = (SCPI_RES_OK, ctx)"

definition SCPI_Error ::
  "'r device_scheme scpi_t \<Rightarrow> int \<Rightarrow> int \<times> 'r device_scheme scpi_t" where
  "SCPI_Error ctx err =
     (0, emit (Printf (''**ERROR: %d, '' @ [CHR 0x22] @ ''%s'' @ [CHR 0x22, CHR 0x0D, CHR 0x0A])
                [Num err, Str (SCPI_ErrorTranslate err)]) ctx)"

fun ctrl_code :: "scpi_ctrl_name \<Rightarrow> int" where
  "ctrl_code SCPI_CTRL_SRQ = 1" | "ctrl_code SCPI_CTRL_GTL = 2"
| "ctrl_code SCPI_CTRL_SDC = 3" | "ctrl_code SCPI_CTRL_PPC = 4"
| "ctrl_code SCPI_CTRL_GET = 5" | "ctrl_code SCPI_CTRL_TCT = 6"
| "ctrl_code SCPI_CTRL_LLO = 7" | "ctrl_code SCPI_CTRL_DCL = 8"
| "ctrl_code SCPI_CTRL_PPU = 9" | "ctrl_code SCPI_CTRL_SPE = 10"
| "ctrl_code SCPI_CTRL_SPD = 11" | "ctrl_code SCPI_CTRL_MLA = 12"
| "ctrl_code SCPI_CTRL_UNL = 13" | "ctrl_code SCPI_CTRL_MTA = 14"
| "ctrl_code SCPI_CTRL_UNT = 15" | "ctrl_code SCPI_CTRL_MSA = 16"

definition SCPI_Control ::
  "'r device_scheme scpi_t \<Rightarrow> scpi_ctrl_name \<Rightarrow> u16 \<Rightarrow>
     scpi_result \<times> 'r device_scheme scpi_t" where
  "SCPI_Control ctx ctrl val =
     (SCPI_RES_OK,
      if ctrl = SCPI_CTRL_SRQ
      then emit (Printf (''**SRQ: 0x%X (%d)'' @ [CHR 0x0D, CHR 0x0A]) [Num (uint val), Num (uint val)]) ctx
      else emit (Printf (''**CTRL %02x: 0x%X (%d)'' @ [CHR 0x0D, CHR 0x0A])
                   [Num (ctrl_code ctrl), Num (uint val), Num (uint val)]) ctx)"

definition SCPI_Reset ::
  "'r device_scheme scpi_t \<Rightarrow> scpi_result \<times> 'r device_scheme scpi_t" where
  "SCPI_Reset ctx = (SCPI_RES_OK, emit (Printf (''**Reset'' @ [CHR 0x0D, CHR 0x0A]) []) ctx)"

definition scpi_ifc :: "'r device_scheme scpi_interface" where
  "scpi_ifc = \<lparr>if_error = Some SCPI_Error, if_write = Some SCPI_Write,
     if_control = Some SCPI_Control, if_flush = Some SCPI_Flush, if_reset = Some SCPI_Reset\<rparr>"

lemma emit_keeps [simp]: "keeps_library c (emit e c)"
  by (simp add: emit_def)

interpretation port: scpi_port scpi_ifc
  by unfold_locales
    (auto simp: scpi_ifc_def SCPI_Error_def SCPI_Write_def SCPI_Control_def SCPI_Flush_def
      SCPI_Reset_def)

text \<open>The state the firmware starts from: \<^verbatim>\<open>scpi_context\<close>, lines 524 to 548, before
  \<^verbatim>\<open>SCPI_Init\<close>; the statics are zero.\<close>

definition SCPI_INPUT_BUFFER_LENGTH :: nat where
  "SCPI_INPUT_BUFFER_LENGTH = 256"

definition zero_token :: scpi_token where
  "zero_token = \<lparr>tk_type = SCPI_TOKEN_COMMA, tk_ptr = None, tk_len = 0\<rparr>"

definition zero_param_list :: scpi_param_list where
  "zero_param_list = \<lparr>pl_cmd = None, pl_lex = \<lparr>lx_buffer = 0, lx_pos = 0, lx_len = 0\<rparr>,
     pl_raw_data = None, pl_raw_position = 0, pl_raw_length = 0\<rparr>"

definition scpi_context :: "device scpi_t" where
  "scpi_context = \<lparr>buf_length = SCPI_INPUT_BUFFER_LENGTH, buf_position = 0,
     buf_data = replicate SCPI_INPUT_BUFFER_LENGTH NUL, param_list = zero_param_list,
     output_count = 0, input_count = 0, cmd_error = False, error_queue = None,
     registers = Some (\<lambda>_. 0), user_context = \<lparr>dev_stdout = []\<rparr>,
     parser_state = \<lparr>programHeader = zero_token, programData = zero_token,
                     numberOfParameters = 0, termination_kind = SCPI_MESSAGE_TERMINATION_NONE\<rparr>,
     idn = [Some ''MANUFACTURE'', Some ''INSTR2013'', None, Some ''01-02''], null_used = False\<rparr>"

end
