(* ===== verification/ProgramData.thy ===== *)
theory ProgramData
  imports LexerProps Port
begin

text \<open>
  Program message units: \<^verbatim>\<open>parser.c\<close>, lines 524 to 533 and 1194 to 1333.  A line of text is cut
  into a header, its parameters and a terminator; the parameters are only skipped here and are read
  again when a command asks for them.

  The token variables on the stack of the C functions have no defined contents; every function
  writes all fields of one before they are read, so the model starts them as \<open>zero_token\<close>
  (\<open>parseProgramData_token\<close> below shows that the token passed in does not matter).
\<close>

definition invalidateToken :: "scpi_token \<Rightarrow> nat option \<Rightarrow> scpi_token" where
  "invalidateToken tok ptr = tok\<lparr>tk_len := 0, tk_ptr := ptr, tk_type := SCPI_TOKEN_UNKNOWN\<rparr>"

section \<open>One parameter\<close>

definition scpiParser_parseProgramData ::
  "mem \<Rightarrow> lex_state \<Rightarrow> scpi_token \<Rightarrow> (int \<times> lex_state \<times> scpi_token) option" where
  "scpiParser_parseProgramData m s tok = do {
     let (realLen, s, tmp) = scpiLex_WhiteSpace m s zero_token;
     let (result, s, tok) = scpiLex_NondecimalNumericData m s tok;
     let (result, s, tok) =
       (if result = 0 then scpiLex_CharacterProgramData m s tok else (result, s, tok));
     let (result, s, tok) =
       (if result = 0 then
          let (result, s, tok) = scpiLex_DecimalNumericProgramData m s tok
          in if result \<noteq> 0 then
               let (wsLen, s, tmp) = scpiLex_WhiteSpace m s tmp;
                   (suffixLen, s, tmp) = scpiLex_SuffixProgramData m s tmp
               in if 0 < suffixLen then
                    let tok = tok\<lparr>tk_len := tk_len tok + wsLen + suffixLen,
                          tk_type := SCPI_TOKEN_DECIMAL_NUMERIC_PROGRAM_DATA_WITH_SUFFIX\<rparr>
                    in (tk_len tok, s, tok)
                  else (result, s, tok)
             else (result, s, tok)
        else (result, s, tok));
     (result, s, tok) \<leftarrow>
       (if result = 0 then scpiLex_StringProgramData m s tok else Some (result, s, tok));
     let (result, s, tok) =
       (if result = 0 then scpiLex_ArbitraryBlockProgramData m s tok else (result, s, tok));
     let (result, s, tok) =
       (if result = 0 then scpiLex_ProgramExpression m s tok else (result, s, tok));
     let (wsLen, s, tmp) = scpiLex_WhiteSpace m s tmp;
     Some (result + (realLen + wsLen), s, tok)
   }"

section \<open>All parameters\<close>

text \<open>
  The loop of \<^verbatim>\<open>scpiParser_parseAllProgramData\<close>; \<open>result\<close> is what the \<^verbatim>\<open>for\<close> statement tests.  The
  test for zero inside the body, which the loop condition has already excluded, is kept.
\<close>

partial_function (option) parseAllLoop ::
  "mem \<Rightarrow> lex_state \<Rightarrow> scpi_token \<Rightarrow> int \<Rightarrow> int \<Rightarrow> (lex_state \<times> scpi_token \<times> int) option" where
  "parseAllLoop m s tok paramCount result =
     (if result = 0 then Some (s, tok, paramCount)
      else
        let tok = tok\<lparr>tk_len := tk_len tok + result\<rparr>
        in if result = 0 then Some (s, tok\<lparr>tk_type := SCPI_TOKEN_UNKNOWN, tk_len := 0\<rparr>, - 1)
           else do {
             (result, s, tmp) \<leftarrow> scpiParser_parseProgramData m s zero_token;
             if tk_type tmp \<noteq> SCPI_TOKEN_UNKNOWN then
               let tok = tok\<lparr>tk_len := tk_len tok + result\<rparr>;
                   (result, s, tmp) = scpiLex_Comma m s tmp
               in parseAllLoop m s tok (paramCount + 1) result
             else Some (s, tok\<lparr>tk_type := SCPI_TOKEN_UNKNOWN, tk_len := 0\<rparr>, - 1)
           })"

definition scpiParser_parseAllProgramData ::
  "mem \<Rightarrow> lex_state \<Rightarrow> scpi_token \<Rightarrow> (int \<times> lex_state \<times> scpi_token \<times> int) option" where
  "scpiParser_parseAllProgramData m s tok = do {
     let tok = \<lparr>tk_type = SCPI_TOKEN_ALL_PROGRAM_DATA, tk_ptr = Some (lx_pos s), tk_len = - 1\<rparr>;
     (s, tok, paramCount) \<leftarrow> parseAllLoop m s tok 0 1;
     let tok = (if tk_len tok = - 1 then tok\<lparr>tk_len := 0\<rparr> else tok);
     Some (tk_len tok, s, tok, paramCount)
   }"

section \<open>One message unit\<close>

definition scpiParser_detectProgramMessageUnit ::
  "mem \<Rightarrow> scpi_parser_state \<Rightarrow> nat \<Rightarrow> int \<Rightarrow> (int \<times> scpi_parser_state) option" where
  "scpiParser_detectProgramMessageUnit m state buffer len = do {
     let s = \<lparr>lx_buffer = buffer, lx_pos = buffer, lx_len = len\<rparr>;
     let state = state\<lparr>numberOfParameters := 0\<rparr>;
     let (ws, s, tmp) = scpiLex_WhiteSpace m s zero_token;
     let (h, s, hdr) = scpiLex_ProgramHeader m s (programHeader state);
     let state = state\<lparr>programHeader := hdr\<rparr>;
     (s, state, tmp) \<leftarrow>
       (if 0 \<le> h then
          let (ws, s, tmp) = scpiLex_WhiteSpace m s tmp
          in if 0 < ws then do {
               (r, s, data, n) \<leftarrow> scpiParser_parseAllProgramData m s (programData state);
               Some (s, state\<lparr>programData := data, numberOfParameters := n\<rparr>, tmp)
             }
             else Some (s, state\<lparr>programData := invalidateToken (programData state) (Some (lx_pos s))\<rparr>, tmp)
        else Some (s, state\<lparr>programHeader := invalidateToken (programHeader state) (Some (lx_buffer s)),
                            programData := invalidateToken (programData state) (Some (lx_buffer s))\<rparr>, tmp));
     let (result, s, tmp) = scpiLex_NewLine m s tmp;
     let (result, s, tmp) =
       (if result = 0 then scpiLex_Semicolon m s tmp else (result, s, tmp));
     let (s, state) =
       (if \<not> scpiLex_IsEos s \<and> result = 0 then
          (advance 1 s,
           state\<lparr>programHeader := (programHeader state)\<lparr>tk_len := 1, tk_type := SCPI_TOKEN_INVALID\<rparr>,
                 programData := invalidateToken (programData state) (Some (lx_buffer s))\<rparr>)
        else (s, state));
     let state = state\<lparr>termination_kind :=
       (if tk_type tmp = SCPI_TOKEN_SEMICOLON then SCPI_MESSAGE_TERMINATION_SEMICOLON
        else if tk_type tmp = SCPI_TOKEN_NL then SCPI_MESSAGE_TERMINATION_NL
        else SCPI_MESSAGE_TERMINATION_NONE)\<rparr>;
     Some (int (lx_pos s) - int (lx_buffer s), state)
   }"

end
