(* ===== verification/ProgramDataFacts.thy ===== *)
theory ProgramDataFacts
  imports ProgramData
begin

text \<open>
  The parser of program data as scanners of the text before it, and what follows for message units:
  a message unit is never empty, never longer than the text, and its tokens lie inside it.
\<close>

section \<open>One parameter as a scanner\<close>

text \<open>For a text without leading white space: the type of the token, its offset and length, what the
  C function adds to its result, and how many characters it skips.\<close>

definition prog_token ::
  "char list \<Rightarrow> (scpi_token_type \<times> nat \<times> nat \<times> nat \<times> nat) option" where
  "prog_token xs =
     (case nondec_scan xs of (ty, n) \<Rightarrow>
        if n \<noteq> 0 then Some (ty, 2, n, n + 2, n + 2)
        else if mnem_len xs \<noteq> 0 then
          Some (SCPI_TOKEN_PROGRAM_MNEMONIC, 0, mnem_len xs, mnem_len xs, mnem_len xs)
        else if decimal_len xs \<noteq> 0 then
          let k = decimal_len xs; w = span_of isws (drop k xs); f = suffix_len (drop (k + w) xs)
          in if f \<noteq> 0
             then Some (SCPI_TOKEN_DECIMAL_NUMERIC_PROGRAM_DATA_WITH_SUFFIX, 0, k + w + f, k + w + f, k + w + f)
             else Some (SCPI_TOKEN_DECIMAL_NUMERIC_PROGRAM_DATA, 0, k, k, k + w)
        else
          case string_len xs of
            None \<Rightarrow> None
          | Some k \<Rightarrow>
              if k \<noteq> 0 then Some (string_type xs, 0, k, k, k)
              else
                case block_scan xs of
                  Block a n \<Rightarrow> Some (SCPI_TOKEN_ARBITRARY_BLOCK_PROGRAM_DATA, a, n, a + n, a + n)
                | Incomplete \<Rightarrow> Some (SCPI_TOKEN_UNKNOWN, length xs, 0, 0, length xs)
                | NotBlock \<Rightarrow>
                    let k = expression_len xs
                    in Some (if k = 0 then SCPI_TOKEN_UNKNOWN else SCPI_TOKEN_PROGRAM_EXPRESSION, 0, k, k, k))"

text \<open>With the white space around it.\<close>

definition param_scan ::
  "char list \<Rightarrow> (scpi_token_type \<times> nat \<times> nat \<times> nat \<times> nat) option" where
  "param_scan xs =
     (let w = span_of isws xs
      in map_option (\<lambda>(ty, off, n, r, u).
           let v = span_of isws (drop (w + u) xs) in (ty, w + off, n, w + r + v, w + u + v))
           (prog_token (drop w xs)))"

definition scan_token :: "lex_state \<Rightarrow> scpi_token_type \<Rightarrow> nat \<Rightarrow> nat \<Rightarrow> scpi_token" where
  "scan_token s ty off n = \<lparr>tk_type = ty, tk_ptr = Some (lx_pos s + off), tk_len = int n\<rparr>"

lemma token_at_scan: "k \<noteq> 0 \<Longrightarrow> token_at s ty k = scan_token s ty 0 k"
  by (simp add: token_at_def scan_token_def)

lemma expression_len_Nil [simp]: "expression_len [] = 0"
  by (simp add: expression_len_def)

lemma parseProgramData_eq:
  "scpiParser_parseProgramData m s tok =
     map_option (\<lambda>(ty, off, n, r, u). (int r, advance u s, scan_token s ty off n))
       (param_scan (rest m s))"
proof -
  define w where "w = span_of isws (rest m s)"
  define t where "t = advance w s"
  define xs where "xs = rest m t"
  have xs: "drop w (rest m s) = xs" by (simp add: xs_def t_def)
  have ws: "scpiLex_WhiteSpace m s zero_token = (int w, t, token_at s SCPI_TOKEN_WS w)"
    by (simp add: WhiteSpace_eq Let_def w_def t_def)
  obtain hty hn where nd: "nondec_scan xs = (hty, hn)" by fastforce
  note E = NondecimalNumericData_eq CharacterProgramData_eq DecimalNumericProgramData_eq
    StringProgramData_eq ArbitraryBlockProgramData_eq ProgramExpression_eq
    SuffixProgramData_eq
  have xs': "rest m t = xs" by (simp add: xs_def)
  have w': "span_of isws (rest m s) = w" by (simp add: w_def)
  have dr: "drop (w + u) (rest m s) = drop u xs" "drop (u + w) (rest m s) = drop u xs" for u
    using arg_cong [OF xs, of "drop u"] by (simp_all add: add.commute)
  have rhs: "map_option (\<lambda>(ty, off, n, r, u). (int r, advance u s, scan_token s ty off n))
       (param_scan (rest m s)) =
     map_option (\<lambda>(ty, off, n, r, u). (int (w + r + span_of isws (drop u xs)),
            advance (u + span_of isws (drop u xs)) t, scan_token t ty off n))
       (prog_token xs)"
    by (cases "prog_token xs")
      (auto simp: param_scan_def w' xs dr Let_def t_def scan_token_def add_ac)
  have wst: "scpiLex_WhiteSpace m (advance u t) tmp =
      (int (span_of isws (drop u xs)), advance (u + span_of isws (drop u xs)) t,
       token_at (advance u t) SCPI_TOKEN_WS (span_of isws (drop u xs)))" for u tmp
    by (simp add: WhiteSpace_eq Let_def xs')
  note S = wst wst [of 0, simplified] rest_advance prog_token_def token_at_def scan_token_def scpiParser_parseProgramData_def ws Let_def xs' case_prod_conv E nd
  consider (nondec) "hn \<noteq> 0" | (mnem) "hn = 0" "mnem_len xs \<noteq> 0"
    | (decimal) "hn = 0" "mnem_len xs = 0" "decimal_len xs \<noteq> 0"
    | (hang) "hn = 0" "mnem_len xs = 0" "decimal_len xs = 0" "string_len xs = None"
    | (str) k where "hn = 0" "mnem_len xs = 0" "decimal_len xs = 0" "string_len xs = Some k" "k \<noteq> 0"
    | (block) "hn = 0" "mnem_len xs = 0" "decimal_len xs = 0" "string_len xs = Some 0"
    by (cases "string_len xs") auto
  then show ?thesis
  proof cases
    case nondec
    then show ?thesis
      unfolding rhs
      by (simp add: S)
  next
    case mnem
    then show ?thesis
      unfolding rhs
      by (simp add: S)
  next
    case hang
    then show ?thesis
      unfolding rhs by (simp add: S)
  next
    case str
    then show ?thesis
      unfolding rhs
      by (simp add: S)
  next
    case decimal
    then show ?thesis
      unfolding rhs by (simp add: S)
  next
    case block
    show ?thesis
    proof (cases "block_scan xs")
      case (Block a n)
      then have "a \<noteq> 0" using block_scan_le [OF Block] by simp
      then show ?thesis unfolding rhs using block Block by (simp add: S)
    next
      case Incomplete
      then show ?thesis unfolding rhs using block by (simp add: S)
    next
      case NotBlock
      then show ?thesis unfolding rhs using block by (simp add: S)
    qed
  qed
qed

text \<open>The token passed in has no influence.\<close>

lemma parseProgramData_token:
  "scpiParser_parseProgramData m s tok = scpiParser_parseProgramData m s tok'"
  by (simp add: parseProgramData_eq)

lemma suffix_after_le:
  "decimal_len xs + w + suffix_len (drop (decimal_len xs + w) xs) \<le> length xs"
  if "w = span_of isws (drop (decimal_len xs) xs)"
proof -
  have "w \<le> length xs - decimal_len xs" unfolding that by (rule span_drop_le)
  moreover have "suffix_len (drop (decimal_len xs + w) xs) \<le> length (drop (decimal_len xs + w) xs)"
    by (rule suffix_len_le)
  moreover have "decimal_len xs \<le> length xs" by (rule decimal_len_le)
  ultimately show ?thesis unfolding length_drop by linarith
qed

lemma prog_token_le:
  assumes "prog_token xs = Some (ty, off, n, r, u)"
  shows "off + n \<le> u \<and> r \<le> u \<and> u \<le> length xs \<and> (ty \<noteq> SCPI_TOKEN_UNKNOWN \<longrightarrow> 0 < u)"
proof -
  obtain hty hn where nd: "nondec_scan xs = (hty, hn)" by fastforce
  have w: "span_of isws (drop (decimal_len xs) xs) \<le> length xs - decimal_len xs"
    by (rule span_drop_le)
  show ?thesis
    using assms nd nondec_scan_le [OF nd] mnem_len_le [of xs] decimal_len_le [of xs] w
      suffix_after_le [OF refl, of xs] string_len_le [of xs] expression_len_le [of xs]
      block_scan_le [of xs]
    by (auto simp: prog_token_def Let_def simp del: mnem_len_le decimal_len_le
        split: if_splits option.splits block_result.splits)
qed

lemma param_scan_le:
  assumes "param_scan xs = Some (ty, off, n, r, u)"
  shows "off + n \<le> u \<and> r \<le> u \<and> u \<le> length xs \<and> (ty \<noteq> SCPI_TOKEN_UNKNOWN \<longrightarrow> 0 < u)"
proof -
  let ?w = "span_of isws xs"
  obtain off' n' r' u' where t: "prog_token (drop ?w xs) = Some (ty, off', n', r', u')"
    "off = ?w + off'" "n = n'" "r = ?w + r' + span_of isws (drop (?w + u') xs)"
    "u = ?w + u' + span_of isws (drop (?w + u') xs)"
    using assms by (auto simp: param_scan_def Let_def)
  have "span_of isws (drop (?w + u') xs) \<le> length xs - (?w + u')" by (rule span_drop_le)
  moreover have "?w \<le> length xs" by (rule span_le)
  ultimately show ?thesis using prog_token_le [OF t(1)] t(2-) by (auto simp del: span_le)
qed

section \<open>All parameters as a scanner\<close>

text \<open>Whether the list is well formed, the sum of the results, the characters skipped and the number
  of parameters.\<close>

function all_scan :: "char list \<Rightarrow> (bool \<times> nat \<times> nat \<times> nat) option" where
  "all_scan xs =
     (case param_scan xs of
        None \<Rightarrow> None
      | Some (ty, off, n, r, u) \<Rightarrow>
          if ty = SCPI_TOKEN_UNKNOWN then Some (False, 0, u, 0)
          else if starts (\<lambda>c. c = CHR '','') (drop u xs) then
            map_option (\<lambda>(ok, r', u', k). (ok, r + 1 + r', u + 1 + u', Suc k))
              (all_scan (drop (u + 1) xs))
          else Some (True, r, u, 1))"
  by auto
termination
proof (relation "measure length", simp, goal_cases)
  case (1 xs _ ty _ off _ n _ r u)
  then show ?case by (cases "drop u xs") (auto dest: arg_cong [where f = length])
qed

declare all_scan.simps [simp del]

lemma all_scan_le: "all_scan xs = Some (ok, r, u, k) \<Longrightarrow> r \<le> u \<and> u \<le> length xs \<and> (ok \<longrightarrow> 0 < k)"
proof (induction xs arbitrary: ok r u k rule: all_scan.induct)
  case (1 xs)
  obtain ty off n r1 u1 where p: "param_scan xs = Some (ty, off, n, r1, u1)"
    using 1(2) by (subst (asm) all_scan.simps) (auto split: option.splits)
  note le = param_scan_le [OF p]
  show ?case
  proof (cases "ty \<noteq> SCPI_TOKEN_UNKNOWN \<and> starts (\<lambda>c. c = CHR '','') (drop u1 xs)")
    case True
    then obtain r2 u2 k2 where a: "all_scan (drop (u1 + 1) xs) = Some (ok, r2, u2, k2)"
      "r = r1 + 1 + r2" "u = u1 + 1 + u2" "k = Suc k2"
      using 1(2) p by (subst (asm) all_scan.simps) auto
    have "u1 < length xs" using True by (cases "u1 < length xs") simp_all
    moreover have "r2 \<le> u2 \<and> u2 \<le> length (drop (u1 + 1) xs)"
      using 1(1) [OF p refl refl refl refl] True a(1) by auto
    ultimately show ?thesis using le a(2-) by auto
  next
    case False
    then show ?thesis using 1(2) p le by (subst (asm) all_scan.simps) (auto split: if_splits)
  qed
qed

lemma parseAllLoop_eq:
  "result \<noteq> 0 \<Longrightarrow> parseAllLoop m s tok cnt result =
     map_option (\<lambda>(ok, r, u, k).
         (advance u s,
          if ok then tok\<lparr>tk_len := tk_len tok + result + int r\<rparr>
          else tok\<lparr>tk_type := SCPI_TOKEN_UNKNOWN, tk_len := 0\<rparr>,
          if ok then cnt + int k else - 1))
       (all_scan (rest m s))"
proof (induction "rest m s" arbitrary: s tok cnt result rule: all_scan.induct)
  case (1 s tok cnt result)
  note unf = parseAllLoop.simps [of m s tok cnt result] all_scan.simps [of "rest m s"]
  show ?case
  proof (cases "param_scan (rest m s)")
    case None
    then show ?thesis unfolding unf using 1(2) by (simp add: parseProgramData_eq)
  next
    case (Some p)
    obtain ty off n r u where p: "p = (ty, off, n, r, u)" by (cases p) auto
    let ?comma = "starts (\<lambda>c. c = CHR '','') (drop u (rest m s))"
    show ?thesis
    proof (cases "ty \<noteq> SCPI_TOKEN_UNKNOWN \<and> ?comma")
      case True
      have IH: "\<And>tok cnt. parseAllLoop m (advance (u + 1) s) tok cnt 1 =
          map_option (\<lambda>(ok, r, u', k).
            (advance u' (advance (u + 1) s),
             if ok then tok\<lparr>tk_len := tk_len tok + 1 + int r\<rparr>
             else tok\<lparr>tk_type := SCPI_TOKEN_UNKNOWN, tk_len := 0\<rparr>,
             if ok then cnt + int k else - 1))
          (all_scan (rest m (advance (u + 1) s)))"
        by (rule 1(1) [OF Some [unfolded p] refl refl refl refl]) (use True in simp_all)
      show ?thesis
        unfolding unf using 1(2) Some True
        by (simp add: parseProgramData_eq p scan_token_def separator_eq opt_def IH [simplified])
          (cases "all_scan (drop (Suc u) (rest m s))"; auto simp: add_ac)
    next
      case False
      then show ?thesis
        unfolding unf using 1(2) Some
        by (auto simp: parseProgramData_eq p scan_token_def separator_eq opt_def parseAllLoop.simps [of _ _ _ _ 0])
    qed
  qed
qed

definition data_token :: "bool \<Rightarrow> nat \<Rightarrow> nat \<Rightarrow> scpi_token" where
  "data_token ok p n = (if ok then \<lparr>tk_type = SCPI_TOKEN_ALL_PROGRAM_DATA, tk_ptr = Some p, tk_len = int n\<rparr>
     else \<lparr>tk_type = SCPI_TOKEN_UNKNOWN, tk_ptr = Some p, tk_len = 0\<rparr>)"

lemma parseAllProgramData_eq:
  "scpiParser_parseAllProgramData m s tok =
     map_option (\<lambda>(ok, r, u, k).
         (if ok then int r else 0, advance u s, data_token ok (lx_pos s) r,
          if ok then int k else - 1))
       (all_scan (rest m s))"
  by (cases "all_scan (rest m s)")
    (auto simp: scpiParser_parseAllProgramData_def parseAllLoop_eq data_token_def)

section \<open>A message unit as a scanner\<close>

record unit_text =
  un_header :: "scpi_token_type \<times> nat \<times> nat"
  un_data :: "bool \<times> nat \<times> nat"
  un_count :: int
  un_used :: nat
  un_term :: message_termination

definition end_scan :: "char list \<Rightarrow> nat \<times> message_termination" where
  "end_scan xs =
     (if newline_len xs \<noteq> 0 then (newline_len xs, SCPI_MESSAGE_TERMINATION_NL)
      else if starts (\<lambda>c. c = CHR '';'') xs then (1, SCPI_MESSAGE_TERMINATION_SEMICOLON)
      else (0, SCPI_MESSAGE_TERMINATION_NONE))"

definition data_scan :: "char list \<Rightarrow> (bool \<times> nat \<times> nat \<times> nat \<times> int) option" where
  "data_scan xs =
     (let v = span_of isws xs
      in if v = 0 then Some (False, 0, 0, 0, 0)
         else map_option (\<lambda>(ok, r, u, k). (ok, v, r, v + u, if ok then int k else - 1))
                (all_scan (drop v xs)))"

definition unit_scan :: "char list \<Rightarrow> unit_text option" where
  "unit_scan xs =
     (let w = span_of isws xs; (ty, h) = header_scan (drop w xs)
      in map_option (\<lambda>(ok, v, r, u, k).
           let ys = drop (w + h + u) xs; (e, term) = end_scan ys
           in if ys \<noteq> [] \<and> e = 0
              then \<lparr>un_header = (SCPI_TOKEN_INVALID, w, 1), un_data = (False, 0, 0), un_count = k,
                    un_used = w + h + u + 1, un_term = term\<rparr>
              else \<lparr>un_header = (ty, w, h), un_data = (ok, w + h + v, r), un_count = k,
                    un_used = w + h + u + e, un_term = term\<rparr>)
           (data_scan (drop (w + h) xs)))"

definition unit_state :: "nat \<Rightarrow> unit_text \<Rightarrow> scpi_parser_state" where
  "unit_state b u =
     (case (un_header u, un_data u) of ((ty, off, h), (ok, off', n)) \<Rightarrow>
        \<lparr>programHeader = \<lparr>tk_type = ty, tk_ptr = Some (b + off), tk_len = int h\<rparr>,
         programData = data_token ok (b + off') n,
         numberOfParameters = un_count u, termination_kind = un_term u\<rparr>)"

lemma rest_start:
  "rest m \<lparr>lx_buffer = b, lx_pos = b, lx_len = len\<rparr> = map (rd m) [b ..< nat (int b + len)]"
  by (simp add: rest_def)

text \<open>The end of \<^verbatim>\<open>scpiParser_detectProgramMessageUnit\<close>.\<close>

lemma unit_end_eq:
  "do {
     let (result, s, tmp) = scpiLex_NewLine m s tmp;
     let (result, s, tmp) =
       (if result = 0 then scpiLex_Semicolon m s tmp else (result, s, tmp));
     let (s, state) =
       (if \<not> scpiLex_IsEos s \<and> result = 0 then
          (advance 1 s,
           state\<lparr>programHeader := (programHeader state)\<lparr>tk_len := 1, tk_type := SCPI_TOKEN_INVALID\<rparr>,
                 programData := invalidateToken (programData state) (Some (lx_buffer s))\<rparr>)
        else (s, state));
     let state = state\<lparr>termination_kind :=
       (if tk_type tmp = SCPI_TOKEN_SEMICOLON then SCPI_MESSAGE_TERMINATION_SEMICOLON
        else if tk_type tmp = SCPI_TOKEN_NL then SCPI_MESSAGE_TERMINATION_NL
        else SCPI_MESSAGE_TERMINATION_NONE)\<rparr>;
     Some (int (lx_pos s) - int (lx_buffer s), state)
   } =
   (let zs = rest m s; (e, term) = end_scan zs
    in if zs \<noteq> [] \<and> e = 0 then
         Some (int (lx_pos s + 1) - int (lx_buffer s),
           state\<lparr>programHeader := (programHeader state)\<lparr>tk_len := 1, tk_type := SCPI_TOKEN_INVALID\<rparr>,
                 programData := invalidateToken (programData state) (Some (lx_buffer s)),
                 termination_kind := term\<rparr>)
       else Some (int (lx_pos s + e) - int (lx_buffer s), state\<lparr>termination_kind := term\<rparr>))"
proof -
  have eos: "scpiLex_IsEos t \<longleftrightarrow> rest m t = []" for t
    by (simp add: scpiLex_IsEos_def iseos_rest [of t m])
  show ?thesis
    by (cases "newline_len (rest m s) = 0"; cases "starts (\<lambda>c. c = CHR '';'') (rest m s)")
      (simp_all add: NewLine_eq separator_eq opt_def Let_def end_scan_def eos token_at_def)
qed

lemma detect_eq:
  "scpiParser_detectProgramMessageUnit m st b len =
     map_option (\<lambda>u. (int (un_used u), unit_state b u))
       (unit_scan (map (rd m) [b ..< nat (int b + len)]))"
proof -
  define s where "s = \<lparr>lx_buffer = b, lx_pos = b, lx_len = len\<rparr>"
  define xs where "xs = map (rd m) [b ..< nat (int b + len)]"
  have r: "rest m s = xs" by (simp add: s_def xs_def rest_start)
  define w where "w = span_of isws xs"
  obtain ty h where h: "header_scan (drop w xs) = (ty, h)" by fastforce
  have pos: "lx_pos s = b" "lx_buffer s = b" by (simp_all add: s_def)
  have hdr: "scpiLex_ProgramHeader m (advance w s) tok =
      (int h, advance (w + h) s, \<lparr>tk_type = ty, tk_ptr = Some (b + w), tk_len = int h\<rparr>)" for tok
    by (simp add: ProgramHeader_eq r h pos)
  define ys where "ys = drop (w + h) xs"
  define v where "v = span_of isws ys"
  have ry: "rest m (advance (w + h) s) = ys" by (simp only: rest_advance r ys_def)
  have rt: "rest m (advance (w + h + j) s) = drop j ys" for j
    by (rule rest_advance [of m j "advance (w + h) s", unfolded ry advance_simps])
  have ws1: "scpiLex_WhiteSpace m s zero_token = (int w, advance w s, token_at s SCPI_TOKEN_WS w)"
    by (simp add: WhiteSpace_eq r Let_def w_def)
  have ws2: "scpiLex_WhiteSpace m (advance (w + h) s) tok =
      (int v, advance (w + h + v) s, token_at (advance (w + h) s) SCPI_TOKEN_WS v)" for tok
    by (simp only: WhiteSpace_eq ry Let_def v_def advance_simps)
  have us: "unit_scan xs = map_option (\<lambda>(ok, v, r, u, k).
           let zs = drop u ys; (e, term) = end_scan zs
           in if zs \<noteq> [] \<and> e = 0
              then \<lparr>un_header = (SCPI_TOKEN_INVALID, w, 1), un_data = (False, 0, 0), un_count = k,
                    un_used = w + h + u + 1, un_term = term\<rparr>
              else \<lparr>un_header = (ty, w, h), un_data = (ok, w + h + v, r), un_count = k,
                    un_used = w + h + u + e, un_term = term\<rparr>)
           (data_scan ys)"
    by (simp add: unit_scan_def h ys_def Let_def add_ac flip: w_def)
  show ?thesis
  proof (cases "data_scan ys")
    case None
    then have "v \<noteq> 0" "all_scan (drop v ys) = None"
      by (auto simp: data_scan_def Let_def simp flip: v_def split: if_splits)
    moreover note rt [of v]
    ultimately show ?thesis
      unfolding xs_def [symmetric] us None scpiParser_detectProgramMessageUnit_def s_def [symmetric]
      by (simp add: ws1 hdr ws2 parseAllProgramData_eq Let_def del: rest_advance)
  next
    case (Some d)
    obtain ok v' n u k where d: "d = (ok, v', n, u, k)" by (cases d) auto
    show ?thesis
    proof (cases "v = 0")
      case True
      then have "ok = False" "v' = 0" "n = 0" "u = 0" "k = 0"
        using Some d by (auto simp: data_scan_def Let_def simp flip: v_def)
      then show ?thesis
        unfolding xs_def [symmetric] us Some scpiParser_detectProgramMessageUnit_def s_def [symmetric]
        using True
        by (simp add: ws1 hdr ws2 Let_def unit_end_eq [unfolded Let_def] pos d rt ry unit_state_def
            data_token_def invalidateToken_def split: prod.split del: rest_advance)
    next
      case False
      then obtain u' k' where a: "all_scan (drop v ys) = Some (ok, n, u', k')" "v' = v" "u = v + u'"
        "k = (if ok then int k' else - 1)"
        using Some d by (auto simp: data_scan_def Let_def simp flip: v_def)
      have u: "w + h + v + u' = w + h + u" by (simp add: a(3))
      show ?thesis
        unfolding xs_def [symmetric] us Some scpiParser_detectProgramMessageUnit_def s_def [symmetric]
        using False
        by (simp add: ws1 hdr ws2 Let_def unit_end_eq [unfolded Let_def] pos d rt parseAllProgramData_eq
            a(1,2,4) u unit_state_def data_token_def invalidateToken_def split: prod.split
            del: rest_advance)
    qed
  qed
qed

end
