(* ===== verification/ProgramDataProps.thy ===== *)
theory ProgramDataProps
  imports ProgramDataFacts Convert
begin

text \<open>
  What a message unit is: the parser returns on every 7-bit text, makes progress and stays inside
  it; a header with well formed arguments is cut where it should be; and the one place where the
  length of the parameters comes out too short.
\<close>

section \<open>Progress and bounds\<close>

lemma string_len_7bit: "\<forall>c\<in>set xs. isascii7bit c \<Longrightarrow> string_len xs \<noteq> None"
  using quote_end_7bit by (auto simp: string_len_def split: list.splits)

lemma prog_token_7bit: "\<forall>c\<in>set xs. isascii7bit c \<Longrightarrow> prog_token xs \<noteq> None"
  using string_len_7bit [of xs]
  by (auto simp: prog_token_def Let_def split: prod.splits option.splits block_result.splits)

lemma param_scan_7bit: "\<forall>c\<in>set xs. isascii7bit c \<Longrightarrow> param_scan xs \<noteq> None"
  using prog_token_7bit [of "drop (span_of isws xs) xs"] in_set_dropD [of _ "span_of isws xs" xs]
  by (auto simp: param_scan_def Let_def)

lemma all_scan_7bit: "\<forall>c\<in>set xs. isascii7bit c \<Longrightarrow> all_scan xs \<noteq> None"
proof (induction xs rule: all_scan.induct)
  case (1 xs)
  obtain ty off n r u where p: "param_scan xs = Some (ty, off, n, r, u)"
    using param_scan_7bit [OF 1(2)] by auto
  have "\<forall>c\<in>set (drop (u + 1) xs). isascii7bit c" using 1(2) by (meson in_set_dropD)
  then show ?case
    using 1(1) [OF p refl refl refl refl] by (subst all_scan.simps) (auto simp: p)
qed

lemma data_scan_7bit: "\<forall>c\<in>set xs. isascii7bit c \<Longrightarrow> data_scan xs \<noteq> None"
  using all_scan_7bit [of "drop (span_of isws xs) xs"] in_set_dropD [of _ "span_of isws xs" xs]
  by (auto simp: data_scan_def Let_def)

lemma unit_scan_7bit: "\<forall>c\<in>set xs. isascii7bit c \<Longrightarrow> unit_scan xs \<noteq> None"
  using data_scan_7bit [of "drop k xs" for k] in_set_dropD [of _ _ xs]
  by (simp add: unit_scan_def Let_def split: prod.split)

lemma data_scan_le:
  assumes "data_scan xs = Some (ok, v, r, u, k)"
  shows "u \<le> length xs \<and> (ok \<longrightarrow> v + r \<le> u)"
proof (cases "span_of isws xs = 0")
  case True
  then show ?thesis using assms by (simp add: data_scan_def)
next
  case False
  then obtain r' u' k' where a: "all_scan (drop (span_of isws xs) xs) = Some (ok, r', u', k')"
    "r = r'" "u = span_of isws xs + u'" "v = span_of isws xs"
    using assms by (auto simp: data_scan_def Let_def)
  have "span_of isws xs \<le> length xs" by (rule span_le)
  then show ?thesis using all_scan_le [OF a(1)] unfolding length_drop a(2-4) by linarith
qed

lemma end_scan_le: "end_scan xs = (e, term) \<Longrightarrow> e \<le> length xs"
  using newline_len_le [of xs] by (cases xs) (auto simp: end_scan_def split: if_splits)

lemma unit_scan_le:
  assumes "unit_scan xs = Some u" "un_header u = (ty, off, h)" "un_data u = (ok, off', n)"
  shows "un_used u \<le> length xs \<and> (xs \<noteq> [] \<longrightarrow> 0 < un_used u) \<and> off + h \<le> un_used u \<and>
           (ok \<longrightarrow> off' + n \<le> un_used u) \<and> (\<not> ok \<longrightarrow> off' \<le> un_used u)"
proof -
  let ?w = "span_of isws xs"
  obtain ty' h' where hd: "header_scan (drop ?w xs) = (ty', h')" by fastforce
  obtain ok' v r u' k where d: "data_scan (drop (?w + h') xs) = Some (ok', v, r, u', k)"
    using assms(1) by (auto simp: unit_scan_def Let_def hd)
  obtain e tm where e: "end_scan (drop (?w + h' + u') xs) = (e, tm)" by fastforce
  have le: "?w \<le> length xs" "h' \<le> length xs - ?w" "u' \<le> length xs - (?w + h')"
    "ok' \<longrightarrow> v + r \<le> u'" "e \<le> length xs - (?w + h' + u')"
    using header_scan_le [OF hd] data_scan_le [OF d] end_scan_le [OF e] by auto
  have v: "\<not> ok' \<longrightarrow> v \<le> u'" using d by (auto simp: data_scan_def Let_def split: if_splits)
  have "e \<noteq> 0 \<or> drop (?w + h' + u') xs \<noteq> [] \<or> ?w + h' + u' = length xs"
    using le(1-3) by (cases "?w + h' + u' < length xs") (auto simp del: span_le)
  then show ?thesis
    using assms le v
    by (auto simp: unit_scan_def Let_def hd d e simp del: span_le split: if_splits)
qed

definition token_inside :: "nat \<Rightarrow> int \<Rightarrow> scpi_token \<Rightarrow> bool" where
  "token_inside b r tok \<longleftrightarrow> (\<exists>p. tk_ptr tok = Some p \<and> b \<le> p \<and> 0 \<le> tk_len tok \<and>
     int p + tk_len tok \<le> int b + r)"

text \<open>C31: A message unit is found, is not empty, and lies inside the line.  On any nonempty piece of
  7-bit text \<^verbatim>\<open>scpiParser_detectProgramMessageUnit\<close> returns with a positive number of characters,
  no more than there are, and the tokens of the header and of the parameters lie inside them.\<close>

theorem unit_inside:
  assumes "0 < len" "\<forall>i<nat len. isascii7bit (rd m (b + i))"
  shows "\<exists>r st'. scpiParser_detectProgramMessageUnit m st b len = Some (r, st') \<and> 0 < r \<and> r \<le> len \<and>
           token_inside b r (programHeader st') \<and> token_inside b r (programData st')"
proof -
  let ?xs = "map (rd m) [b ..< nat (int b + len)]"
  have l: "length ?xs = nat len" "nat (int b + len) = b + nat len" using assms(1) by simp_all
  have "\<forall>c\<in>set ?xs. isascii7bit c"
  proof
    fix c assume "c \<in> set ?xs"
    then obtain j where "b \<le> j" "j < b + nat len" "c = rd m j" by (auto simp: l)
    then show "isascii7bit c" using assms(2) [rule_format, of "j - b"] by simp
  qed
  then obtain u where u: "unit_scan ?xs = Some u" using unit_scan_7bit by blast
  obtain ty off h ok off' n where t: "un_header u = (ty, off, h)" "un_data u = (ok, off', n)"
    by (metis prod_cases3)
  have ne: "?xs \<noteq> []" using assms(1) by auto
  note le = unit_scan_le [OF u t]
  have "programHeader (unit_state b u) = \<lparr>tk_type = ty, tk_ptr = Some (b + off), tk_len = int h\<rparr>"
    "programData (unit_state b u) = data_token ok (b + off') n"
    by (simp_all add: unit_state_def t)
  moreover have "0 < un_used u" "int (un_used u) \<le> len" using le ne assms(1) l by auto
  ultimately show ?thesis
    using le by (auto simp: detect_eq u token_inside_def data_token_def)
qed

lemma unit_inside_witness:
  "\<exists>r st'. scpiParser_detectProgramMessageUnit ''*IDN?;VOLT 5'' (parser_state scpi_context) 0 12 = Some (r, st') \<and>
     0 < r \<and> r \<le> 12 \<and> token_inside 0 r (programHeader st') \<and> token_inside 0 r (programData st')"
proof -
  have "\<forall>i<nat 12. isascii7bit (rd ''*IDN?;VOLT 5'' (0 + i))"
    by (simp add: isascii7bit_def less_Suc_eq numeral_eq_Suc all_conj_distrib)
  then show ?thesis using unit_inside [of 12 "''*IDN?;VOLT 5''" 0 "parser_state scpi_context"] by simp
qed

section \<open>Well formed arguments\<close>

text \<open>The texts of arguments: signed integers, character data, quoted strings and blocks.\<close>

datatype arg = Arg_int bool nat | Arg_name "char list" | Arg_string char "char list" | Arg_block "char list"

definition block_text :: "char list \<Rightarrow> char list" where
  "block_text data =
     (let n = num_text 10 (length data) in CHR ''#'' # dchar (length n) # n @ data)"

fun arg_text :: "arg \<Rightarrow> char list" where
  "arg_text (Arg_int neg n) = (if neg then ''-'' else []) @ num_text 10 n"
| "arg_text (Arg_name w) = w"
| "arg_text (Arg_string q body) = quote_text q body"
| "arg_text (Arg_block data) = block_text data"

fun arg_ok :: "arg \<Rightarrow> bool" where
  "arg_ok (Arg_int neg n) = True"
| "arg_ok (Arg_name w) = is_mnemonic w"
| "arg_ok (Arg_string q body) = (is_quote q \<and> (\<forall>c\<in>set body. isascii7bit c))"
| "arg_ok (Arg_block data) = (length data < 10 ^ 9)"

text \<open>The token the lexer is to find: type, offset and length.\<close>

fun arg_token :: "arg \<Rightarrow> scpi_token_type \<times> nat \<times> nat" where
  "arg_token (Arg_int neg n) = (SCPI_TOKEN_DECIMAL_NUMERIC_PROGRAM_DATA, 0, length (arg_text (Arg_int neg n)))"
| "arg_token (Arg_name w) = (SCPI_TOKEN_PROGRAM_MNEMONIC, 0, length w)"
| "arg_token (Arg_string q body) =
     (if q = CHR 0x22 then SCPI_TOKEN_DOUBLE_QUOTE_PROGRAM_DATA else SCPI_TOKEN_SINGLE_QUOTE_PROGRAM_DATA,
      0, length (quote_text q body))"
| "arg_token (Arg_block data) =
     (SCPI_TOKEN_ARBITRARY_BLOCK_PROGRAM_DATA, length (num_text 10 (length data)) + 2, length data)"

definition arg_ends :: "char list \<Rightarrow> bool" where
  "arg_ends zs \<longleftrightarrow> zs = [] \<or> hd zs \<in> {CHR '','', CHR '';'', CHR 0x0D, CHR 0x0A}"

lemma arg_end_char:
  "x \<in> {CHR '','', CHR '';'', CHR 0x0D, CHR 0x0A} \<Longrightarrow>
     \<not> isMnemonicChar x \<and> \<not> isdigit x \<and> \<not> isalpha x \<and> \<not> isws x \<and> \<not> isE x \<and> x \<noteq> CHR ''.'' \<and>
     x \<noteq> CHR ''/'' \<and> \<not> isplusmn x \<and> \<not> is_quote x \<and> \<not> isalnum x"
  by (elim insertE emptyE; simp add: isMnemonicChar_def isalnum_def isalpha_def isupper_def
      islower_def isdigit_def isws_def isE_def isplusmn_def is_quote_def)

lemma arg_ends_starts:
  assumes "arg_ends zs"
  shows "\<not> starts isMnemonicChar zs" "\<not> starts isdigit zs" "\<not> starts isalpha zs" "\<not> starts isws zs"
    "\<not> starts isE zs" "\<not> starts (\<lambda>c. c = CHR ''.'') zs" "\<not> starts (\<lambda>c. c = CHR ''/'') zs"
    "\<not> starts isplusmn zs" "is_quote q \<Longrightarrow> \<not> starts (\<lambda>c. c = q) zs" "\<not> starts isalnum zs"
proof -
  show "\<not> starts isMnemonicChar zs" "\<not> starts isdigit zs" "\<not> starts isalpha zs" "\<not> starts isws zs"
    "\<not> starts isE zs" "\<not> starts (\<lambda>c. c = CHR ''.'') zs" "\<not> starts (\<lambda>c. c = CHR ''/'') zs"
    "\<not> starts isplusmn zs" "is_quote q \<Longrightarrow> \<not> starts (\<lambda>c. c = q) zs" "\<not> starts isalnum zs"
    using assms arg_end_char [of "hd zs"] by (cases zs; force simp: arg_ends_def)+
qed

lemma base_digit_10: "base_digit 10 c \<Longrightarrow> isdigit c"
  by (simp add: base_digit_def digit_val_def isupper_def islower_def split: if_splits)

lemma num_text_digit: "c \<in> set (num_text 10 n) \<Longrightarrow> isdigit c" "num_text 10 n \<noteq> []"
  using num_text_digits [of 10 n] base_digit_10 by simp_all

lemma digit_not:
  assumes "isdigit c"
  shows "\<not> isalpha c" "\<not> isws c" "\<not> isplusmn c" "c \<noteq> CHR ''#''" "c \<noteq> CHR ''-''"
    "\<not> isH c" "\<not> isQ c" "\<not> isB c" "\<not> is_quote c"
proof -
  have c: "48 \<le> code c" "code c \<le> 57" using assms by (simp_all add: isdigit_def)
  show "\<not> isalpha c" using c by (simp add: isalpha_def isupper_def islower_def)
  have "c \<noteq> d" if "code d < 48 \<or> 57 < code d" for d using c that by auto
  then show "\<not> isws c" "\<not> isplusmn c" "c \<noteq> CHR ''#''" "c \<noteq> CHR ''-''"
    "\<not> isH c" "\<not> isQ c" "\<not> isB c" "\<not> is_quote c"
    by (simp_all add: isws_def isplusmn_def isH_def isQ_def isB_def is_quote_def)
qed

lemma isalpha_not: "isalpha c \<Longrightarrow> \<not> isws c"
proof -
  assume "isalpha c"
  then have "65 \<le> code c" by (auto simp: isalpha_def isupper_def islower_def)
  moreover have "code (CHR '' '') = 32" "code (CHR 0x09) = 9" by simp_all
  ultimately show ?thesis by (auto simp: isws_def)
qed

lemma span_stop: "\<not> starts P zs \<Longrightarrow> span_of P zs = 0" "\<not> starts P zs \<Longrightarrow> opt P zs = 0"
  by (simp_all add: span_0_iff opt_def)

lemma decimal_len_stop:
  assumes "\<not> starts isdigit zs" "\<not> starts isws zs" "\<not> starts isE zs" "\<not> starts (\<lambda>c. c = CHR ''.'') zs"
  shows "decimal_len (arg_text (Arg_int neg n) @ zs) = length (arg_text (Arg_int neg n))"
proof -
  obtain d ds where t: "num_text 10 n = d # ds" "isdigit d"
    using num_text_digit by (metis list.exhaust list.set_intros(1))
  have sp: "span_of isdigit (num_text 10 n @ zs) = length (num_text 10 n)"
    using num_text_digit(1) assms(1) by (intro span_append_stop) auto
  have m: "mantissa_scan (arg_text (Arg_int neg n) @ zs) =
      (length (num_text 10 n), length (arg_text (Arg_int neg n)))"
    using sp assms(4) t digit_not(3) [OF t(2)]
    by (cases neg) (simp_all add: mantissa_scan_def Let_def isplusmn_def span_stop)
  show ?thesis
    using assms(2,3) num_text_digit(2) [of n]
    by (simp add: decimal_len_def m Let_def span_stop exponent_scan_def del: arg_text.simps)
qed

lemma decimal_len_int:
  assumes "arg_ends zs"
  shows "decimal_len (arg_text (Arg_int neg n) @ zs) = length (arg_text (Arg_int neg n))"
  using arg_ends_starts [OF assms] by (intro decimal_len_stop)

lemma prog_token_int:
  assumes "arg_ends zs"
  shows "prog_token (arg_text (Arg_int neg n) @ zs) =
    Some (SCPI_TOKEN_DECIMAL_NUMERIC_PROGRAM_DATA, 0, length (arg_text (Arg_int neg n)),
          length (arg_text (Arg_int neg n)), length (arg_text (Arg_int neg n)))"
proof -
  note z = arg_ends_starts [OF assms]
  obtain d ds where t: "num_text 10 n = d # ds" "isdigit d"
    using num_text_digit by (metis list.exhaust list.set_intros(1))
  have "nondec_scan (arg_text (Arg_int neg n) @ zs) = (SCPI_TOKEN_UNKNOWN, 0)"
    "mnem_len (arg_text (Arg_int neg n) @ zs) = 0"
    using t digit_not [OF t(2)]
    by (cases neg; simp add: nondec_scan_def mnem_len_def isalpha_def isupper_def islower_def
        split: list.split)+
  moreover have "suffix_len zs = 0"
    using z(3,7) by (simp add: suffix_len_def span_stop)
  moreover have "length (arg_text (Arg_int neg n)) \<noteq> 0" using t by simp
  ultimately show ?thesis
    using decimal_len_int [OF assms, of neg n] z(4)
    by (simp add: prog_token_def Let_def span_stop del: arg_text.simps)
qed

lemma prog_token_name:
  assumes "is_mnemonic w" "arg_ends zs"
  shows "prog_token (w @ zs) = Some (SCPI_TOKEN_PROGRAM_MNEMONIC, 0, length w, length w, length w)"
proof -
  obtain c cs where w: "w = c # cs" "isalpha c" using assms(1) by (cases w) (auto simp: is_mnemonic_def)
  then have "c \<noteq> CHR ''#''" by (auto simp: isalpha_def isupper_def islower_def)
  then have "nondec_scan (w @ zs) = (SCPI_TOKEN_UNKNOWN, 0)"
    by (simp add: nondec_scan_def w split: list.split)
  moreover have "mnem_len (w @ zs) = length w"
    by (rule mnem_len_mnemonic [OF assms(1) arg_ends_starts(1) [OF assms(2)]])
  ultimately show ?thesis by (simp add: prog_token_def w)
qed

lemma no_number:
  assumes "\<not> isplusmn c" "\<not> isdigit c" "c \<noteq> CHR ''.''" "\<not> isalpha c"
  shows "decimal_len (c # xs) = 0" "mnem_len (c # xs) = 0"
  using assms by (simp_all add: decimal_len_def mantissa_scan_def mnem_len_def opt_def Let_def)

lemma prog_token_string:
  assumes "is_quote q" "\<forall>c\<in>set body. isascii7bit c" "arg_ends zs"
  shows "prog_token (quote_text q body @ zs) =
    Some (if q = CHR 0x22 then SCPI_TOKEN_DOUBLE_QUOTE_PROGRAM_DATA else SCPI_TOKEN_SINGLE_QUOTE_PROGRAM_DATA,
          0, length (quote_text q body), length (quote_text q body), length (quote_text q body))"
proof -
  obtain ys where q: "quote_text q body = q # ys" by (simp add: quote_text_def)
  have nq: "q \<noteq> CHR ''#''" "\<not> isplusmn q" "\<not> isdigit q" "q \<noteq> CHR ''.''" "\<not> isalpha q"
    using assms(1) by (auto simp: is_quote_def isplusmn_def isdigit_def isalpha_def isupper_def islower_def)
  have "nondec_scan (q # ys @ zs) = (SCPI_TOKEN_UNKNOWN, 0)"
    using nq(1) by (simp add: nondec_scan_def split: list.split)
  moreover have "string_len (q # ys @ zs) = Some (length (quote_text q body))"
    using string_len_quoted [OF assms(1,2) arg_ends_starts(9) [OF assms(3,1)]] by (simp add: q)
  ultimately show ?thesis
    using no_number [OF nq(2-5), of "ys @ zs"] assms(1)
    by (auto simp: prog_token_def q string_type_def is_quote_def)
qed

lemma dec_val_digits: "\<forall>c\<in>set ds. isdigit c \<Longrightarrow> dec_val ds = int (digits_value 10 ds)"
proof (induction ds rule: rev_induct)
  case (snoc c ds)
  then show ?case
    by (simp add: dec_val_def digits_value_def digit_val_def isdigit_def of_nat_diff)
qed (simp add: dec_val_def digits_value_def)

lemma num_text_len9: "n < 10 ^ 9 \<Longrightarrow> length (num_text 10 n) \<le> 9"
  using num_text_length [of 10 n 8] by simp

lemma dchar_code: "k < 10 \<Longrightarrow> code (dchar k) = 48 + k"
proof -
  assume k: "k < 10"
  then have "digit_val (dchar k) = k" by (intro digit_val_dchar) simp
  moreover have "isdigit (dchar k)" using k base_digit_dchar [of k 10] base_digit_10 by simp
  ultimately show ?thesis by (auto simp: digit_val_def isdigit_def)
qed

lemma span_prefix: "\<forall>c\<in>set a. P c \<Longrightarrow> length a \<le> span_of P (a @ b)"
  by (induction a) simp_all

lemma block_scan_text:
  assumes "length data < 10 ^ 9"
  shows "block_scan (block_text data @ zs) =
           Block (length (num_text 10 (length data)) + 2) (length data)"
proof -
  let ?n = "num_text 10 (length data)"
  have l: "0 < length ?n" "length ?n \<le> 9" using num_text_digit(2) num_text_len9 [OF assms] by simp_all
  then have c: "code (dchar (length ?n)) = 48 + length ?n" by (intro dchar_code) simp
  then have nz: "isNonzeroDigit (dchar (length ?n))" using l by (simp add: isNonzeroDigit_code Suc_le_eq)
  have "length ?n \<le> span_of isdigit (?n @ data @ zs)"
    using num_text_digit(1) by (intro span_prefix) blast
  then have j: "min (length ?n) (span_of isdigit (?n @ data @ zs)) = length ?n" by simp
  have v: "dec_val ?n = int (length data)"
    using num_text_digit(1) num_text_digits [of 10 "length data"] by (simp add: dec_val_digits)
  show ?thesis
    using nz j v by (simp add: block_scan_def block_text_def Let_def c)
qed

lemma prog_token_block:
  assumes "length data < 10 ^ 9"
  shows "prog_token (block_text data @ zs) =
    Some (SCPI_TOKEN_ARBITRARY_BLOCK_PROGRAM_DATA, length (num_text 10 (length data)) + 2, length data,
          length (block_text data), length (block_text data))"
proof -
  let ?n = "num_text 10 (length data)"
  have t: "block_text data = CHR ''#'' # dchar (length ?n) # ?n @ data"
    by (simp add: block_text_def Let_def)
  have "isdigit (dchar (length ?n))"
    using base_digit_dchar [of "length ?n" 10] base_digit_10 num_text_len9 [OF assms] by simp
  from digit_not [OF this]
  have "nondec_scan (block_text data @ zs) = (SCPI_TOKEN_UNKNOWN, 0)"
    by (simp add: nondec_scan_def t)
  moreover have "decimal_len (block_text data @ zs) = 0" "mnem_len (block_text data @ zs) = 0"
    unfolding t append_Cons
    by (rule no_number; simp add: isplusmn_def isdigit_def isalpha_def isupper_def islower_def)+
  moreover have "string_len (block_text data @ zs) = Some 0"
    by (simp add: string_len_def t)
  ultimately show ?thesis
    using block_scan_text [OF assms, of zs] by (simp add: prog_token_def t)
qed

lemma prog_token_arg:
  assumes "arg_ok a" "arg_ends zs" "arg_token a = (ty, off, n)"
  shows "prog_token (arg_text a @ zs) = Some (ty, off, n, length (arg_text a), length (arg_text a))"
proof (cases a)
  case (Arg_int neg k)
  then show ?thesis using prog_token_int [OF assms(2), of neg k] assms(3) by (simp del: arg_text.simps)
next
  case (Arg_name w)
  then show ?thesis using prog_token_name [of w zs] assms by simp
next
  case (Arg_string q body)
  then show ?thesis using prog_token_string [of q body zs] assms by simp
next
  case (Arg_block data)
  then show ?thesis using prog_token_block [of data zs] assms by auto
qed

lemma arg_no_ws:
  assumes "arg_ok a"
  shows "\<not> starts isws (arg_text a @ zs)" "arg_text a \<noteq> []" "arg_token a = (ty, off, n) \<Longrightarrow> ty \<noteq> SCPI_TOKEN_UNKNOWN"
proof -
  obtain c cs where c: "arg_text a = c # cs" "\<not> isws c"
  proof (cases a)
    case (Arg_int neg k)
    obtain d ds where "num_text 10 k = d # ds" "isdigit d"
      using num_text_digit by (metis list.exhaust list.set_intros(1))
    then show ?thesis using that digit_not(2) by (cases neg) (auto simp: Arg_int isws_def)
  next
    case (Arg_name w)
    then show ?thesis using that assms isalpha_not by (cases w) (auto simp: is_mnemonic_def)
  next
    case (Arg_string q body)
    then show ?thesis using that assms by (auto simp: quote_text_def is_quote_def isws_def)
  next
    case (Arg_block data)
    then show ?thesis using that by (auto simp: block_text_def Let_def isws_def)
  qed
  then show "\<not> starts isws (arg_text a @ zs)" "arg_text a \<noteq> []" by simp_all
  show "arg_token a = (ty, off, n) \<Longrightarrow> ty \<noteq> SCPI_TOKEN_UNKNOWN" by (cases a) (auto split: if_splits)
qed

lemma param_scan_arg:
  assumes "arg_ok a" "arg_ends zs" "arg_token a = (ty, off, n)"
  shows "param_scan (arg_text a @ zs) = Some (ty, off, n, length (arg_text a), length (arg_text a))"
  using prog_token_arg [OF assms] arg_no_ws(1) [OF assms(1), of zs] arg_ends_starts(4) [OF assms(2)]
  by (simp add: param_scan_def span_stop Let_def)

section \<open>Well formed message units\<close>

fun args_text :: "arg list \<Rightarrow> char list" where
  "args_text [] = []"
| "args_text [a] = arg_text a"
| "args_text (a # b # as) = arg_text a @ '','' @ args_text (b # as)"

definition unit_ends :: "char list \<Rightarrow> bool" where
  "unit_ends zs \<longleftrightarrow> zs = [] \<or> hd zs \<in> {CHR '';'', CHR 0x0D, CHR 0x0A}"

lemma unit_ends_arg: "unit_ends zs \<Longrightarrow> arg_ends zs"
  by (auto simp: unit_ends_def arg_ends_def)

lemma all_scan_args:
  "as \<noteq> [] \<Longrightarrow> \<forall>a\<in>set as. arg_ok a \<Longrightarrow> unit_ends zs \<Longrightarrow>
     all_scan (args_text as @ zs) = Some (True, length (args_text as), length (args_text as), length as)"
proof (induction as rule: args_text.induct)
  case (2 a)
  obtain ty off n where t: "arg_token a = (ty, off, n)" by (cases "arg_token a") auto
  have "arg_ok a" using 2 by simp
  note p = param_scan_arg [OF this unit_ends_arg [OF 2(3)] t] arg_no_ws(3) [OF this t]
  have "\<not> starts (\<lambda>c. c = CHR '','') zs" using 2(3) by (cases zs) (auto simp: unit_ends_def)
  then show ?case by (subst all_scan.simps) (simp add: p)
next
  case (3 a b as)
  obtain ty off n where t: "arg_token a = (ty, off, n)" by (cases "arg_token a") auto
  have "arg_ok a" "arg_ends ('','' @ args_text (b # as) @ zs)" using 3 by (simp_all add: arg_ends_def)
  note p = param_scan_arg [OF this t] arg_no_ws(3) [OF \<open>arg_ok a\<close> t]
  show ?case using 3 p by (subst all_scan.simps) simp
qed simp

lemma args_text_first:
  assumes "as \<noteq> []" "\<forall>a\<in>set as. arg_ok a"
  shows "\<not> starts isws (args_text as @ zs)" "args_text as \<noteq> []"
proof -
  obtain a as' where as: "as = a # as'" using assms(1) by (cases as) auto
  have "args_text as @ zs = arg_text a @ (case as' of [] \<Rightarrow> [] | _ \<Rightarrow> '','' @ args_text as') @ zs"
    by (cases as') (simp_all add: as)
  then show "\<not> starts isws (args_text as @ zs)" using assms(2) arg_no_ws(1) by (simp add: as)
  show "args_text as \<noteq> []" using assms(2) arg_no_ws(2) by (cases as') (simp_all add: as)
qed

text \<open>A command with its arguments, and how it ends.\<close>

definition command_line :: "char list \<Rightarrow> arg list \<Rightarrow> char list" where
  "command_line header as = header @ (if as = [] then [] else '' '' @ args_text as)"

fun term_text :: "message_termination \<Rightarrow> char list" where
  "term_text SCPI_MESSAGE_TERMINATION_NL = [CHR 0x0A]"
| "term_text SCPI_MESSAGE_TERMINATION_SEMICOLON = '';''"
| "term_text SCPI_MESSAGE_TERMINATION_NONE = []"

definition header_type :: "bool \<Rightarrow> scpi_token_type" where
  "header_type query = (if query then SCPI_TOKEN_COMPOUND_QUERY_PROGRAM_HEADER
     else SCPI_TOKEN_COMPOUND_PROGRAM_HEADER)"

definition line_unit :: "scpi_token_type \<Rightarrow> char list \<Rightarrow> arg list \<Rightarrow> message_termination \<Rightarrow> unit_text" where
  "line_unit ty header as tm =
     \<lparr>un_header = (ty, 0, length header),
      un_data = (if as = [] then (False, length header, 0)
                 else (True, length header + 1, length (args_text as))),
      un_count = int (length as),
      un_used = length (command_line header as) + length (term_text tm), un_term = tm\<rparr>"

lemma end_scan_term:
  "tm = SCPI_MESSAGE_TERMINATION_NONE \<Longrightarrow> tail = [] \<Longrightarrow>
     end_scan (term_text tm @ tail) = (length (term_text tm), tm)"
  "tm \<noteq> SCPI_MESSAGE_TERMINATION_NONE \<Longrightarrow> end_scan (term_text tm @ tail) = (length (term_text tm), tm)"
  by (cases tm; simp add: end_scan_def newline_len_def)+

lemma term_text_ends:
  "tm \<noteq> SCPI_MESSAGE_TERMINATION_NONE \<or> tail = [] \<Longrightarrow> unit_ends (term_text tm @ tail)"
  by (cases tm) (auto simp: unit_ends_def)

text \<open>A text that is found as one header, whatever follows that cannot continue it.\<close>

definition scans_header :: "char list \<Rightarrow> scpi_token_type \<Rightarrow> bool" where
  "scans_header header ty \<longleftrightarrow> (\<exists>c cs. header = c # cs \<and> \<not> isws c) \<and>
     (\<forall>ys. \<not> starts (\<lambda>c. isMnemonicChar c \<or> c = CHR '':'' \<or> c = CHR ''?'') ys \<longrightarrow>
        header_scan (header @ ys) = (ty, length header))"

lemma scans_compound:
  assumes "ws \<noteq> []" "\<forall>w\<in>set ws. is_mnemonic w"
  shows "scans_header (header_text colon ws query) (header_type query)"
proof -
  obtain w ws' where ws: "ws = w # ws'" "is_mnemonic w" using assms by (cases ws) auto
  then obtain d ds where "w = d # ds" "isalpha d" by (cases w) (auto simp: is_mnemonic_def)
  then have "\<exists>c cs. header_text colon ws query = c # cs \<and> \<not> isws c"
    using isalpha_not [of d] by (cases colon) (auto simp: header_text_def ws isws_def)
  then show ?thesis
    using header_scan_text [OF assms] by (auto simp: scans_header_def header_type_def)
qed

definition common_text :: "char list \<Rightarrow> bool \<Rightarrow> char list" where
  "common_text w query = CHR ''*'' # w @ (if query then ''?'' else [])"

lemma scans_common:
  assumes "is_mnemonic w"
  shows "scans_header (common_text w query)
    (if query then SCPI_TOKEN_COMMON_QUERY_PROGRAM_HEADER else SCPI_TOKEN_COMMON_PROGRAM_HEADER)"
proof -
  have w: "w \<noteq> []" using assms by (auto simp: is_mnemonic_def starts_def)
  have "header_scan (common_text w query @ ys) =
      (if query then SCPI_TOKEN_COMMON_QUERY_PROGRAM_HEADER else SCPI_TOKEN_COMMON_PROGRAM_HEADER,
       length (common_text w query))"
    if "\<not> starts (\<lambda>c. isMnemonicChar c \<or> c = CHR '':'' \<or> c = CHR ''?'') ys" for ys
  proof -
    have "\<not> starts isMnemonicChar ((if query then ''?'' else []) @ ys)" "\<not> starts (\<lambda>c. c = CHR ''?'') ys"
      using that by (auto simp: starts_def isMnemonicChar_def isalnum_def isalpha_def isupper_def islower_def
          isdigit_def split: list.splits)
    then show ?thesis
      using mnem_len_mnemonic [OF assms, of "(if query then ''?'' else []) @ ys"] w
      by (simp add: header_scan_def common_text_def Let_def opt_def starts_def)
  qed
  then show ?thesis by (simp add: scans_header_def common_text_def isws_def)
qed

lemma unit_scan_header:
  assumes "scans_header header ty"
    "body = [] \<or> hd body = CHR '' ''" "tm \<noteq> SCPI_MESSAGE_TERMINATION_NONE \<or> tail = []"
    "data_scan (body @ term_text tm @ tail) = Some (ok, v, r, length body, k)"
  shows "unit_scan (header @ body @ term_text tm @ tail) =
    Some \<lparr>un_header = (ty, 0, length header), un_data = (ok, length header + v, r),
      un_count = k, un_used = length header + length body + length (term_text tm), un_term = tm\<rparr>"
proof -
  let ?z = "term_text tm @ tail"
  have ends: "unit_ends ?z" by (rule term_text_ends [OF assms(3)])
  have bz: "\<not> starts (\<lambda>c. isMnemonicChar c \<or> c = CHR '':'' \<or> c = CHR ''?'') (body @ ?z)"
  proof (cases body)
    case Nil
    then show ?thesis
      using ends arg_ends_starts(1) [OF unit_ends_arg [OF ends]] by (cases ?z) (auto simp: unit_ends_def)
  next
    case (Cons c cs)
    then show ?thesis using assms(2) by simp
  qed
  have h: "header_scan (header @ body @ ?z) = (ty, length header)"
    using assms(1) bz by (auto simp: scans_header_def)
  obtain c cs where hd: "header = c # cs" "\<not> isws c" using assms(1) by (auto simp: scans_header_def)
  have w0: "span_of isws (header @ body @ ?z) = 0" by (simp add: hd)
  have e: "end_scan ?z = (length (term_text tm), tm)" using end_scan_term assms(3) by blast
  have ne: "\<not> (?z \<noteq> [] \<and> length (term_text tm) = 0)" using assms(3) by (cases tm) auto
  have d: "drop (length header) (header @ body @ ?z) = body @ ?z"
    "drop (length header + length body) (header @ body @ ?z) = ?z" by simp_all
  show ?thesis
    unfolding unit_scan_def w0 drop_0 h Let_def case_prod_conv add_0 d(1) assms(4)
    using ne e d(2) by auto
qed

lemma unit_scan_line:
  assumes "scans_header header ty" "\<forall>a\<in>set as. arg_ok a"
    "tm \<noteq> SCPI_MESSAGE_TERMINATION_NONE \<or> tail = []"
  shows "unit_scan (command_line header as @ term_text tm @ tail) = Some (line_unit ty header as tm)"
proof -
  let ?z = "term_text tm @ tail" and ?body = "if as = [] then [] else '' '' @ args_text as"
  have ends: "unit_ends ?z" by (rule term_text_ends [OF assms(3)])
  have "data_scan (?body @ ?z) =
      Some (as \<noteq> [], of_bool (as \<noteq> []), length (args_text as), length ?body, int (length as))"
  proof (cases "as = []")
    case True
    then show ?thesis
      using arg_ends_starts(4) [OF unit_ends_arg [OF ends]] by (simp add: data_scan_def span_stop)
  next
    case False
    note f = args_text_first [OF False assms(2)]
    have "span_of isws ('' '' @ args_text as @ ?z) = 1"
      using f(1) [of ?z] by (simp add: span_stop isws_def)
    then show ?thesis
      using False all_scan_args [OF False assms(2) ends] by (simp add: data_scan_def Let_def)
  qed
  from unit_scan_header [OF assms(1) _ assms(3) this] show ?thesis
    by (auto simp: command_line_def line_unit_def)
qed

lemma rest_of_memory:
  "m = pre @ line @ post \<Longrightarrow> map (rd m) [length pre ..< nat (int (length pre) + int (length line))] = line"
  using rest_block [of m pre line post "\<lparr>lx_buffer = length pre, lx_pos = length pre, lx_len = int (length line)\<rparr>"]
  by (simp add: rest_def)

text \<open>The state after a unit with a header of any kind.\<close>

definition line_state :: "nat \<Rightarrow> scpi_token_type \<Rightarrow> char list \<Rightarrow> arg list \<Rightarrow> message_termination \<Rightarrow> scpi_parser_state" where
  "line_state b ty header as tm =
     \<lparr>programHeader = \<lparr>tk_type = ty, tk_ptr = Some b, tk_len = int (length header)\<rparr>,
      programData =
        (if as = [] then \<lparr>tk_type = SCPI_TOKEN_UNKNOWN, tk_ptr = Some (b + length header), tk_len = 0\<rparr>
         else \<lparr>tk_type = SCPI_TOKEN_ALL_PROGRAM_DATA, tk_ptr = Some (b + length header + 1),
               tk_len = int (length (args_text as))\<rparr>),
      numberOfParameters = int (length as), termination_kind = tm\<rparr>"

lemma detect_line:
  assumes "m = pre @ (command_line header as @ term_text tm @ tail) @ post" "scans_header header ty"
    "\<forall>a\<in>set as. arg_ok a" "tm \<noteq> SCPI_MESSAGE_TERMINATION_NONE \<or> tail = []" "b = length pre"
  shows "scpiParser_detectProgramMessageUnit m st b (int (length (command_line header as @ term_text tm @ tail)))
    = Some (int (length (command_line header as) + length (term_text tm)), line_state b ty header as tm)"
  unfolding detect_eq assms(5) rest_of_memory [OF assms(1)] unit_scan_line [OF assms(2,3,4)]
  by (simp add: line_unit_def unit_state_def data_token_def line_state_def)

text \<open>C8: A command line is cut as it was written.  For a compound header, any number of well formed
  arguments (integers, character data, quoted strings, blocks) separated by commas, and a newline, a
  semicolon or the end of the text, \<^verbatim>\<open>scpiParser_detectProgramMessageUnit\<close> finds the header and
  the text of all the arguments, counts them, and takes exactly the terminator that is there.\<close>

theorem unit_line:
  assumes "m = pre @ (command_line header as @ term_text tm @ tail) @ post"
    "ws \<noteq> []" "\<forall>w\<in>set ws. is_mnemonic w" "header = header_text colon ws query"
    "\<forall>a\<in>set as. arg_ok a" "tm \<noteq> SCPI_MESSAGE_TERMINATION_NONE \<or> tail = []" "b = length pre"
  shows "scpiParser_detectProgramMessageUnit m st b (int (length (command_line header as @ term_text tm @ tail)))
    = Some (int (length (command_line header as) + length (term_text tm)),
       \<lparr>programHeader = \<lparr>tk_type = header_type query, tk_ptr = Some b, tk_len = int (length header)\<rparr>,
        programData =
          (if as = [] then \<lparr>tk_type = SCPI_TOKEN_UNKNOWN, tk_ptr = Some (b + length header), tk_len = 0\<rparr>
           else \<lparr>tk_type = SCPI_TOKEN_ALL_PROGRAM_DATA, tk_ptr = Some (b + length header + 1),
                 tk_len = int (length (args_text as))\<rparr>),
        numberOfParameters = int (length as), termination_kind = tm\<rparr>)"
  unfolding detect_line [OF assms(1) scans_compound [OF assms(2,3), of colon query, folded assms(4)]
      assms(5,6,7)] line_state_def ..

lemma unit_line_witness:
  "scpiParser_detectProgramMessageUnit ''xx VOLT:RANG 10,AUTO;*CLS'' (parser_state scpi_context) 3 22 =
     Some (18, \<lparr>programHeader = \<lparr>tk_type = SCPI_TOKEN_COMPOUND_PROGRAM_HEADER, tk_ptr = Some 3, tk_len = 9\<rparr>,
       programData = \<lparr>tk_type = SCPI_TOKEN_ALL_PROGRAM_DATA, tk_ptr = Some 13, tk_len = 7\<rparr>,
       numberOfParameters = 2, termination_kind = SCPI_MESSAGE_TERMINATION_SEMICOLON\<rparr>)"
proof -
  have n: "num_text 10 10 = ''10''"
    by (subst num_text.simps, subst num_text.simps) (simp add: dchar_def digit_chars_def)
  have w: "is_mnemonic ''VOLT''" "is_mnemonic ''RANG''" "is_mnemonic ''AUTO''"
    by (simp_all add: is_mnemonic_def isMnemonicChar_def isalnum_def isalpha_def isupper_def)
  let ?as = "[Arg_int False 10, Arg_name ''AUTO'']" and ?ws = "[''VOLT'', ''RANG'']"
  have as: "args_text ?as = ''10,AUTO''" "\<forall>a\<in>set ?as. arg_ok a" by (simp_all add: n w)
  have h: "''VOLT:RANG'' = header_text False ?ws False" by (simp add: header_text_def)
  have c: "command_line ''VOLT:RANG'' ?as = ''VOLT:RANG 10,AUTO''" by (simp add: command_line_def n)
  have m: "''xx VOLT:RANG 10,AUTO;*CLS'' = ''xx '' @ (command_line ''VOLT:RANG'' ?as @
      term_text SCPI_MESSAGE_TERMINATION_SEMICOLON @ ''*CLS'') @ []" by (simp add: c)
  have mn: "\<forall>w\<in>set ?ws. is_mnemonic w" by (simp add: w)
  show ?thesis
    using unit_line [OF m _ mn h as(2) _ , of 3 "parser_state scpi_context", unfolded c as(1)]
    by (simp add: header_type_def numeral_eq_Suc)
qed

section \<open>White space after a number\<close>

lemma number_then_space:
  assumes "arg_ends ys"
  shows "param_scan (arg_text (Arg_int neg n) @ replicate k (CHR '' '') @ ys) =
    Some (SCPI_TOKEN_DECIMAL_NUMERIC_PROGRAM_DATA, 0, length (arg_text (Arg_int neg n)),
          length (arg_text (Arg_int neg n)), length (arg_text (Arg_int neg n)) + k)"
proof -
  let ?t = "arg_text (Arg_int neg n)" and ?zs = "replicate k (CHR '' '') @ ys"
  note y = arg_ends_starts [OF assms]
  obtain d ds where t: "num_text 10 n = d # ds" "isdigit d"
    using num_text_digit by (metis list.exhaust list.set_intros(1))
  have z: "\<not> starts isdigit ?zs" "\<not> starts (\<lambda>c. c = CHR ''.'') ?zs"
    using y(2,6) by (cases k; simp add: isdigit_def)+
  have wsp: "span_of isws ?zs = k"
    using span_append_stop [of "replicate k (CHR '' '')" isws ys] y(4) by (simp add: isws_def)
  have sp: "span_of isdigit (num_text 10 n @ ?zs) = length (num_text 10 n)"
    using num_text_digit(1) z(1) by (intro span_append_stop) auto
  have m: "mantissa_scan (?t @ ?zs) = (length (num_text 10 n), length ?t)"
    using sp z(2) t digit_not(3) [OF t(2)]
    by (cases neg) (simp_all add: mantissa_scan_def Let_def isplusmn_def span_stop)
  have dz: "drop (length ?t + k) (?t @ ?zs) = ys" "drop (length ?t) (?t @ ?zs) = ?zs" by simp_all
  have dec: "decimal_len (?t @ ?zs) = length ?t"
    unfolding decimal_len_def m case_prod_conv Let_def dz(2) wsp dz(1)
    using y(5) num_text_digit(2) [of n] by (simp add: exponent_scan_def)
  have no: "nondec_scan (?t @ ?zs) = (SCPI_TOKEN_UNKNOWN, 0)" "mnem_len (?t @ ?zs) = 0"
    "\<not> starts isws (?t @ ?zs)" "?t \<noteq> []"
    using t digit_not [OF t(2)]
    by (cases neg; simp add: nondec_scan_def mnem_len_def isalpha_def isupper_def islower_def isws_def
        split: list.split)+
  have "suffix_len ys = 0" using y(3,7) by (simp add: suffix_len_def span_stop)
  then have "prog_token (?t @ ?zs) =
      Some (SCPI_TOKEN_DECIMAL_NUMERIC_PROGRAM_DATA, 0, length ?t, length ?t, length ?t + k)"
    unfolding prog_token_def no dec dz(2) wsp dz(1) Let_def using no(4) by simp
  then show ?thesis
    using no(3) y(4) dz by (simp add: param_scan_def span_stop Let_def del: arg_text.simps)
qed

text \<open>White space after a number makes the parameters come out too short.  When the first of
  several arguments is an integer that is followed by \<open>k\<close> spaces before the comma, all arguments
  are counted and skipped, but the length of the parameters is \<open>k\<close> less than their text: the end of
  the last argument is cut off.\<close>

theorem space_cuts_parameters:
  assumes "line = header_text colon ws query @ '' '' @ args @ term_text tm @ tail"
    "args = arg_text (Arg_int neg n) @ replicate k (CHR '' '') @ '','' @ args_text as"
    "ws \<noteq> []" "\<forall>w\<in>set ws. is_mnemonic w" "\<forall>a\<in>set as. arg_ok a" "as \<noteq> []"
    "tm \<noteq> SCPI_MESSAGE_TERMINATION_NONE \<or> tail = []" "m = pre @ line @ post" "b = length pre"
  shows "\<exists>r st'. scpiParser_detectProgramMessageUnit m st b (int (length line)) = Some (r, st') \<and>
           r = int (length line - length tail) \<and> numberOfParameters st' = 1 + int (length as) \<and>
           tk_ptr (programData st') = Some (b + length (header_text colon ws query) + 1) \<and>
           tk_len (programData st') = int (length args) - int k"
proof -
  let ?h = "header_text colon ws query" and ?z = "term_text tm @ tail"
  let ?n = "length (arg_text (Arg_int neg n))"
  have ends: "unit_ends ?z" by (rule term_text_ends [OF assms(7)])
  have p: "param_scan (args @ ?z) = Some (SCPI_TOKEN_DECIMAL_NUMERIC_PROGRAM_DATA, 0, ?n, ?n, ?n + k)"
    using number_then_space [of "'','' @ args_text as @ ?z" neg n k]
    by (simp add: assms(2) arg_ends_def del: arg_text.simps)
  have d: "drop (?n + k) (args @ ?z) = CHR '','' # args_text as @ ?z"
    "drop (?n + k + 1) (args @ ?z) = args_text as @ ?z"
    by (simp_all add: assms(2) del: arg_text.simps)
  have a: "all_scan (args @ ?z) =
      Some (True, ?n + 1 + length (args_text as), length args, Suc (length as))"
    unfolding all_scan.simps [of "args @ ?z"] p option.case case_prod_conv d
      all_scan_args [OF assms(6,5) ends]
    by (simp add: assms(2) del: arg_text.simps)
  have "\<not> starts isws (args @ ?z)"
    using arg_no_ws(1) [of "Arg_int neg n"] by (simp add: assms(2) del: arg_text.simps)
  then have "data_scan (('' '' @ args) @ ?z) =
      Some (True, 1, ?n + 1 + length (args_text as), length ('' '' @ args), int (Suc (length as)))"
    using a by (simp add: data_scan_def Let_def span_stop isws_def)
  from unit_scan_header [OF scans_compound [OF assms(3,4)] _ assms(7) this]
  have "unit_scan line = Some \<lparr>un_header = (header_type query, 0, length ?h),
      un_data = (True, length ?h + 1, ?n + 1 + length (args_text as)), un_count = int (Suc (length as)),
      un_used = length ?h + length ('' '' @ args) + length (term_text tm), un_term = tm\<rparr>"
    by (simp add: assms(1))
  then show ?thesis
    unfolding detect_eq assms(9) rest_of_memory [OF assms(8)]
    by (simp add: unit_state_def data_token_def assms(1,2) del: arg_text.simps)
qed

lemma space_cuts_parameters_witness:
  "\<exists>r st'. scpiParser_detectProgramMessageUnit ''LIST 1 ,ON'' (parser_state scpi_context) 0 10 = Some (r, st') \<and> r = 10 \<and>
     numberOfParameters st' = 2 \<and> tk_ptr (programData st') = Some 5 \<and> tk_len (programData st') = 4"
proof -
  have n: "num_text 10 1 = ''1''"
    by (simp add: num_text.simps [of 10 "Suc 0"] dchar_def digit_chars_def)
  have w: "is_mnemonic ''LIST''" "is_mnemonic ''ON''"
    by (simp_all add: is_mnemonic_def isMnemonicChar_def isalnum_def isalpha_def isupper_def)
  show ?thesis
    using space_cuts_parameters [of "''LIST 1 ,ON''" False "[''LIST'']" False "''1 ,ON''"
        SCPI_MESSAGE_TERMINATION_NONE "[]" False 1 1 "[Arg_name ''ON'']" "''LIST 1 ,ON''" "[]" "[]" 0 "parser_state scpi_context"] w n
    by (simp add: header_text_def numeral_eq_Suc)
qed

end
