(* ===== verification/Output.thy ===== *)
theory Output
  imports ProgramDataProps
begin

text \<open>
  Writing results: \<^verbatim>\<open>parser.c\<close>, lines 48 to 115 and 316 to 520.  Every function writes its text
  through the interface's \<^verbatim>\<open>write\<close>, preceded by a comma if the command has written a result
  before, and counts it in \<^verbatim>\<open>output_count\<close>.  A NULL \<^verbatim>\<open>write\<close>, which the code calls
  without a test, is the result \<open>None\<close>.

  The results of floating point numbers are printed by the C library and are not modelled.
\<close>

section \<open>Delimiters\<close>

definition writeData ::
  "'u scpi_interface \<Rightarrow> 'u scpi_t \<Rightarrow> char list \<Rightarrow> (nat \<times> 'u scpi_t) option" where
  "writeData ifc ctx data = (case if_write ifc of None \<Rightarrow> None | Some write \<Rightarrow> Some (write ctx data))"

definition flushData :: "'u scpi_interface \<Rightarrow> 'u scpi_t \<Rightarrow> scpi_result \<times> 'u scpi_t" where
  "flushData ifc ctx = (case if_flush ifc of Some flush \<Rightarrow> flush ctx | None \<Rightarrow> (SCPI_RES_OK, ctx))"

definition writeDelimiter :: "'u scpi_interface \<Rightarrow> 'u scpi_t \<Rightarrow> (nat \<times> 'u scpi_t) option" where
  "writeDelimiter ifc ctx = (if 0 < output_count ctx then writeData ifc ctx '','' else Some (0, ctx))"

definition SCPI_LINE_ENDING :: "char list" where
  "SCPI_LINE_ENDING = [CHR 0x0D, CHR 0x0A]"

definition writeNewLine :: "'u scpi_interface \<Rightarrow> 'u scpi_t \<Rightarrow> (nat \<times> 'u scpi_t) option" where
  "writeNewLine ifc ctx =
     (if 0 < output_count ctx then do {
        (len, ctx) \<leftarrow> writeData ifc ctx SCPI_LINE_ENDING;
        let (_, ctx) = flushData ifc ctx;
        Some (len, ctx)
      }
      else Some (0, ctx))"

definition writeSemicolon :: "'u scpi_interface \<Rightarrow> 'u scpi_t \<Rightarrow> (nat \<times> 'u scpi_t) option" where
  "writeSemicolon ifc ctx = (if 0 < output_count ctx then writeData ifc ctx '';'' else Some (0, ctx))"

text \<open>\<^verbatim>\<open>context->output_count++\<close>, a signed 16-bit counter\<close>

definition count_output :: "'u scpi_t \<Rightarrow> 'u scpi_t" where
  "count_output ctx = ctx\<lparr>output_count := int16 (output_count ctx + 1)\<rparr>"

section \<open>Results\<close>

definition SCPI_ResultCharacters ::
  "'u scpi_interface \<Rightarrow> 'u scpi_t \<Rightarrow> char list \<Rightarrow> (nat \<times> 'u scpi_t) option" where
  "SCPI_ResultCharacters ifc ctx data = do {
     (d, ctx) \<leftarrow> writeDelimiter ifc ctx;
     (n, ctx) \<leftarrow> writeData ifc ctx data;
     Some (d + n, count_output ctx)
   }"

definition getBasePrefix :: "int \<Rightarrow> char list option" where
  "getBasePrefix base =
     (if base = 2 then Some ''#B'' else if base = 8 then Some ''#Q''
      else if base = 16 then Some ''#H'' else None)"

text \<open>The part that the two integer functions share once the numeral is in the buffer.\<close>

definition resultNumeral ::
  "'u scpi_interface \<Rightarrow> 'u scpi_t \<Rightarrow> int \<Rightarrow> nat \<times> char list \<Rightarrow> (nat \<times> 'u scpi_t) option" where
  "resultNumeral ifc ctx base r = do {
     let (len, buffer) = r;
     (d, ctx) \<leftarrow> writeDelimiter ifc ctx;
     (p, ctx) \<leftarrow> (case getBasePrefix base of
                    Some basePrefix \<Rightarrow> writeData ifc ctx basePrefix | None \<Rightarrow> Some (0, ctx));
     (n, ctx) \<leftarrow> writeData ifc ctx (take len buffer);
     Some (d + p + n, count_output ctx)
   }"

definition resultUInt32BaseSign ::
  "'u scpi_interface \<Rightarrow> 'u scpi_t \<Rightarrow> u32 \<Rightarrow> int \<Rightarrow> bool \<Rightarrow> (nat \<times> 'u scpi_t) option" where
  "resultUInt32BaseSign ifc ctx val base sign = do {
     r \<leftarrow> UInt32ToStrBaseSign val (replicate (32 + 1) NUL) (32 + 1) base sign;
     resultNumeral ifc ctx base r
   }"

definition resultUInt64BaseSign ::
  "'u scpi_interface \<Rightarrow> 'u scpi_t \<Rightarrow> u64 \<Rightarrow> int \<Rightarrow> bool \<Rightarrow> (nat \<times> 'u scpi_t) option" where
  "resultUInt64BaseSign ifc ctx val base sign = do {
     r \<leftarrow> UInt64ToStrBaseSign val (replicate (64 + 1) NUL) (64 + 1) base sign;
     resultNumeral ifc ctx base r
   }"

definition SCPI_ResultInt32 ::
  "'u scpi_interface \<Rightarrow> 'u scpi_t \<Rightarrow> int \<Rightarrow> (nat \<times> 'u scpi_t) option" where
  "SCPI_ResultInt32 ifc ctx val = resultUInt32BaseSign ifc ctx (word_of_int val) 10 True"

definition SCPI_ResultUInt32Base ::
  "'u scpi_interface \<Rightarrow> 'u scpi_t \<Rightarrow> u32 \<Rightarrow> int \<Rightarrow> (nat \<times> 'u scpi_t) option" where
  "SCPI_ResultUInt32Base ifc ctx val base = resultUInt32BaseSign ifc ctx val base False"

definition SCPI_ResultInt64 ::
  "'u scpi_interface \<Rightarrow> 'u scpi_t \<Rightarrow> int \<Rightarrow> (nat \<times> 'u scpi_t) option" where
  "SCPI_ResultInt64 ifc ctx val = resultUInt64BaseSign ifc ctx (word_of_int val) 10 True"

definition SCPI_ResultUInt64Base ::
  "'u scpi_interface \<Rightarrow> 'u scpi_t \<Rightarrow> u64 \<Rightarrow> int \<Rightarrow> (nat \<times> 'u scpi_t) option" where
  "SCPI_ResultUInt64Base ifc ctx val base = resultUInt64BaseSign ifc ctx val base False"

definition SCPI_ResultText ::
  "'u scpi_interface \<Rightarrow> 'u scpi_t \<Rightarrow> char list \<Rightarrow> (nat \<times> 'u scpi_t) option" where
  "SCPI_ResultText ifc ctx data = do {
     (d, ctx) \<leftarrow> writeDelimiter ifc ctx;
     (a, ctx) \<leftarrow> writeData ifc ctx [CHR 0x22];
     (n, ctx) \<leftarrow> writeData ifc ctx data;
     (b, ctx) \<leftarrow> writeData ifc ctx [CHR 0x22];
     Some (d + a + n + b, count_output ctx)
   }"

text \<open>\<^verbatim>\<open>strlen\<close> of what was printed into the array: without a NUL it would read behind it.\<close>

definition strlen_in :: "char list \<Rightarrow> nat option" where
  "strlen_in arr = (if NUL \<in> set arr then Some (length (takeWhile (\<lambda>c. c \<noteq> NUL) arr)) else None)"

definition SCPI_ResultArbitraryBlock ::
  "'u scpi_interface \<Rightarrow> 'u scpi_t \<Rightarrow> char list \<Rightarrow> (nat \<times> 'u scpi_t) option" where
  "SCPI_ResultArbitraryBlock ifc ctx data = do {
     (_, digits) \<leftarrow> SCPI_UInt32ToStrBase (of_nat (length data)) (replicate 10 (CHR 0xFF)) 10 10;
     header_len \<leftarrow> strlen_in digits;
     let block_header = CHR ''#'' # char_of (header_len + code (CHR ''0'')) # digits;
     (h, ctx) \<leftarrow> writeData ifc ctx (take (header_len + 2) block_header);
     (n, ctx) \<leftarrow> writeData ifc ctx data;
     Some (h + n, count_output ctx)
   }"

definition SCPI_ResultBool ::
  "'u scpi_interface \<Rightarrow> 'u scpi_t \<Rightarrow> bool \<Rightarrow> (nat \<times> 'u scpi_t) option" where
  "SCPI_ResultBool ifc ctx val = resultUInt32BaseSign ifc ctx (if val then 1 else 0) 10 False"

end
