(* ===== verification/Registers.thy ===== *)
theory Registers
  imports Port
begin

text \<open>
  The IEEE 488.2 status registers, \<^verbatim>\<open>Utilities/Scpi/Src/ieee488.c\<close> (lines 49 to 191) with the bit
  names of \<^verbatim>\<open>Inc/ieee488.h\<close>: writing one register updates the summary bits of the status byte
  (STB) and may send a service request through the interface.

  \<open>status_ok\<close> is the invariant of the register model: each summary bit of STB says whether its
  event register has an enabled event, and the SRQ bit says whether STB has an enabled bit.
\<close>

section \<open>Bits\<close>

definition STB_QMA :: u16 where "STB_QMA = 0x04"
definition STB_QES :: u16 where "STB_QES = 0x08"
definition STB_ESR :: u16 where "STB_ESR = 0x20"
definition STB_SRQ :: u16 where "STB_SRQ = 0x40"
definition STB_OPS :: u16 where "STB_OPS = 0x80"

definition ESR_OPC :: u16 where "ESR_OPC = 0x01"
definition ESR_REQ :: u16 where "ESR_REQ = 0x02"
definition ESR_QER :: u16 where "ESR_QER = 0x04"
definition ESR_DER :: u16 where "ESR_DER = 0x08"
definition ESR_EER :: u16 where "ESR_EER = 0x10"
definition ESR_CER :: u16 where "ESR_CER = 0x20"
definition ESR_URQ :: u16 where "ESR_URQ = 0x40"
definition ESR_PON :: u16 where "ESR_PON = 0x80"

lemmas stb_bits = STB_QMA_def STB_QES_def STB_ESR_def STB_SRQ_def STB_OPS_def

lemmas esr_bits = ESR_OPC_def ESR_REQ_def ESR_QER_def ESR_DER_def ESR_EER_def ESR_CER_def
  ESR_URQ_def ESR_PON_def

section \<open>The register operations\<close>

definition SCPI_RegGet :: "'u scpi_t \<Rightarrow> scpi_reg_name \<Rightarrow> u16" where
  "SCPI_RegGet ctx name =
     (case registers ctx of
        None \<Rightarrow> 0
      | Some r \<Rightarrow> if name \<noteq> SCPI_REG_COUNT then r name else 0)"

text \<open>\<^verbatim>\<open>context->registers[name] = val\<close>\<close>

definition put_reg :: "scpi_reg_name \<Rightarrow> u16 \<Rightarrow> 'u scpi_t \<Rightarrow> 'u scpi_t" where
  "put_reg name val ctx = ctx\<lparr>registers := map_option (\<lambda>r. r(name := val)) (registers ctx)\<rparr>"

definition writeControl ::
  "'u scpi_interface \<Rightarrow> 'u scpi_t \<Rightarrow> scpi_ctrl_name \<Rightarrow> u16 \<Rightarrow> u32 \<times> 'u scpi_t" where
  "writeControl ifc ctx ctrl val =
     (case if_control ifc of
        None \<Rightarrow> (0, ctx)
      | Some h \<Rightarrow> apfst (\<lambda>r. if r = SCPI_RES_OK then 1 else - 1) (h ctx ctrl val))"

fun reg_rank :: "scpi_reg_name \<Rightarrow> nat" where
  "reg_rank SCPI_REG_STB = 0"
| "reg_rank SCPI_REG_SRE = 1"
| "reg_rank SCPI_REG_ESR = 1"
| "reg_rank SCPI_REG_QUES = 1"
| "reg_rank SCPI_REG_OPER = 1"
| "reg_rank SCPI_REG_ESE = 2"
| "reg_rank SCPI_REG_QUESE = 2"
| "reg_rank SCPI_REG_OPERE = 2"
| "reg_rank SCPI_REG_COUNT = 0"

unbundle bit_operations_syntax

function regUpdate :: "'u scpi_interface \<Rightarrow> 'u scpi_t \<Rightarrow> scpi_reg_name \<Rightarrow> 'u scpi_t"
  and regUpdateSTB ::
    "'u scpi_interface \<Rightarrow> 'u scpi_t \<Rightarrow> u16 \<Rightarrow> scpi_reg_name \<Rightarrow> u16 \<Rightarrow> 'u scpi_t"
  and SCPI_RegSet :: "'u scpi_interface \<Rightarrow> 'u scpi_t \<Rightarrow> scpi_reg_name \<Rightarrow> u16 \<Rightarrow> 'u scpi_t"
  and SCPI_RegSetBits :: "'u scpi_interface \<Rightarrow> 'u scpi_t \<Rightarrow> scpi_reg_name \<Rightarrow> u16 \<Rightarrow> 'u scpi_t"
  and SCPI_RegClearBits :: "'u scpi_interface \<Rightarrow> 'u scpi_t \<Rightarrow> scpi_reg_name \<Rightarrow> u16 \<Rightarrow> 'u scpi_t"
where
  "regUpdate ifc ctx name = SCPI_RegSet ifc ctx name (SCPI_RegGet ctx name)"
| "regUpdateSTB ifc ctx val mreg stbBits =
     (if val AND SCPI_RegGet ctx mreg \<noteq> 0
      then SCPI_RegSetBits ifc ctx SCPI_REG_STB stbBits
      else SCPI_RegClearBits ifc ctx SCPI_REG_STB stbBits)"
| "SCPI_RegSet ifc ctx name val =
     (case registers ctx of
        None \<Rightarrow> ctx
      | Some r \<Rightarrow>
          if name = SCPI_REG_COUNT then ctx
          else
            let old_val = r name;
                ctx = put_reg name val ctx;
                (ctx, val, srq) =
                  (case name of
                     SCPI_REG_STB \<Rightarrow>
                       (let m = SCPI_RegGet ctx SCPI_REG_SRE AND NOT STB_SRQ
                        in if val AND m \<noteq> 0
                           then (ctx, val OR STB_SRQ, old_val \<noteq> (val OR STB_SRQ))
                           else (ctx, val AND NOT STB_SRQ, False))
                   | SCPI_REG_SRE \<Rightarrow> (regUpdate ifc ctx SCPI_REG_STB, val, False)
                   | SCPI_REG_ESR \<Rightarrow> (regUpdateSTB ifc ctx val SCPI_REG_ESE STB_ESR, val, False)
                   | SCPI_REG_ESE \<Rightarrow> (regUpdate ifc ctx SCPI_REG_ESR, val, False)
                   | SCPI_REG_QUES \<Rightarrow> (regUpdateSTB ifc ctx val SCPI_REG_QUESE STB_QES, val, False)
                   | SCPI_REG_QUESE \<Rightarrow> (regUpdate ifc ctx SCPI_REG_QUES, val, False)
                   | SCPI_REG_OPER \<Rightarrow> (regUpdateSTB ifc ctx val SCPI_REG_OPERE STB_OPS, val, False)
                   | SCPI_REG_OPERE \<Rightarrow> (regUpdate ifc ctx SCPI_REG_OPER, val, False)
                   | SCPI_REG_COUNT \<Rightarrow> (ctx, val, False));
                ctx = put_reg name val ctx
            in if srq
               then snd (writeControl ifc ctx SCPI_CTRL_SRQ (SCPI_RegGet ctx SCPI_REG_STB))
               else ctx)"
| "SCPI_RegSetBits ifc ctx name bits = SCPI_RegSet ifc ctx name (SCPI_RegGet ctx name OR bits)"
| "SCPI_RegClearBits ifc ctx name bits =
     SCPI_RegSet ifc ctx name (SCPI_RegGet ctx name AND NOT bits)"
  by pat_completeness auto
termination
  by (relation "measure (\<lambda>x. case x of
        Inl (Inl (_, _, name)) \<Rightarrow> 4 * reg_rank name + 1
      | Inl (Inr _) \<Rightarrow> 3
      | Inr (Inl (_, _, name, _)) \<Rightarrow> 4 * reg_rank name
      | Inr (Inr (Inl (_, _, name, _))) \<Rightarrow> 4 * reg_rank name + 1
      | Inr (Inr (Inr (_, _, name, _))) \<Rightarrow> 4 * reg_rank name + 1)") auto

declare regUpdate.simps [simp del] regUpdateSTB.simps [simp del] SCPI_RegSet.simps [simp del]
  SCPI_RegSetBits.simps [simp del] SCPI_RegClearBits.simps [simp del]

definition SCPI_EventClear :: "'u scpi_interface \<Rightarrow> 'u scpi_t \<Rightarrow> 'u scpi_t" where
  "SCPI_EventClear ifc ctx = SCPI_RegSet ifc ctx SCPI_REG_ESR 0"

section \<open>What a register write does\<close>

text \<open>
  The specification: one write stores the value and settles STB, whose summary bit for the event
  register concerned says whether an enabled event is set, and whose SRQ bit says whether STB
  has an enabled bit.
\<close>

type_synonym regs = "scpi_reg_name \<Rightarrow> u16"

definition summarise :: "regs \<Rightarrow> scpi_reg_name \<Rightarrow> scpi_reg_name \<Rightarrow> u16 \<Rightarrow> u16" where
  "summarise r ev en b =
     (if r ev AND r en \<noteq> 0 then r SCPI_REG_STB OR b else r SCPI_REG_STB AND NOT b)"

fun stb_input :: "regs \<Rightarrow> scpi_reg_name \<Rightarrow> u16" where
  "stb_input r SCPI_REG_STB = r SCPI_REG_STB"
| "stb_input r SCPI_REG_SRE = r SCPI_REG_STB"
| "stb_input r SCPI_REG_ESR = summarise r SCPI_REG_ESR SCPI_REG_ESE STB_ESR"
| "stb_input r SCPI_REG_ESE = summarise r SCPI_REG_ESR SCPI_REG_ESE STB_ESR"
| "stb_input r SCPI_REG_QUES = summarise r SCPI_REG_QUES SCPI_REG_QUESE STB_QES"
| "stb_input r SCPI_REG_QUESE = summarise r SCPI_REG_QUES SCPI_REG_QUESE STB_QES"
| "stb_input r SCPI_REG_OPER = summarise r SCPI_REG_OPER SCPI_REG_OPERE STB_OPS"
| "stb_input r SCPI_REG_OPERE = summarise r SCPI_REG_OPER SCPI_REG_OPERE STB_OPS"
| "stb_input r SCPI_REG_COUNT = r SCPI_REG_STB"

definition stb_fix :: "u16 \<Rightarrow> u16 \<Rightarrow> u16" where
  "stb_fix sre w = (if w AND (sre AND NOT STB_SRQ) \<noteq> 0 then w OR STB_SRQ else w AND NOT STB_SRQ)"

definition reg_effect :: "regs \<Rightarrow> scpi_reg_name \<Rightarrow> u16 \<Rightarrow> regs" where
  "reg_effect r name v =
     (let r1 = r(name := v)
      in r1(SCPI_REG_STB := stb_fix (r1 SCPI_REG_SRE) (stb_input r1 name)))"

definition reg_srq :: "regs \<Rightarrow> scpi_reg_name \<Rightarrow> u16 \<Rightarrow> bool" where
  "reg_srq r name v \<longleftrightarrow>
     (let s = reg_effect r name v SCPI_REG_STB
      in s AND STB_SRQ \<noteq> 0 \<and> s \<noteq> r SCPI_REG_STB)"

definition service_request :: "'u scpi_interface \<Rightarrow> bool \<Rightarrow> 'u scpi_t \<Rightarrow> 'u scpi_t" where
  "service_request ifc srq ctx =
     (if srq then snd (writeControl ifc ctx SCPI_CTRL_SRQ (SCPI_RegGet ctx SCPI_REG_STB)) else ctx)"

definition status_ok :: "regs \<Rightarrow> bool" where
  "status_ok r \<longleftrightarrow>
     (r SCPI_REG_STB AND STB_ESR \<noteq> 0 \<longleftrightarrow> r SCPI_REG_ESR AND r SCPI_REG_ESE \<noteq> 0) \<and>
     (r SCPI_REG_STB AND STB_QES \<noteq> 0 \<longleftrightarrow> r SCPI_REG_QUES AND r SCPI_REG_QUESE \<noteq> 0) \<and>
     (r SCPI_REG_STB AND STB_OPS \<noteq> 0 \<longleftrightarrow> r SCPI_REG_OPER AND r SCPI_REG_OPERE \<noteq> 0) \<and>
     (r SCPI_REG_STB AND STB_SRQ \<noteq> 0 \<longleftrightarrow>
        r SCPI_REG_STB AND (r SCPI_REG_SRE AND NOT STB_SRQ) \<noteq> 0)"

section \<open>Masks\<close>

lemma STB_and_iff:
  "w AND STB_QMA \<noteq> 0 \<longleftrightarrow> bit w 2" "w AND STB_QES \<noteq> 0 \<longleftrightarrow> bit w 3"
  "w AND STB_ESR \<noteq> 0 \<longleftrightarrow> bit w 5" "w AND STB_SRQ \<noteq> 0 \<longleftrightarrow> bit w 6"
  "w AND STB_OPS \<noteq> 0 \<longleftrightarrow> bit w 7"
proof -
  have e: "w AND 2 ^ n \<noteq> 0 \<longleftrightarrow> bit w n" for n and w :: u16
    by (simp add: and_exp_eq_0_iff_not_bit)
  show "w AND STB_QMA \<noteq> 0 \<longleftrightarrow> bit w 2" "w AND STB_QES \<noteq> 0 \<longleftrightarrow> bit w 3"
    "w AND STB_ESR \<noteq> 0 \<longleftrightarrow> bit w 5" "w AND STB_SRQ \<noteq> 0 \<longleftrightarrow> bit w 6"
    "w AND STB_OPS \<noteq> 0 \<longleftrightarrow> bit w 7"
    using e [of w 2] e [of w 3] e [of w 5] e [of w 6] e [of w 7] by (simp_all add: stb_bits)
qed

lemma bit_STB [simp]:
  "bit STB_QMA n \<longleftrightarrow> n = 2" "bit STB_QES n \<longleftrightarrow> n = 3" "bit STB_ESR n \<longleftrightarrow> n = 5"
  "bit STB_SRQ n \<longleftrightarrow> n = 6" "bit STB_OPS n \<longleftrightarrow> n = 7"
proof -
  have e: "bit (2 ^ k :: u16) n \<longleftrightarrow> n = k" if "k < 16" for k
    using that by (auto simp: bit_exp_iff)
  show "bit STB_QMA n \<longleftrightarrow> n = 2" "bit STB_QES n \<longleftrightarrow> n = 3" "bit STB_ESR n \<longleftrightarrow> n = 5"
    "bit STB_SRQ n \<longleftrightarrow> n = 6" "bit STB_OPS n \<longleftrightarrow> n = 7"
    using e [of 2] e [of 3] e [of 5] e [of 6] e [of 7] by (simp_all add: stb_bits)
qed

lemma enabled_or [simp]:
  "(w OR b) AND (m AND NOT b) = w AND (m AND NOT (b :: u16))"
  "(w AND NOT b) AND (m AND NOT b) = w AND (m AND NOT (b :: u16))"
  by (rule bit_eqI, auto simp: bit_simps)+

lemma stb_fix_srq: "bit (stb_fix sre w) 6 \<longleftrightarrow> w AND (sre AND NOT STB_SRQ) \<noteq> 0"
  by (simp add: stb_fix_def bit_simps)

lemma stb_fix_enabled:
  "stb_fix sre w AND (sre AND NOT STB_SRQ) = w AND (sre AND NOT STB_SRQ)"
  by (simp add: stb_fix_def)

lemma stb_fix_bit: "n \<noteq> 6 \<Longrightarrow> n < 16 \<Longrightarrow> bit (stb_fix sre w) n \<longleftrightarrow> bit w n"
  by (simp add: stb_fix_def bit_simps)

lemma stb_fix_idem: "stb_fix sre (stb_fix sre w) = stb_fix sre w"
  by (rule bit_eqI) (auto simp: stb_fix_def bit_simps split: if_splits)

lemma summarise_bit:
  assumes "n < 16"
  shows "bit (summarise r ev en b) n \<longleftrightarrow>
           (if bit b n then r ev AND r en \<noteq> 0 else bit (r SCPI_REG_STB) n)"
  using assms by (auto simp: summarise_def bit_simps)

section \<open>The code meets the specification\<close>

lemma put_reg_same: "registers c = Some r \<Longrightarrow> r name = v \<Longrightarrow> put_reg name v c = c"
  by (cases c) (auto simp: put_reg_def)

lemma registers_put_reg [simp]:
  "registers (put_reg name v c) = map_option (\<lambda>r. r(name := v)) (registers c)"
  by (simp add: put_reg_def)

lemma RegGet_Some:
  "registers c = Some r \<Longrightarrow> name \<noteq> SCPI_REG_COUNT \<Longrightarrow> SCPI_RegGet c name = r name"
  by (simp add: SCPI_RegGet_def)

lemma put_reg_eq:
  "registers c = Some r \<Longrightarrow> put_reg name v c = c\<lparr>registers := Some (r(name := v))\<rparr>"
  by (simp add: put_reg_def)

context scpi_port begin

lemma writeControl_keeps: "keeps_library c (snd (writeControl ifc c ctrl v))"
  using control_keeps by (auto simp: writeControl_def split: option.splits)

lemma service_request_keeps: "keeps_library c (service_request ifc b c)"
  using writeControl_keeps by (simp add: service_request_def)

lemma service_request_registers [simp]: "registers (service_request ifc b c) = registers c"
  using keeps_library_fields(9) [OF service_request_keeps] .

lemma RegSet_STB:
  assumes "registers c = Some r"
  shows "SCPI_RegSet ifc c SCPI_REG_STB v =
           service_request ifc (reg_srq r SCPI_REG_STB v)
             (c\<lparr>registers := Some (reg_effect r SCPI_REG_STB v)\<rparr>)"
  using assms
  by (auto simp: SCPI_RegSet.simps put_reg_eq RegGet_Some service_request_def reg_srq_def
      reg_effect_def stb_fix_def STB_and_iff bit_simps Let_def)

text \<open>Updating STB with the summary of an event register whose value has been stored.\<close>

lemma regUpdateSTB_eq:
  assumes "en \<noteq> SCPI_REG_COUNT"
  shows "regUpdateSTB ifc (c\<lparr>registers := Some (r(ev := v))\<rparr>) v en b =
           SCPI_RegSet ifc (c\<lparr>registers := Some (r(ev := v))\<rparr>) SCPI_REG_STB
             (summarise (r(ev := v)) ev en b)"
  using assms
  by (simp add: regUpdateSTB.simps SCPI_RegSetBits.simps SCPI_RegClearBits.simps summarise_def
      RegGet_Some [where r = "r(ev := v)"])

lemma RegSet_regs: "registers c = Some r \<Longrightarrow>
  registers (SCPI_RegSet ifc c SCPI_REG_STB v) = Some (reg_effect r SCPI_REG_STB v)"
  by (simp add: RegSet_STB)

lemma RegSet_event:
  assumes "registers c = Some r" "name \<in> {SCPI_REG_SRE, SCPI_REG_ESR, SCPI_REG_QUES, SCPI_REG_OPER}"
  shows "SCPI_RegSet ifc c name v =
           service_request ifc (reg_srq r name v) (c\<lparr>registers := Some (reg_effect r name v)\<rparr>)"
proof -
  let ?r = "r(name := v)" and ?c = "c\<lparr>registers := Some (r(name := v))\<rparr>"
  let ?d = "SCPI_RegSet ifc ?c SCPI_REG_STB (stb_input ?r name)"
  have d: "?d = service_request ifc (reg_srq r name v) (c\<lparr>registers := Some (reg_effect r name v)\<rparr>)"
    using assms(2)
    by (auto simp: RegSet_STB reg_srq_def reg_effect_def fun_upd_twist fun_upd_upd
        summarise_def Let_def)
  have "SCPI_RegSet ifc c name v = put_reg name v ?d"
    using assms
    by (auto simp: SCPI_RegSet.simps [of ifc c name] regUpdate.simps put_reg_eq RegGet_Some
        regUpdateSTB_eq Let_def)
  also have "put_reg name v ?d = ?d"
    using assms(2) by (intro put_reg_same [where r = "reg_effect r name v"])
      (auto simp: d reg_effect_def Let_def)
  finally show ?thesis using d by simp
qed

lemma RegSet_enable:
  assumes "registers c = Some r"
    and "(name, ev) \<in> {(SCPI_REG_ESE, SCPI_REG_ESR), (SCPI_REG_QUESE, SCPI_REG_QUES),
                        (SCPI_REG_OPERE, SCPI_REG_OPER)}"
  shows "SCPI_RegSet ifc c name v =
           service_request ifc (reg_srq r name v) (c\<lparr>registers := Some (reg_effect r name v)\<rparr>)"
proof -
  let ?r = "r(name := v)" and ?c = "c\<lparr>registers := Some (r(name := v))\<rparr>"
  let ?d = "SCPI_RegSet ifc ?c ev (r ev)"
  have "?r(ev := r ev) = ?r" "stb_input ?r ev = stb_input ?r name" "?r SCPI_REG_STB = r SCPI_REG_STB"
    using assms(2) by (auto simp: fun_eq_iff)
  then have e: "reg_effect ?r ev (r ev) = reg_effect r name v"
    "reg_srq ?r ev (r ev) = reg_srq r name v"
    by (simp_all add: reg_effect_def reg_srq_def Let_def)
  have d: "?d = service_request ifc (reg_srq r name v) (c\<lparr>registers := Some (reg_effect r name v)\<rparr>)"
    using assms(2) RegSet_event [of ?c ?r ev "r ev"] e by auto
  have "SCPI_RegSet ifc c name v = put_reg name v ?d"
    using assms
    by (auto simp: SCPI_RegSet.simps [of ifc c name] regUpdate.simps put_reg_eq RegGet_Some Let_def)
  also have "put_reg name v ?d = ?d"
    using assms(2) by (intro put_reg_same [where r = "reg_effect r name v"])
      (auto simp: d reg_effect_def Let_def)
  finally show ?thesis using d by simp
qed

lemma RegSet_eq:
  assumes "registers c = Some r" "name \<noteq> SCPI_REG_COUNT"
  shows "SCPI_RegSet ifc c name v =
           service_request ifc (reg_srq r name v) (c\<lparr>registers := Some (reg_effect r name v)\<rparr>)"
  using assms RegSet_STB RegSet_event RegSet_enable by (cases name) auto

lemma RegSet_registers:
  assumes "registers c = Some r"
  shows "registers (SCPI_RegSet ifc c name v) =
           Some (if name = SCPI_REG_COUNT then r else reg_effect r name v)"
  using assms RegSet_eq [OF assms, of name v]
  by (cases "name = SCPI_REG_COUNT") (auto simp: SCPI_RegSet.simps [of ifc c SCPI_REG_COUNT])

end

section \<open>The invariant\<close>

lemma status_ok_bits:
  "status_ok r \<longleftrightarrow>
     (bit (r SCPI_REG_STB) 5 \<longleftrightarrow> r SCPI_REG_ESR AND r SCPI_REG_ESE \<noteq> 0) \<and>
     (bit (r SCPI_REG_STB) 3 \<longleftrightarrow> r SCPI_REG_QUES AND r SCPI_REG_QUESE \<noteq> 0) \<and>
     (bit (r SCPI_REG_STB) 7 \<longleftrightarrow> r SCPI_REG_OPER AND r SCPI_REG_OPERE \<noteq> 0) \<and>
     (bit (r SCPI_REG_STB) 6 \<longleftrightarrow> r SCPI_REG_STB AND (r SCPI_REG_SRE AND NOT STB_SRQ) \<noteq> 0)"
  by (simp add: status_ok_def STB_and_iff)

lemma status_ok_effect:
  assumes "status_ok r" "name \<noteq> SCPI_REG_STB"
  shows "status_ok (reg_effect r name v)"
  using assms
  by (cases name)
     (simp_all add: status_ok_bits reg_effect_def Let_def stb_fix_srq stb_fix_enabled stb_fix_bit
       summarise_bit)

text \<open>A direct write of STB keeps the invariant when it leaves the three summary bits alone.\<close>

lemma status_ok_STB:
  assumes "status_ok r" "bit v 3 = bit (r SCPI_REG_STB) 3" "bit v 5 = bit (r SCPI_REG_STB) 5"
    "bit v 7 = bit (r SCPI_REG_STB) 7"
  shows "status_ok (reg_effect r SCPI_REG_STB v)"
  using assms
  by (simp add: status_ok_bits reg_effect_def Let_def stb_fix_srq stb_fix_enabled stb_fix_bit)

lemma status_ok_QMA:
  assumes "status_ok r"
  shows "status_ok (reg_effect r SCPI_REG_STB (r SCPI_REG_STB OR STB_QMA))"
    and "status_ok (reg_effect r SCPI_REG_STB (r SCPI_REG_STB AND NOT STB_QMA))"
  by (rule status_ok_STB [OF assms], simp_all add: bit_simps)+

lemma reg_effect_QMA:
  "bit (reg_effect r SCPI_REG_STB v SCPI_REG_STB) 2 \<longleftrightarrow> bit v 2"
  by (simp add: reg_effect_def Let_def stb_fix_bit)

lemma reg_effect_other:
  "name \<noteq> SCPI_REG_STB \<Longrightarrow> n \<noteq> SCPI_REG_STB \<Longrightarrow>
     reg_effect r name v n = (if n = name then v else r n)"
  "n \<noteq> SCPI_REG_STB \<Longrightarrow> reg_effect r SCPI_REG_STB v n = r n"
  by (simp_all add: reg_effect_def Let_def)

section \<open>What the status functions leave alone\<close>

definition only_status :: "'u scpi_t \<Rightarrow> 'u scpi_t \<Rightarrow> bool" where
  "only_status c d \<longleftrightarrow> (\<exists>r u. d = c\<lparr>registers := r, user_context := u\<rparr>)"

lemma only_status_refl [simp, intro]: "only_status c c"
  unfolding only_status_def by (rule exI [of _ "registers c"], rule exI [of _ "user_context c"]) simp

lemma only_status_trans: "only_status a b \<Longrightarrow> only_status b c \<Longrightarrow> only_status a c"
  unfolding only_status_def by (elim exE) (intro exI, simp)

lemma only_status_fields:
  assumes "only_status c d"
  shows "buf_length d = buf_length c" "buf_position d = buf_position c" "buf_data d = buf_data c"
    "param_list d = param_list c" "output_count d = output_count c"
    "input_count d = input_count c" "cmd_error d = cmd_error c" "error_queue d = error_queue c"
    "parser_state d = parser_state c" "idn d = idn c" "null_used d = null_used c"
  using assms by (auto simp: only_status_def)

lemma only_status_registers: "only_status c (c\<lparr>registers := r\<rparr>)"
  unfolding only_status_def by (rule exI [of _ r], rule exI [of _ "user_context c"]) simp

lemma keeps_library_only_status:
  assumes "keeps_library c d"
  shows "only_status c d"
proof -
  have "d = c\<lparr>registers := registers c, user_context := user_context d\<rparr>"
    using assms by (simp add: keeps_library_def)
  then show ?thesis unfolding only_status_def by (intro exI)
qed

context scpi_port begin

lemma RegSet_only_status: "only_status c (SCPI_RegSet ifc c name v)"
proof (cases "registers c")
  case None
  then show ?thesis by (simp add: SCPI_RegSet.simps)
next
  case (Some r)
  show ?thesis
  proof (cases "name = SCPI_REG_COUNT")
    case True
    then show ?thesis using Some by (simp add: SCPI_RegSet.simps)
  next
    case False
    show ?thesis
      unfolding RegSet_eq [OF Some False]
      by (rule only_status_trans [OF only_status_registers
            keeps_library_only_status [OF service_request_keeps]])
  qed
qed

lemmas RegSet_fields = only_status_fields [OF RegSet_only_status]

end

lemma scpi_port_scpi_ifc: "scpi_port scpi_ifc"
  by unfold_locales

section \<open>Properties\<close>

text \<open>C22: Writing a register does what the status model of IEEE 488.2 asks for.  Through any
  interface that leaves the library's fields alone, \<^verbatim>\<open>SCPI_RegSet\<close> (with its recursion through
  \<^verbatim>\<open>regUpdate\<close>, \<^verbatim>\<open>regUpdateSTB\<close>, \<^verbatim>\<open>SCPI_RegSetBits\<close> and \<^verbatim>\<open>SCPI_RegClearBits\<close>) stores the value,
  settles the one summary bit concerned and the SRQ bit of STB in a single step, touches nothing
  else, and then sends at most one service request, exactly when the SRQ bit is set in an STB that
  has changed.\<close>

theorem RegSet_refines:
  assumes "scpi_port ifc" "registers c = Some r" "name \<noteq> SCPI_REG_COUNT"
  shows "SCPI_RegSet ifc c name v =
           service_request ifc (reg_srq r name v) (c\<lparr>registers := Some (reg_effect r name v)\<rparr>)"
  using assms by (rule scpi_port.RegSet_eq)

lemma RegSet_refines_witness:
  "SCPI_RegSet scpi_ifc scpi_context SCPI_REG_ESR 0x20 =
     scpi_context\<lparr>registers := Some ((\<lambda>_. 0)(SCPI_REG_ESR := 0x20, SCPI_REG_STB := 0))\<rparr>"
  by (subst RegSet_refines [OF scpi_port_scpi_ifc, of _ "\<lambda>_. 0"])
     (simp_all add: scpi_context_def service_request_def reg_srq_def reg_effect_def
       summarise_def stb_fix_def stb_bits Let_def)

text \<open>A direct write of STB is the only one that can break the invariant, and only by changing a summary bit.\<close>

lemma status_ok_effect_iff:
  assumes "status_ok r"
  shows "status_ok (reg_effect r name v) \<longleftrightarrow>
    (name = SCPI_REG_STB \<longrightarrow> (\<forall>n\<in>{3, 5, 7}. bit v n = bit (r SCPI_REG_STB) n))"
proof (cases "name = SCPI_REG_STB")
  case True
  have "bit (reg_effect r SCPI_REG_STB v SCPI_REG_STB) n = bit v n" if "n \<in> {3, 5, 7}" for n
    using that by (auto simp: reg_effect_def Let_def stb_fix_bit)
  then show ?thesis
    using True assms status_ok_STB [OF assms, of v]
    by (auto simp: status_ok_bits reg_effect_other)
qed (use status_ok_effect [OF assms] in simp)

text \<open>C29: The status registers stay consistent.  If each summary bit of STB says whether its event
  register has an enabled event, and the SRQ bit whether STB has an enabled bit, then so they do
  after a write of any register, except for a direct write of STB that changes a summary bit, which
  no register operation prevents; the setting and clearing of the error queue bit, the only direct writes
  that the library makes itself, keep them consistent.\<close>

theorem RegSet_keeps_status:
  assumes "scpi_port ifc" "registers c = Some r" "status_ok r"
  shows "\<exists>r' s t. registers (SCPI_RegSet ifc c name v) = Some r' \<and>
           (status_ok r' \<longleftrightarrow> (name = SCPI_REG_STB \<longrightarrow> (\<forall>n\<in>{3, 5, 7}. bit v n = bit (r SCPI_REG_STB) n))) \<and>
           (name \<noteq> SCPI_REG_STB \<and> name \<noteq> SCPI_REG_COUNT \<longrightarrow> r' name = v) \<and>
         registers (SCPI_RegSetBits ifc c SCPI_REG_STB STB_QMA) = Some s \<and> status_ok s \<and>
         registers (SCPI_RegClearBits ifc c SCPI_REG_STB STB_QMA) = Some t \<and> status_ok t"
proof -
  note w = scpi_port.RegSet_registers [OF assms(1,2)]
  have q: "registers (SCPI_RegSetBits ifc c SCPI_REG_STB STB_QMA) =
      Some (reg_effect r SCPI_REG_STB (r SCPI_REG_STB OR STB_QMA))"
    "registers (SCPI_RegClearBits ifc c SCPI_REG_STB STB_QMA) =
      Some (reg_effect r SCPI_REG_STB (r SCPI_REG_STB AND NOT STB_QMA))"
    by (simp_all add: SCPI_RegSetBits.simps SCPI_RegClearBits.simps w RegGet_Some [OF assms(2)])
  obtain r' where r': "registers (SCPI_RegSet ifc c name v) = Some r'"
    "status_ok r' \<longleftrightarrow> (name = SCPI_REG_STB \<longrightarrow> (\<forall>n\<in>{3, 5, 7}. bit v n = bit (r SCPI_REG_STB) n))"
    "name \<noteq> SCPI_REG_STB \<and> name \<noteq> SCPI_REG_COUNT \<longrightarrow> r' name = v"
  proof (cases "name = SCPI_REG_COUNT")
    case True
    then show thesis using that [of r] w [of name v] assms(3) by simp
  next
    case False
    show thesis
    proof (rule that)
      show "registers (SCPI_RegSet ifc c name v) = Some (reg_effect r name v)" using False w [of name v] by simp
      show "name \<noteq> SCPI_REG_STB \<and> name \<noteq> SCPI_REG_COUNT \<longrightarrow> reg_effect r name v name = v"
        by (simp add: reg_effect_other)
    qed (rule status_ok_effect_iff [OF assms(3)])
  qed
  then show ?thesis using q status_ok_QMA [OF assms(3)] by blast
qed

lemma RegSet_keeps_status_witness:
  "(\<exists>r'. registers (SCPI_RegSet scpi_ifc scpi_context SCPI_REG_ESE 0x3C) = Some r' \<and>
        status_ok r' \<and> r' SCPI_REG_ESE = 0x3C) \<and>
   (\<exists>r'. registers (SCPI_RegSet scpi_ifc scpi_context SCPI_REG_STB 0x20) = Some r' \<and> \<not> status_ok r')"
proof -
  have r: "registers scpi_context = Some (\<lambda>_. 0)" "status_ok (\<lambda>_. 0)"
    by (simp_all add: scpi_context_def status_ok_def)
  have b: "bit (0x20 :: u16) 5" by simp
  show ?thesis
    using RegSet_keeps_status [OF scpi_port_scpi_ifc r, of SCPI_REG_ESE "0x3C"]
      RegSet_keeps_status [OF scpi_port_scpi_ifc r, of SCPI_REG_STB "0x20"] b
    by auto
qed

text \<open>A service request reaches the device once and only for news.  With the firmware's own
  interface, a register write prints one \<^verbatim>\<open>**SRQ\<close> line carrying the new STB when the write leaves
  the SRQ bit set and STB different from before, and prints nothing otherwise.\<close>

theorem RegSet_prints_srq:
  assumes "registers c = Some r" "name \<noteq> SCPI_REG_COUNT"
  shows "dev_stdout (user_context (SCPI_RegSet scpi_ifc c name v)) =
           dev_stdout (user_context c) @
           (let s = reg_effect r name v SCPI_REG_STB
            in if s AND STB_SRQ \<noteq> 0 \<and> s \<noteq> r SCPI_REG_STB
               then [Printf (''**SRQ: 0x%X (%d)'' @ [CHR 0x0D, CHR 0x0A]) [Num (uint s), Num (uint s)]]
               else [])"
  unfolding port.RegSet_eq [OF assms]
  by (simp add: service_request_def reg_srq_def writeControl_def scpi_ifc_def SCPI_Control_def
      emit_def Let_def SCPI_RegGet_def)

lemma RegSet_prints_srq_witness:
  "let c = SCPI_RegSet scpi_ifc (SCPI_RegSet scpi_ifc (SCPI_RegSet scpi_ifc scpi_context
             SCPI_REG_ESE 0x20) SCPI_REG_SRE 0x20) SCPI_REG_ESR 0x20
   in dev_stdout (user_context c) =
        [Printf (''**SRQ: 0x%X (%d)'' @ [CHR 0x0D, CHR 0x0A]) [Num 0x60, Num 0x60]]"
proof -
  let ?r = "(\<lambda>_. 0)(SCPI_REG_ESE := 0x20 :: u16, SCPI_REG_SRE := 0x20)"
  let ?c = "SCPI_RegSet scpi_ifc (SCPI_RegSet scpi_ifc scpi_context SCPI_REG_ESE 0x20) SCPI_REG_SRE 0x20"
  have c: "?c = scpi_context\<lparr>registers := Some ?r\<rparr>"
    by (simp add: port.RegSet_eq [where r = "\<lambda>_. 0"]
        port.RegSet_eq [where r = "(\<lambda>_. 0)(SCPI_REG_ESE := 0x20 :: u16)"] scpi_context_def
        service_request_def reg_srq_def reg_effect_def summarise_def stb_fix_def stb_bits Let_def
        fun_upd_idem)
  have "dev_stdout (user_context scpi_context) = []" by (simp add: scpi_context_def)
  then show ?thesis
    unfolding c
    by (subst Let_def, subst RegSet_prints_srq [where r = ?r])
       (simp_all add: reg_effect_def summarise_def stb_fix_def stb_bits Let_def)
qed

end
