(* ===== verification/ErrorQueue.thy ===== *)
theory ErrorQueue
  imports Registers
begin

text \<open>
  The error/event queue, \<^verbatim>\<open>Utilities/Scpi/Src/error.c\<close>: the queue itself is the ring buffer of
  theory \<open>Fifo\<close>, used through the contract \<open>error_fifo\<close>; the QMA bit of the status byte says
  whether it has entries, and pushing an error sets the ESR bit of the error's class.

  The context points to the static \<open>local_error_queue\<close> once \<^verbatim>\<open>SCPI_ErrorInit\<close> has run, and holds NULL
  before; an operation that follows the pointer while it is NULL sets \<open>null_used\<close>.

  \<open>errors_ok\<close> is the invariant of queue and registers together.
\<close>

section \<open>The operations\<close>

text \<open>The static queue as the program starts.\<close>

definition local_error_queue :: scpi_fifo where
  "local_error_queue = \<lparr>fifo_wr = 0, fifo_rd = 0, fifo_size = 0, fifo_data = replicate FIFO_SIZE 0,
     fifo_oob = False\<rparr>"

definition SCPI_ErrorInit :: "'u scpi_t \<Rightarrow> 'u scpi_t" where
  "SCPI_ErrorInit ctx = ctx\<lparr>error_queue :=
     Some (fifo_init (case error_queue ctx of None \<Rightarrow> local_error_queue | Some q \<Rightarrow> q))\<rparr>"

text \<open>A call of an operation of \<^verbatim>\<open>fifo.c\<close> on the queue of the context; \<open>x\<close> is what its result variable
  holds if there is no queue.\<close>

definition on_queue :: "'a \<Rightarrow> (scpi_fifo \<Rightarrow> 'a \<times> scpi_fifo) \<Rightarrow> 'u scpi_t \<Rightarrow> 'a \<times> 'u scpi_t" where
  "on_queue x f ctx =
     (case error_queue ctx of
        None \<Rightarrow> (x, ctx\<lparr>null_used := True\<rparr>)
      | Some q \<Rightarrow> apsnd (\<lambda>q. ctx\<lparr>error_queue := Some q\<rparr>) (f q))"

definition SCPI_ErrorCount :: "'u scpi_t \<Rightarrow> int \<times> 'u scpi_t" where
  "SCPI_ErrorCount ctx = on_queue 0 (\<lambda>q. (snd (fifo_count q), q)) ctx"

definition call_error :: "'u scpi_interface \<Rightarrow> int \<Rightarrow> 'u scpi_t \<Rightarrow> 'u scpi_t" where
  "call_error ifc err ctx = (case if_error ifc of None \<Rightarrow> ctx | Some f \<Rightarrow> snd (f ctx err))"

definition SCPI_ErrorEmitEmpty :: "'u scpi_interface \<Rightarrow> 'u scpi_t \<Rightarrow> 'u scpi_t" where
  "SCPI_ErrorEmitEmpty ifc ctx =
     (let (n, ctx) = SCPI_ErrorCount ctx
      in if n = 0 \<and> SCPI_RegGet ctx SCPI_REG_STB AND STB_QMA \<noteq> 0
         then call_error ifc 0 (SCPI_RegClearBits ifc ctx SCPI_REG_STB STB_QMA)
         else ctx)"

definition SCPI_ErrorEmit :: "'u scpi_interface \<Rightarrow> 'u scpi_t \<Rightarrow> int \<Rightarrow> 'u scpi_t" where
  "SCPI_ErrorEmit ifc ctx err =
     call_error ifc err (SCPI_RegSetBits ifc ctx SCPI_REG_STB STB_QMA)"

definition SCPI_ErrorClear :: "'u scpi_interface \<Rightarrow> 'u scpi_t \<Rightarrow> 'u scpi_t" where
  "SCPI_ErrorClear ifc ctx =
     SCPI_ErrorEmitEmpty ifc (snd (on_queue () (\<lambda>q. ((), fifo_clear q)) ctx))"

definition SCPI_ErrorPop :: "'u scpi_interface \<Rightarrow> 'u scpi_t \<Rightarrow> int \<times> 'u scpi_t" where
  "SCPI_ErrorPop ifc ctx =
     (let (v, ctx) = on_queue None (\<lambda>q. snd (fifo_remove q True)) ctx;
          result = (case v of None \<Rightarrow> 0 | Some e \<Rightarrow> e)
      in (result, SCPI_ErrorEmitEmpty ifc ctx))"

definition SCPI_ErrorAddInternal :: "'u scpi_t \<Rightarrow> int \<Rightarrow> 'u scpi_t" where
  "SCPI_ErrorAddInternal ctx err = snd (on_queue False (\<lambda>q. fifo_add q err) ctx)"

record error_reg =
  er_from :: int
  er_to :: int
  er_bit :: u16

definition ERROR_DEFS_N :: nat where "ERROR_DEFS_N = 9"

definition errs :: "error_reg list" where
  "errs = [
    \<lparr>er_from = - 100, er_to = - 199, er_bit = ESR_CER\<rparr>,
    \<lparr>er_from = - 200, er_to = - 299, er_bit = ESR_EER\<rparr>,
    \<lparr>er_from = - 300, er_to = - 399, er_bit = ESR_DER\<rparr>,
    \<lparr>er_from = 1, er_to = 32767, er_bit = ESR_DER\<rparr>,
    \<lparr>er_from = - 400, er_to = - 499, er_bit = ESR_QER\<rparr>,
    \<lparr>er_from = - 500, er_to = - 599, er_bit = ESR_PON\<rparr>,
    \<lparr>er_from = - 600, er_to = - 699, er_bit = ESR_URQ\<rparr>,
    \<lparr>er_from = - 700, er_to = - 799, er_bit = ESR_REQ\<rparr>,
    \<lparr>er_from = - 800, er_to = - 899, er_bit = ESR_OPC\<rparr>]"

definition push_bit_of :: "'u scpi_interface \<Rightarrow> int \<Rightarrow> 'u scpi_t \<Rightarrow> error_reg \<Rightarrow> 'u scpi_t" where
  "push_bit_of ifc err ctx e =
     (if err \<le> er_from e \<and> err \<ge> er_to e
      then SCPI_RegSetBits ifc ctx SCPI_REG_ESR (er_bit e) else ctx)"

definition SCPI_ErrorPush :: "'u scpi_interface \<Rightarrow> 'u scpi_t \<Rightarrow> int \<Rightarrow> 'u scpi_t" where
  "SCPI_ErrorPush ifc ctx err =
     (let ctx = SCPI_ErrorAddInternal ctx err;
          ctx = foldl (push_bit_of ifc err) ctx (take ERROR_DEFS_N errs);
          ctx = SCPI_ErrorEmit ifc ctx err
      in ctx\<lparr>cmd_error := True\<rparr>)"

section \<open>The invariant of queue and status\<close>

abbreviation queue_of :: "'u scpi_t \<Rightarrow> scpi_fifo" where
  "queue_of c \<equiv> the (error_queue c)"

lemma on_queue_simps [simp]:
  "error_queue c = None \<Longrightarrow> on_queue x f c = (x, c\<lparr>null_used := True\<rparr>)"
  "error_queue c = Some q \<Longrightarrow> on_queue x f c = (fst (f q), c\<lparr>error_queue := Some (snd (f q))\<rparr>)"
  by (simp_all add: on_queue_def apsnd_def map_prod_def split_beta)

lemma on_queue_fields [simp]:
  "buf_data (snd (on_queue x f c)) = buf_data c" "buf_length (snd (on_queue x f c)) = buf_length c"
  "buf_position (snd (on_queue x f c)) = buf_position c" "parser_state (snd (on_queue x f c)) = parser_state c"
  "param_list (snd (on_queue x f c)) = param_list c" "output_count (snd (on_queue x f c)) = output_count c"
  "input_count (snd (on_queue x f c)) = input_count c" "cmd_error (snd (on_queue x f c)) = cmd_error c"
  "registers (snd (on_queue x f c)) = registers c" "user_context (snd (on_queue x f c)) = user_context c"
  "idn (snd (on_queue x f c)) = idn c"
  by (simp_all add: on_queue_def split: option.split)

definition errors_ok :: "'u scpi_t \<Rightarrow> bool" where
  "errors_ok c \<longleftrightarrow>
     (case registers c of
        None \<Rightarrow> False
      | Some r \<Rightarrow> status_ok r \<and> error_queue c \<noteq> None \<and> fifo_inv (queue_of c) \<and>
          (r SCPI_REG_STB AND STB_QMA \<noteq> 0 \<longleftrightarrow> fifo_contents (queue_of c) \<noteq> []))"

definition error_list :: "'u scpi_t \<Rightarrow> int list" where
  "error_list c = fifo_contents (queue_of c)"

text \<open>The ESR bit of an error's class, as the comments of the table \<^verbatim>\<open>errs\<close> have it; the second
  definition is what the comparison in the loop makes of it.\<close>

definition esr_class :: "int \<Rightarrow> u16" where
  "esr_class err =
     (if - 199 \<le> err \<and> err \<le> - 100 then ESR_CER
      else if - 299 \<le> err \<and> err \<le> - 200 then ESR_EER
      else if - 399 \<le> err \<and> err \<le> - 300 then ESR_DER
      else if 1 \<le> err \<and> err \<le> 32767 then ESR_DER
      else if - 499 \<le> err \<and> err \<le> - 400 then ESR_QER
      else if - 599 \<le> err \<and> err \<le> - 500 then ESR_PON
      else if - 699 \<le> err \<and> err \<le> - 600 then ESR_URQ
      else if - 799 \<le> err \<and> err \<le> - 700 then ESR_REQ
      else if - 899 \<le> err \<and> err \<le> - 800 then ESR_OPC
      else 0)"

definition esr_reached :: "int \<Rightarrow> u16" where
  "esr_reached err = (if 0 < err then 0 else esr_class err)"

lemma STB_QMA_bit: "errors_ok c \<longleftrightarrow> (\<exists>r. registers c = Some r \<and> status_ok r \<and> error_queue c \<noteq> None \<and>
    fifo_inv (queue_of c) \<and> (bit (r SCPI_REG_STB) 2 \<longleftrightarrow> error_list c \<noteq> []))"
  by (auto simp: errors_ok_def STB_and_iff error_list_def split: option.splits)

lemma errors_okE:
  assumes "errors_ok c"
  obtains r q where "registers c = Some r" "status_ok r" "fifo_inv q"
    "bit (r SCPI_REG_STB) 2 \<longleftrightarrow> error_list c \<noteq> []" "error_queue c = Some q"
proof -
  obtain r where r: "registers c = Some r" "status_ok r" "fifo_inv (queue_of c)"
    "bit (r SCPI_REG_STB) 2 \<longleftrightarrow> error_list c \<noteq> []" "error_queue c \<noteq> None"
    using assms by (auto simp: STB_QMA_bit)
  then obtain q where "error_queue c = Some q" by blast
  then show thesis using that r by simp
qed

lemma SCPI_ErrorCount_eq:
  "error_queue c \<noteq> None \<Longrightarrow> fifo_inv (queue_of c) \<Longrightarrow> SCPI_ErrorCount c = (int (length (error_list c)), c)"
  using eq.cnt_contents [of "queue_of c"] by (auto simp: SCPI_ErrorCount_def error_list_def)

context scpi_port begin

lemma call_error_keeps: "keeps_library c (call_error ifc e c)"
  using error_keeps by (auto simp: call_error_def split: option.splits)

lemmas call_error_fields [simp] = keeps_library_fields [OF call_error_keeps]

declare RegSet_fields [simp]

lemma RegClearBits_QMA:
  assumes "registers c = Some r"
  shows "registers (SCPI_RegClearBits ifc c SCPI_REG_STB STB_QMA) =
           Some (reg_effect r SCPI_REG_STB (r SCPI_REG_STB AND NOT STB_QMA))"
    and "error_queue (SCPI_RegClearBits ifc c SCPI_REG_STB STB_QMA) = error_queue c"
  using assms by (simp_all add: SCPI_RegClearBits.simps RegGet_Some RegSet_registers)

lemma RegSetBits_registers:
  assumes "registers c = Some r" "name \<noteq> SCPI_REG_COUNT"
  shows "registers (SCPI_RegSetBits ifc c name b) = Some (reg_effect r name (r name OR b))"
  using assms by (simp add: SCPI_RegSetBits.simps RegGet_Some RegSet_registers)

lemma RegSetBits_queue [simp]:
  "error_queue (SCPI_RegSetBits ifc c name b) = error_queue c"
  by (simp add: SCPI_RegSetBits.simps)

lemma EmitEmpty_ok:
  assumes r: "registers c = Some r" "status_ok r" and q: "error_queue c \<noteq> None" "fifo_inv (queue_of c)"
    and m: "error_list c \<noteq> [] \<longrightarrow> bit (r SCPI_REG_STB) 2"
  shows "errors_ok (SCPI_ErrorEmitEmpty ifc c)" (is ?A)
    and "error_queue (SCPI_ErrorEmitEmpty ifc c) = error_queue c" (is ?B)
proof -
  obtain k where n: "SCPI_ErrorCount c = (k, c)" "k = 0 \<longleftrightarrow> error_list c = []"
    using SCPI_ErrorCount_eq [OF q] by simp
  show ?B using RegClearBits_QMA [OF r(1)] by (simp add: SCPI_ErrorEmitEmpty_def n)
  show ?A
    using assms n RegClearBits_QMA [OF r(1)] status_ok_QMA [OF r(2)]
      reg_effect_QMA [of r "r SCPI_REG_STB AND NOT STB_QMA"]
    by (auto simp: STB_QMA_bit SCPI_ErrorEmitEmpty_def STB_and_iff RegGet_Some error_list_def
        bit_simps)
qed

lemma ErrorClear_ok:
  assumes "errors_ok c"
  shows "errors_ok (SCPI_ErrorClear ifc c)" "error_list (SCPI_ErrorClear ifc c) = []"
proof -
  obtain r q where r: "registers c = Some r" "status_ok r" "error_queue c = Some q" "fifo_inv q"
    using assms by (rule errors_okE)
  let ?c = "c\<lparr>error_queue := Some (fifo_clear q)\<rparr>"
  have e: "fifo_inv (fifo_clear q)" "error_list ?c = []"
    using eq.clr_empty [OF r(4)] by (simp_all add: error_list_def)
  note EmitEmpty_ok [of ?c r, simplified, OF r(1,2) e(1)]
  then show "errors_ok (SCPI_ErrorClear ifc c)" "error_list (SCPI_ErrorClear ifc c) = []"
    using e r(3) by (simp_all add: SCPI_ErrorClear_def error_list_def)
qed

lemma ErrorPop_ok:
  assumes "errors_ok c"
  shows "errors_ok (snd (SCPI_ErrorPop ifc c))"
    and "error_list (snd (SCPI_ErrorPop ifc c)) = tl (error_list c)"
    and "fst (SCPI_ErrorPop ifc c) = (case error_list c of [] \<Rightarrow> 0 | e # _ \<Rightarrow> e)"
proof -
  obtain r q where r: "registers c = Some r" "status_ok r" "fifo_inv q"
    "bit (r SCPI_REG_STB) 2 \<longleftrightarrow> error_list c \<noteq> []" "error_queue c = Some q"
    using assms by (rule errors_okE)
  let ?c = "c\<lparr>error_queue := Some (snd (fifo_deq q))\<rparr>"
  have e: "fifo_inv (queue_of ?c)" "error_list ?c = tl (error_list c)"
    using eq.deq_inv [OF r(3)] eq.deq_contents [OF r(3)] r(5) by (simp_all add: error_list_def)
  have pop: "SCPI_ErrorPop ifc c =
      (case fst (fifo_deq q) of None \<Rightarrow> 0 | Some e \<Rightarrow> e, SCPI_ErrorEmitEmpty ifc ?c)"
    by (simp add: SCPI_ErrorPop_def fifo_deq_def r(5) Let_def)
  have "error_list ?c \<noteq> [] \<longrightarrow> bit (r SCPI_REG_STB) 2"
    using e r(4) by (cases "error_list c") auto
  note E = EmitEmpty_ok [of ?c r, simplified, OF r(1,2) e(1) [simplified] this [simplified]]
  show "errors_ok (snd (SCPI_ErrorPop ifc c))"
    "error_list (snd (SCPI_ErrorPop ifc c)) = tl (error_list c)"
    using E e by (simp_all add: pop error_list_def)
  show "fst (SCPI_ErrorPop ifc c) = (case error_list c of [] \<Rightarrow> 0 | e # _ \<Rightarrow> e)"
    using eq.deq_value [OF r(3)] r(5) by (auto simp: pop error_list_def split: list.splits)
qed

end

section \<open>Pushing an error\<close>

lemma push_bits_eq:
  "foldl (push_bit_of ifc err) c (take ERROR_DEFS_N errs) =
     (if esr_reached err = 0 then c else SCPI_RegSetBits ifc c SCPI_REG_ESR (esr_reached err))"
proof -
  have d: "foldl (push_bit_of ifc err) c (take ERROR_DEFS_N errs) =
      foldl (push_bit_of ifc err) c errs"
    by (simp add: ERROR_DEFS_N_def errs_def)
  consider "- 199 \<le> err" "err \<le> - 100" | "- 299 \<le> err" "err \<le> - 200"
    | "- 399 \<le> err" "err \<le> - 300" | "- 499 \<le> err" "err \<le> - 400" | "- 599 \<le> err" "err \<le> - 500"
    | "- 699 \<le> err" "err \<le> - 600" | "- 799 \<le> err" "err \<le> - 700" | "- 899 \<le> err" "err \<le> - 800"
    | "- 100 < err" | "err < - 899" by linarith
  then show ?thesis
    unfolding d
    by cases (auto simp: errs_def push_bit_of_def esr_reached_def esr_class_def esr_bits)
qed

definition pushed_regs :: "regs \<Rightarrow> int \<Rightarrow> regs" where
  "pushed_regs r err =
     (let r = (if esr_reached err = 0 then r
               else reg_effect r SCPI_REG_ESR (r SCPI_REG_ESR OR esr_reached err))
      in reg_effect r SCPI_REG_STB (r SCPI_REG_STB OR STB_QMA))"

lemma fifo_enq_add: "snd (fifo_add f v) = fifo_enq f v"
  by (simp add: fifo_enq_def)

context scpi_port begin

lemma ErrorPush_eq:
  assumes "registers c = Some r"
  shows "registers (SCPI_ErrorPush ifc c err) = Some (pushed_regs r err)"
    and "error_queue (SCPI_ErrorPush ifc c err) = map_option (\<lambda>q. fifo_enq q err) (error_queue c)"
    and "cmd_error (SCPI_ErrorPush ifc c err)"
  using assms
  by (cases "error_queue c"; simp add: SCPI_ErrorPush_def SCPI_ErrorEmit_def SCPI_ErrorAddInternal_def push_bits_eq
      RegSetBits_registers pushed_regs_def fifo_enq_add Let_def)+

lemma pushed_regs_ok:
  assumes "status_ok r"
  shows "status_ok (pushed_regs r err)" "bit (pushed_regs r err SCPI_REG_STB) 2"
    "pushed_regs r err SCPI_REG_ESR = r SCPI_REG_ESR OR esr_reached err"
  using assms
  by (simp_all add: pushed_regs_def Let_def status_ok_effect status_ok_QMA(1) reg_effect_QMA
      reg_effect_other bit_simps)

lemma ErrorPush_ok:
  assumes "errors_ok c" "fifo_ready (queue_of c)"
  shows "errors_ok (SCPI_ErrorPush ifc c err)"
    and "error_list (SCPI_ErrorPush ifc c err) =
           newest (fifo_cap (queue_of c)) (error_list c @ [err])"
proof -
  obtain r q where r: "registers c = Some r" "status_ok r" "fifo_inv (queue_of c)" "error_queue c = Some q"
    using assms(1) by (elim errors_okE) simp
  show e: "error_list (SCPI_ErrorPush ifc c err) =
      newest (fifo_cap (queue_of c)) (error_list c @ [err])"
    using eq.enq_newest [OF r(3) assms(2)] r(4) by (simp add: error_list_def ErrorPush_eq [OF r(1)])
  have "length (error_list (SCPI_ErrorPush ifc c err)) \<noteq> 0"
    using eq.cap_pos [OF r(3)] unfolding e by simp
  then show "errors_ok (SCPI_ErrorPush ifc c err)"
    using eq.enq_inv [OF r(3) assms(2)] pushed_regs_ok [OF r(2)] r(4)
    by (auto simp: STB_QMA_bit ErrorPush_eq [OF r(1)])
qed

end

section \<open>Properties\<close>

text \<open>Pushing an error queues it and says so in the status registers.  Through any interface
  that leaves the library's fields alone, as long as the ring buffer's write index is inside its
  array, \<^verbatim>\<open>SCPI_ErrorPush\<close> appends the error (dropping the oldest one of a full queue), flags the
  running command as failed, and keeps status byte and queue consistent.\<close>

theorem ErrorPush_queues:
  assumes "scpi_port ifc" "errors_ok c" "fifo_ready (queue_of c)"
  shows "error_list (SCPI_ErrorPush ifc c err) =
           newest (fifo_cap (queue_of c)) (error_list c @ [err]) \<and>
         errors_ok (SCPI_ErrorPush ifc c err) \<and> cmd_error (SCPI_ErrorPush ifc c err)"
proof -
  obtain r where r: "registers c = Some r" using assms(2) by (auto simp: STB_QMA_bit)
  show ?thesis
    using scpi_port.ErrorPush_ok [OF assms, of err] scpi_port.ErrorPush_eq [OF assms(1) r] by simp
qed

definition started :: "device scpi_t" where
  "started = SCPI_ErrorInit scpi_context"

lemma started_queue:
  "error_queue started = Some \<lparr>fifo_wr = 0, fifo_rd = 0, fifo_size = 16,
     fifo_data = replicate FIFO_SIZE 0, fifo_oob = False\<rparr>" "registers started = Some (\<lambda>_. 0)"
  by (simp_all add: started_def SCPI_ErrorInit_def scpi_context_def fifo_init_def local_error_queue_def
      FIFO_SIZE_def)

lemma started_ok: "errors_ok started" "fifo_ready (queue_of started)" "error_list started = []"
  by (simp_all add: errors_ok_def started_queue status_ok_def fifo_inv_def fifo_level_def
      fifo_contents_def fifo_ready_def error_list_def FIFO_SIZE_def)

lemma ErrorPush_queues_witness:
  "error_list (SCPI_ErrorPush scpi_ifc started (- 113)) = [- 113] \<and>
   errors_ok (SCPI_ErrorPush scpi_ifc started (- 113))"
  using ErrorPush_queues [OF scpi_port_scpi_ifc started_ok(1,2), of "- 113"] started_ok(3)
  by (simp add: newest_def fifo_cap_def started_queue)

text \<open>What pushing an error does to the standard event status register.  The bit of the error's
  class is added for the errors of the classes -100 to -899; for the device designer's errors 1 to
  32767, which the table \<^verbatim>\<open>errs\<close> lists with the device dependent error bit, no bit is set, because
  the row's bounds are the wrong way round for the comparison of the loop.\<close>

theorem ErrorPush_esr:
  assumes "scpi_port ifc" "registers c = Some r"
  shows "SCPI_RegGet (SCPI_ErrorPush ifc c err) SCPI_REG_ESR =
           (if 0 < err then r SCPI_REG_ESR else r SCPI_REG_ESR OR esr_class err)"
  using scpi_port.ErrorPush_eq(1) [OF assms, of err] assms(1)
  by (simp add: RegGet_Some pushed_regs_def Let_def reg_effect_other esr_reached_def)

lemma ErrorPush_esr_witness:
  "SCPI_RegGet (SCPI_ErrorPush scpi_ifc started (- 363)) SCPI_REG_ESR = ESR_DER \<and>
   SCPI_RegGet (SCPI_ErrorPush scpi_ifc started 42) SCPI_REG_ESR = 0 \<and> esr_class 42 = ESR_DER"
  using ErrorPush_esr [OF scpi_port_scpi_ifc started_queue(2), of "- 363"]
    ErrorPush_esr [OF scpi_port_scpi_ifc started_queue(2), of 42]
  by (simp add: esr_class_def)

text \<open>Popping returns the oldest error, or 0 from an empty queue, and removes just that one;
  the QMA bit of the status byte keeps saying whether an error is left.\<close>

theorem ErrorPop_oldest:
  assumes "scpi_port ifc" "errors_ok c"
  shows "fst (SCPI_ErrorPop ifc c) = (case error_list c of [] \<Rightarrow> 0 | e # _ \<Rightarrow> e) \<and>
         error_list (snd (SCPI_ErrorPop ifc c)) = tl (error_list c) \<and>
         errors_ok (snd (SCPI_ErrorPop ifc c))"
  using scpi_port.ErrorPop_ok [OF assms] by simp

lemma ErrorPop_oldest_witness:
  "let c = SCPI_ErrorPush scpi_ifc started (- 113)
   in fst (SCPI_ErrorPop scpi_ifc c) = - 113 \<and> error_list (snd (SCPI_ErrorPop scpi_ifc c)) = []"
  using port.ErrorPush_ok [OF started_ok(1,2), of "- 113"] started_ok(3)
    ErrorPop_oldest [OF scpi_port_scpi_ifc, of "SCPI_ErrorPush scpi_ifc started (- 113)"]
  by (simp add: newest_def fifo_cap_def started_queue Let_def)

text \<open>Clearing empties the queue and withdraws the QMA bit.\<close>

theorem ErrorClear_empties:
  assumes "scpi_port ifc" "errors_ok c"
  shows "error_list (SCPI_ErrorClear ifc c) = [] \<and> fst (SCPI_ErrorCount (SCPI_ErrorClear ifc c)) = 0 \<and>
         SCPI_RegGet (SCPI_ErrorClear ifc c) SCPI_REG_STB AND STB_QMA = 0 \<and>
         errors_ok (SCPI_ErrorClear ifc c)"
proof -
  have "errors_ok (SCPI_ErrorClear ifc c)" "error_list (SCPI_ErrorClear ifc c) = []"
    using scpi_port.ErrorClear_ok [OF assms] by auto
  then show ?thesis
    using SCPI_ErrorCount_eq [of "SCPI_ErrorClear ifc c"]
    by (auto simp: errors_ok_def RegGet_Some error_list_def split: option.splits)
qed

lemma ErrorClear_empties_witness:
  "fst (SCPI_ErrorCount (SCPI_ErrorClear scpi_ifc (SCPI_ErrorPush scpi_ifc started (- 113)))) = 0"
  using port.ErrorPush_ok(1) [OF started_ok(1,2), of "- 113"]
    ErrorClear_empties [OF scpi_port_scpi_ifc, of "SCPI_ErrorPush scpi_ifc started (- 113)"]
  by simp

end
