(* ===== verification/OutputProps.thy ===== *)
theory OutputProps
  imports Output ErrorQueue
begin

text \<open>
  What a command writes through the firmware's interface: the results one after the other, joined
  by commas, and nothing else of the library changes; and what is written can be read again.
\<close>

section \<open>The text on the standard output\<close>

definition emits :: "out_event list \<Rightarrow> 'r device_scheme scpi_t \<Rightarrow> 'r device_scheme scpi_t" where
  "emits es ctx = ctx\<lparr>user_context :=
     (user_context ctx)\<lparr>dev_stdout := dev_stdout (user_context ctx) @ es\<rparr>\<rparr>"

fun fwritten :: "out_event list \<Rightarrow> char list" where
  "fwritten [] = []"
| "fwritten (Fwrite data # es) = data @ fwritten es"
| "fwritten (Printf fmt args # es) = fwritten es"

definition out_text_of :: "'r device_scheme scpi_t \<Rightarrow> char list" where
  "out_text_of ctx = fwritten (dev_stdout (user_context ctx))"

lemma fwritten_append [simp]: "fwritten (a @ b) = fwritten a @ fwritten b"
  by (induction a rule: fwritten.induct) simp_all

lemma emits_simps [simp]:
  "emits [] ctx = ctx" "emits b (emits a ctx) = emits (a @ b) ctx"
  "output_count (emits es ctx) = output_count ctx"
  "dev_stdout (user_context (emits es ctx)) = dev_stdout (user_context ctx) @ es"
  "count_output (emits es ctx) = emits es (count_output ctx)"
  by (simp_all add: emits_def count_output_def)

lemma out_text_emits [simp]: "out_text_of (emits es ctx) = out_text_of ctx @ fwritten es"
  by (simp add: out_text_of_def)

lemma writeData_fw: "writeData scpi_ifc ctx data = Some (length data, emits [Fwrite data] ctx)"
  by (simp add: writeData_def scpi_ifc_def SCPI_Write_def emit_def emits_def)

definition delimiter :: "'u scpi_t \<Rightarrow> char list" where
  "delimiter ctx = (if 0 < output_count ctx then '','' else [])"

text \<open>A result function that writes a text \<open>t\<close>.\<close>

definition writes_result ::
  "('r device_scheme scpi_t \<Rightarrow> (nat \<times> 'r device_scheme scpi_t) option) \<Rightarrow> char list \<Rightarrow> bool" where
  "writes_result f t \<longleftrightarrow>
     (\<forall>ctx. \<exists>es. f ctx = Some (length (delimiter ctx @ t), emits es (count_output ctx)) \<and>
        fwritten es = delimiter ctx @ t)"

lemma writeDelimiter_fw:
  "writeDelimiter scpi_ifc ctx =
     Some (length (delimiter ctx), emits (if 0 < output_count ctx then [Fwrite '',''] else []) ctx)"
  by (simp add: writeDelimiter_def writeData_fw delimiter_def)

lemma delimiter_events: "fwritten (if 0 < output_count ctx then [Fwrite '',''] else []) = delimiter ctx"
  by (simp add: delimiter_def)

lemma characters_writes: "writes_result (\<lambda>ctx. SCPI_ResultCharacters scpi_ifc ctx data) data"
  unfolding writes_result_def
proof
  fix ctx :: "'a device_scheme scpi_t"
  show "\<exists>es. SCPI_ResultCharacters scpi_ifc ctx data =
      Some (length (delimiter ctx @ data), emits es (count_output ctx)) \<and> fwritten es = delimiter ctx @ data"
    by (intro exI [of _ "(if 0 < output_count ctx then [Fwrite '',''] else []) @ [Fwrite data]"])
      (simp add: SCPI_ResultCharacters_def writeDelimiter_fw writeData_fw delimiter_def)
qed

definition base_prefix :: "int \<Rightarrow> char list" where
  "base_prefix base = (case getBasePrefix base of Some p \<Rightarrow> p | None \<Rightarrow> [])"

lemma numeral_writes:
  "writes_result (\<lambda>ctx. resultNumeral scpi_ifc ctx base (len, buffer)) (base_prefix base @ take len buffer)"
  unfolding writes_result_def
proof
  fix ctx :: "'a device_scheme scpi_t"
  let ?es = "(if 0 < output_count ctx then [Fwrite '',''] else []) @
    (case getBasePrefix base of Some p \<Rightarrow> [Fwrite p] | None \<Rightarrow> []) @ [Fwrite (take len buffer)]"
  show "\<exists>es. resultNumeral scpi_ifc ctx base (len, buffer) =
      Some (length (delimiter ctx @ base_prefix base @ take len buffer), emits es (count_output ctx)) \<and>
      fwritten es = delimiter ctx @ base_prefix base @ take len buffer"
    by (intro exI [of _ ?es])
      (simp add: resultNumeral_def writeDelimiter_fw writeData_fw delimiter_def base_prefix_def
        split: option.split)
qed

text \<open>A numeral always fits into the array it is printed into.\<close>

lemma out_text_length:
  fixes val32 :: u32 and val64 :: u64
  shows "length (out_text sign base (sint val32) (unat val32)) \<le> 32"
    "length (out_text sign base (sint val64) (unat val64)) \<le> 64"
proof -
  have b: "2 \<le> out_base base" by (auto simp: out_base_def)
  have p: "(2::nat) ^ Suc k \<le> out_base base ^ Suc k" for k using b by (intro power_mono) simp_all
  have "unat val32 < 2 ^ Suc 31" "unat val64 < 2 ^ Suc 63"
    using unsigned_less [of val32, where ?'a = nat] unsigned_less [of val64, where ?'a = nat] by simp_all
  then have u: "length (num_text (out_base base) (unat val32)) \<le> Suc 31"
    "length (num_text (out_base base) (unat val64)) \<le> Suc 63"
    using p [of 31] p [of 63] by (intro num_text_length [OF b]; linarith)+
  have "- (2 ^ 31) \<le> sint val32" "- (2 ^ 63) \<le> sint val64"
    using sint_greater_eq [of val32] sint_greater_eq [of val64] by simp_all
  then have "nat (- sint val32) < 10 ^ Suc 9" "nat (- sint val64) < 10 ^ Suc 18" by simp_all
  then have "length (num_text 10 (nat (- sint val32))) \<le> Suc 9"
    "length (num_text 10 (nat (- sint val64))) \<le> Suc 18"
    by (intro num_text_length; simp)+
  then show "length (out_text sign base (sint val32) (unat val32)) \<le> 32"
    "length (out_text sign base (sint val64) (unat val64)) \<le> 64"
    using u by (simp_all add: out_text_def)
qed

lemma uint32_writes:
  "writes_result (\<lambda>ctx. resultUInt32BaseSign scpi_ifc ctx val base sign)
     (base_prefix base @ out_text sign base (sint val) (unat val))"
proof -
  let ?t = "out_text sign base (sint val) (unat val)" and ?buf = "replicate 33 NUL"
  obtain len buffer where w: "written 33 ?t ?buf = (len, buffer)" by (cases "written 33 ?t ?buf")
  have "take len buffer = ?t"
    using take_written [of 33 ?buf ?t] out_text_length(1) [of sign base val] by (simp add: w)
  then show ?thesis
    using numeral_writes [of base len buffer]
    by (simp add: resultUInt32BaseSign_def UInt32ToStr_text w)
qed

lemma uint64_writes:
  "writes_result (\<lambda>ctx. resultUInt64BaseSign scpi_ifc ctx val base sign)
     (base_prefix base @ out_text sign base (sint val) (unat val))"
proof -
  let ?t = "out_text sign base (sint val) (unat val)" and ?buf = "replicate 65 NUL"
  obtain len buffer where w: "written 65 ?t ?buf = (len, buffer)" by (cases "written 65 ?t ?buf")
  have "take len buffer = ?t"
    using take_written [of 65 ?buf ?t] out_text_length(2) [of sign base val] by (simp add: w)
  then show ?thesis
    using numeral_writes [of base len buffer]
    by (simp add: resultUInt64BaseSign_def UInt64ToStr_text w)
qed

lemma text_writes:
  "writes_result (\<lambda>ctx. SCPI_ResultText scpi_ifc ctx data) (CHR 0x22 # data @ [CHR 0x22])"
  unfolding writes_result_def
proof
  fix ctx :: "'a device_scheme scpi_t"
  let ?es = "(if 0 < output_count ctx then [Fwrite '',''] else []) @
    [Fwrite [CHR 0x22], Fwrite data, Fwrite [CHR 0x22]]"
  show "\<exists>es. SCPI_ResultText scpi_ifc ctx data =
      Some (length (delimiter ctx @ CHR 0x22 # data @ [CHR 0x22]), emits es (count_output ctx)) \<and>
      fwritten es = delimiter ctx @ CHR 0x22 # data @ [CHR 0x22]"
    by (intro exI [of _ ?es]) (simp add: SCPI_ResultText_def writeDelimiter_fw writeData_fw delimiter_def)
qed

section \<open>A sequence of results\<close>

datatype result_item =
    R_characters "char list" | R_int32 int | R_uint32 u32 int | R_int64 int | R_uint64 u64 int
  | R_text "char list" | R_bool bool

fun put_result ::
  "'u scpi_interface \<Rightarrow> result_item \<Rightarrow> 'u scpi_t \<Rightarrow> (nat \<times> 'u scpi_t) option" where
  "put_result ifc (R_characters data) ctx = SCPI_ResultCharacters ifc ctx data"
| "put_result ifc (R_int32 v) ctx = SCPI_ResultInt32 ifc ctx v"
| "put_result ifc (R_uint32 v base) ctx = SCPI_ResultUInt32Base ifc ctx v base"
| "put_result ifc (R_int64 v) ctx = SCPI_ResultInt64 ifc ctx v"
| "put_result ifc (R_uint64 v base) ctx = SCPI_ResultUInt64Base ifc ctx v base"
| "put_result ifc (R_text data) ctx = SCPI_ResultText ifc ctx data"
| "put_result ifc (R_bool b) ctx = SCPI_ResultBool ifc ctx b"

fun put_results ::
  "'u scpi_interface \<Rightarrow> result_item list \<Rightarrow> 'u scpi_t \<Rightarrow> (nat \<times> 'u scpi_t) option" where
  "put_results ifc [] ctx = Some (0, ctx)"
| "put_results ifc (r # rs) ctx = do {
     (n, ctx) \<leftarrow> put_result ifc r ctx;
     (k, ctx) \<leftarrow> put_results ifc rs ctx;
     Some (n + k, ctx)
   }"

definition int_text :: "int \<Rightarrow> char list" where
  "int_text v = (if v < 0 then ''-'' else []) @ num_text 10 (nat \<bar>v\<bar>)"

fun item_ok :: "result_item \<Rightarrow> bool" where
  "item_ok (R_int32 v) = (- (2 ^ 31) \<le> v \<and> v < 2 ^ 31)"
| "item_ok (R_int64 v) = (- (2 ^ 63) \<le> v \<and> v < 2 ^ 63)"
| "item_ok _ = True"

fun item_text :: "result_item \<Rightarrow> char list" where
  "item_text (R_characters data) = data"
| "item_text (R_int32 v) = int_text v"
| "item_text (R_uint32 v base) = base_prefix base @ num_text (out_base base) (unat v)"
| "item_text (R_int64 v) = int_text v"
| "item_text (R_uint64 v base) = base_prefix base @ num_text (out_base base) (unat v)"
| "item_text (R_text data) = CHR 0x22 # data @ [CHR 0x22]"
| "item_text (R_bool b) = (if b then ''1'' else ''0'')"

lemma base_prefix_10: "base_prefix 10 = []"
  by (simp add: base_prefix_def getBasePrefix_def)

lemma signed_out_text:
  "- (2 ^ 31) \<le> v \<Longrightarrow> v < 2 ^ 31 \<Longrightarrow>
     out_text True 10 (sint (word_of_int v :: u32)) (unat (word_of_int v :: u32)) = int_text v"
  "- (2 ^ 63) \<le> v \<Longrightarrow> v < 2 ^ 63 \<Longrightarrow>
     out_text True 10 (sint (word_of_int v :: u64)) (unat (word_of_int v :: u64)) = int_text v"
  unfolding int_text_def
  by (rule signed_text; simp add: sint_of_int unat_of_int32 unat_of_int64)+

lemma result_writes: "item_ok r \<Longrightarrow> writes_result (put_result scpi_ifc r) (item_text r)"
proof (cases r)
  case (R_bool b)
  have o: "out_text False 10 (sint (if b then 1 else 0 :: u32)) (unat (if b then 1 else 0 :: u32)) =
      (if b then ''1'' else ''0'')"
    by (simp add: out_text_def out_base_def num_text_0 num_text.simps [of 10 "Suc 0"] dchar_def
        digit_chars_def)
  show ?thesis
    unfolding R_bool item_text.simps put_result.simps [abs_def] SCPI_ResultBool_def
    using uint32_writes [of "if b then 1 else 0" 10 False]
    unfolding o base_prefix_10 append_Nil .
next
  case (R_characters data)
  then show ?thesis by (simp add: put_result.simps [abs_def] characters_writes)
next
  case (R_int32 v)
  assume "item_ok r"
  then show ?thesis
    using uint32_writes [of "word_of_int v" 10 True] R_int32
    by (simp add: put_result.simps [abs_def] SCPI_ResultInt32_def signed_out_text base_prefix_10)
next
  case (R_uint32 v base)
  then show ?thesis
    using uint32_writes [of v base False]
    by (simp add: put_result.simps [abs_def] SCPI_ResultUInt32Base_def out_text_def)
next
  case (R_int64 v)
  assume "item_ok r"
  then show ?thesis
    using uint64_writes [of "word_of_int v" 10 True] R_int64
    by (simp add: put_result.simps [abs_def] SCPI_ResultInt64_def signed_out_text base_prefix_10)
next
  case (R_uint64 v base)
  then show ?thesis
    using uint64_writes [of v base False]
    by (simp add: put_result.simps [abs_def] SCPI_ResultUInt64Base_def out_text_def)
next
  case (R_text data)
  then show ?thesis by (simp add: put_result.simps [abs_def] text_writes)
qed

fun joined :: "bool \<Rightarrow> char list list \<Rightarrow> char list" where
  "joined later [] = []"
| "joined later (t # ts) = (if later then '','' else []) @ t @ joined True ts"

lemma count_output_simps [simp]:
  "out_text_of (count_output ctx) = out_text_of ctx"
  "output_count ctx + 1 < 32768 \<Longrightarrow> 0 \<le> output_count ctx \<Longrightarrow> output_count (count_output ctx) = output_count ctx + 1"
  by (simp_all add: count_output_def out_text_of_def)

text \<open>Everything but the count and the device's output is as before.\<close>

definition only_output :: "'r device_scheme scpi_t \<Rightarrow> 'r device_scheme scpi_t \<Rightarrow> bool" where
  "only_output c d \<longleftrightarrow> (\<exists>es n. d = emits es c\<lparr>output_count := n\<rparr>)"

lemma only_output_emits: "only_output c (emits es (count_output c))"
  unfolding only_output_def
  by (intro exI [of _ es] exI [of _ "int16 (output_count c + 1)"]) (simp add: emits_def count_output_def)

lemma only_output_trans: "only_output a b \<Longrightarrow> only_output b c \<Longrightarrow> only_output a c"
proof -
  assume "only_output a b" "only_output b c"
  then obtain es n fs k where "b = emits es a\<lparr>output_count := n\<rparr>" "c = emits fs b\<lparr>output_count := k\<rparr>"
    by (auto simp: only_output_def)
  then have "c = emits (es @ fs) a\<lparr>output_count := k\<rparr>" by (simp add: emits_def)
  then show ?thesis by (auto simp: only_output_def)
qed

lemma put_results_joined:
  "\<forall>r\<in>set rs. item_ok r \<Longrightarrow> 0 \<le> output_count ctx \<Longrightarrow> output_count ctx + int (length rs) < 32768 \<Longrightarrow>
     \<exists>ctx'. put_results scpi_ifc rs ctx = Some (length (joined (0 < output_count ctx) (map item_text rs)), ctx') \<and>
       out_text_of ctx' = out_text_of ctx @ joined (0 < output_count ctx) (map item_text rs) \<and>
       output_count ctx' = output_count ctx + int (length rs) \<and> only_output ctx ctx'"
proof (induction rs arbitrary: ctx)
  case Nil
  have "only_output ctx ctx"
    unfolding only_output_def
    by (intro exI [of _ "[]"] exI [of _ "output_count ctx"]) (simp add: emits_def)
  then show ?case by simp
next
  case (Cons r rs)
  obtain es where es: "put_result scpi_ifc r ctx =
      Some (length (delimiter ctx @ item_text r), emits es (count_output ctx))"
    "fwritten es = delimiter ctx @ item_text r"
    using result_writes [of r] Cons.prems(1) by (auto simp: writes_result_def)
  let ?ctx = "emits es (count_output ctx)"
  have oc: "output_count ?ctx = output_count ctx + 1" using Cons.prems by simp
  then obtain ctx' where "put_results scpi_ifc rs ?ctx = Some (length (joined True (map item_text rs)), ctx')"
    "out_text_of ctx' = out_text_of ?ctx @ joined True (map item_text rs)"
    "output_count ctx' = output_count ctx + 1 + int (length rs)" "only_output ?ctx ctx'"
    using Cons.IH [of ?ctx] Cons.prems by auto
  then show ?case
    using es only_output_trans [OF only_output_emits] by (auto simp: delimiter_def)
qed

text \<open>The results of a command are written one after the other, joined by commas.  For any
  sequence of results, numbers within their range, the text on the output is the texts of the
  results with a comma between two, and before the first if the command has written one already;
  the lengths returned add up to the text, the results are counted, and nothing else in the library's
  state changes.\<close>

theorem results_joined:
  assumes "\<forall>r\<in>set rs. item_ok r" "0 \<le> output_count ctx" "output_count ctx + int (length rs) < 32768"
  shows "\<exists>ctx'. put_results scpi_ifc rs ctx = Some (length (joined (0 < output_count ctx) (map item_text rs)), ctx') \<and>
       out_text_of ctx' = out_text_of ctx @ joined (0 < output_count ctx) (map item_text rs) \<and>
       output_count ctx' = output_count ctx + int (length rs) \<and> only_output ctx ctx'"
  by (rule put_results_joined [OF assms])

lemma results_joined_witness:
  "\<exists>ctx'. put_results scpi_ifc [R_text ''V'', R_bool True, R_int32 0] started = Some (7, ctx') \<and>
     out_text_of ctx' = [CHR 0x22, CHR ''V'', CHR 0x22] @ '',1,0''"
proof -
  have s: "output_count started = 0" "out_text_of started = []"
    by (simp_all add: started_def SCPI_ErrorInit_def scpi_context_def out_text_of_def)
  show ?thesis
    using results_joined [of "[R_text ''V'', R_bool True, R_int32 0]" started]
    by (auto simp: s int_text_def num_text_0)
qed

section \<open>Results read back\<close>

fun item_arg :: "result_item \<Rightarrow> arg option" where
  "item_arg (R_int32 v) = Some (Arg_int (v < 0) (nat \<bar>v\<bar>))"
| "item_arg (R_uint32 v base) = (if base = 10 then Some (Arg_int False (unat v)) else None)"
| "item_arg (R_int64 v) = Some (Arg_int (v < 0) (nat \<bar>v\<bar>))"
| "item_arg (R_uint64 v base) = (if base = 10 then Some (Arg_int False (unat v)) else None)"
| "item_arg (R_text data) =
     (if CHR 0x22 \<notin> set data \<and> (\<forall>c\<in>set data. isascii7bit c) then Some (Arg_string (CHR 0x22) data) else None)"
| "item_arg (R_bool b) = Some (Arg_int False (if b then 1 else 0))"
| "item_arg (R_characters data) = (if is_mnemonic data then Some (Arg_name data) else None)"

lemma quote_text_plain: "q \<notin> set body \<Longrightarrow> quote_text q body = q # body @ [q]"
proof -
  assume "q \<notin> set body"
  then have "concat (map (\<lambda>c. if c = q then [q, q] else [c]) body) = body" by (induction body) auto
  then show ?thesis by (simp add: quote_text_def)
qed

lemma item_arg_text: "item_arg r = Some a \<Longrightarrow> item_text r = arg_text a \<and> arg_ok a"
  by (cases r) (auto simp: int_text_def base_prefix_10 out_base_def quote_text_plain is_quote_def
      num_text_0 num_text.simps [of 10 "Suc 0"] dchar_def digit_chars_def split: if_splits)

lemma joined_args: "map item_arg rs = map Some as \<Longrightarrow> joined False (map item_text rs) = args_text as"
proof (induction as arbitrary: rs rule: args_text.induct)
  case (3 a b as)
  then obtain r s rs' where rs: "rs = r # s # rs'" by (auto simp: map_eq_Cons_conv)
  have "joined False (map item_text (s # rs')) = args_text (b # as)"
    by (rule 3(1)) (use 3(2) rs in auto)
  then show ?case using 3(2) item_arg_text by (auto simp: rs)
qed (auto simp: map_eq_Cons_conv item_arg_text)

text \<open>The text of a response is a list of parameters.  The results of a command, integers in base 10,
  booleans, names and texts without a quotation mark, are read by
  \<^verbatim>\<open>scpiParser_parseAllProgramData\<close> from any place in memory as one list that spans
  exactly the response and has as many parameters as there were results.\<close>

theorem response_parses:
  assumes "map item_arg rs = map Some as" "rs \<noteq> []" "\<forall>r\<in>set rs. item_ok r"
    "output_count ctx = 0" "length rs < 32768"
    "put_results scpi_ifc rs ctx = Some (n, ctx')" "out_text_of ctx' = out_text_of ctx @ response"
    "m = pre @ response @ post" "s = \<lparr>lx_buffer = length pre, lx_pos = length pre, lx_len = int n\<rparr>"
  shows "scpiParser_parseAllProgramData m s tok =
    Some (int n, s\<lparr>lx_pos := length pre + n\<rparr>,
          \<lparr>tk_type = SCPI_TOKEN_ALL_PROGRAM_DATA, tk_ptr = Some (length pre), tk_len = int n\<rparr>,
          int (length rs))"
proof -
  have len: "length as = length rs" using arg_cong [OF assms(1), of length] by simp
  have ne: "as \<noteq> []" using assms(1,2) by auto
  have ok: "\<forall>a\<in>set as. arg_ok a"
  proof
    fix a assume "a \<in> set as"
    then have "Some a \<in> set (map item_arg rs)" by (simp add: assms(1))
    then show "arg_ok a" using item_arg_text by auto
  qed
  have t: "n = length (args_text as)" "response = args_text as"
    using put_results_joined [of rs ctx] assms(3-7) joined_args [OF assms(1)] by auto
  have "rest m s = args_text as"
    by (rule rest_block [of _ pre _ post]) (simp_all add: assms(8,9) t)
  moreover have "all_scan (args_text as) =
      Some (True, length (args_text as), length (args_text as), length as)"
    using all_scan_args [OF ne ok, of "[]"] by (simp add: unit_ends_def)
  ultimately show ?thesis
    by (simp add: parseAllProgramData_eq t data_token_def assms(9) len advance_def)
qed

lemma response_parses_witness:
  "\<exists>response n. scpiParser_parseAllProgramData (''x'' @ response @ ''y'')
      \<lparr>lx_buffer = 1, lx_pos = 1, lx_len = int n\<rparr> zero_token =
    Some (int n, \<lparr>lx_buffer = 1, lx_pos = 1 + n, lx_len = int n\<rparr>,
          \<lparr>tk_type = SCPI_TOKEN_ALL_PROGRAM_DATA, tk_ptr = Some 1, tk_len = int n\<rparr>, 2)"
proof -
  have s: "output_count started = 0"
    by (simp add: started_def SCPI_ErrorInit_def scpi_context_def)
  let ?rs = "[R_int32 (- 5), R_text ''V'']"
  have ok: "\<forall>r\<in>set ?rs. item_ok r" by simp
  obtain ctx' where p: "put_results scpi_ifc ?rs started = Some (length (joined False (map item_text ?rs)), ctx')"
    "out_text_of ctx' = out_text_of started @ joined False (map item_text ?rs)"
    using put_results_joined [OF ok, of started] s by auto
  have "map item_arg ?rs = map Some [Arg_int True 5, Arg_string (CHR 0x22) ''V'']"
    by (simp add: isascii7bit_def)
  from response_parses [OF this _ ok s _ p refl refl, of "''x''" "''y''" zero_token]
  show ?thesis
    by (intro exI [of _ "joined False (map item_text ?rs)"]
        exI [of _ "length (joined False (map item_text ?rs))"]) simp
qed

section \<open>Arbitrary blocks\<close>

lemma block_header:
  assumes "length data < 10 ^ 9"
  shows "\<exists>u. SCPI_UInt32ToStrBase (of_nat (length data)) (replicate 10 (CHR 0xFF)) 10 10 =
    Some (length (num_text 10 (length data)), num_text 10 (length data) @ NUL # u)"
proof -
  let ?t = "num_text 10 (length data)"
  have "unat (of_nat (length data) :: u32) = length data"
    using assms by (simp add: unat_of_nat take_bit_nat_eq_self)
  then have "out_text False 10 (sint (of_nat (length data) :: u32)) (unat (of_nat (length data) :: u32)) = ?t"
    by (simp add: out_text_def out_base_def)
  moreover have "length ?t \<le> 9" by (rule num_text_len9 [OF assms])
  ultimately show ?thesis
    by (simp add: SCPI_UInt32ToStrBase_def UInt32ToStr_text written_def Let_def min_def)
qed

lemma block_writes:
  assumes "length data < 10 ^ 9"
  shows "\<exists>es. SCPI_ResultArbitraryBlock scpi_ifc ctx data =
      Some (length (block_text data), emits es (count_output ctx)) \<and> fwritten es = block_text data"
proof -
  let ?t = "num_text 10 (length data)"
  obtain u where h: "SCPI_UInt32ToStrBase (of_nat (length data)) (replicate 10 (CHR 0xFF)) 10 10 =
    Some (length ?t, ?t @ NUL # u)" using block_header [OF assms] by blast
  have nn: "\<forall>c\<in>set ?t. c \<noteq> NUL" using num_text_digit(1) isdigit_NUL by metis
  then have len: "strlen_in (?t @ NUL # u) = Some (length ?t)"
    by (simp add: strlen_in_def takeWhile_append)
  have l9: "length ?t \<le> 9" by (rule num_text_len9 [OF assms])
  have "code (char_of (length ?t + code (CHR ''0''))) = code (dchar (length ?t))"
    using l9 dchar_code [of "length ?t"] by (subst code_char_of) simp_all
  then have c: "char_of (length ?t + code (CHR ''0'')) = dchar (length ?t)" by simp
  show ?thesis
    by (intro exI [of _ "[Fwrite (CHR ''#'' # dchar (length ?t) # ?t), Fwrite data]"])
      (simp add: SCPI_ResultArbitraryBlock_def h len writeData_fw c [simplified] block_text_def Let_def)
qed

text \<open>A block is read back as it was written, and comes without a delimiter.  A block of less
  than a thousand million bytes, of any contents, is written with its header and counted as a
  result; reading the text from any place in memory gives a block token that covers exactly the
  bytes.  Unlike the other results it is written without a comma before it, whatever the command
  has written already.\<close>

theorem block_roundtrip:
  assumes "length data < 10 ^ 9" "m = pre @ block_text data @ post"
    "s = \<lparr>lx_buffer = length pre, lx_pos = length pre, lx_len = int (length (block_text data))\<rparr>"
  shows "(\<exists>es. SCPI_ResultArbitraryBlock scpi_ifc ctx data =
            Some (length (block_text data), emits es (count_output ctx)) \<and> fwritten es = block_text data) \<and>
         (\<exists>s' p. scpiParser_parseProgramData m s tok =
            Some (int (length (block_text data)), s',
              \<lparr>tk_type = SCPI_TOKEN_ARBITRARY_BLOCK_PROGRAM_DATA, tk_ptr = Some p, tk_len = int (length data)\<rparr>) \<and>
            take (length data) (drop p m) = data)"
proof
  show "\<exists>es. SCPI_ResultArbitraryBlock scpi_ifc ctx data =
      Some (length (block_text data), emits es (count_output ctx)) \<and> fwritten es = block_text data"
    by (rule block_writes [OF assms(1)])
  have r: "rest m s = block_text data"
    by (rule rest_block [of _ pre _ post]) (simp_all add: assms(2,3))
  have "param_scan (block_text data) = Some (SCPI_TOKEN_ARBITRARY_BLOCK_PROGRAM_DATA,
      length (num_text 10 (length data)) + 2, length data, length (block_text data), length (block_text data))"
    using param_scan_arg [of "Arg_block data" "[]"] assms(1) by (simp add: arg_ends_def)
  then show "\<exists>s' p. scpiParser_parseProgramData m s tok =
      Some (int (length (block_text data)), s',
        \<lparr>tk_type = SCPI_TOKEN_ARBITRARY_BLOCK_PROGRAM_DATA, tk_ptr = Some p, tk_len = int (length data)\<rparr>) \<and>
      take (length data) (drop p m) = data"
    unfolding parseProgramData_eq r
    by (simp add: scan_token_def assms(2,3) block_text_def Let_def)
qed

lemma block_roundtrip_witness:
  "\<exists>s' p. scpiParser_parseProgramData (''x'' @ block_text ''a;b'' @ ''y'')
      \<lparr>lx_buffer = 1, lx_pos = 1, lx_len = int (length (block_text ''a;b''))\<rparr> zero_token =
     Some (int (length (block_text ''a;b'')), s',
       \<lparr>tk_type = SCPI_TOKEN_ARBITRARY_BLOCK_PROGRAM_DATA, tk_ptr = Some p, tk_len = 3\<rparr>) \<and>
     take 3 (drop p (''x'' @ block_text ''a;b'' @ ''y'')) = ''a;b''"
proof -
  let ?m = "''x'' @ block_text ''a;b'' @ ''y''"
  let ?s = "\<lparr>lx_buffer = 1, lx_pos = 1, lx_len = int (length (block_text ''a;b''))\<rparr>"
  have "length ''a;b'' < 10 ^ 9" "?s = \<lparr>lx_buffer = length ''x'', lx_pos = length ''x'',
      lx_len = int (length (block_text ''a;b''))\<rparr>" "length ''a;b'' = 3" by simp_all
  from block_roundtrip [where ctx = started and tok = zero_token and post = "''y''",
      OF this(1) refl this(2), THEN conjunct2, unfolded this(3) of_nat_numeral]
  show ?thesis .
qed

end
