(* ===== verification/Params.thy ===== *)
theory Params
  imports ProgramDataProps ErrorQueue Match
begin

text \<open>
  Reading the parameters of a command: \<^verbatim>\<open>parser.c\<close>, lines 535 to 724 and 854 to 1192.  The lexer
  state in \<open>param_list\<close> moves through the parameters; the text is the context's buffer.

  The functions return whether they succeeded, what they stored through the caller's pointer, and
  the context; \<open>value\<close> (\<open>options\<close>, \<open>buffer\<close>) says whether the caller's pointer is not NULL.  Parameters
  of type \<^verbatim>\<open>float\<close> and \<^verbatim>\<open>double\<close> are converted by the C library and are not modelled.
\<close>

section \<open>One parameter\<close>

text \<open>The token types that are returned to the caller.\<close>

definition parameter_types :: "scpi_token_type set" where
  "parameter_types =
     {SCPI_TOKEN_HEXNUM, SCPI_TOKEN_OCTNUM, SCPI_TOKEN_BINNUM, SCPI_TOKEN_PROGRAM_MNEMONIC,
      SCPI_TOKEN_DECIMAL_NUMERIC_PROGRAM_DATA, SCPI_TOKEN_DECIMAL_NUMERIC_PROGRAM_DATA_WITH_SUFFIX,
      SCPI_TOKEN_ARBITRARY_BLOCK_PROGRAM_DATA, SCPI_TOKEN_SINGLE_QUOTE_PROGRAM_DATA,
      SCPI_TOKEN_DOUBLE_QUOTE_PROGRAM_DATA, SCPI_TOKEN_PROGRAM_EXPRESSION}"

definition put_lex :: "lex_state \<Rightarrow> 'u scpi_t \<Rightarrow> 'u scpi_t" where
  "put_lex s ctx = ctx\<lparr>param_list := (param_list ctx)\<lparr>pl_lex := s\<rparr>\<rparr>"

definition SCPI_Parameter ::
  "'u scpi_interface \<Rightarrow> 'u scpi_t \<Rightarrow> scpi_token option \<Rightarrow> bool \<Rightarrow> (bool \<times> scpi_token \<times> 'u scpi_t) option" where
  "SCPI_Parameter ifc ctx parameter mandatory =
     (case parameter of
        None \<Rightarrow> Some (False, zero_token, SCPI_ErrorPush ifc ctx SCPI_ERROR_SYSTEM_ERROR)
      | Some parameter \<Rightarrow>
          let parameter = invalidateToken parameter None;
              m = buf_data ctx;
              state = pl_lex (param_list ctx)
          in if int (lx_buffer state) + lx_len state \<le> int (lx_pos state) then
               if mandatory
               then Some (False, parameter, SCPI_ErrorPush ifc ctx SCPI_ERROR_MISSING_PARAMETER)
               else Some (False, parameter\<lparr>tk_type := SCPI_TOKEN_PROGRAM_MNEMONIC\<rparr>, ctx)
             else
               let (r, state, parameter) =
                     (if input_count ctx \<noteq> 0 then scpiLex_Comma m state parameter
                      else (1, state, parameter));
                   separator = (input_count ctx \<noteq> 0 \<longrightarrow> tk_type parameter = SCPI_TOKEN_COMMA);
                   ctx = put_lex state ctx
               in if \<not> separator then
                    Some (False, invalidateToken parameter None,
                          SCPI_ErrorPush ifc ctx SCPI_ERROR_INVALID_SEPARATOR)
                  else do {
                    let ctx = ctx\<lparr>input_count := int16 (input_count ctx + 1)\<rparr>;
                    (r, state, parameter) \<leftarrow> scpiParser_parseProgramData m state parameter;
                    let ctx = put_lex state ctx;
                    if tk_type parameter \<in> parameter_types then Some (True, parameter, ctx)
                    else Some (False, invalidateToken parameter None,
                               SCPI_ErrorPush ifc ctx SCPI_ERROR_INVALID_STRING_DATA)
                  })"

section \<open>Integers\<close>

fun SCPI_ParamIsNumber :: "scpi_token \<Rightarrow> bool \<Rightarrow> bool" where
  "SCPI_ParamIsNumber parameter suffixAllowed =
     (case tk_type parameter of
        SCPI_TOKEN_HEXNUM \<Rightarrow> True
      | SCPI_TOKEN_OCTNUM \<Rightarrow> True
      | SCPI_TOKEN_BINNUM \<Rightarrow> True
      | SCPI_TOKEN_DECIMAL_NUMERIC_PROGRAM_DATA \<Rightarrow> True
      | SCPI_TOKEN_DECIMAL_NUMERIC_PROGRAM_DATA_WITH_SUFFIX \<Rightarrow> suffixAllowed
      | _ \<Rightarrow> False)"

text \<open>The text a token points at, on to the end of the buffer.\<close>

definition token_ptr :: "'u scpi_t \<Rightarrow> scpi_token \<Rightarrow> char list" where
  "token_ptr ctx tok = drop (addr (tk_ptr tok)) (buf_data ctx)"

definition read_number :: "nat \<times> int \<Rightarrow> bool \<times> int option" where
  "read_number = (\<lambda>(used, v). (0 < used, Some v))"

text \<open>An unsigned number is stored through the caller's pointer; with \<open>sign\<close> the caller has cast a pointer to
  a signed integer, and reads the bits as such.\<close>

definition stored32 :: "bool \<Rightarrow> nat \<times> int \<Rightarrow> nat \<times> int" where
  "stored32 sign = (\<lambda>(used, v). (used, if sign then sint (word_of_int v :: u32) else v))"

definition stored64 :: "bool \<Rightarrow> nat \<times> int \<Rightarrow> nat \<times> int" where
  "stored64 sign = (\<lambda>(used, v). (used, if sign then sint (word_of_int v :: u64) else v))"

definition ParamSignToUInt32 ::
  "'u scpi_interface \<Rightarrow> 'u scpi_t \<Rightarrow> scpi_token \<Rightarrow> bool \<Rightarrow> bool \<Rightarrow> bool \<times> int option \<times> 'u scpi_t" where
  "ParamSignToUInt32 ifc ctx parameter value sign =
     (if \<not> value then (False, None, SCPI_ErrorPush ifc ctx SCPI_ERROR_SYSTEM_ERROR)
      else
        let ptr = token_ptr ctx parameter;
            (result, v) =
              (case tk_type parameter of
                 SCPI_TOKEN_HEXNUM \<Rightarrow> read_number (stored32 sign (strBaseToUInt32 ptr 16))
               | SCPI_TOKEN_OCTNUM \<Rightarrow> read_number (stored32 sign (strBaseToUInt32 ptr 8))
               | SCPI_TOKEN_BINNUM \<Rightarrow> read_number (stored32 sign (strBaseToUInt32 ptr 2))
               | SCPI_TOKEN_DECIMAL_NUMERIC_PROGRAM_DATA \<Rightarrow>
                   read_number (if sign then strBaseToInt32 ptr 10 else strBaseToUInt32 ptr 10)
               | SCPI_TOKEN_DECIMAL_NUMERIC_PROGRAM_DATA_WITH_SUFFIX \<Rightarrow>
                   read_number (if sign then strBaseToInt32 ptr 10 else strBaseToUInt32 ptr 10)
               | _ \<Rightarrow> (False, None))
        in (result, v, ctx))"

definition ParamSignToUInt64 ::
  "'u scpi_interface \<Rightarrow> 'u scpi_t \<Rightarrow> scpi_token \<Rightarrow> bool \<Rightarrow> bool \<Rightarrow> bool \<times> int option \<times> 'u scpi_t" where
  "ParamSignToUInt64 ifc ctx parameter value sign =
     (if \<not> value then (False, None, SCPI_ErrorPush ifc ctx SCPI_ERROR_SYSTEM_ERROR)
      else
        let ptr = token_ptr ctx parameter;
            (result, v) =
              (case tk_type parameter of
                 SCPI_TOKEN_HEXNUM \<Rightarrow> read_number (stored64 sign (strBaseToUInt64 ptr 16))
               | SCPI_TOKEN_OCTNUM \<Rightarrow> read_number (stored64 sign (strBaseToUInt64 ptr 8))
               | SCPI_TOKEN_BINNUM \<Rightarrow> read_number (stored64 sign (strBaseToUInt64 ptr 2))
               | SCPI_TOKEN_DECIMAL_NUMERIC_PROGRAM_DATA \<Rightarrow>
                   read_number (if sign then strBaseToInt64 ptr 10 else strBaseToUInt64 ptr 10)
               | SCPI_TOKEN_DECIMAL_NUMERIC_PROGRAM_DATA_WITH_SUFFIX \<Rightarrow>
                   read_number (if sign then strBaseToInt64 ptr 10 else strBaseToUInt64 ptr 10)
               | _ \<Rightarrow> (False, None))
        in (result, v, ctx))"

definition SCPI_ParamToInt32 ::
  "'u scpi_interface \<Rightarrow> 'u scpi_t \<Rightarrow> scpi_token \<Rightarrow> bool \<Rightarrow> bool \<times> int option \<times> 'u scpi_t" where
  "SCPI_ParamToInt32 ifc ctx parameter value = ParamSignToUInt32 ifc ctx parameter value True"

definition SCPI_ParamToUInt32 ::
  "'u scpi_interface \<Rightarrow> 'u scpi_t \<Rightarrow> scpi_token \<Rightarrow> bool \<Rightarrow> bool \<times> int option \<times> 'u scpi_t" where
  "SCPI_ParamToUInt32 ifc ctx parameter value = ParamSignToUInt32 ifc ctx parameter value False"

definition SCPI_ParamToInt64 ::
  "'u scpi_interface \<Rightarrow> 'u scpi_t \<Rightarrow> scpi_token \<Rightarrow> bool \<Rightarrow> bool \<times> int option \<times> 'u scpi_t" where
  "SCPI_ParamToInt64 ifc ctx parameter value = ParamSignToUInt64 ifc ctx parameter value True"

definition SCPI_ParamToUInt64 ::
  "'u scpi_interface \<Rightarrow> 'u scpi_t \<Rightarrow> scpi_token \<Rightarrow> bool \<Rightarrow> bool \<times> int option \<times> 'u scpi_t" where
  "SCPI_ParamToUInt64 ifc ctx parameter value = ParamSignToUInt64 ifc ctx parameter value False"

definition ParamSignUInt32 ::
  "'u scpi_interface \<Rightarrow> 'u scpi_t \<Rightarrow> bool \<Rightarrow> bool \<Rightarrow> bool \<Rightarrow> (bool \<times> int option \<times> 'u scpi_t) option" where
  "ParamSignUInt32 ifc ctx value mandatory sign =
     (if \<not> value then Some (False, None, SCPI_ErrorPush ifc ctx SCPI_ERROR_SYSTEM_ERROR)
      else do {
        (result, param, ctx) \<leftarrow> SCPI_Parameter ifc ctx (Some zero_token) mandatory;
        if result then
          if SCPI_ParamIsNumber param False then Some (ParamSignToUInt32 ifc ctx param value sign)
          else if SCPI_ParamIsNumber param True then
            Some (False, None, SCPI_ErrorPush ifc ctx SCPI_ERROR_SUFFIX_NOT_ALLOWED)
          else Some (False, None, SCPI_ErrorPush ifc ctx SCPI_ERROR_DATA_TYPE_ERROR)
        else Some (result, None, ctx)
      })"

definition ParamSignUInt64 ::
  "'u scpi_interface \<Rightarrow> 'u scpi_t \<Rightarrow> bool \<Rightarrow> bool \<Rightarrow> bool \<Rightarrow> (bool \<times> int option \<times> 'u scpi_t) option" where
  "ParamSignUInt64 ifc ctx value mandatory sign =
     (if \<not> value then Some (False, None, SCPI_ErrorPush ifc ctx SCPI_ERROR_SYSTEM_ERROR)
      else do {
        (result, param, ctx) \<leftarrow> SCPI_Parameter ifc ctx (Some zero_token) mandatory;
        if result then
          if SCPI_ParamIsNumber param False then Some (ParamSignToUInt64 ifc ctx param value sign)
          else if SCPI_ParamIsNumber param True then
            Some (False, None, SCPI_ErrorPush ifc ctx SCPI_ERROR_SUFFIX_NOT_ALLOWED)
          else Some (False, None, SCPI_ErrorPush ifc ctx SCPI_ERROR_DATA_TYPE_ERROR)
        else Some (result, None, ctx)
      })"

definition SCPI_ParamInt32 ::
  "'u scpi_interface \<Rightarrow> 'u scpi_t \<Rightarrow> bool \<Rightarrow> bool \<Rightarrow> (bool \<times> int option \<times> 'u scpi_t) option" where
  "SCPI_ParamInt32 ifc ctx value mandatory = ParamSignUInt32 ifc ctx value mandatory True"

definition SCPI_ParamUInt32 ::
  "'u scpi_interface \<Rightarrow> 'u scpi_t \<Rightarrow> bool \<Rightarrow> bool \<Rightarrow> (bool \<times> int option \<times> 'u scpi_t) option" where
  "SCPI_ParamUInt32 ifc ctx value mandatory = ParamSignUInt32 ifc ctx value mandatory False"

definition SCPI_ParamInt64 ::
  "'u scpi_interface \<Rightarrow> 'u scpi_t \<Rightarrow> bool \<Rightarrow> bool \<Rightarrow> (bool \<times> int option \<times> 'u scpi_t) option" where
  "SCPI_ParamInt64 ifc ctx value mandatory = ParamSignUInt64 ifc ctx value mandatory True"

definition SCPI_ParamUInt64 ::
  "'u scpi_interface \<Rightarrow> 'u scpi_t \<Rightarrow> bool \<Rightarrow> bool \<Rightarrow> (bool \<times> int option \<times> 'u scpi_t) option" where
  "SCPI_ParamUInt64 ifc ctx value mandatory = ParamSignUInt64 ifc ctx value mandatory False"

section \<open>Texts and blocks\<close>

definition SCPI_ParamCharacters ::
  "'u scpi_interface \<Rightarrow> 'u scpi_t \<Rightarrow> bool \<Rightarrow> bool \<Rightarrow> (bool \<times> (nat option \<times> int) option \<times> 'u scpi_t) option" where
  "SCPI_ParamCharacters ifc ctx value mandatory =
     (if \<not> value then Some (False, None, SCPI_ErrorPush ifc ctx SCPI_ERROR_SYSTEM_ERROR)
      else do {
        (result, param, ctx) \<leftarrow> SCPI_Parameter ifc ctx (Some zero_token) mandatory;
        if result then
          (case tk_type param of
             SCPI_TOKEN_SINGLE_QUOTE_PROGRAM_DATA \<Rightarrow>
               Some (True, Some (map_option Suc (tk_ptr param), tk_len param - 2), ctx)
           | SCPI_TOKEN_DOUBLE_QUOTE_PROGRAM_DATA \<Rightarrow>
               Some (True, Some (map_option Suc (tk_ptr param), tk_len param - 2), ctx)
           | _ \<Rightarrow> Some (True, Some (tk_ptr param, tk_len param), ctx))
        else Some (result, None, ctx)
      })"

definition SCPI_ParamArbitraryBlock ::
  "'u scpi_interface \<Rightarrow> 'u scpi_t \<Rightarrow> bool \<Rightarrow> bool \<Rightarrow> (bool \<times> (nat option \<times> int) option \<times> 'u scpi_t) option" where
  "SCPI_ParamArbitraryBlock ifc ctx value mandatory =
     (if \<not> value then Some (False, None, SCPI_ErrorPush ifc ctx SCPI_ERROR_SYSTEM_ERROR)
      else do {
        (result, param, ctx) \<leftarrow> SCPI_Parameter ifc ctx (Some zero_token) mandatory;
        if result then
          if tk_type param = SCPI_TOKEN_ARBITRARY_BLOCK_PROGRAM_DATA
          then Some (True, Some (tk_ptr param, tk_len param), ctx)
          else Some (False, None, SCPI_ErrorPush ifc ctx SCPI_ERROR_DATA_TYPE_ERROR)
        else Some (result, None, ctx)
      })"

text \<open>The loop of \<^verbatim>\<open>SCPI_ParamCopyText\<close>; \<open>stop\<close> is \<^verbatim>\<open>param.len - 1\<close>.\<close>

function copyTextLoop ::
  "mem \<Rightarrow> nat \<Rightarrow> nat \<Rightarrow> char \<Rightarrow> nat \<Rightarrow> nat \<Rightarrow> nat \<Rightarrow> char list \<Rightarrow> nat \<times> char list" where
  "copyTextLoop m ptr stop quote buffer_len i_from i_to buffer =
     (if i_from < stop then
        if buffer_len \<le> i_from then (i_to, buffer)
        else
          let c = rd m (ptr + i_from);
              i_from' = (if c = quote then i_from + 1 else i_from)
          in copyTextLoop m ptr stop quote buffer_len (i_from' + 1) (i_to + 1) (buffer[i_to := c])
      else (i_to, buffer))"
  by auto
termination by (relation "measure (\<lambda>(m, ptr, stop, quote, n, i, j, b). stop - i)") auto

declare copyTextLoop.simps [simp del]

definition SCPI_ParamCopyText ::
  "'u scpi_interface \<Rightarrow> 'u scpi_t \<Rightarrow> char list option \<Rightarrow> nat \<Rightarrow> bool \<Rightarrow> bool \<Rightarrow>
     (bool \<times> char list \<times> nat option \<times> 'u scpi_t) option" where
  "SCPI_ParamCopyText ifc ctx buffer buffer_len copy_len mandatory =
     (case (buffer, copy_len) of
        (Some buffer, True) \<Rightarrow> do {
          (result, param, ctx) \<leftarrow> SCPI_Parameter ifc ctx (Some zero_token) mandatory;
          if result then
            if tk_type param = SCPI_TOKEN_SINGLE_QUOTE_PROGRAM_DATA \<or>
               tk_type param = SCPI_TOKEN_DOUBLE_QUOTE_PROGRAM_DATA then
              let quote = (if tk_type param = SCPI_TOKEN_SINGLE_QUOTE_PROGRAM_DATA
                           then CHR 0x27 else CHR 0x22);
                  (i_to, buffer) =
                    copyTextLoop (buf_data ctx) (addr (tk_ptr param)) (nat (tk_len param - 1)) quote
                      buffer_len 1 0 buffer
              in Some (True, if i_to < buffer_len then buffer[i_to := NUL] else buffer, Some i_to, ctx)
            else Some (False, buffer, None, SCPI_ErrorPush ifc ctx SCPI_ERROR_DATA_TYPE_ERROR)
          else Some (result, buffer, None, ctx)
        }
      | _ \<Rightarrow> Some (False, [], None, SCPI_ErrorPush ifc ctx SCPI_ERROR_SYSTEM_ERROR))"

section \<open>Choices\<close>

type_synonym scpi_choice_def = "char list \<times> int"

fun findChoice :: "scpi_choice_def list \<Rightarrow> char list \<Rightarrow> nat \<Rightarrow> int option" where
  "findChoice [] ptr len = None"
| "findChoice ((name, tag) # options) ptr len =
     (if fst (matchPattern name (length name) ptr len False) then Some tag
      else findChoice options ptr len)"

definition SCPI_ParamToChoice ::
  "'u scpi_interface \<Rightarrow> 'u scpi_t \<Rightarrow> scpi_token \<Rightarrow> scpi_choice_def list option \<Rightarrow> bool \<Rightarrow>
     bool \<times> int option \<times> 'u scpi_t" where
  "SCPI_ParamToChoice ifc ctx parameter options value =
     (case (options, value) of
        (Some options, True) \<Rightarrow>
          if tk_type parameter = SCPI_TOKEN_PROGRAM_MNEMONIC then
            (case findChoice options (token_ptr ctx parameter) (nat (tk_len parameter)) of
               Some tag \<Rightarrow> (True, Some tag, ctx)
             | None \<Rightarrow> (False, None, SCPI_ErrorPush ifc ctx SCPI_ERROR_ILLEGAL_PARAMETER_VALUE))
          else (False, None, SCPI_ErrorPush ifc ctx SCPI_ERROR_DATA_TYPE_ERROR)
      | _ \<Rightarrow> (False, None, SCPI_ErrorPush ifc ctx SCPI_ERROR_SYSTEM_ERROR))"

fun SCPI_ChoiceToName :: "scpi_choice_def list \<Rightarrow> int \<Rightarrow> char list option" where
  "SCPI_ChoiceToName [] tag = None"
| "SCPI_ChoiceToName ((name, tg) # options) tag =
     (if tg = tag then Some name else SCPI_ChoiceToName options tag)"

definition bool_options :: "scpi_choice_def list" where
  "bool_options = [(''OFF'', 0), (''ON'', 1)]"

definition SCPI_ParamBool ::
  "'u scpi_interface \<Rightarrow> 'u scpi_t \<Rightarrow> bool \<Rightarrow> bool \<Rightarrow> (bool \<times> bool option \<times> 'u scpi_t) option" where
  "SCPI_ParamBool ifc ctx value mandatory =
     (if \<not> value then Some (False, None, SCPI_ErrorPush ifc ctx SCPI_ERROR_SYSTEM_ERROR)
      else do {
        (result, param, ctx) \<leftarrow> SCPI_Parameter ifc ctx (Some zero_token) mandatory;
        if result then
          if tk_type param = SCPI_TOKEN_DECIMAL_NUMERIC_PROGRAM_DATA then
            let (_, intval, ctx) = SCPI_ParamToInt32 ifc ctx param True
            in Some (True, map_option (\<lambda>v. v \<noteq> 0) intval, ctx)
          else
            let (result, intval, ctx) = SCPI_ParamToChoice ifc ctx param (Some bool_options) True
            in Some (result, if result then map_option (\<lambda>v. v \<noteq> 0) intval else None, ctx)
        else Some (result, None, ctx)
      })"

definition SCPI_ParamChoice ::
  "'u scpi_interface \<Rightarrow> 'u scpi_t \<Rightarrow> scpi_choice_def list option \<Rightarrow> bool \<Rightarrow> bool \<Rightarrow>
     (bool \<times> int option \<times> 'u scpi_t) option" where
  "SCPI_ParamChoice ifc ctx options value mandatory =
     (if options = None \<or> \<not> value
      then Some (False, None, SCPI_ErrorPush ifc ctx SCPI_ERROR_SYSTEM_ERROR)
      else do {
        (result, param, ctx) \<leftarrow> SCPI_Parameter ifc ctx (Some zero_token) mandatory;
        if result then Some (SCPI_ParamToChoice ifc ctx param options value)
        else Some (result, None, ctx)
      })"

definition SCPI_ParamIsValid :: "scpi_token \<Rightarrow> bool" where
  "SCPI_ParamIsValid parameter = (if tk_type parameter = SCPI_TOKEN_UNKNOWN then False else True)"

definition SCPI_ParamErrorOccurred :: "'u scpi_t \<Rightarrow> bool" where
  "SCPI_ParamErrorOccurred ctx = cmd_error ctx"

end
