(* ===== verification/Parser.thy ===== *)
theory Parser
  imports OutputProps Params MatchProps
begin

text \<open>
  The parser: \<^verbatim>\<open>parser.c\<close>, lines 117 to 314 and 1335 to 1374.  A line is cut into message units,
  every unit's header is completed with the path of the one before, looked up in the command list,
  and the callback found is run on the unit's parameters.

  The command list is an argument (its end is the entry with the NULL pattern in C).  The text that
  is parsed lies in the context's input buffer, which is where \<^verbatim>\<open>SCPI_Input\<close> puts it; the context
  pointer is not NULL.  A callback that does not return makes the caller return \<open>None\<close>.
\<close>

section \<open>One command\<close>

definition callCommand ::
  "'u scpi_interface \<Rightarrow> 'u scpi_command \<Rightarrow> 'u scpi_t \<Rightarrow> (bool \<times> 'u scpi_t) option" where
  "callCommand ifc cmd ctx =
     (case cmd_callback cmd of
        None \<Rightarrow> Some (True, ctx)
      | Some callback \<Rightarrow> do {
          (res, ctx) \<leftarrow> callback ctx;
          if res \<noteq> SCPI_RES_OK then
            Some (False, if \<not> cmd_error ctx then SCPI_ErrorPush ifc ctx SCPI_ERROR_EXECUTION_ERROR else ctx)
          else Some (\<not> cmd_error ctx, ctx)
        })"

definition current_command :: "'u scpi_command list \<Rightarrow> 'u scpi_t \<Rightarrow> 'u scpi_command option" where
  "current_command cmds ctx =
     (case pl_cmd (param_list ctx) of
        None \<Rightarrow> None
      | Some i \<Rightarrow> if i < length cmds then Some (cmds ! i) else None)"

definition processCommand ::
  "'u scpi_interface \<Rightarrow> 'u scpi_command list \<Rightarrow> 'u scpi_t \<Rightarrow> (bool \<times> 'u scpi_t) option" where
  "processCommand ifc cmds ctx = do {
     cmd \<leftarrow> current_command cmds ctx;
     (_, ctx) \<leftarrow> writeSemicolon ifc ctx;
     (result, ctx) \<leftarrow> callCommand ifc cmd (ctx\<lparr>cmd_error := False, output_count := 0, input_count := 0\<rparr>);
     let state = pl_lex (param_list ctx);
     if int (lx_pos state) < int (lx_buffer state) + lx_len state \<and> \<not> cmd_error ctx
     then Some (False, SCPI_ErrorPush ifc ctx SCPI_ERROR_PARAMETER_NOT_ALLOWED)
     else Some (result, ctx)
   }"

section \<open>Looking a header up\<close>

text \<open>The index of the first command whose pattern matches.\<close>

fun searchCommand :: "'u scpi_command list \<Rightarrow> char list \<Rightarrow> nat \<Rightarrow> nat \<Rightarrow> nat option option" where
  "searchCommand [] header len i = Some None"
| "searchCommand (cmd # cmds) header len i = do {
     (found, _) \<leftarrow> matchCommand (cmd_pattern cmd) header len None 0 0;
     if found then Some (Some i) else searchCommand cmds header len (Suc i)
   }"

definition findCommandHeader ::
  "'u scpi_command list \<Rightarrow> 'u scpi_t \<Rightarrow> char list \<Rightarrow> nat \<Rightarrow> (bool \<times> 'u scpi_t) option" where
  "findCommandHeader cmds ctx header len = do {
     r \<leftarrow> searchCommand cmds header len 0;
     case r of
       Some i \<Rightarrow> Some (True, ctx\<lparr>param_list := (param_list ctx)\<lparr>pl_cmd := Some i\<rparr>\<rparr>)
     | None \<Rightarrow> Some (False, ctx)
   }"

section \<open>One line\<close>

text \<open>\<open>param_list\<close> set up for the command that was found.\<close>

definition load_params :: "scpi_parser_state \<Rightarrow> 'u scpi_t \<Rightarrow> 'u scpi_t" where
  "load_params state ctx = ctx\<lparr>param_list := (param_list ctx)\<lparr>
     pl_lex := \<lparr>lx_buffer = addr (tk_ptr (programData state)), lx_pos = addr (tk_ptr (programData state)),
                lx_len = tk_len (programData state)\<rparr>,
     pl_raw_data := tk_ptr (programHeader state), pl_raw_position := 0,
     pl_raw_length := nat (tk_len (programHeader state))\<rparr>\<rparr>"

text \<open>The body of the loop of \<^verbatim>\<open>SCPI_Parse\<close> once the unit has been detected: the result (the old one
  and-ed with the unit's), the previous header and the context.\<close>

definition parseUnit ::
  "'u scpi_interface \<Rightarrow> 'u scpi_command list \<Rightarrow> 'u scpi_t \<Rightarrow> scpi_token \<Rightarrow> bool \<Rightarrow>
     (bool \<times> scpi_token \<times> 'u scpi_t) option" where
  "parseUnit ifc cmds ctx cmd_prev result =
     (let hdr = programHeader (parser_state ctx)
      in if tk_type hdr = SCPI_TOKEN_INVALID then
           Some (False, cmd_prev, SCPI_ErrorPush ifc ctx SCPI_ERROR_INVALID_CHARACTER)
         else if 0 < tk_len hdr then do {
           (_, hdr, m) \<leftarrow> composeCompoundCommand (buf_data ctx) cmd_prev hdr;
           let state = (parser_state ctx)\<lparr>programHeader := hdr\<rparr>;
           let ctx = ctx\<lparr>buf_data := m, parser_state := state\<rparr>;
           (found, ctx) \<leftarrow>
             findCommandHeader cmds ctx (drop (addr (tk_ptr hdr)) m) (nat (tk_len hdr));
           if found then do {
             (r, ctx) \<leftarrow> processCommand ifc cmds (load_params state ctx);
             Some (result \<and> r, programHeader (parser_state ctx), ctx)
           }
           else Some (False, cmd_prev, SCPI_ErrorPush ifc ctx SCPI_ERROR_UNDEFINED_HEADER)
         }
         else Some (result, cmd_prev, ctx))"

partial_function (option) parseLoop ::
  "'u scpi_interface \<Rightarrow> 'u scpi_command list \<Rightarrow> 'u scpi_t \<Rightarrow> nat \<Rightarrow> int \<Rightarrow> scpi_token \<Rightarrow> bool \<Rightarrow>
     (bool \<times> 'u scpi_t) option" where
  "parseLoop ifc cmds ctx data len cmd_prev result = do {
     (r, state) \<leftarrow> scpiParser_detectProgramMessageUnit (buf_data ctx) (parser_state ctx) data len;
     (result, cmd_prev, ctx) \<leftarrow> parseUnit ifc cmds (ctx\<lparr>parser_state := state\<rparr>) cmd_prev result;
     if r < len then parseLoop ifc cmds ctx (nat (int data + r)) (len - r) cmd_prev result
     else Some (result, ctx)
   }"

definition no_header :: scpi_token where
  "no_header = \<lparr>tk_type = SCPI_TOKEN_UNKNOWN, tk_ptr = None, tk_len = 0\<rparr>"

definition SCPI_Parse ::
  "'u scpi_interface \<Rightarrow> 'u scpi_command list \<Rightarrow> 'u scpi_t \<Rightarrow> nat \<Rightarrow> int \<Rightarrow> (bool \<times> 'u scpi_t) option" where
  "SCPI_Parse ifc cmds ctx data len = do {
     (result, ctx) \<leftarrow> parseLoop ifc cmds (ctx\<lparr>output_count := 0\<rparr>) data len no_header True;
     (_, ctx) \<leftarrow> writeNewLine ifc ctx;
     Some (result, ctx)
   }"

section \<open>The input buffer\<close>

definition SCPI_DEFAULT_1_MANUFACTURE :: "char list" where
  "SCPI_DEFAULT_1_MANUFACTURE = ''CTU FEE''"

definition SCPI_DEFAULT_2_MODEL :: "char list" where
  "SCPI_DEFAULT_2_MODEL = ''TSI3225''"

definition SCPI_DEFAULT_3 :: "char list" where
  "SCPI_DEFAULT_3 = ''0''"

definition SCPI_DEFAULT_4_REVISION :: "char list" where
  "SCPI_DEFAULT_4_REVISION = ''01-01''"

text \<open>\<^verbatim>\<open>if (context->idn[i] == NULL) context->idn[i] = deflt\<close>\<close>

definition default_idn :: "nat \<Rightarrow> char list \<Rightarrow> 'u scpi_t \<Rightarrow> 'u scpi_t" where
  "default_idn i deflt ctx =
     (if idn ctx ! i = None then ctx\<lparr>idn := (idn ctx)[i := Some deflt]\<rparr> else ctx)"

definition SCPI_Init :: "'u scpi_t \<Rightarrow> 'u scpi_t" where
  "SCPI_Init ctx =
     (let ctx = default_idn 0 SCPI_DEFAULT_1_MANUFACTURE ctx;
          ctx = default_idn 1 SCPI_DEFAULT_2_MODEL ctx;
          ctx = default_idn 2 SCPI_DEFAULT_3 ctx;
          ctx = default_idn 3 SCPI_DEFAULT_4_REVISION ctx
      in SCPI_ErrorInit (ctx\<lparr>buf_position := 0\<rparr>))"

text \<open>The loop of \<^verbatim>\<open>SCPI_Input\<close>.\<close>

partial_function (option) inputLoop ::
  "'u scpi_interface \<Rightarrow> 'u scpi_command list \<Rightarrow> 'u scpi_t \<Rightarrow> nat \<Rightarrow> bool \<Rightarrow> (bool \<times> 'u scpi_t) option" where
  "inputLoop ifc cmds ctx totcmdlen result = do {
     (cmdlen, state) \<leftarrow> scpiParser_detectProgramMessageUnit (buf_data ctx) (parser_state ctx) totcmdlen
                          (int (buf_position ctx) - int totcmdlen);
     let ctx = ctx\<lparr>parser_state := state\<rparr>;
     let totcmdlen = nat (int totcmdlen + cmdlen);
     if termination_kind state = SCPI_MESSAGE_TERMINATION_NL then do {
       (result, ctx) \<leftarrow> SCPI_Parse ifc cmds ctx 0 (int totcmdlen);
       let ctx = ctx\<lparr>buf_data := memmove (buf_data ctx) 0 totcmdlen (buf_position ctx - totcmdlen),
                     buf_position := buf_position ctx - totcmdlen\<rparr>;
       inputLoop ifc cmds ctx 0 result
     }
     else if tk_type (programHeader state) = SCPI_TOKEN_UNKNOWN then Some (result, ctx)
     else if buf_position ctx \<le> totcmdlen then Some (result, ctx)
     else inputLoop ifc cmds ctx totcmdlen result
   }"

text \<open>\<open>data\<close> is the \<open>len\<close> bytes handed over.\<close>

definition SCPI_Input ::
  "'u scpi_interface \<Rightarrow> 'u scpi_command list \<Rightarrow> 'u scpi_t \<Rightarrow> char list \<Rightarrow> (bool \<times> 'u scpi_t) option" where
  "SCPI_Input ifc cmds ctx data =
     (if data = [] then do {
        let ctx = ctx\<lparr>buf_data := (buf_data ctx)[buf_position ctx := NUL]\<rparr>;
        (result, ctx) \<leftarrow> SCPI_Parse ifc cmds ctx 0 (int (buf_position ctx));
        Some (result, ctx\<lparr>buf_position := 0\<rparr>)
      }
      else
        let len = int (length data);
            buffer_free = int (buf_length ctx) - int (buf_position ctx)
        in if buffer_free - 1 < len then
             let ctx = ctx\<lparr>buf_position := 0\<rparr>;
                 ctx = ctx\<lparr>buf_data := (buf_data ctx)[buf_position ctx := NUL]\<rparr>
             in Some (False, SCPI_ErrorPush ifc ctx SCPI_ERROR_INPUT_BUFFER_OVERRUN)
           else
             let p = buf_position ctx;
                 ctx = ctx\<lparr>buf_data := take p (buf_data ctx) @ data @ drop (p + length data) (buf_data ctx),
                           buf_position := p + length data\<rparr>;
                 ctx = ctx\<lparr>buf_data := (buf_data ctx)[buf_position ctx := NUL]\<rparr>
             in inputLoop ifc cmds ctx 0 True)"

section \<open>What a callback can ask\<close>

definition SCPI_IsCmd :: "'u scpi_command list \<Rightarrow> 'u scpi_t \<Rightarrow> char list \<Rightarrow> bool option" where
  "SCPI_IsCmd cmds ctx cmd =
     (case pl_cmd (param_list ctx) of
        None \<Rightarrow> Some False
      | Some i \<Rightarrow> do {
          c \<leftarrow> current_command cmds ctx;
          (r, _) \<leftarrow> matchCommand (cmd_pattern c) cmd (length cmd) None 0 0;
          Some r
        })"

definition SCPI_CmdTag :: "'u scpi_command list \<Rightarrow> 'u scpi_t \<Rightarrow> int" where
  "SCPI_CmdTag cmds ctx = (case current_command cmds ctx of Some c \<Rightarrow> cmd_tag c | None \<Rightarrow> 0)"

definition SCPI_Match :: "char list \<Rightarrow> char list \<Rightarrow> nat \<Rightarrow> bool option" where
  "SCPI_Match pattern value len = do {
     (r, _) \<leftarrow> matchCommand pattern value len None 0 0;
     Some r
   }"

text \<open>
  The result and the array of numbers.  A callback cannot be handed the list it is an entry of, so the
  patterns of the list are passed on their own.
\<close>

definition SCPI_CommandNumbers ::
  "char list list \<Rightarrow> 'u scpi_t \<Rightarrow> int list option \<Rightarrow> nat \<Rightarrow> int \<Rightarrow> (bool \<times> int list option) option" where
  "SCPI_CommandNumbers patterns ctx numbers len default_value = do {
     i \<leftarrow> pl_cmd (param_list ctx);
     pattern \<leftarrow> (if i < length patterns then Some (patterns ! i) else None);
     matchCommand pattern (drop (addr (pl_raw_data (param_list ctx))) (buf_data ctx))
       (pl_raw_length (param_list ctx)) numbers len default_value
   }"

end
