(* ===== verification/Commands.thy ===== *)
theory Commands
  imports Parser
begin

text \<open>
  The commands every SCPI device has: \<^verbatim>\<open>ieee488.c\<close>, lines 193 to 352, and \<^verbatim>\<open>minimal.c\<close>.  A command
  is a callback on the context; it returns \<open>None\<close> if it calls \<^verbatim>\<open>write\<close> through a NULL pointer or
  reads a parameter that does not end.
\<close>

section \<open>The commands of IEEE 488.2\<close>

definition SCPI_CoreCls :: "'u scpi_interface \<Rightarrow> 'u scpi_callback" where
  "SCPI_CoreCls ifc ctx =
     (let ctx = SCPI_EventClear ifc ctx;
          ctx = SCPI_ErrorClear ifc ctx;
          ctx = SCPI_RegSet ifc ctx SCPI_REG_OPER 0;
          ctx = SCPI_RegSet ifc ctx SCPI_REG_QUES 0
      in Some (SCPI_RES_OK, ctx))"

definition SCPI_CoreEse :: "'u scpi_interface \<Rightarrow> 'u scpi_callback" where
  "SCPI_CoreEse ifc ctx = do {
     (ok, v, ctx) \<leftarrow> SCPI_ParamInt32 ifc ctx True True;
     if ok then do {
       new_ESE \<leftarrow> v;
       Some (SCPI_RES_OK, SCPI_RegSet ifc ctx SCPI_REG_ESE (word_of_int new_ESE))
     }
     else Some (SCPI_RES_ERR, ctx)
   }"

definition SCPI_CoreEseQ :: "'u scpi_interface \<Rightarrow> 'u scpi_callback" where
  "SCPI_CoreEseQ ifc ctx = do {
     (_, ctx) \<leftarrow> SCPI_ResultInt32 ifc ctx (uint (SCPI_RegGet ctx SCPI_REG_ESE));
     Some (SCPI_RES_OK, ctx)
   }"

definition SCPI_CoreEsrQ :: "'u scpi_interface \<Rightarrow> 'u scpi_callback" where
  "SCPI_CoreEsrQ ifc ctx = do {
     (_, ctx) \<leftarrow> SCPI_ResultInt32 ifc ctx (uint (SCPI_RegGet ctx SCPI_REG_ESR));
     Some (SCPI_RES_OK, SCPI_RegSet ifc ctx SCPI_REG_ESR 0)
   }"

text \<open>The loop over the four fields of the identification.\<close>

fun idnFields :: "'u scpi_interface \<Rightarrow> char list option list \<Rightarrow> 'u scpi_t \<Rightarrow> 'u scpi_t option" where
  "idnFields ifc [] ctx = Some ctx"
| "idnFields ifc (f # fs) ctx = do {
     (_, ctx) \<leftarrow> SCPI_ResultCharacters ifc ctx (case f of Some s \<Rightarrow> s | None \<Rightarrow> ''0'');
     idnFields ifc fs ctx
   }"

definition SCPI_CoreIdnQ :: "'u scpi_interface \<Rightarrow> 'u scpi_callback" where
  "SCPI_CoreIdnQ ifc ctx = do {
     ctx \<leftarrow> idnFields ifc (take 4 (idn ctx)) ctx;
     Some (SCPI_RES_OK, ctx)
   }"

definition SCPI_CoreOpc :: "'u scpi_interface \<Rightarrow> 'u scpi_callback" where
  "SCPI_CoreOpc ifc ctx = Some (SCPI_RES_OK, SCPI_RegSetBits ifc ctx SCPI_REG_ESR ESR_OPC)"

definition SCPI_CoreOpcQ :: "'u scpi_interface \<Rightarrow> 'u scpi_callback" where
  "SCPI_CoreOpcQ ifc ctx = do {
     (_, ctx) \<leftarrow> SCPI_ResultInt32 ifc ctx 1;
     Some (SCPI_RES_OK, ctx)
   }"

definition SCPI_CoreRst :: "'u scpi_interface \<Rightarrow> 'u scpi_callback" where
  "SCPI_CoreRst ifc ctx =
     Some (case if_reset ifc of Some reset \<Rightarrow> reset ctx | None \<Rightarrow> (SCPI_RES_OK, ctx))"

definition SCPI_CoreSre :: "'u scpi_interface \<Rightarrow> 'u scpi_callback" where
  "SCPI_CoreSre ifc ctx = do {
     (ok, v, ctx) \<leftarrow> SCPI_ParamInt32 ifc ctx True True;
     if ok then do {
       new_SRE \<leftarrow> v;
       Some (SCPI_RES_OK, SCPI_RegSet ifc ctx SCPI_REG_SRE (word_of_int new_SRE))
     }
     else Some (SCPI_RES_ERR, ctx)
   }"

definition SCPI_CoreSreQ :: "'u scpi_interface \<Rightarrow> 'u scpi_callback" where
  "SCPI_CoreSreQ ifc ctx = do {
     (_, ctx) \<leftarrow> SCPI_ResultInt32 ifc ctx (uint (SCPI_RegGet ctx SCPI_REG_SRE));
     Some (SCPI_RES_OK, ctx)
   }"

definition SCPI_CoreStbQ :: "'u scpi_interface \<Rightarrow> 'u scpi_callback" where
  "SCPI_CoreStbQ ifc ctx = do {
     (_, ctx) \<leftarrow> SCPI_ResultInt32 ifc ctx (uint (SCPI_RegGet ctx SCPI_REG_STB));
     Some (SCPI_RES_OK, ctx)
   }"

definition SCPI_CoreTstQ :: "'u scpi_interface \<Rightarrow> 'u scpi_callback" where
  "SCPI_CoreTstQ ifc ctx = do {
     (_, ctx) \<leftarrow> SCPI_ResultInt32 ifc ctx 0;
     Some (SCPI_RES_OK, ctx)
   }"

definition SCPI_CoreWai :: "'u scpi_callback" where
  "SCPI_CoreWai ctx = Some (SCPI_RES_OK, ctx)"

section \<open>The minimal commands of SCPI\<close>

definition SCPI_Stub :: "'u scpi_callback" where
  "SCPI_Stub ctx = Some (SCPI_RES_OK, ctx)"

definition SCPI_StubQ :: "'u scpi_interface \<Rightarrow> 'u scpi_callback" where
  "SCPI_StubQ ifc ctx = do {
     (_, ctx) \<leftarrow> SCPI_ResultInt32 ifc ctx 0;
     Some (SCPI_RES_OK, ctx)
   }"

definition SCPI_STD_VERSION_REVISION :: "char list" where
  "SCPI_STD_VERSION_REVISION = ''1999.0''"

definition SCPI_SystemVersionQ :: "'u scpi_interface \<Rightarrow> 'u scpi_callback" where
  "SCPI_SystemVersionQ ifc ctx = do {
     (_, ctx) \<leftarrow> SCPI_ResultCharacters ifc ctx SCPI_STD_VERSION_REVISION;
     Some (SCPI_RES_OK, ctx)
   }"

definition SCPI_SystemErrorNextQ :: "'u scpi_interface \<Rightarrow> 'u scpi_callback" where
  "SCPI_SystemErrorNextQ ifc ctx = do {
     let (err, ctx) = SCPI_ErrorPop ifc ctx;
     (_, ctx) \<leftarrow> SCPI_ResultInt32 ifc ctx err;
     (_, ctx) \<leftarrow> SCPI_ResultText ifc ctx (SCPI_ErrorTranslate err);
     Some (SCPI_RES_OK, ctx)
   }"

definition SCPI_SystemErrorCountQ :: "'u scpi_interface \<Rightarrow> 'u scpi_callback" where
  "SCPI_SystemErrorCountQ ifc ctx = do {
     let (n, ctx) = SCPI_ErrorCount ctx;
     (_, ctx) \<leftarrow> SCPI_ResultInt32 ifc ctx n;
     Some (SCPI_RES_OK, ctx)
   }"

definition SCPI_StatusQuestionableEventQ :: "'u scpi_interface \<Rightarrow> 'u scpi_callback" where
  "SCPI_StatusQuestionableEventQ ifc ctx = do {
     (_, ctx) \<leftarrow> SCPI_ResultInt32 ifc ctx (uint (SCPI_RegGet ctx SCPI_REG_QUES));
     Some (SCPI_RES_OK, SCPI_RegSet ifc ctx SCPI_REG_QUES 0)
   }"

definition SCPI_StatusQuestionableEnableQ :: "'u scpi_interface \<Rightarrow> 'u scpi_callback" where
  "SCPI_StatusQuestionableEnableQ ifc ctx = do {
     (_, ctx) \<leftarrow> SCPI_ResultInt32 ifc ctx (uint (SCPI_RegGet ctx SCPI_REG_QUESE));
     Some (SCPI_RES_OK, ctx)
   }"

definition SCPI_StatusQuestionableEnable :: "'u scpi_interface \<Rightarrow> 'u scpi_callback" where
  "SCPI_StatusQuestionableEnable ifc ctx = do {
     (ok, v, ctx) \<leftarrow> SCPI_ParamInt32 ifc ctx True True;
     if ok then do {
       new_QUESE \<leftarrow> v;
       Some (SCPI_RES_OK, SCPI_RegSet ifc ctx SCPI_REG_QUESE (word_of_int new_QUESE))
     }
     else Some (SCPI_RES_OK, ctx)
   }"

definition SCPI_StatusPreset :: "'u scpi_interface \<Rightarrow> 'u scpi_callback" where
  "SCPI_StatusPreset ifc ctx = Some (SCPI_RES_OK, SCPI_RegSet ifc ctx SCPI_REG_QUES 0)"

end
