(* ===== verification/Expression.thy ===== *)
theory Expression
  imports Params
begin

text \<open>
  Numeric lists and channel lists inside an expression parameter: \<^verbatim>\<open>expression.c\<close>.  An expression
  token holds the text between the parentheses; an entry of the list is found by reading the
  entries before it.

  The functions store through pointers of the caller.  Here the old contents come in and the new
  ones go out; an array is a list, and a store past its end is the result \<open>None\<close>.  The entry of type
  \<^verbatim>\<open>double\<close> is not modelled.
\<close>

datatype scpi_expr_result = SCPI_EXPR_OK | SCPI_EXPR_ERROR | SCPI_EXPR_NO_MORE

text \<open>The lexer over the text between the parentheses.\<close>

definition expression_lexer :: "scpi_token \<Rightarrow> lex_state" where
  "expression_lexer param =
     \<lparr>lx_buffer = addr (tk_ptr param) + 1, lx_pos = addr (tk_ptr param) + 1, lx_len = tk_len param - 2\<rparr>"

section \<open>Numeric lists\<close>

type_synonym numeric_entry = "bool \<times> scpi_token \<times> scpi_token"

definition numericRange ::
  "mem \<Rightarrow> lex_state \<Rightarrow> numeric_entry \<Rightarrow> scpi_expr_result \<times> lex_state \<times> numeric_entry" where
  "numericRange m s = (\<lambda>(isRange, valueFrom, valueTo).
     (let (r, s, valueFrom) = scpiLex_DecimalNumericProgramData m s valueFrom
      in if r \<noteq> 0 then
           let (c, s, valueTo) = scpiLex_Colon m s valueTo
           in if c \<noteq> 0 then
                let (r, s, valueTo) = scpiLex_DecimalNumericProgramData m s valueTo
                in (if r \<noteq> 0 then SCPI_EXPR_OK else SCPI_EXPR_ERROR, s, True, valueFrom, valueTo)
              else (SCPI_EXPR_OK, s, False, valueFrom, valueTo)
         else (SCPI_EXPR_NO_MORE, s, isRange, valueFrom, valueTo)))"

text \<open>The loop over the entries: \<open>k\<close> is how many are still to be passed over.\<close>

fun numericEntries ::
  "mem \<Rightarrow> nat \<Rightarrow> lex_state \<Rightarrow> numeric_entry \<Rightarrow> scpi_expr_result \<times> lex_state \<times> numeric_entry" where
  "numericEntries m k s e =
     (let (res, s, e) = numericRange m s e
      in if res \<noteq> SCPI_EXPR_OK then (res, s, e)
         else case k of
                0 \<Rightarrow> (res, s, e)
              | Suc k \<Rightarrow>
                  let (isRange, valueFrom, valueTo) = e;
                      (c, s, valueFrom) = scpiLex_Comma m s valueFrom;
                      e = (isRange, valueFrom, valueTo)
                  in if c = 0 then (if scpiLex_IsEos s then SCPI_EXPR_NO_MORE else SCPI_EXPR_ERROR, s, e)
                     else numericEntries m k s e)"

declare numericEntries.simps [simp del]

definition SCPI_ExprNumericListEntry ::
  "'u scpi_interface \<Rightarrow> 'u scpi_t \<Rightarrow> scpi_token option \<Rightarrow> int \<Rightarrow> numeric_entry option \<Rightarrow>
     scpi_expr_result \<times> numeric_entry option \<times> 'u scpi_t" where
  "SCPI_ExprNumericListEntry ifc ctx param index entry =
     (case (param, entry) of
        (Some param, Some e) \<Rightarrow>
          if tk_type param \<noteq> SCPI_TOKEN_PROGRAM_EXPRESSION then
            (SCPI_EXPR_ERROR, entry, SCPI_ErrorPush ifc ctx SCPI_ERROR_DATA_TYPE_ERROR)
          else
            let lex = expression_lexer param;
                (res, lex, e) =
                  (if index < 0 then (SCPI_EXPR_OK, lex, e)
                   else numericEntries (buf_data ctx) (nat index) lex e);
                ctx = (if res = SCPI_EXPR_ERROR
                       then SCPI_ErrorPush ifc ctx SCPI_ERROR_EXPRESSION_PARSING_ERROR else ctx)
            in (res, Some e, ctx)
      | _ \<Rightarrow> (SCPI_EXPR_ERROR, entry, SCPI_ErrorPush ifc ctx SCPI_ERROR_SYSTEM_ERROR))"

text \<open>The range flag and the values as stored; \<open>valueFrom\<close> and \<open>valueTo\<close> say whether the caller's
  pointers are not NULL.\<close>

definition SCPI_ExprNumericListEntryInt ::
  "'u scpi_interface \<Rightarrow> 'u scpi_t \<Rightarrow> scpi_token option \<Rightarrow> int \<Rightarrow> bool \<Rightarrow> bool \<Rightarrow>
     scpi_expr_result \<times> (bool \<times> int option \<times> int option) option \<times> 'u scpi_t" where
  "SCPI_ExprNumericListEntryInt ifc ctx param index valueFrom valueTo =
     (let (res, e, ctx) =
            SCPI_ExprNumericListEntry ifc ctx param index (Some (False, zero_token, zero_token));
          (range, paramFrom, paramTo) = the e
      in if res = SCPI_EXPR_OK then
           let (_, from, ctx) = SCPI_ParamToInt32 ifc ctx paramFrom valueFrom;
               (_, upto, ctx) =
                 (if range then SCPI_ParamToInt32 ifc ctx paramTo valueTo else (True, None, ctx))
           in (res, Some (range, from, upto), ctx)
         else (res, None, ctx))"

section \<open>Channel lists\<close>

text \<open>The body of \<^verbatim>\<open>if (i < length)\<close>: one coordinate is converted and stored.\<close>

definition store_value ::
  "'u scpi_interface \<Rightarrow> 'u scpi_t \<Rightarrow> scpi_token \<Rightarrow> int list \<Rightarrow> nat \<Rightarrow> nat \<Rightarrow> (int list \<times> 'u scpi_t) option" where
  "store_value ifc ctx param values len i =
     (if i < len then
        if i < length values then
          let (_, v, ctx) = SCPI_ParamToInt32 ifc ctx param True
          in Some (case v of Some v \<Rightarrow> values[i := v] | None \<Rightarrow> values, ctx)
        else None
      else Some (values, ctx))"

partial_function (option) channelSpec ::
  "'u scpi_interface \<Rightarrow> 'u scpi_t \<Rightarrow> lex_state \<Rightarrow> int list \<Rightarrow> nat \<Rightarrow> nat \<Rightarrow>
     (scpi_expr_result \<times> lex_state \<times> int list \<times> nat \<times> 'u scpi_t) option" where
  "channelSpec ifc ctx s values len i =
     (let (r, s, param) = scpiLex_DecimalNumericProgramData (buf_data ctx) s zero_token
      in if r \<noteq> 0 then do {
           (values, ctx) \<leftarrow> store_value ifc ctx param values len i;
           let (e, s, param) = scpiLex_SpecificCharacter (buf_data ctx) s param (CHR ''!'');
           if e \<noteq> 0 then channelSpec ifc ctx s values len (i + 1)
           else Some (SCPI_EXPR_OK, s, values, i + 1, ctx)
         }
         else Some (if i = 0 then SCPI_EXPR_NO_MORE else SCPI_EXPR_ERROR, s, values, 0, ctx))"

text \<open>An entry: the range flag, the two arrays and the number of dimensions.\<close>

type_synonym channel_entry = "bool \<times> int list \<times> int list \<times> nat"

definition channelRange ::
  "'u scpi_interface \<Rightarrow> 'u scpi_t \<Rightarrow> lex_state \<Rightarrow> nat \<Rightarrow> channel_entry \<Rightarrow>
     (scpi_expr_result \<times> lex_state \<times> channel_entry \<times> 'u scpi_t) option" where
  "channelRange ifc ctx s len = (\<lambda>(isRange, valuesFrom, valuesTo, dimensions). do {
     (err, s, valuesFrom, fromDimensions, ctx) \<leftarrow> channelSpec ifc ctx s valuesFrom len 0;
     if err = SCPI_EXPR_OK then
       let (c, s, tok) = scpiLex_Colon (buf_data ctx) s zero_token
       in if c \<noteq> 0 then do {
            (err, s, valuesTo, toDimensions, ctx) \<leftarrow> channelSpec ifc ctx s valuesTo len 0;
            if err \<noteq> SCPI_EXPR_OK \<or> fromDimensions \<noteq> toDimensions
            then Some (SCPI_EXPR_ERROR, s, (True, valuesFrom, valuesTo, dimensions), ctx)
            else Some (SCPI_EXPR_OK, s, (True, valuesFrom, valuesTo, fromDimensions), ctx)
          }
          else Some (SCPI_EXPR_OK, s, (False, valuesFrom, valuesTo, fromDimensions), ctx)
     else Some (err, s, (isRange, valuesFrom, valuesTo, dimensions), ctx)
   })"

text \<open>The loop; only the last entry, \<open>k = 0\<close>, is stored into the arrays.\<close>

fun channelEntries ::
  "'u scpi_interface \<Rightarrow> nat \<Rightarrow> nat \<Rightarrow> 'u scpi_t \<Rightarrow> lex_state \<Rightarrow> channel_entry \<Rightarrow>
     (scpi_expr_result \<times> lex_state \<times> channel_entry \<times> 'u scpi_t) option" where
  "channelEntries ifc len k ctx s e = do {
     (res, s, e, ctx) \<leftarrow> channelRange ifc ctx s (if k = 0 then len else 0) e;
     if res \<noteq> SCPI_EXPR_OK then Some (res, s, e, ctx)
     else case k of
            0 \<Rightarrow> Some (res, s, e, ctx)
          | Suc k \<Rightarrow>
              let (c, s, tok) = scpiLex_Comma (buf_data ctx) s zero_token
              in if c = 0 then
                   Some (if scpiLex_IsEos s then SCPI_EXPR_NO_MORE else SCPI_EXPR_ERROR, s, e, ctx)
                 else channelEntries ifc len k ctx s e
   }"

declare channelEntries.simps [simp del]

text \<open>\<open>None\<close> as the entry stands for a NULL pointer among \<open>isRange\<close>, \<open>dimensions\<close> and, if the length
  is not zero, the arrays; with length zero the arrays are not used.\<close>

definition SCPI_ExprChannelListEntry ::
  "'u scpi_interface \<Rightarrow> 'u scpi_t \<Rightarrow> scpi_token option \<Rightarrow> int \<Rightarrow> channel_entry option \<Rightarrow> nat \<Rightarrow>
     (scpi_expr_result \<times> channel_entry option \<times> 'u scpi_t) option" where
  "SCPI_ExprChannelListEntry ifc ctx param index entry len =
     (case (param, entry) of
        (Some param, Some e) \<Rightarrow>
          if tk_type param \<noteq> SCPI_TOKEN_PROGRAM_EXPRESSION then
            Some (SCPI_EXPR_ERROR, entry, SCPI_ErrorPush ifc ctx SCPI_ERROR_DATA_TYPE_ERROR)
          else
            let (a, lex, tok) = scpiLex_SpecificCharacter (buf_data ctx) (expression_lexer param)
                                  zero_token (CHR ''@'')
            in if a = 0 then
                 Some (SCPI_EXPR_ERROR, entry, SCPI_ErrorPush ifc ctx SCPI_ERROR_EXPRESSION_PARSING_ERROR)
               else do {
                 (res, lex, e, ctx) \<leftarrow>
                   (if index < 0 then Some (SCPI_EXPR_OK, lex, e, ctx)
                    else channelEntries ifc len (nat index) ctx lex e);
                 if res = SCPI_EXPR_ERROR then
                   Some (res, Some e, SCPI_ErrorPush ifc ctx SCPI_ERROR_EXPRESSION_PARSING_ERROR)
                 else if res = SCPI_EXPR_NO_MORE \<and> \<not> scpiLex_IsEos lex then
                   Some (SCPI_EXPR_ERROR, Some e,
                         SCPI_ErrorPush ifc ctx SCPI_ERROR_EXPRESSION_PARSING_ERROR)
                 else Some (res, Some e, ctx)
               }
      | _ \<Rightarrow> Some (SCPI_EXPR_ERROR, entry, SCPI_ErrorPush ifc ctx SCPI_ERROR_SYSTEM_ERROR))"

end
