(* ===== verification/Firmware.thy ===== *)
theory Firmware
  imports Commands Expression
begin

text \<open>
  The commands of the instrument: \<^verbatim>\<open>Src/Src/scpi-def.c\<close>, lines 75 to 77, 155 to 379 and 454 to 486.  What a callback prints with
  \<^verbatim>\<open>printf\<close> is an event of the device; the results go through \<open>scpi_ifc\<close>.

  The callbacks with numbers of type \<^verbatim>\<open>double\<close> and the whole list are in \<open>Instrument\<close>.  A
  read of a variable nobody has written, and a store outside a local array, make a callback return
  \<open>None\<close>.
\<close>

section \<open>Callbacks\<close>

definition SCPI_SystemCommTcpipControlQ :: "'u scpi_callback" where
  "SCPI_SystemCommTcpipControlQ ctx = Some (SCPI_RES_ERR, ctx)"

definition CRLF :: "char list" where
  "CRLF = [CHR 0x0D, CHR 0x0A]"

definition TEST_Bool :: "'r device_scheme scpi_callback" where
  "TEST_Bool ctx = do {
     let ctx = emit (Printf (''TEST:BOOL'' @ CRLF) []) ctx;
     (ok, param1, ctx) \<leftarrow> SCPI_ParamBool scpi_ifc ctx True True;
     if \<not> ok then Some (SCPI_RES_ERR, ctx)
     else do {
       param1 \<leftarrow> param1;
       Some (SCPI_RES_OK, emit (Printf (CHR 0x09 # ''P1=%d'' @ CRLF) [Num (if param1 then 1 else 0)]) ctx)
     }
   }"

definition trigger_source :: "scpi_choice_def list" where
  "trigger_source = [(''BUS'', 5), (''IMMediate'', 6), (''EXTernal'', 7)]"

definition TEST_ChoiceQ :: "'r device_scheme scpi_callback" where
  "TEST_ChoiceQ ctx = do {
     (ok, param, ctx) \<leftarrow> SCPI_ParamChoice scpi_ifc ctx (Some trigger_source) True True;
     if \<not> ok then Some (SCPI_RES_ERR, ctx)
     else do {
       param \<leftarrow> param;
       name \<leftarrow> SCPI_ChoiceToName trigger_source param;
       let ctx = emit (Printf (CHR 0x09 # ''P1=%s (%ld)'' @ CRLF) [Str name, Num param]) ctx;
       (_, ctx) \<leftarrow> SCPI_ResultInt32 scpi_ifc ctx param;
       Some (SCPI_RES_OK, ctx)
     }
   }"

text \<open>The array of the caller is not initialised; \<open>garbage\<close> is what it holds.\<close>

definition TEST_Numbers :: "char list list \<Rightarrow> int list \<Rightarrow> 'r device_scheme scpi_callback" where
  "TEST_Numbers patterns garbage ctx = do {
     (_, numbers) \<leftarrow> SCPI_CommandNumbers patterns ctx (Some garbage) 2 1;
     numbers \<leftarrow> numbers;
     Some (SCPI_RES_OK,
           emit (Printf (''TEST numbers %d %d'' @ CRLF) [Num (numbers ! 0), Num (numbers ! 1)]) ctx)
   }"

definition TEST_Text :: "char list \<Rightarrow> 'r device_scheme scpi_callback" where
  "TEST_Text garbage ctx = do {
     (ok, buffer, copy_len, ctx) \<leftarrow> SCPI_ParamCopyText scpi_ifc ctx (Some garbage) 100 True False;
     let buffer = (if \<not> ok then buffer[0 := NUL] else buffer);
     if NUL \<in> set buffer then
       Some (SCPI_RES_OK,
             emit (Printf (''TEXT: ***%s***'' @ CRLF) [Str (takeWhile (\<lambda>c. c \<noteq> NUL) buffer)]) ctx)
     else None
   }"

definition TEST_ArbQ :: "'r device_scheme scpi_callback" where
  "TEST_ArbQ ctx = do {
     (_, stored, ctx) \<leftarrow> SCPI_ParamArbitraryBlock scpi_ifc ctx True False;
     (data, len) \<leftarrow> stored;
     (_, ctx) \<leftarrow> SCPI_ResultArbitraryBlock scpi_ifc ctx (take (nat len) (drop (addr data) (buf_data ctx)));
     Some (SCPI_RES_OK, ctx)
   }"

section \<open>Channel lists\<close>

definition maxrow :: nat where "maxrow = 2"
definition maxcol :: nat where "maxcol = 6"
definition maxdim :: nat where "maxdim = 2"

type_synonym channel_array = "(int \<times> int) list"

text \<open>\<^verbatim>\<open>array[arr_idx].row = row; array[arr_idx].col = col\<close>\<close>

definition put_channel :: "channel_array \<Rightarrow> nat \<Rightarrow> int \<Rightarrow> int \<Rightarrow> channel_array option" where
  "put_channel array i row col = (if i < length array then Some (array[i := (row, col)]) else None)"

text \<open>The inner loop; the counters are \<^verbatim>\<open>size_t\<close>, 32 bits wide.\<close>

partial_function (option) columnLoop ::
  "u32 \<Rightarrow> u32 \<Rightarrow> u32 \<Rightarrow> u32 \<Rightarrow> channel_array \<Rightarrow> nat \<Rightarrow> (channel_array \<times> nat) option" where
  "columnLoop n m stop dir_col array arr_idx = do {
     array \<leftarrow> put_channel array arr_idx (sint n) (sint m);
     if m = stop then Some (array, arr_idx + 1)
     else columnLoop n (m + dir_col) stop dir_col array (arr_idx + 1)
   }"

definition column_direction :: "int \<Rightarrow> int \<Rightarrow> u32 \<Rightarrow> u32" where
  "column_direction a b dir_col = (if b < a then - 1 else if a < b then 1 else dir_col)"

partial_function (option) rowLoop ::
  "u32 \<Rightarrow> u32 \<Rightarrow> u32 \<Rightarrow> u32 \<Rightarrow> int list \<Rightarrow> int list \<Rightarrow> nat \<Rightarrow> channel_array \<Rightarrow> nat \<Rightarrow>
     (u32 \<times> channel_array \<times> nat) option" where
  "rowLoop n stop dir_row dir_col values_from values_to dimensions array arr_idx = do {
     (dir_col, array, arr_idx) \<leftarrow>
       (if dimensions = 2 then do {
          let dir_col = column_direction (values_from ! 1) (values_to ! 1) dir_col;
          (array, arr_idx) \<leftarrow> columnLoop n (word_of_int (values_from ! 1)) (word_of_int (values_to ! 1))
                                dir_col array arr_idx;
          Some (dir_col, array, arr_idx)
        }
        else if dimensions = 1 then do {
          array \<leftarrow> put_channel array arr_idx (sint n) 0;
          Some (dir_col, array, arr_idx + 1)
        }
        else Some (dir_col, array, arr_idx));
     if n = stop then Some (dir_col, array, arr_idx)
     else rowLoop (n + dir_row) stop dir_row dir_col values_from values_to dimensions array arr_idx
   }"

text \<open>One entry of the list: \<open>Inl\<close> the loop goes on, \<open>Inr\<close> the command fails.\<close>

definition takeEntry ::
  "channel_entry \<Rightarrow> u32 \<Rightarrow> channel_array \<Rightarrow> nat \<Rightarrow> ((u32 \<times> channel_array \<times> nat) + scpi_result) option" where
  "takeEntry = (\<lambda>(is_range, values_from, values_to, dimensions) dir_col array arr_idx.
     (if \<not> is_range then
        if dimensions = 1 then do {
          array \<leftarrow> put_channel array arr_idx (values_from ! 0) 0;
          Some (Inl (dir_col, array, arr_idx + 1))
        }
        else if dimensions = 2 then do {
          array \<leftarrow> put_channel array arr_idx (values_from ! 0) (values_from ! 1);
          Some (Inl (dir_col, array, arr_idx + 1))
        }
        else Some (Inr SCPI_RES_ERR)
      else do {
        let dir_row = (if values_to ! 0 < values_from ! 0 then - 1 else 1);
        r \<leftarrow> rowLoop (word_of_int (values_from ! 0)) (word_of_int (values_to ! 0)) dir_row dir_col
               values_from values_to dimensions array arr_idx;
        Some (Inl r)
      }))"

text \<open>The \<^verbatim>\<open>do\<close> loop over the entries.  The arrays have two elements, the length passed is four.\<close>

partial_function (option) chanlstLoop ::
  "'r device_scheme scpi_t \<Rightarrow> scpi_token \<Rightarrow> int \<Rightarrow> channel_entry \<Rightarrow> u32 \<Rightarrow> channel_array \<Rightarrow> nat \<Rightarrow>
     ((channel_array \<times> nat + scpi_result) \<times> 'r device_scheme scpi_t) option" where
  "chanlstLoop ctx param chanlst_idx e dir_col array arr_idx = do {
     (_, e, ctx) \<leftarrow> SCPI_ExprChannelListEntry scpi_ifc ctx (Some param) chanlst_idx (Some e) 4;
     e \<leftarrow> e;
     r \<leftarrow> takeEntry e dir_col array arr_idx;
     case r of
       Inr res \<Rightarrow> Some (Inr res, ctx)
     | Inl (dir_col, array, arr_idx) \<Rightarrow> do {
         (res, e, ctx) \<leftarrow> SCPI_ExprChannelListEntry scpi_ifc ctx (Some param) (chanlst_idx + 1) (Some e) 4;
         e \<leftarrow> e;
         if res = SCPI_EXPR_OK then chanlstLoop ctx param (chanlst_idx + 1) e dir_col array arr_idx
         else Some (Inl (array, arr_idx), ctx)
       }
   }"

fun print_channels :: "channel_array \<Rightarrow> 'r device_scheme scpi_t \<Rightarrow> 'r device_scheme scpi_t" where
  "print_channels [] ctx = ctx"
| "print_channels ((row, col) # cs) ctx =
     print_channels cs (emit (Printf ''%d!%d, '' [Num row, Num col]) ctx)"

definition TEST_Chanlst :: "channel_array \<Rightarrow> int list \<Rightarrow> 'r device_scheme scpi_callback" where
  "TEST_Chanlst garbage values ctx = do {
     (ok, param, ctx) \<leftarrow> SCPI_Parameter scpi_ifc ctx (Some zero_token) True;
     (r, ctx) \<leftarrow>
       (if ok then do {
          (res, e, ctx) \<leftarrow> SCPI_ExprChannelListEntry scpi_ifc ctx (Some param) 0
                            (Some (False, [], [], 0)) 0;
          (r, ctx) \<leftarrow>
            (if res = SCPI_EXPR_OK
             then chanlstLoop ctx param 0 (False, take maxdim values, take maxdim values, 0) 1 garbage 0
             else Some (Inl (garbage, 0), ctx));
          case r of
            Inr res \<Rightarrow> Some (Inr res, ctx)
          | Inl (array, arr_idx) \<Rightarrow> do {
              array \<leftarrow> put_channel array arr_idx 0 0;
              Some (Inl (array, arr_idx), ctx)
            }
        }
        else Some (Inl (garbage, 0), ctx));
     case r of
       Inr res \<Rightarrow> Some (res, ctx)
     | Inl (array, arr_idx) \<Rightarrow>
         let ctx = emit (Printf ''TEST_Chanlst: '' []) ctx;
             ctx = print_channels (take arr_idx array) ctx;
             ctx = emit (Printf CRLF []) ctx
         in Some (SCPI_RES_OK, ctx)
   }"

definition My_CoreTstQ :: "'r device_scheme scpi_callback" where
  "My_CoreTstQ ctx = do {
     (_, ctx) \<leftarrow> SCPI_ResultInt32 scpi_ifc ctx 0;
     Some (SCPI_RES_OK, ctx)
   }"

section \<open>The command list\<close>

definition cmd :: "char list \<Rightarrow> 'u scpi_callback \<Rightarrow> 'u scpi_command" where
  "cmd pattern callback = \<lparr>cmd_pattern = pattern, cmd_callback = Some callback, cmd_tag = 0\<rparr>"

definition required_commands :: "'r device_scheme scpi_command list" where
  "required_commands = [
     cmd ''*CLS'' (SCPI_CoreCls scpi_ifc),
     cmd ''*ESE'' (SCPI_CoreEse scpi_ifc),
     cmd ''*ESE?'' (SCPI_CoreEseQ scpi_ifc),
     cmd ''*ESR?'' (SCPI_CoreEsrQ scpi_ifc),
     cmd ''*IDN?'' (SCPI_CoreIdnQ scpi_ifc),
     cmd ''*OPC'' (SCPI_CoreOpc scpi_ifc),
     cmd ''*OPC?'' (SCPI_CoreOpcQ scpi_ifc),
     cmd ''*RST'' (SCPI_CoreRst scpi_ifc),
     cmd ''*SRE'' (SCPI_CoreSre scpi_ifc),
     cmd ''*SRE?'' (SCPI_CoreSreQ scpi_ifc),
     cmd ''*STB?'' (SCPI_CoreStbQ scpi_ifc),
     cmd ''*TST?'' My_CoreTstQ,
     cmd ''*WAI'' SCPI_CoreWai,
     cmd ''SYSTem:ERRor[:NEXT]?'' (SCPI_SystemErrorNextQ scpi_ifc),
     cmd ''SYSTem:ERRor:COUNt?'' (SCPI_SystemErrorCountQ scpi_ifc),
     cmd ''SYSTem:VERSion?'' (SCPI_SystemVersionQ scpi_ifc),
     cmd ''STATus:QUEStionable[:EVENt]?'' (SCPI_StatusQuestionableEventQ scpi_ifc),
     cmd ''STATus:QUEStionable:ENABle'' (SCPI_StatusQuestionableEnable scpi_ifc),
     cmd ''STATus:QUEStionable:ENABle?'' (SCPI_StatusQuestionableEnableQ scpi_ifc),
     cmd ''STATus:PRESet'' (SCPI_StatusPreset scpi_ifc)]"

end
