(* ===== verification/ParserProps.thy ===== *)
theory ParserProps
  imports Firmware
begin

text \<open>
  The parser as a whole: no 7-bit input makes it hang.  What it asks of a command list is the locale
  \<open>command_set\<close>: patterns that are lists of keywords, and callbacks that return and leave the input
  buffer alone.  The commands of IEEE 488.2 and the minimal SCPI commands are such a list.
\<close>

section \<open>What leaves the input alone\<close>

text \<open>Whether there is an error queue and, if so, whether NULL was followed all the same: no
  function but \<^verbatim>\<open>SCPI_ErrorInit\<close> changes it.\<close>

definition queue_view :: "'u scpi_t \<Rightarrow> bool option" where
  "queue_view c = map_option (\<lambda>_. null_used c) (error_queue c)"

lemma queue_view_updates [simp]:
  "queue_view (c\<lparr>buf_length := n\<rparr>) = queue_view c" "queue_view (c\<lparr>buf_position := n\<rparr>) = queue_view c"
  "queue_view (c\<lparr>buf_data := m\<rparr>) = queue_view c" "queue_view (c\<lparr>param_list := p\<rparr>) = queue_view c"
  "queue_view (c\<lparr>output_count := k\<rparr>) = queue_view c" "queue_view (c\<lparr>input_count := k\<rparr>) = queue_view c"
  "queue_view (c\<lparr>cmd_error := b\<rparr>) = queue_view c" "queue_view (c\<lparr>registers := r\<rparr>) = queue_view c"
  "queue_view (c\<lparr>user_context := u\<rparr>) = queue_view c" "queue_view (c\<lparr>parser_state := st\<rparr>) = queue_view c"
  "queue_view (snd (on_queue x f c)) = queue_view c"
  by (simp_all add: queue_view_def on_queue_def split: option.split)

lemma queue_view_same: "error_queue d = error_queue c \<Longrightarrow> null_used d = null_used c \<Longrightarrow> queue_view d = queue_view c"
  by (simp add: queue_view_def)

lemma queue_view_iff:
  "queue_view d = queue_view c \<longleftrightarrow> (error_queue d = None \<longleftrightarrow> error_queue c = None) \<and>
     (error_queue c \<noteq> None \<longrightarrow> null_used d = null_used c)"
  by (cases "error_queue c"; cases "error_queue d") (simp_all add: queue_view_def)

definition same_input :: "'u scpi_t \<Rightarrow> 'u scpi_t \<Rightarrow> bool" where
  "same_input c d \<longleftrightarrow> buf_data d = buf_data c \<and> buf_length d = buf_length c \<and>
     buf_position d = buf_position c \<and> parser_state d = parser_state c \<and> queue_view d = queue_view c"

lemma same_input_refl [simp, intro]: "same_input c c"
  by (simp add: same_input_def)

lemma same_input_trans [trans]: "same_input a b \<Longrightarrow> same_input b c \<Longrightarrow> same_input a c"
  by (simp add: same_input_def)

lemma keeps_library_input: "keeps_library c d \<Longrightarrow> same_input c d"
  using keeps_library_fields [of c d] queue_view_same [of d c] by (simp add: same_input_def)

lemma only_status_input: "only_status c d \<Longrightarrow> same_input c d"
  using only_status_fields [of c d] queue_view_same [of d c] by (simp add: same_input_def)

lemma same_input_updates [simp]:
  "same_input c (snd (on_queue x f d)) \<longleftrightarrow> same_input c d"
  "same_input c (d\<lparr>cmd_error := e\<rparr>) \<longleftrightarrow> same_input c d"
  "same_input c (d\<lparr>output_count := n\<rparr>) \<longleftrightarrow> same_input c d"
  "same_input c (d\<lparr>input_count := n\<rparr>) \<longleftrightarrow> same_input c d"
  "same_input c (d\<lparr>param_list := p\<rparr>) \<longleftrightarrow> same_input c d"
  "same_input (c\<lparr>cmd_error := e\<rparr>) d \<longleftrightarrow> same_input c d"
  "same_input (c\<lparr>output_count := n\<rparr>) d \<longleftrightarrow> same_input c d"
  "same_input (c\<lparr>input_count := n\<rparr>) d \<longleftrightarrow> same_input c d"
  "same_input (c\<lparr>param_list := p\<rparr>) d \<longleftrightarrow> same_input c d"
  by (simp_all add: same_input_def)

lemma same_input_put_lex [simp]: "same_input c (put_lex s d) \<longleftrightarrow> same_input c d"
  by (simp add: put_lex_def)

lemma same_input_count_output [simp]: "same_input c (count_output d) \<longleftrightarrow> same_input c d"
  by (simp add: count_output_def)

definition seven_bit :: "'u scpi_t \<Rightarrow> bool" where
  "seven_bit c \<longleftrightarrow> (\<forall>x\<in>set (buf_data c). isascii7bit x)"

lemma same_input_seven_bit: "same_input c d \<Longrightarrow> seven_bit d = seven_bit c"
  by (simp add: same_input_def seven_bit_def)

lemma isascii7bit_rd: "\<forall>x\<in>set m. isascii7bit x \<Longrightarrow> isascii7bit (rd m i)"
  by (simp add: rd_def isascii7bit_def)

text \<open>A callback that returns on every 7-bit input and leaves the input alone.\<close>

definition well_behaved :: "'u scpi_callback \<Rightarrow> bool" where
  "well_behaved f \<longleftrightarrow> (\<forall>c. seven_bit c \<longrightarrow> (\<exists>res d. f c = Some (res, d) \<and> same_input c d))"

text \<open>The same for the functions callbacks are made of: they return \<open>Some\<close> result that ends with a
  context.\<close>

definition calm :: "'u scpi_t \<Rightarrow> ('a \<times> 'u scpi_t) option \<Rightarrow> bool" where
  "calm c r \<longleftrightarrow> (\<exists>x d. r = Some (x, d) \<and> same_input c d)"

lemma calm_Some [simp]: "calm c (Some (x, d)) \<longleftrightarrow> same_input c d"
  by (simp add: calm_def)

lemma calm_bind:
  "calm c r \<Longrightarrow> (\<And>x d. r = Some (x, d) \<Longrightarrow> same_input c d \<Longrightarrow> calm d (k x d)) \<Longrightarrow>
     calm c (Option.bind r (\<lambda>(x, d). k x d))"
  unfolding calm_def using same_input_trans by fastforce

lemma well_behaved_calm: "well_behaved f \<longleftrightarrow> (\<forall>c. seven_bit c \<longrightarrow> calm c (f c))"
  by (simp add: well_behaved_def calm_def)

lemma same_input_after: "same_input d e \<Longrightarrow> same_input c e \<longleftrightarrow> same_input c d"
  by (simp add: same_input_def)

context scpi_port begin

lemma RegSet_input [simp]: "same_input c (SCPI_RegSet ifc d name v) \<longleftrightarrow> same_input c d"
  by (rule same_input_after [OF only_status_input [OF RegSet_only_status]])

lemma RegBits_input [simp]:
  "same_input c (SCPI_RegSetBits ifc d name v) \<longleftrightarrow> same_input c d"
  "same_input c (SCPI_RegClearBits ifc d name v) \<longleftrightarrow> same_input c d"
  by (simp_all add: SCPI_RegSetBits.simps SCPI_RegClearBits.simps)

lemma call_error_input [simp]: "same_input c (call_error ifc e d) \<longleftrightarrow> same_input c d"
  by (rule same_input_after [OF keeps_library_input [OF call_error_keeps]])

lemma ErrorCount_input [simp]: "same_input c (snd (SCPI_ErrorCount d)) \<longleftrightarrow> same_input c d"
  by (simp add: SCPI_ErrorCount_def)

lemma EmitEmpty_input [simp]: "same_input c (SCPI_ErrorEmitEmpty ifc d) \<longleftrightarrow> same_input c d"
  by (simp add: SCPI_ErrorEmitEmpty_def split_beta Let_def)

lemma ErrorPop_input [simp]: "same_input c (snd (SCPI_ErrorPop ifc d)) \<longleftrightarrow> same_input c d"
  by (simp add: SCPI_ErrorPop_def Let_def split_beta)

lemma ErrorClear_input [simp]:
  "same_input c (SCPI_ErrorClear ifc d) \<longleftrightarrow> same_input c d"
  "same_input c (SCPI_EventClear ifc d) \<longleftrightarrow> same_input c d"
  by (simp_all add: SCPI_ErrorClear_def SCPI_EventClear_def)

lemma ErrorPush_input [simp]: "same_input c (SCPI_ErrorPush ifc d err) \<longleftrightarrow> same_input c d"
  by (simp add: SCPI_ErrorPush_def SCPI_ErrorEmit_def SCPI_ErrorAddInternal_def Let_def push_bits_eq)

end

section \<open>The library's functions return\<close>

locale scpi_writer = scpi_port ifc for ifc :: "'u scpi_interface" +
  assumes can_write: "if_write ifc \<noteq> None"
begin

lemma writeData_calm: "calm c (writeData ifc c data)"
proof -
  obtain w where w: "if_write ifc = Some w" using can_write by blast
  show ?thesis
    using keeps_library_input [OF write_keeps [OF w], of c data]
    by (cases "w c data") (simp add: writeData_def w)
qed

lemma flushData_input [simp]: "same_input c (snd (flushData ifc d)) \<longleftrightarrow> same_input c d"
  by (auto simp: flushData_def split: option.splits
      intro!: same_input_after keeps_library_input flush_keeps)

lemma delimiters_calm:
  "calm c (writeDelimiter ifc c)" "calm c (writeSemicolon ifc c)" "calm c (writeNewLine ifc c)"
proof -
  show "calm c (writeDelimiter ifc c)" "calm c (writeSemicolon ifc c)"
    by (simp_all add: writeDelimiter_def writeSemicolon_def writeData_calm)
  have "calm c (do {(len, ctx) \<leftarrow> writeData ifc c SCPI_LINE_ENDING;
      let (_, ctx) = flushData ifc ctx; Some (len, ctx)})"
    by (intro calm_bind writeData_calm) (simp add: split_beta)
  then show "calm c (writeNewLine ifc c)" by (simp add: writeNewLine_def)
qed

lemma characters_calm: "calm c (SCPI_ResultCharacters ifc c data)"
  unfolding SCPI_ResultCharacters_def
  by (intro calm_bind delimiters_calm writeData_calm) simp

lemma resultNumeral_calm: "calm c (resultNumeral ifc c base r)"
proof -
  have "calm d (case getBasePrefix base of Some p \<Rightarrow> writeData ifc d p | None \<Rightarrow> Some (0, d))" for d
    by (simp add: writeData_calm split: option.split)
  then show ?thesis
    unfolding resultNumeral_def Let_def
    by (cases r) (auto intro!: calm_bind delimiters_calm writeData_calm)
qed

lemma integers_calm:
  "calm c (resultUInt32BaseSign ifc c v base sign)" "calm c (resultUInt64BaseSign ifc c w base sign)"
  by (simp_all add: resultUInt32BaseSign_def resultUInt64BaseSign_def UInt32ToStr_text UInt64ToStr_text
      resultNumeral_calm)

lemma results_calm:
  "calm c (SCPI_ResultInt32 ifc c i)" "calm c (SCPI_ResultBool ifc c b)"
  "calm c (SCPI_ResultText ifc c t)"
proof -
  show "calm c (SCPI_ResultInt32 ifc c i)" "calm c (SCPI_ResultBool ifc c b)"
    by (simp_all add: SCPI_ResultInt32_def SCPI_ResultBool_def integers_calm)
  show "calm c (SCPI_ResultText ifc c t)"
    unfolding SCPI_ResultText_def
    by (intro calm_bind delimiters_calm writeData_calm) simp
qed

lemma idnFields_same: "\<exists>d. idnFields ifc fs c = Some d \<and> same_input c d"
proof (induction fs arbitrary: c)
  case (Cons f fs)
  obtain n d where "SCPI_ResultCharacters ifc c (case f of Some s \<Rightarrow> s | None \<Rightarrow> ''0'') = Some (n, d)"
    "same_input c d"
    using characters_calm [of c "case f of Some s \<Rightarrow> s | None \<Rightarrow> ''0''"] unfolding calm_def by blast
  then show ?case using Cons.IH [of d] same_input_trans by fastforce
qed simp

end

section \<open>Parameters\<close>

text \<open>Reading a parameter returns on every 7-bit text.\<close>

definition calm3 :: "'u scpi_t \<Rightarrow> ('a \<times> 'b \<times> 'u scpi_t) option \<Rightarrow> bool" where
  "calm3 c r \<longleftrightarrow> (\<exists>x y d. r = Some (x, y, d) \<and> same_input c d)"

lemma calm3_Some [simp]: "calm3 c (Some (x, y, d)) \<longleftrightarrow> same_input c d"
  by (simp add: calm3_def)

lemma calm3_bind:
  "calm3 c r \<Longrightarrow> (\<And>x y d. r = Some (x, y, d) \<Longrightarrow> same_input c d \<Longrightarrow> calm3 d (k x y d)) \<Longrightarrow>
     calm3 c (Option.bind r (\<lambda>(x, y, d). k x y d))"
  "calm3 c r \<Longrightarrow> (\<And>x y d. r = Some (x, y, d) \<Longrightarrow> same_input c d \<Longrightarrow> calm d (l x y d)) \<Longrightarrow>
     calm c (Option.bind r (\<lambda>(x, y, d). l x y d))"
  unfolding calm_def calm3_def using same_input_trans by fastforce+

lemma parseProgramData_7bit:
  assumes "\<forall>x\<in>set m. isascii7bit x"
  shows "\<exists>r s' tok'. scpiParser_parseProgramData m s tok = Some (r, s', tok')"
proof -
  have "\<forall>x\<in>set (rest m s). isascii7bit x"
    using isascii7bit_rd [OF assms] by (auto simp: rest_def)
  then show ?thesis using param_scan_7bit by (auto simp: parseProgramData_eq)
qed

context scpi_port begin

lemma Parameter_calm:
  assumes "seven_bit c"
  shows "calm3 c (SCPI_Parameter ifc c p mandatory)"
proof -
  have "calm3 c (do {
      (r, state, parameter) \<leftarrow> scpiParser_parseProgramData (buf_data c) s tok;
      let ctx = put_lex state d;
      if tk_type parameter \<in> parameter_types then Some (True, parameter, ctx)
      else Some (False, invalidateToken parameter None,
                 SCPI_ErrorPush ifc ctx SCPI_ERROR_INVALID_STRING_DATA)})"
    if "same_input c d" for d s tok
    using that parseProgramData_7bit [of "buf_data c" s tok] assms by (auto simp: seven_bit_def Let_def)
  then show ?thesis
    by (auto simp: SCPI_Parameter_def Let_def split: option.split prod.split)
qed

lemma ParamInt32_calm:
  assumes "seven_bit c"
  shows "calm3 c (SCPI_ParamInt32 ifc c value mandatory)"
    and "SCPI_ParamInt32 ifc c value mandatory = Some (True, v, d) \<Longrightarrow> v \<noteq> None"
proof -
  have "calm3 d (Some (ParamSignToUInt32 ifc d p True sign))" for d p sign
    by (simp add: ParamSignToUInt32_def Let_def split_beta)
  then show "calm3 c (SCPI_ParamInt32 ifc c value mandatory)"
    unfolding SCPI_ParamInt32_def ParamSignUInt32_def
    using assms by (auto intro!: calm3_bind Parameter_calm simp del: SCPI_ParamIsNumber.simps)
  show "SCPI_ParamInt32 ifc c value mandatory = Some (True, v, d) \<Longrightarrow> v \<noteq> None"
    by (auto simp: SCPI_ParamInt32_def ParamSignUInt32_def ParamSignToUInt32_def read_number_def Let_def
        split: option.splits if_splits prod.splits scpi_token_type.splits Option.bind_splits)
qed

end

section \<open>The callbacks return\<close>

context scpi_writer begin

lemma calm_result:
  "calm c r \<Longrightarrow> (\<And>x d. same_input c d \<Longrightarrow> same_input c (g x d)) \<Longrightarrow>
     calm c (do {(x, ctx) \<leftarrow> r; Some (SCPI_RES_OK, g x ctx)})"
  by (auto simp: calm_def)

lemma int_query_behaved:
  "well_behaved (\<lambda>ctx. do {(_, ctx) \<leftarrow> SCPI_ResultInt32 ifc ctx (f ctx); Some (SCPI_RES_OK, ctx)})"
  unfolding well_behaved_calm by (intro allI impI calm_result results_calm)

lemma int_setting_behaved:
  assumes "\<And>c d v. same_input c (g d v) \<longleftrightarrow> same_input c d"
  shows "well_behaved (\<lambda>ctx. do {
     (ok, v, ctx) \<leftarrow> SCPI_ParamInt32 ifc ctx True True;
     if ok then do {n \<leftarrow> v; Some (SCPI_RES_OK, g ctx n)} else Some (res, ctx)})"
  unfolding well_behaved_calm
proof (intro allI impI)
  fix c :: "'u scpi_t"
  assume c: "seven_bit c"
  note p = ParamInt32_calm [OF c, of True True]
  obtain ok v d where r: "SCPI_ParamInt32 ifc c True True = Some (ok, v, d)" "same_input c d"
    using p(1) by (auto simp: calm3_def)
  then have "ok \<Longrightarrow> v \<noteq> None" using p(2) by simp
  then show "calm c (do {
     (ok, v, ctx) \<leftarrow> SCPI_ParamInt32 ifc c True True;
     if ok then do {n \<leftarrow> v; Some (SCPI_RES_OK, g ctx n)} else Some (res, ctx)})"
    using r assms by auto
qed

lemmas int_setting_callbacks =
  int_setting_behaved [where g = "\<lambda>c v. SCPI_RegSet ifc c n (word_of_int v)" for n, OF RegSet_input]

lemma core_behaved:
  "well_behaved (SCPI_CoreCls ifc)" "well_behaved (SCPI_CoreEse ifc)" "well_behaved (SCPI_CoreEseQ ifc)"
  "well_behaved (SCPI_CoreEsrQ ifc)" "well_behaved (SCPI_CoreIdnQ ifc)" "well_behaved (SCPI_CoreOpc ifc)"
  "well_behaved (SCPI_CoreOpcQ ifc)" "well_behaved (SCPI_CoreRst ifc)" "well_behaved (SCPI_CoreSre ifc)"
  "well_behaved (SCPI_CoreSreQ ifc)" "well_behaved (SCPI_CoreStbQ ifc)" "well_behaved (SCPI_CoreTstQ ifc)"
  "well_behaved SCPI_CoreWai"
proof -
  show "well_behaved (SCPI_CoreEse ifc)" "well_behaved (SCPI_CoreSre ifc)"
    unfolding SCPI_CoreEse_def [abs_def] SCPI_CoreSre_def [abs_def] by (rule int_setting_callbacks)+
  show "well_behaved (SCPI_CoreEseQ ifc)" "well_behaved (SCPI_CoreOpcQ ifc)"
    "well_behaved (SCPI_CoreSreQ ifc)" "well_behaved (SCPI_CoreStbQ ifc)" "well_behaved (SCPI_CoreTstQ ifc)"
    unfolding SCPI_CoreEseQ_def [abs_def] SCPI_CoreOpcQ_def [abs_def] SCPI_CoreSreQ_def [abs_def]
      SCPI_CoreStbQ_def [abs_def] SCPI_CoreTstQ_def [abs_def] by (rule int_query_behaved)+
  show "well_behaved (SCPI_CoreEsrQ ifc)"
    unfolding well_behaved_calm SCPI_CoreEsrQ_def by (intro allI impI calm_result results_calm) simp
  show "well_behaved (SCPI_CoreIdnQ ifc)"
    unfolding well_behaved_calm
  proof (intro allI impI)
    fix c :: "'u scpi_t"
    obtain d where "idnFields ifc (take 4 (idn c)) c = Some d" "same_input c d"
      using idnFields_same by blast
    then show "calm c (SCPI_CoreIdnQ ifc c)" by (simp add: SCPI_CoreIdnQ_def)
  qed
  show "well_behaved (SCPI_CoreRst ifc)"
    unfolding well_behaved_calm
  proof (intro allI impI)
    fix c :: "'u scpi_t"
    show "calm c (SCPI_CoreRst ifc c)"
    proof (cases "if_reset ifc")
      case (Some k)
      then show ?thesis
        using keeps_library_input [OF reset_keeps [OF Some], of c]
        by (cases "k c") (simp add: SCPI_CoreRst_def)
    qed (simp add: SCPI_CoreRst_def)
  qed
qed (simp_all add: well_behaved_calm SCPI_CoreCls_def SCPI_CoreOpc_def SCPI_CoreWai_def Let_def)

lemma minimal_behaved:
  "well_behaved SCPI_Stub" "well_behaved (SCPI_StubQ ifc)" "well_behaved (SCPI_SystemVersionQ ifc)"
  "well_behaved (SCPI_SystemErrorNextQ ifc)" "well_behaved (SCPI_SystemErrorCountQ ifc)"
  "well_behaved (SCPI_StatusQuestionableEventQ ifc)" "well_behaved (SCPI_StatusQuestionableEnableQ ifc)"
  "well_behaved (SCPI_StatusQuestionableEnable ifc)" "well_behaved (SCPI_StatusPreset ifc)"
proof -
  show "well_behaved (SCPI_StubQ ifc)" "well_behaved (SCPI_StatusQuestionableEnableQ ifc)"
    unfolding SCPI_StubQ_def [abs_def] SCPI_StatusQuestionableEnableQ_def [abs_def] by (rule int_query_behaved)+
  show "well_behaved (SCPI_StatusQuestionableEnable ifc)"
    unfolding SCPI_StatusQuestionableEnable_def [abs_def] by (rule int_setting_callbacks)
  show "well_behaved (SCPI_SystemVersionQ ifc)" "well_behaved (SCPI_StatusQuestionableEventQ ifc)"
    unfolding well_behaved_calm SCPI_SystemVersionQ_def SCPI_StatusQuestionableEventQ_def
    by (intro allI impI calm_result characters_calm results_calm; simp)+
  show "well_behaved (SCPI_SystemErrorCountQ ifc)"
    unfolding well_behaved_calm
  proof (intro allI impI)
    fix c :: "'u scpi_t"
    obtain n d where p: "SCPI_ErrorCount c = (n, d)" by fastforce
    have "same_input c d" using ErrorCount_input [of c c] by (simp add: p)
    moreover have "calm d (do {(_, ctx) \<leftarrow> SCPI_ResultInt32 ifc d n; Some (SCPI_RES_OK, ctx)})"
      by (intro calm_bind results_calm) simp
    ultimately show "calm c (SCPI_SystemErrorCountQ ifc c)"
      unfolding SCPI_SystemErrorCountQ_def p Let_def calm_def using same_input_trans by fastforce
  qed
  show "well_behaved (SCPI_SystemErrorNextQ ifc)"
    unfolding well_behaved_calm
  proof (intro allI impI)
    fix c :: "'u scpi_t"
    obtain err d where p: "SCPI_ErrorPop ifc c = (err, d)" by fastforce
    have "same_input c d" using ErrorPop_input [of c c] by (simp add: p)
    moreover have "calm d (do {
        (_, ctx) \<leftarrow> SCPI_ResultInt32 ifc d err;
        (_, ctx) \<leftarrow> SCPI_ResultText ifc ctx (SCPI_ErrorTranslate err);
        Some (SCPI_RES_OK, ctx)})"
      by (intro calm_bind results_calm) simp
    ultimately show "calm c (SCPI_SystemErrorNextQ ifc c)"
      unfolding SCPI_SystemErrorNextQ_def p Let_def calm_def using same_input_trans by fastforce
  qed
qed (simp_all add: well_behaved_calm SCPI_Stub_def SCPI_StatusPreset_def)

end

section \<open>Headers\<close>

lemma header_scan_first: "header_scan xs = (ty, h) \<Longrightarrow> 0 < h \<Longrightarrow> xs \<noteq> [] \<and> hd xs \<noteq> NUL"
  by (cases xs) (auto simp: header_scan_def Let_def opt_def mnem_len_def isalpha_def isupper_def
      islower_def split: prod.splits if_splits)

lemma unit_header_first:
  assumes "unit_scan xs = Some u" "un_header u = (ty, off, h)" "ty \<noteq> SCPI_TOKEN_INVALID" "0 < h"
  shows "off < length xs" "xs ! off \<noteq> NUL"
proof -
  obtain ty' h' where hs: "header_scan (drop (span_of isws xs) xs) = (ty', h')" by fastforce
  obtain ok v r k j where d: "data_scan (drop (span_of isws xs + h') xs) = Some (ok, v, r, k, j)"
    using assms(1) by (auto simp: unit_scan_def Let_def hs)
  obtain e tm where e: "end_scan (drop (span_of isws xs + h' + k) xs) = (e, tm)" by fastforce
  have "off = span_of isws xs" "h = h'"
    using assms(1-3) by (auto simp: unit_scan_def Let_def hs d e split: if_splits)
  then have "drop off xs \<noteq> [] \<and> hd (drop off xs) \<noteq> NUL" using header_scan_first hs assms(4) by blast
  then show "off < length xs" "xs ! off \<noteq> NUL" by (simp, metis drop_all hd_drop_conv_nth not_less)
qed

lemma detect_header:
  assumes "0 < len" "\<forall>x\<in>set m. isascii7bit x"
  obtains r state p where
    "scpiParser_detectProgramMessageUnit m st b len = Some (r, state)" "0 < r" "r \<le> len"
    "tk_ptr (programHeader state) = Some p" "b \<le> p" "0 \<le> tk_len (programHeader state)"
    "int p + tk_len (programHeader state) \<le> int b + r"
    "tk_type (programHeader state) \<noteq> SCPI_TOKEN_INVALID \<Longrightarrow> 0 < tk_len (programHeader state) \<Longrightarrow>
       rd m p \<noteq> NUL"
proof -
  obtain r state where d: "scpiParser_detectProgramMessageUnit m st b len = Some (r, state)" "0 < r"
    "r \<le> len" "token_inside b r (programHeader state)"
    using unit_inside [OF assms(1), of m b st] isascii7bit_rd [OF assms(2)] by auto
  then obtain p where p: "tk_ptr (programHeader state) = Some p" "b \<le> p" "0 \<le> tk_len (programHeader state)"
    "int p + tk_len (programHeader state) \<le> int b + r"
    by (auto simp: token_inside_def)
  have "rd m p \<noteq> NUL"
    if "tk_type (programHeader state) \<noteq> SCPI_TOKEN_INVALID" "0 < tk_len (programHeader state)"
  proof -
    let ?xs = "map (rd m) [b ..< nat (int b + len)]"
    obtain u where u: "unit_scan ?xs = Some u" "state = unit_state b u"
      using d(1) by (auto simp: detect_eq)
    obtain ty off h where h: "un_header u = (ty, off, h)" by (cases "un_header u")
    have "ty \<noteq> SCPI_TOKEN_INVALID" "0 < h" "p = b + off"
      using that p(1) by (auto simp: u(2) unit_state_def h split: prod.splits)
    then show ?thesis using unit_header_first [OF u(1) h] by simp
  qed
  then show thesis using that d(1-3) p by blast
qed

text \<open>On an empty piece of text there is no header and no terminator.\<close>

lemma detect_empty:
  assumes "len \<le> 0"
  obtains state where "scpiParser_detectProgramMessageUnit m st b len = Some (0, state)"
    "tk_type (programHeader state) = SCPI_TOKEN_UNKNOWN" "tk_len (programHeader state) = 0"
    "termination_kind state = SCPI_MESSAGE_TERMINATION_NONE"
proof -
  have "unit_scan [] = Some \<lparr>un_header = (SCPI_TOKEN_UNKNOWN, 0, 0), un_data = (False, 0, 0), un_count = 0,
      un_used = 0, un_term = SCPI_MESSAGE_TERMINATION_NONE\<rparr>"
    by (simp add: unit_scan_def header_scan_def data_scan_def end_scan_def opt_def mnem_len_def Let_def
        newline_len_def span_of_def starts_def)
  moreover have "map (rd m) [b ..< nat (int b + len)] = []" using assms by simp
  ultimately have "scpiParser_detectProgramMessageUnit m st b len = Some (0, unit_state b
      \<lparr>un_header = (SCPI_TOKEN_UNKNOWN, 0, 0), un_data = (False, 0, 0), un_count = 0,
       un_used = 0, un_term = SCPI_MESSAGE_TERMINATION_NONE\<rparr>)"
    by (simp only: detect_eq option.map of_nat_0 unit_text.simps) simp
  then show thesis by (rule that) (simp_all add: unit_state_def)
qed

text \<open>The header before, as \<open>composeCompoundCommand\<close> needs it.\<close>

definition prev_ok :: "mem \<Rightarrow> nat \<Rightarrow> scpi_token \<Rightarrow> bool" where
  "prev_ok m data tok \<longleftrightarrow> (\<forall>pp. tk_ptr tok = Some pp \<longrightarrow>
     0 < tk_len tok \<and> pp + nat (tk_len tok) \<le> data \<and> rd m pp \<noteq> NUL)"

lemma prev_ok_mono: "prev_ok m data tok \<Longrightarrow> data \<le> data' \<Longrightarrow> prev_ok m data' tok"
  by (fastforce simp: prev_ok_def)

lemma compose_returns:
  assumes "tk_ptr current = Some cp" "0 < tk_len current" "cp + nat (tk_len current) \<le> length m"
    "rd m cp \<noteq> NUL" "prev_ok m data prev" "data \<le> cp"
  obtains current' m' p where "composeCompoundCommand m prev current = Some (True, current', m')"
    "tk_ptr current' = Some p" "p + nat (tk_len current') = cp + nat (tk_len current)"
    "0 < tk_len current'" "rd m' p \<noteq> NUL" "length m' = length m" "set m' \<subseteq> set m"
    "drop cp m' = drop cp m" "prev_ok m' data prev"
proof (cases "composeCompoundCommand m prev current = Some (True, current, m)")
  case True
  then show thesis using that assms by blast
next
  case False
  have lt: "cp < length m" using assms(2,3) by simp
  obtain pp where pp: "tk_ptr prev = Some pp" "0 < tk_len prev" "pp + nat (tk_len prev) \<le> data" "rd m pp \<noteq> NUL"
    using False assms(1,2,5) by (cases "tk_ptr prev") (auto simp: composeCompoundCommand_def prev_ok_def)
  let ?i = "lastColon m pp (nat (tk_len prev))"
  have "?i = length (header_path (take (nat (tk_len prev)) (drop pp m)))"
    using pp(3) assms(6) lt by (intro lastColon_eq) simp
  then have le: "?i \<le> nat (tk_len prev)"
    using length_header_path [of "take (nat (tk_len prev)) (drop pp m)"] by simp
  have i: "0 < ?i" "\<not> cp < ?i"
    using False pp assms(1,2,6) le by (auto simp: composeCompoundCommand_def Let_def split: if_splits)
  let ?c = "current\<lparr>tk_ptr := Some (cp - ?i), tk_len := tk_len current + int ?i\<rparr>"
  let ?m = "memmove m (cp - ?i) pp ?i"
  have c: "composeCompoundCommand m prev current = Some (True, ?c, ?m)"
    using False pp assms(1,2) i by (auto simp: composeCompoundCommand_def Let_def split: if_splits)
  have b: "?i \<le> cp" "cp \<le> length m" "pp + ?i \<le> length m" using i lt pp(3) assms(6) le by simp_all
  note mm = memmove_parts [OF b]
  have at: "rd ?m (cp - ?i) = rd m pp"
  proof -
    have "rd ?m (cp - ?i) = hd (drop (cp - ?i) ?m)"
      using lt mm(1) i by (simp add: hd_drop_conv_nth)
    also have "\<dots> = rd m pp"
      using b(3) i(1) unfolding mm(4) by (simp add: hd_drop_conv_nth)
    finally show ?thesis .
  qed
  have same: "rd ?m pp \<noteq> NUL"
  proof (cases "pp = cp - ?i")
    case False
    then have "pp < cp - ?i" using pp(3) assms(6) le i(1) by linarith
    then have "rd ?m pp = rd m pp"
      using mm(1,3) lt by (metis (no_types, lifting) nth_take rd_def)
    then show ?thesis using pp(4) by simp
  qed (use at pp(4) in simp)
  have sub: "set ?m \<subseteq> set m"
    by (auto simp: memmove_def dest: in_set_takeD in_set_dropD)
  show thesis
    by (rule that [OF c, of "cp - ?i"])
      (use mm(1,2) at same sub pp assms(2,5) b(1) in \<open>simp_all add: prev_ok_def nat_add_distrib\<close>)
qed

section \<open>The parser returns\<close>

text \<open>What one or several units of the text before offset \<open>n\<close> may do to the context.\<close>

definition parsed :: "nat \<Rightarrow> 'u scpi_t \<Rightarrow> 'u scpi_t \<Rightarrow> bool" where
  "parsed n c d \<longleftrightarrow> seven_bit d \<and> length (buf_data d) = length (buf_data c) \<and>
     buf_length d = buf_length c \<and> buf_position d = buf_position c \<and>
     drop n (buf_data d) = drop n (buf_data c) \<and> queue_view d = queue_view c"

lemma parsed_input: "seven_bit c \<Longrightarrow> same_input c d \<Longrightarrow> parsed n c d"
  by (simp add: parsed_def same_input_def seven_bit_def)

lemma parsed_same: "parsed n c d \<Longrightarrow> same_input d e \<Longrightarrow> parsed n c e"
  by (simp add: parsed_def same_input_def seven_bit_def)

lemma parsed_trans: "parsed a c d \<Longrightarrow> parsed b d e \<Longrightarrow> a \<le> n \<Longrightarrow> b \<le> n \<Longrightarrow> parsed n c e"
  unfolding parsed_def
  by (metis (no_types, lifting) drop_drop le_add_diff_inverse2)

locale command_set = scpi_writer ifc for ifc :: "'u scpi_interface" +
  fixes cmds :: "'u scpi_command list"
  assumes patterns: "c \<in> set cmds \<Longrightarrow> is_pattern (cmd_pattern c)"
    and callbacks: "c \<in> set cmds \<Longrightarrow> cmd_callback c = Some f \<Longrightarrow> well_behaved f"
begin

lemma searchCommand_returns:
  assumes "0 < BSD_strnlen h len" "set cs \<subseteq> set cmds"
  shows "\<exists>r. searchCommand cs h len i = Some r \<and> (\<forall>j. r = Some j \<longrightarrow> j < i + length cs)"
  using assms(2)
proof (induction cs arbitrary: i)
  case (Cons c cs)
  obtain b where m: "matchCommand (cmd_pattern c) h len None 0 0 = Some (b, None)"
    using matchCommand_returns [OF patterns [of c] assms(1), of 0 0] Cons.prems by auto
  show ?case using m Cons.IH [of "Suc i"] Cons.prems by (cases b) auto
qed simp

lemma processCommand_calm:
  assumes "seven_bit c" "pl_cmd (param_list c) = Some i" "i < length cmds"
  shows "calm c (processCommand ifc cmds c)"
proof -
  have m: "cmds ! i \<in> set cmds" using assms(3) by simp
  have call: "calm d (callCommand ifc (cmds ! i) d)" if seven: "seven_bit d" for d
  proof (cases "cmd_callback (cmds ! i)")
    case (Some f)
    obtain res e where "f d = Some (res, e)" "same_input d e"
      using callbacks [OF m Some] seven unfolding well_behaved_def by blast
    then show ?thesis by (simp add: callCommand_def Some)
  qed (simp add: callCommand_def)
  obtain n d where w: "writeSemicolon ifc c = Some (n, d)" "same_input c d"
    using delimiters_calm(2) [of c] unfolding calm_def by blast
  let ?d = "d\<lparr>cmd_error := False, output_count := 0, input_count := 0\<rparr>"
  have s: "same_input c ?d" using w(2) by simp
  obtain r e where e: "callCommand ifc (cmds ! i) ?d = Some (r, e)" "same_input ?d e"
    using call [of ?d] same_input_seven_bit [OF s] assms(1) by (auto simp: calm_def)
  have "same_input c e" using s e(2) same_input_trans by blast
  then show ?thesis
    by (simp add: processCommand_def current_command_def assms(2,3) w(1) e(1) Let_def)
qed

lemma parseUnit_returns:
  assumes c: "seven_bit c" and len: "0 < len" "int data + len \<le> int (length (buf_data c))"
    and d: "scpiParser_detectProgramMessageUnit (buf_data c) st data len = Some (r, state)"
    and prev: "prev_ok (buf_data c) data prev"
  shows "0 < r \<and> r \<le> len \<and> (\<exists>res prev' d. parseUnit ifc cmds (c\<lparr>parser_state := state\<rparr>) prev result =
           Some (res, prev', d) \<and> parsed (data + nat r) c d \<and> prev_ok (buf_data d) (data + nat r) prev')"
proof -
  let ?m = "buf_data c" and ?hdr = "programHeader state"
  let ?n = "data + nat r"
  obtain p where h: "0 < r" "r \<le> len" "tk_ptr ?hdr = Some p" "data \<le> p" "0 \<le> tk_len ?hdr"
    "int p + tk_len ?hdr \<le> int data + r"
    "tk_type ?hdr \<noteq> SCPI_TOKEN_INVALID \<Longrightarrow> 0 < tk_len ?hdr \<Longrightarrow> rd ?m p \<noteq> NUL"
    using detect_header [OF len(1) c [unfolded seven_bit_def], of st data] d by (metis option.inject prod.inject)
  have stay: "parsed ?n c d \<and> prev_ok (buf_data d) ?n prev" if "same_input (c\<lparr>parser_state := state\<rparr>) d" for d
    using that c prev_ok_mono [OF prev, of ?n] by (simp add: parsed_def same_input_def seven_bit_def)
  show ?thesis
  proof (cases "tk_type ?hdr = SCPI_TOKEN_INVALID \<or> tk_len ?hdr = 0")
    case True
    then have "\<exists>res d. parseUnit ifc cmds (c\<lparr>parser_state := state\<rparr>) prev result = Some (res, prev, d) \<and>
        same_input (c\<lparr>parser_state := state\<rparr>) d"
      by (auto simp: parseUnit_def Let_def)
    then show ?thesis using h(1,2) stay by blast
  next
    case False
    then have hd: "0 < tk_len ?hdr" "rd ?m p \<noteq> NUL" "tk_type ?hdr \<noteq> SCPI_TOKEN_INVALID" using h by auto
    have fit: "p + nat (tk_len ?hdr) \<le> ?n" "?n \<le> length ?m" using h len by linarith+
    obtain hdr m q where k: "composeCompoundCommand ?m prev ?hdr = Some (True, hdr, m)" "tk_ptr hdr = Some q"
      "q + nat (tk_len hdr) = p + nat (tk_len ?hdr)" "0 < tk_len hdr" "rd m q \<noteq> NUL"
      "length m = length ?m" "set m \<subseteq> set ?m" "drop p m = drop p ?m" "prev_ok m data prev"
      by (rule compose_returns [OF h(3) hd(1) _ hd(2) prev h(4)]) (use fit in linarith)
    let ?state = "state\<lparr>programHeader := hdr\<rparr>"
    let ?c = "c\<lparr>buf_data := m, parser_state := ?state\<rparr>"
    have seven: "seven_bit ?c" using c k(7) by (auto simp: seven_bit_def)
    have q: "q < length m" "q \<le> ?n" using k(3,4,6) fit by linarith+
    have dr: "drop ?n m = drop ?n ?m"
      using k(8) fit(1) by (metis add.commute drop_drop le_add_diff_inverse2 le_trans le_add1)
    have fin: "parsed ?n c d \<and> prev_ok (buf_data d) ?n hdr \<and> prev_ok (buf_data d) ?n prev"
      if "same_input ?c d" for d
    proof -
      have "buf_data d = m" "parsed ?n c d"
        using that c seven dr k(6) by (simp_all add: parsed_def same_input_def seven_bit_def)
      moreover have "prev_ok m ?n hdr" using k(2-5) fit(1) by (simp add: prev_ok_def)
      moreover have "prev_ok m ?n prev" using prev_ok_mono [OF k(9)] by simp
      ultimately show ?thesis by simp
    qed
    obtain ch rest where "drop q m = ch # rest" "ch \<noteq> NUL"
      using q(1) k(5) by (metis Cons_nth_drop_Suc rd_less)
    then have nonempty: "0 < BSD_strnlen (drop q m) (nat (tk_len hdr))"
      using k(4) by (cases "nat (tk_len hdr)") auto
    obtain f where f: "searchCommand cmds (drop q m) (nat (tk_len hdr)) 0 = Some f"
      "\<And>j. f = Some j \<Longrightarrow> j < length cmds"
      using searchCommand_returns [OF nonempty subset_refl, of 0] by auto
    have unit: "parseUnit ifc cmds (c\<lparr>parser_state := state\<rparr>) prev result =
      (case f of
         None \<Rightarrow> Some (False, prev, SCPI_ErrorPush ifc ?c SCPI_ERROR_UNDEFINED_HEADER)
       | Some i \<Rightarrow> do {
           (r, ctx) \<leftarrow> processCommand ifc cmds
             (load_params ?state (?c\<lparr>param_list := (param_list ?c)\<lparr>pl_cmd := Some i\<rparr>\<rparr>));
           Some (result \<and> r, programHeader (parser_state ctx), ctx)
         })"
      using hd(1,3) by (cases f) (simp_all add: parseUnit_def k(1,2) findCommandHeader_def f(1) Let_def)
    show ?thesis
    proof (cases f)
      case None
      then show ?thesis
        using h(1,2) fin [of "SCPI_ErrorPush ifc ?c SCPI_ERROR_UNDEFINED_HEADER"] unit by auto
    next
      case (Some i)
      let ?l = "load_params ?state (?c\<lparr>param_list := (param_list ?c)\<lparr>pl_cmd := Some i\<rparr>\<rparr>)"
      have l: "same_input ?c ?l" "pl_cmd (param_list ?l) = Some i" by (simp_all add: load_params_def)
      obtain x e where e: "processCommand ifc cmds ?l = Some (x, e)" "same_input ?l e"
        using processCommand_calm [OF _ l(2) f(2) [OF Some]] same_input_seven_bit [OF l(1)] seven
        by (auto simp: calm_def)
      have "same_input ?c e" "programHeader (parser_state e) = hdr"
        using same_input_trans [OF l(1) e(2)] by (simp_all add: same_input_def)
      then show ?thesis using h(1,2) fin [of e] unit e(1) by (simp add: Some)
    qed
  qed
qed

lemma parseLoop_returns:
  "seven_bit c \<Longrightarrow> 0 \<le> len \<Longrightarrow> int data + len \<le> int (length (buf_data c)) \<Longrightarrow>
     prev_ok (buf_data c) data prev \<Longrightarrow>
     \<exists>res d. parseLoop ifc cmds c data len prev result = Some (res, d) \<and> parsed (data + nat len) c d"
proof (induction "nat len" arbitrary: c data len prev result rule: less_induct)
  case less
  show ?case
  proof (cases "len = 0")
    case True
    obtain state where "scpiParser_detectProgramMessageUnit (buf_data c) (parser_state c) data len = Some (0, state)"
      "tk_type (programHeader state) = SCPI_TOKEN_UNKNOWN" "tk_len (programHeader state) = 0"
      using detect_empty [of len "buf_data c" "parser_state c" data] True by auto
    then show ?thesis
      using True less.prems(1)
      by (subst parseLoop.simps) (simp add: parseUnit_def parsed_def seven_bit_def)
  next
    case False
    then have len: "0 < len" using less.prems(2) by simp
    obtain r state where d: "scpiParser_detectProgramMessageUnit (buf_data c) (parser_state c) data len = Some (r, state)"
      using detect_header [OF len less.prems(1) [unfolded seven_bit_def], of "parser_state c" data] by metis
    obtain res prev' e where u: "0 < r" "r \<le> len"
      "parseUnit ifc cmds (c\<lparr>parser_state := state\<rparr>) prev result = Some (res, prev', e)"
      "parsed (data + nat r) c e" "prev_ok (buf_data e) (data + nat r) prev'"
      using parseUnit_returns [OF less.prems(1) len less.prems(3) d less.prems(4)] by blast
    have n: "nat (int data + r) = data + nat r" using u(1) by simp
    show ?thesis
    proof (cases "r < len")
      case True
      have "\<exists>res' f. parseLoop ifc cmds e (data + nat r) (len - r) prev' res = Some (res', f) \<and>
          parsed (data + nat r + nat (len - r)) e f"
        using u True less.prems(3) by (intro less.hyps) (simp_all add: parsed_def)
      then obtain res' f where f: "parseLoop ifc cmds e (data + nat r) (len - r) prev' res = Some (res', f)"
        "parsed (data + nat r + nat (len - r)) e f" by blast
      have "data + nat r + nat (len - r) = data + nat len" using u(1) True by simp
      then have "parsed (data + nat len) c f"
        using parsed_trans [OF u(4) f(2), of "data + nat len"] by simp
      then show ?thesis
        using f(1) True by (subst parseLoop.simps) (simp add: d u(3) n)
    next
      case False
      then have "r = len" using u(2) by simp
      then show ?thesis using u(4) False by (subst parseLoop.simps) (simp add: d u(3))
    qed
  qed
qed

lemma Parse_returns:
  assumes "seven_bit c" "0 \<le> len" "int data + len \<le> int (length (buf_data c))"
  shows "\<exists>res d. SCPI_Parse ifc cmds c data len = Some (res, d) \<and> parsed (data + nat len) c d"
proof -
  let ?c = "c\<lparr>output_count := 0\<rparr>"
  obtain res d where d: "parseLoop ifc cmds ?c data len no_header True = Some (res, d)"
    "parsed (data + nat len) ?c d"
    using parseLoop_returns [of ?c len data no_header True] assms
    by (auto simp: seven_bit_def prev_ok_def no_header_def)
  obtain n e where e: "writeNewLine ifc d = Some (n, e)" "same_input d e"
    using delimiters_calm(3) [of d] unfolding calm_def by blast
  have "parsed (data + nat len) c e"
    using parsed_same [OF d(2) e(2)] by (simp add: parsed_def)
  then show ?thesis by (simp add: SCPI_Parse_def d(1) e(1))
qed

lemma inputLoop_returns:
  "seven_bit c \<Longrightarrow> length (buf_data c) = buf_length c \<Longrightarrow> buf_position c < buf_length c \<Longrightarrow>
     tot \<le> buf_position c \<Longrightarrow>
     \<exists>res d. inputLoop ifc cmds c tot result = Some (res, d) \<and> seven_bit d \<and>
       length (buf_data d) = buf_length d \<and> buf_length d = buf_length c \<and> buf_position d \<le> buf_position c \<and>
       queue_view d = queue_view c"
proof (induction "2 * buf_position c - tot" arbitrary: c tot result rule: less_induct)
  case less
  note seven = less.prems(1) and l = less.prems(2) and p = less.prems(3) and tot = less.prems(4)
  let ?m = "buf_data c" and ?len = "int (buf_position c) - int tot"
  show ?case
  proof (cases "0 < ?len")
    case False
    obtain state where "scpiParser_detectProgramMessageUnit ?m (parser_state c) tot ?len = Some (0, state)"
      "tk_type (programHeader state) = SCPI_TOKEN_UNKNOWN"
      "termination_kind state = SCPI_MESSAGE_TERMINATION_NONE"
      using detect_empty [of ?len ?m "parser_state c" tot] False by (metis not_less)
    then show ?thesis
      using seven l by (subst inputLoop.simps) (simp add: seven_bit_def)
  next
    case True
    obtain r state where d: "scpiParser_detectProgramMessageUnit ?m (parser_state c) tot ?len = Some (r, state)"
      "0 < r" "r \<le> ?len"
      using detect_header [OF True seven [unfolded seven_bit_def], of "parser_state c" tot] by metis
    define t where "t = tot + nat r"
    have t: "nat (int tot + r) = t" "tot < t" "t \<le> buf_position c"
      using d(2,3) by (simp_all add: t_def)
    let ?c = "c\<lparr>parser_state := state\<rparr>"
    show ?thesis
    proof (cases "termination_kind state = SCPI_MESSAGE_TERMINATION_NL")
      case True
      have "seven_bit ?c" using seven by (simp add: seven_bit_def)
      then obtain res e where e: "SCPI_Parse ifc cmds ?c 0 (int t) = Some (res, e)" "parsed t ?c e"
        using Parse_returns [of ?c "int t" 0] t(3) l p by auto
      let ?e = "e\<lparr>buf_data := memmove (buf_data e) 0 t (buf_position e - t),
                   buf_position := buf_position e - t\<rparr>"
      have pe: "buf_position e = buf_position c" "buf_length e = buf_length c"
        "length (buf_data e) = buf_length c" "seven_bit e" "queue_view e = queue_view c"
        using e(2) l by (simp_all add: parsed_def)
      have h: "2 * buf_position ?e - 0 < 2 * buf_position c - tot" "seven_bit ?e"
        "length (buf_data ?e) = buf_length ?e" "buf_position ?e < buf_length ?e" "0 \<le> buf_position ?e"
        using pe p t tot by (auto simp: seven_bit_def memmove_def dest: in_set_takeD in_set_dropD)
      obtain res' f where f: "inputLoop ifc cmds ?e 0 res = Some (res', f)" "seven_bit f"
        "length (buf_data f) = buf_length f" "buf_length f = buf_length ?e"
        "buf_position f \<le> buf_position ?e" "queue_view f = queue_view ?e"
        using less.hyps [OF h] by blast
      have "inputLoop ifc cmds c tot result = Some (res', f)"
        using f(1) by (subst inputLoop.simps) (simp add: d(1) t(1) True e(1))
      then show ?thesis using f(2-6) pe by auto
    next
      case False
      show ?thesis
      proof (cases "tk_type (programHeader state) = SCPI_TOKEN_UNKNOWN \<or> buf_position c \<le> t")
        case True
        then show ?thesis
          using seven l p by (subst inputLoop.simps) (auto simp: d(1) t(1) False seven_bit_def Let_def)
      next
        case go: False
        have h: "2 * buf_position ?c - t < 2 * buf_position c - tot" "seven_bit ?c"
          "length (buf_data ?c) = buf_length ?c" "buf_position ?c < buf_length ?c" "t \<le> buf_position ?c"
          using seven l p t(2,3) by (simp_all add: seven_bit_def)
        obtain res' f where f: "inputLoop ifc cmds ?c t result = Some (res', f)" "seven_bit f"
          "length (buf_data f) = buf_length f" "buf_length f = buf_length ?c"
          "buf_position f \<le> buf_position ?c" "queue_view f = queue_view ?c"
          using less.hyps [OF h] by blast
        have "inputLoop ifc cmds c tot result = Some (res', f)"
          using f(1) False go by (subst inputLoop.simps) (simp add: d(1) t(1) Let_def)
        then show ?thesis using f(2-6) by auto
      qed
    qed
  qed
qed

end

text \<open>The input buffer between two calls: 7-bit text, and room for the terminating zero.\<close>

definition input_ok :: "'u scpi_t \<Rightarrow> bool" where
  "input_ok c \<longleftrightarrow> seven_bit c \<and> length (buf_data c) = buf_length c \<and> buf_position c < buf_length c"

context command_set begin

lemma Input_returns:
  assumes "input_ok c" "\<forall>x\<in>set data. isascii7bit x"
  shows "\<exists>res d. SCPI_Input ifc cmds c data = Some (res, d) \<and> input_ok d \<and> buf_length d = buf_length c \<and>
    queue_view d = queue_view c"
proof -
  have seven: "\<forall>x\<in>set (buf_data c). isascii7bit x" and l: "length (buf_data c) = buf_length c"
    and p: "buf_position c < buf_length c"
    using assms(1) by (auto simp: input_ok_def seven_bit_def)
  have z: "isascii7bit NUL" by (simp add: isascii7bit_def)
  show ?thesis
  proof (cases "data = []")
    case True
    let ?c = "c\<lparr>buf_data := (buf_data c)[buf_position c := NUL]\<rparr>"
    have "seven_bit ?c" using seven z by (auto simp: seven_bit_def dest: subsetD [OF set_update_subset_insert])
    then obtain res d where d: "SCPI_Parse ifc cmds ?c 0 (int (buf_position c)) = Some (res, d)"
      "parsed (buf_position c) ?c d"
      using Parse_returns [of ?c "int (buf_position c)" 0] l p by auto
    then show ?thesis
      using True l p by (auto simp: SCPI_Input_def input_ok_def parsed_def seven_bit_def)
  next
    case False
    show ?thesis
    proof (cases "int (buf_length c) - int (buf_position c) - 1 < int (length data)")
      case True
      let ?c = "c\<lparr>buf_position := 0, buf_data := (buf_data c)[0 := NUL]\<rparr>"
      have "seven_bit ?c" using seven z by (auto simp: seven_bit_def dest: subsetD [OF set_update_subset_insert])
      moreover have "same_input ?c (SCPI_ErrorPush ifc ?c SCPI_ERROR_INPUT_BUFFER_OVERRUN)" by simp
      ultimately have "input_ok (SCPI_ErrorPush ifc ?c SCPI_ERROR_INPUT_BUFFER_OVERRUN) \<and>
          buf_length (SCPI_ErrorPush ifc ?c SCPI_ERROR_INPUT_BUFFER_OVERRUN) = buf_length c \<and>
          queue_view (SCPI_ErrorPush ifc ?c SCPI_ERROR_INPUT_BUFFER_OVERRUN) = queue_view c"
        using l p by (simp add: same_input_def input_ok_def seven_bit_def)
      then show ?thesis using False True by (auto simp: SCPI_Input_def Let_def)
    next
      case fits: False
      let ?p = "buf_position c" and ?n = "length data"
      let ?m = "(take ?p (buf_data c) @ data @ drop (?p + ?n) (buf_data c))[?p + ?n := NUL]"
      let ?c = "c\<lparr>buf_position := ?p + ?n, buf_data := ?m\<rparr>"
      have n: "?p + ?n < buf_length c" using fits by simp
      have "set ?m \<subseteq> insert NUL (set (buf_data c) \<union> set data)"
        using set_update_subset_insert by (auto dest!: subsetD [OF set_update_subset_insert]
            dest: in_set_takeD in_set_dropD)
      then have h: "seven_bit ?c" "length (buf_data ?c) = buf_length ?c" "buf_position ?c < buf_length ?c"
        "0 \<le> buf_position ?c"
        using seven assms(2) z n l by (auto simp: seven_bit_def)
      obtain res d where d: "inputLoop ifc cmds ?c 0 True = Some (res, d)" "seven_bit d"
        "length (buf_data d) = buf_length d" "buf_length d = buf_length ?c"
        "buf_position d \<le> buf_position ?c" "queue_view d = queue_view ?c"
        using inputLoop_returns [OF h] by blast
      have "SCPI_Input ifc cmds c data = Some (res, d)"
        using d(1) False fits by (simp add: SCPI_Input_def Let_def)
      then show ?thesis using d(2-6) n by (auto simp: input_ok_def)
    qed
  qed
qed

end

section \<open>The mandatory commands\<close>

text \<open>The parts of the patterns of the required commands and of the whole list.\<close>

definition required_parts :: "(pattern_part list \<times> bool) list" where
  "required_parts = [
     ([(False, ''*CLS'')], False), ([(False, ''*ESE'')], False), ([(False, ''*ESE'')], True),
     ([(False, ''*ESR'')], True), ([(False, ''*IDN'')], True), ([(False, ''*OPC'')], False),
     ([(False, ''*OPC'')], True), ([(False, ''*RST'')], False), ([(False, ''*SRE'')], False),
     ([(False, ''*SRE'')], True), ([(False, ''*STB'')], True), ([(False, ''*TST'')], True),
     ([(False, ''*WAI'')], False),
     ([(False, ''SYSTem''), (False, ''ERRor''), (True, ''NEXT'')], True),
     ([(False, ''SYSTem''), (False, ''ERRor''), (False, ''COUNt'')], True),
     ([(False, ''SYSTem''), (False, ''VERSion'')], True),
     ([(False, ''STATus''), (False, ''QUEStionable''), (True, ''EVENt'')], True),
     ([(False, ''STATus''), (False, ''QUEStionable''), (False, ''ENABle'')], False),
     ([(False, ''STATus''), (False, ''QUEStionable''), (False, ''ENABle'')], True),
     ([(False, ''STATus''), (False, ''PRESet'')], False)]"

lemma required_patterns:
  "map cmd_pattern required_commands = map (\<lambda>(ps, q). pattern_text False ps q) required_parts"
  by (simp add: required_commands_def required_parts_def cmd_def rest_text_def)

lemma required_good:
  "list_all (\<lambda>(ps, q). ps \<noteq> [] \<and> list_all good_part ps \<and> length (pattern_text False ps q) \<le> 40)
     required_parts"
  by code_simp

lemma is_pattern_of_parts:
  assumes "list_all (\<lambda>(ps, q). ps \<noteq> [] \<and> list_all good_part ps \<and> length (pattern_text False ps q) \<le> 40) parts"
    and "p \<in> set (map (\<lambda>(ps, q). pattern_text False ps q) parts)"
  shows "is_pattern p"
proof -
  obtain ps q where "(ps, q) \<in> set parts" "p = pattern_text False ps q" using assms(2) by auto
  moreover from this have "ps \<noteq> []" "list_all good_part ps" "length p \<le> 40"
    using assms(1) by (auto simp: list_all_iff)
  moreover from this have "length p < 2 ^ 32" by simp
  ultimately show ?thesis unfolding is_pattern_def by blast
qed

interpretation fw: scpi_writer scpi_ifc
  by unfold_locales (simp add: scpi_ifc_def)

lemma My_CoreTstQ_behaved: "well_behaved My_CoreTstQ"
  unfolding My_CoreTstQ_def [abs_def] by (rule fw.int_query_behaved)

interpretation required: command_set scpi_ifc required_commands
proof unfold_locales
  fix c :: "'a device_scheme scpi_command" and f
  assume c: "c \<in> set required_commands"
  then have "cmd_pattern c \<in> set (map cmd_pattern (required_commands :: 'a device_scheme scpi_command list))"
    by simp
  then show "is_pattern (cmd_pattern c)"
    unfolding required_patterns using is_pattern_of_parts [OF required_good] by blast
  show "cmd_callback c = Some f \<Longrightarrow> well_behaved f"
    using c by (auto simp: required_commands_def cmd_def fw.core_behaved fw.minimal_behaved My_CoreTstQ_behaved)
qed

section \<open>Properties\<close>

text \<open>The context the firmware runs with.\<close>

definition running :: "device scpi_t" where
  "running = SCPI_Init scpi_context"

lemma running_eq:
  "running = started\<lparr>buf_position := 0, idn := [Some ''MANUFACTURE'', Some ''INSTR2013'', Some ''0'', Some ''01-02'']\<rparr>"
  by (simp add: running_def started_def SCPI_Init_def default_idn_def scpi_context_def SCPI_ErrorInit_def
      SCPI_DEFAULT_3_def Let_def)

lemma running_input: "input_ok running"
  by (auto simp: running_eq started_def SCPI_ErrorInit_def scpi_context_def input_ok_def seven_bit_def
      isascii7bit_def SCPI_INPUT_BUFFER_LENGTH_def)

text \<open>C24: The parser ends.  For every command list whose patterns are keyword lists and whose callbacks
  return, \<^verbatim>\<open>SCPI_Parse\<close> comes back on every piece of 7-bit text in the input buffer, whatever it
  contains; the buffer keeps its size, its 7-bit contents and every byte behind the text, and a context that
  has an error queue keeps it and never follows NULL.\<close>

theorem SCPI_Parse_returns:
  assumes "command_set ifc cmds" "seven_bit c" "0 \<le> len" "int data + len \<le> int (length (buf_data c))"
  shows "\<exists>res d. SCPI_Parse ifc cmds c data len = Some (res, d) \<and> seven_bit d \<and>
           length (buf_data d) = length (buf_data c) \<and>
           drop (data + nat len) (buf_data d) = drop (data + nat len) (buf_data c) \<and>
           (error_queue c \<noteq> None \<longrightarrow> error_queue d \<noteq> None \<and> null_used d = null_used c)"
  using command_set.Parse_returns [OF assms] by (auto simp: parsed_def queue_view_iff)

lemma SCPI_Parse_returns_witness:
  "\<exists>res d. SCPI_Parse scpi_ifc required_commands
      (running\<lparr>buf_data := '':BAD *ESR?;:SYST:ERR?;*ESE 1 2'' @ replicate 20 NUL\<rparr>) 0 30 = Some (res, d) \<and>
    drop 30 (buf_data d) = replicate 20 NUL"
proof -
  let ?t = "'':BAD *ESR?;:SYST:ERR?;*ESE 1 2''"
  have "seven_bit (running\<lparr>buf_data := ?t @ replicate 20 NUL\<rparr>)"
    by (auto simp: seven_bit_def isascii7bit_def)
  from SCPI_Parse_returns [OF required.command_set_axioms this, of 30 0]
  show ?thesis by (auto simp: numeral_eq_Suc)
qed

text \<open>C3: Every input is answered.  For such a command list \<^verbatim>\<open>SCPI_Input\<close> comes back on any 7-bit bytes
  it is handed, of any length and cut anywhere, and leaves the input buffer ready for the next
  call, with room for the terminating zero; a context that has an error queue keeps it and never follows
  NULL.\<close>

theorem SCPI_Input_answers:
  assumes "command_set ifc cmds" "input_ok c" "\<forall>x\<in>set data. isascii7bit x"
  shows "\<exists>res d. SCPI_Input ifc cmds c data = Some (res, d) \<and> input_ok d \<and> buf_length d = buf_length c \<and>
           (error_queue c \<noteq> None \<longrightarrow> error_queue d \<noteq> None \<and> null_used d = null_used c)"
  using command_set.Input_returns [OF assms] by (auto simp: queue_view_iff)

lemma SCPI_Input_answers_witness:
  "\<exists>res d. SCPI_Input scpi_ifc required_commands running (''*IDN?'' @ [CHR 0x0A] @ ''SYST:'') = Some (res, d) \<and>
     input_ok d \<and> buf_length d = 256"
proof -
  have "\<forall>x\<in>set (''*IDN?'' @ [CHR 0x0A] @ ''SYST:''). isascii7bit x" by (simp add: isascii7bit_def)
  moreover have "buf_length running = 256"
    by (simp add: running_eq started_def SCPI_ErrorInit_def scpi_context_def SCPI_INPUT_BUFFER_LENGTH_def)
  ultimately show ?thesis
    using SCPI_Input_answers [OF required.command_set_axioms running_input] by metis
qed

end
