(* ===== verification/LineRuns.thy ===== *)
theory LineRuns
  imports ParserProps
begin

text \<open>
  What \<^verbatim>\<open>SCPI_Parse\<close> does with a line, without buffers and offsets: \<open>line_runs\<close> takes the units one
  after the other, completes each header with the path of the header before, and runs the command
  found on exactly the unit's arguments.  The parser, which cuts the text, moves headers inside the
  buffer and keeps pointers into it, is shown to be a run of this specification.
\<close>

section \<open>Lines\<close>

type_synonym line_part = "char list \<times> arg list"

definition unit_ok :: "line_part \<Rightarrow> bool" where
  "unit_ok = (\<lambda>(header, as). (\<exists>ty. scans_header header ty) \<and> NUL \<notin> set header \<and> (\<forall>a\<in>set as. arg_ok a))"

fun line_text :: "line_part list \<Rightarrow> message_termination \<Rightarrow> char list" where
  "line_text [] tm = []"
| "line_text [(header, as)] tm = command_line header as @ term_text tm"
| "line_text ((header, as) # u # us) tm = command_line header as @ '';'' @ line_text (u # us) tm"

lemma header_scan_valid: "header_scan xs = (ty, n) \<Longrightarrow> ty \<noteq> SCPI_TOKEN_INVALID"
  by (auto simp: header_scan_def Let_def split: if_splits prod.splits)

lemma scans_header_facts:
  assumes "scans_header header ty"
  shows "ty \<noteq> SCPI_TOKEN_INVALID" "header \<noteq> []"
proof -
  have "header_scan (header @ []) = (ty, length header)"
    using assms by (simp only: scans_header_def starts_def list.case simp_thms)
  then show "ty \<noteq> SCPI_TOKEN_INVALID" by (rule header_scan_valid)
  show "header \<noteq> []" using assms by (auto simp: scans_header_def)
qed

section \<open>The specification\<close>

text \<open>The context \<open>d\<close> that a command is run with: what the parser has set up for the command with
  index \<open>i\<close>, the header \<open>full\<close> and the arguments \<open>as\<close>; the rest is as in \<open>c\<close>.  No digit or letter
  follows the arguments in memory, where the number conversions would read on.\<close>

definition loads :: "'u scpi_t \<Rightarrow> nat \<Rightarrow> char list \<Rightarrow> arg list \<Rightarrow> 'u scpi_t \<Rightarrow> bool" where
  "loads c i full as d \<longleftrightarrow>
     (\<exists>m state p. d = c\<lparr>buf_data := m, parser_state := state, param_list := p\<rparr> \<and>
        length m = length (buf_data c) \<and> pl_cmd p = Some i \<and>
        lx_pos (pl_lex p) = lx_buffer (pl_lex p) \<and> lx_len (pl_lex p) = int (length (args_text as)) \<and>
        (\<exists>z. drop (lx_buffer (pl_lex p)) m = args_text as @ z \<and> number_ends z) \<and>
        (\<exists>z. drop (addr (pl_raw_data p)) m = full @ z) \<and> pl_raw_position p = 0 \<and>
        pl_raw_length p = length full)"

text \<open>A command that is not found leaves an error.  The header before it stays the one whose path
  counts, but the search may have overwritten it when the unknown header was completed with its path.\<close>

inductive line_runs ::
  "'u scpi_interface \<Rightarrow> 'u scpi_command list \<Rightarrow> char list \<Rightarrow> line_part list \<Rightarrow> 'u scpi_t \<Rightarrow> bool \<Rightarrow>
     'u scpi_t \<Rightarrow> bool" for ifc cmds where
  line_end: "line_runs ifc cmds prev [] c True c"
| line_run:
    "full = composed prev header @ header \<Longrightarrow>
     searchCommand cmds full (length full) 0 = Some (Some i) \<Longrightarrow> loads c i full as d \<Longrightarrow>
     processCommand ifc cmds d = Some (r, e) \<Longrightarrow> line_runs ifc cmds full us e r' f \<Longrightarrow>
     line_runs ifc cmds prev ((header, as) # us) c (r \<and> r') f"
| line_unknown:
    "full = composed prev header @ header \<Longrightarrow>
     searchCommand cmds full (length full) 0 = Some None \<Longrightarrow>
     d = SCPI_ErrorPush ifc (c\<lparr>buf_data := m, parser_state := state\<rparr>) SCPI_ERROR_UNDEFINED_HEADER \<Longrightarrow>
     length m = length (buf_data c) \<Longrightarrow>
     length prev' = length prev \<Longrightarrow> (composed prev header = [] \<longrightarrow> prev' = prev) \<Longrightarrow>
     line_runs ifc cmds prev' us d r' f \<Longrightarrow>
     line_runs ifc cmds prev ((header, as) # us) c False f"

inductive_cases line_runs_nilE: "line_runs ifc cmds prev [] c r f"
inductive_cases line_runs_consE: "line_runs ifc cmds prev ((header, as) # us) c r f"

section \<open>Headers in the buffer\<close>

text \<open>The token \<open>tok\<close> holds the text \<open>prev\<close>, before offset \<open>data\<close>.\<close>

definition holds :: "mem \<Rightarrow> nat \<Rightarrow> scpi_token \<Rightarrow> char list \<Rightarrow> bool" where
  "holds m data tok prev \<longleftrightarrow>
     (if prev = [] then tk_ptr tok = None
      else \<exists>pp. tk_ptr tok = Some pp \<and> tk_len tok = int (length prev) \<and> pp + length prev \<le> data \<and>
             token_text m tok = prev)"

lemma set_composed: "set (composed prev header) \<subseteq> set prev"
proof -
  have "set (dropWhile P xs) \<subseteq> set xs" for P and xs :: "char list" by (induction xs) auto
  then have "set (header_path prev) \<subseteq> set prev" by (metis header_path_def set_rev)
  then show ?thesis by (simp add: composed_def)
qed

lemma composed_Nil [simp]: "composed [] header = []"
  by (simp add: composed_def header_path_def)

lemma token_text_split: "tk_ptr tok = Some p \<Longrightarrow> nat (tk_len tok) = length t \<Longrightarrow> token_text m tok = t \<Longrightarrow>
    drop p m = t @ drop (p + length t) m"
  using append_take_drop_id [of "length t" "drop p m"] by (simp add: token_text_def add.commute)

lemma compose_header:
  assumes m: "m = pre @ header @ behind" "data = length pre" "header \<noteq> []" "hd header \<noteq> NUL"
    and prev: "holds m data tok prev" "NUL \<notin> set prev"
    and hdr: "tk_ptr hdr = Some data" "tk_len hdr = int (length header)"
  obtains hdr' pre' prev' where
    "composeCompoundCommand m tok hdr = Some (True, hdr', pre' @ header @ behind)" "length pre' = length pre"
    "set pre' \<subseteq> set m"
    "holds (pre' @ header @ behind) (data + length header) hdr' (composed prev header @ header)"
    "holds (pre' @ header @ behind) data tok prev'" "length prev' = length prev" "set prev' \<subseteq> set prev"
    "composed prev header = [] \<longrightarrow> prev' = prev"
proof (cases "prev = []")
  case True
  then have "composeCompoundCommand m tok hdr = Some (True, hdr, m)"
    using prev(1) m(3) hdr by (simp add: holds_def composeCompoundCommand_def)
  moreover have "holds m (data + length header) hdr header"
    using hdr m by (simp add: holds_def token_text_def)
  ultimately show thesis using that [of hdr pre prev] True prev(1) m(1) by simp
next
  case False
  then obtain pp where pp: "tk_ptr tok = Some pp" "tk_len tok = int (length prev)" "pp + length prev \<le> data"
    "token_text m tok = prev" using prev(1) by (auto simp: holds_def)
  have h: "token_text m hdr = header" using hdr m(1,2) by (simp add: token_text_def)
  have len: "0 < tk_len tok" "0 < tk_len hdr" "data + nat (tk_len hdr) \<le> length m"
    using False m pp(2) hdr(2) by simp_all
  obtain hdr' m' where c: "composeCompoundCommand m tok hdr = Some (True, hdr', m')"
    "token_text m' hdr' = composed prev header @ header" "length m' = length m" "drop data m' = drop data m"
    "take (addr (tk_ptr hdr')) m' = take (addr (tk_ptr hdr')) m"
    using compose_path [OF pp(1) hdr(1) len(1,2) _ len(3)] pp h by auto
  have "rd m data = hd header" using m by (simp add: rd_def nth_append hd_conv_nth)
  moreover have "pp < length m" using pp(3) m(1-3) by (cases header) simp_all
  then have "rd m pp = hd prev" using hd_token_text [OF pp(1) len(1), of m] pp(4) by simp
  then have "rd m pp \<noteq> NUL" using prev(2) hd_in_set [OF False] by metis
  then have "prev_ok m data tok" using pp(1-3) False by (simp add: prev_ok_def)
  ultimately obtain p where p: "tk_ptr hdr' = Some p" "p + nat (tk_len hdr') = data + length header"
    "0 < tk_len hdr'" "set m' \<subseteq> set m"
    using compose_returns [OF hdr(1) len(2,3), of data tok] c(1) m(4) hdr(2) by auto
  have l: "nat (tk_len hdr') = length (composed prev header @ header)"
    using p(2) c(3) len(3) hdr(2) by (simp add: c(2) [symmetric] token_text_def p(1))
  then have pd: "p + length (composed prev header) = data" using p(2) by simp
  have m': "m' = take data m' @ header @ behind"
    using c(4) m(1,2) append_take_drop_id [of data m'] by simp
  have "holds m' (data + length header) hdr' (composed prev header @ header)"
    using p(1,3) l m(3) c(2) pd by (auto simp: holds_def)
  moreover define prev' where "prev' = token_text m' tok"
  have lp: "length prev' = length prev" using pp c(3) m(1,2) by (simp add: prev'_def token_text_def)
  have "holds m' data tok prev'" using pp lp False by (auto simp: holds_def prev'_def)
  moreover have "set prev' \<subseteq> set prev"
  proof
    fix x assume "x \<in> set prev'"
    then obtain j where j: "j < length prev" "x = prev' ! j" by (metis in_set_conv_nth lp)
    have le: "pp + j < data" using pp(3) j(1) by simp
    have lm: "pp + j < length m" using le m(1,2) by simp
    have x: "x = m' ! (pp + j)" using j lm c(3) by (simp add: prev'_def token_text_def pp(1,2))
    show "x \<in> set prev"
    proof (cases "pp + j < p")
      case True
      then have "x = m ! (pp + j)" using c(5) unfolding x p(1) addr_simps by (metis nth_take)
      also have "\<dots> = prev ! j" using pp(1,2) j(1) lm unfolding pp(4) [symmetric] token_text_def by simp
      finally show ?thesis using j(1) by simp
    next
      case False
      then have "x = drop p m' ! (pp + j - p)" using x lm c(3) by simp
      also have "\<dots> = composed prev header ! (pp + j - p)"
      proof -
        have i: "pp + j - p < length (composed prev header)" using le pd False by linarith
        then show ?thesis
          unfolding token_text_split [OF p(1) l c(2)] append_assoc nth_append by simp
      qed
      also have "\<dots> \<in> set (composed prev header)" using le pd False by (intro nth_mem) linarith
      finally show ?thesis using set_composed by blast
    qed
  qed
  moreover have "composed prev header = [] \<longrightarrow> prev' = prev"
  proof
    assume "composed prev header = []"
    then have "p = data" using pd by simp
    then have "m' = m" using c(4,5) p(1) by (metis addr_simps(2) append_take_drop_id)
    then show "prev' = prev" by (simp add: prev'_def pp(4))
  qed
  moreover have "length (take data m') = length pre" using c(3) m(1,2) by simp
  moreover have "set (take data m') \<subseteq> set m" using p(4) by (meson order_trans set_take_subset)
  ultimately show thesis
    using that [of hdr' "take data m'" prev'] c(1) lp m' by presburger
qed

section \<open>The parser is a run\<close>

lemma line_text_Cons:
  "line_text ((header, as) # us) tm =
     command_line header as @ term_text (if us = [] then tm else SCPI_MESSAGE_TERMINATION_SEMICOLON) @
     line_text us tm"
  by (cases us) auto

lemma line_text_pos: "us \<noteq> [] \<Longrightarrow> \<forall>u\<in>set us. unit_ok u \<Longrightarrow> 0 < length (line_text us tm)"
  by (cases us) (auto simp: line_text_Cons unit_ok_def command_line_def dest: scans_header_facts)

lemma holds_mono: "holds m data tok prev \<Longrightarrow> data \<le> data' \<Longrightarrow> holds m data' tok prev"
  by (fastforce simp: holds_def)

lemma load_params_loads:
  assumes "m = pre @ command_line header as @ behind" "holds m n hdr full" "full \<noteq> []"
    "length m = length (buf_data c)" "number_ends behind"
  shows "loads c i full as (load_params ((line_state (length pre) ty header as tm)\<lparr>programHeader := hdr\<rparr>)
           (c\<lparr>buf_data := m, parser_state := state, param_list := (param_list c)\<lparr>pl_cmd := Some i\<rparr>\<rparr>))"
proof -
  obtain p where p: "tk_ptr hdr = Some p" "tk_len hdr = int (length full)" "token_text m hdr = full"
    using assms(2,3) by (auto simp: holds_def)
  have 1: "drop p m = full @ drop (p + length full) m" using token_text_split [OF p(1) _ p(3)] p(2) by simp
  have 2: "\<exists>z. drop (length pre + length header + (if as = [] then 0 else 1)) m = args_text as @ z \<and> number_ends z"
    using assms(5) by (simp add: assms(1) command_line_def)
  let ?st = "(line_state (length pre) ty header as tm)\<lparr>programHeader := hdr\<rparr>"
  let ?l = "load_params ?st
    (c\<lparr>buf_data := m, parser_state := state, param_list := (param_list c)\<lparr>pl_cmd := Some i\<rparr>\<rparr>)"
  have "?l = c\<lparr>buf_data := m, parser_state := state, param_list := param_list ?l\<rparr>"
    by (simp add: load_params_def)
  moreover have "pl_cmd (param_list ?l) = Some i \<and> lx_pos (pl_lex (param_list ?l)) = lx_buffer (pl_lex (param_list ?l)) \<and>
      lx_len (pl_lex (param_list ?l)) = int (length (args_text as)) \<and>
      lx_buffer (pl_lex (param_list ?l)) = length pre + length header + (if as = [] then 0 else 1) \<and>
      pl_raw_data (param_list ?l) = Some p \<and> pl_raw_position (param_list ?l) = 0 \<and>
      pl_raw_length (param_list ?l) = length full"
    using p(1,2) by (simp add: load_params_def line_state_def)
  ultimately show ?thesis
    using assms(4) 1 2 unfolding loads_def by (metis addr_simps(2))
qed

context command_set begin

lemma search_header:
  assumes "full \<noteq> []" "NUL \<notin> set full" "set cs \<subseteq> set cmds"
  shows "searchCommand cs (full @ behind) (length full) i = searchCommand cs full (length full) i"
  using assms(3)
proof (induction cs arbitrary: i)
  case (Cons c cs)
  obtain b where b: "\<And>tail. matchCommand (cmd_pattern c) (full @ tail) (length full) None 0 0 = Some (b, None)"
    using matchCommand_header [OF patterns [of c] assms(1,2), of 0 0] Cons.prems by auto
  show ?case using b [of behind] b [of "[]"] Cons by simp
qed simp

lemma parseUnit_runs:
  assumes ok: "unit_ok (header, as)" "scans_header header ty"
    and m: "buf_data c = pre @ command_line header as @ behind" "number_ends behind"
    and c: "seven_bit c" and prev: "holds (buf_data c) (length pre) tok prev" "NUL \<notin> set prev"
    and run: "\<And>prev' tok' e pre'. length pre' = length pre \<Longrightarrow>
      buf_data e = pre' @ command_line header as @ behind \<Longrightarrow> seven_bit e \<Longrightarrow>
      holds (buf_data e) (length pre + length header) tok' prev' \<Longrightarrow> NUL \<notin> set prev' \<Longrightarrow>
      \<exists>r f. K e tok' r f \<and> line_runs ifc cmds prev' us e r f"
  shows "\<exists>x tok' e r f. (\<forall>result. parseUnit ifc cmds (c\<lparr>parser_state := line_state (length pre) ty header as tm\<rparr>)
      tok result = Some (result \<and> x, tok', e)) \<and> K e tok' r f \<and>
      line_runs ifc cmds prev ((header, as) # us) c (x \<and> r) f"
proof -
  let ?st = "line_state (length pre) ty header as tm" and ?full = "composed prev header @ header"
  note ty = scans_header_facts [OF ok(2)]
  have nul: "NUL \<notin> set header" using ok(1) by (simp add: unit_ok_def)
  define args where "args = (if as = [] then [] else '' '' @ args_text as)"
  have line: "command_line header as @ behind = header @ (args @ behind)" by (simp add: command_line_def args_def)
  have m': "buf_data c = pre @ header @ (args @ behind)" by (simp only: m(1) line)
  obtain hdr pre' prev' where k:
    "composeCompoundCommand (buf_data c) tok (programHeader ?st) = Some (True, hdr, pre' @ header @ args @ behind)"
    "length pre' = length pre" "set pre' \<subseteq> set (buf_data c)"
    "holds (pre' @ header @ args @ behind) (length pre + length header) hdr ?full"
    "holds (pre' @ header @ args @ behind) (length pre) tok prev'" "length prev' = length prev"
    "set prev' \<subseteq> set prev" "composed prev header = [] \<longrightarrow> prev' = prev"
    by (rule compose_header [OF m' refl ty(2) _ prev, of "programHeader ?st"])
      (use nul ty(2) in \<open>auto simp: line_state_def dest: hd_in_set\<close>)
  let ?m = "pre' @ header @ args @ behind" and ?st' = "?st\<lparr>programHeader := hdr\<rparr>"
  let ?c = "c\<lparr>buf_data := ?m, parser_state := ?st'\<rparr>"
  have mm: "?m = pre' @ command_line header as @ behind" "length ?m = length (buf_data c)"
    by (simp_all add: line m' k(2))
  have full: "?full \<noteq> []" "NUL \<notin> set ?full" using ty(2) nul set_composed [of prev header] prev(2) by auto
  have seven: "seven_bit ?c" using c k(3) m' by (auto simp: seven_bit_def)
  obtain q where q: "tk_ptr hdr = Some q" "tk_len hdr = int (length ?full)" "token_text ?m hdr = ?full"
    using k(4) full(1) by (auto simp: holds_def)
  obtain z where z: "drop q ?m = ?full @ z" using token_text_split [OF q(1) _ q(3)] q(2) by auto
  obtain s where s: "searchCommand cmds ?full (length ?full) 0 = Some s" "\<And>j. s = Some j \<Longrightarrow> j < length cmds"
    using searchCommand_returns [of ?full "length ?full" cmds 0] strnlen_header [OF full(2), of "[]"] full(1)
    by auto
  have hdr: "programHeader ?st = \<lparr>tk_type = ty, tk_ptr = Some (length pre), tk_len = int (length header)\<rparr>"
    by (simp add: line_state_def)
  have pos: "0 < tk_len (programHeader ?st)" "tk_type (programHeader ?st) \<noteq> SCPI_TOKEN_INVALID"
    using ty by (simp_all add: hdr)
  have find: "findCommandHeader cmds ?c (drop q ?m) (length ?full) =
      Some (case s of Some i \<Rightarrow> (True, ?c\<lparr>param_list := (param_list ?c)\<lparr>pl_cmd := Some i\<rparr>\<rparr>) | None \<Rightarrow> (False, ?c))"
    unfolding findCommandHeader_def z search_header [OF full subset_refl] s(1) by (cases s) simp_all
  have nat: "nat (tk_len hdr) = length ?full" by (simp add: q(2))
  have unit: "parseUnit ifc cmds (c\<lparr>parser_state := ?st\<rparr>) tok result =
      (case s of
         None \<Rightarrow> Some (False, tok, SCPI_ErrorPush ifc ?c SCPI_ERROR_UNDEFINED_HEADER)
       | Some i \<Rightarrow> do {
           (r, ctx) \<leftarrow> processCommand ifc cmds
             (load_params ?st' (?c\<lparr>param_list := (param_list ?c)\<lparr>pl_cmd := Some i\<rparr>\<rparr>));
           Some (result \<and> r, programHeader (parser_state ctx), ctx)
         })" for result
    using pos find k(1) by (cases s) (simp_all add: parseUnit_def nat q(1) Let_def)
  show ?thesis
  proof (cases s)
    case None
    let ?e = "SCPI_ErrorPush ifc ?c SCPI_ERROR_UNDEFINED_HEADER"
    have same: "same_input ?c ?e" by simp
    then have e: "buf_data ?e = ?m" "seven_bit ?e"
      using same_input_seven_bit [OF same] seven by (simp_all add: same_input_def)
    have "holds ?m (length pre + length header) tok prev'" using k(5) by (rule holds_mono) simp
    then obtain r f where f: "K ?e tok r f" "line_runs ifc cmds prev' us ?e r f"
      using run [OF k(2), of ?e tok prev'] e k(7) prev(2) mm(1) by auto
    have "line_runs ifc cmds prev ((header, as) # us) c False f"
      using line_unknown [OF refl _ refl mm(2) k(6,8) f(2)] s(1) None by simp
    moreover have "parseUnit ifc cmds (c\<lparr>parser_state := ?st\<rparr>) tok result = Some (result \<and> False, tok, ?e)" for result
      by (simp add: unit None)
    ultimately show ?thesis
      using f(1) by - (rule exI [of _ False], rule exI [of _ tok], rule exI [of _ ?e], rule exI [of _ r], rule exI [of _ f], simp)
  next
    case (Some i)
    let ?l = "load_params ?st' (?c\<lparr>param_list := (param_list ?c)\<lparr>pl_cmd := Some i\<rparr>\<rparr>)"
    have l: "loads c i ?full as ?l"
      using load_params_loads [OF mm(1) k(4) full(1) mm(2) m(2)] k(2) by simp
    have li: "same_input ?c ?l" "pl_cmd (param_list ?l) = Some i" by (simp_all add: load_params_def)
    obtain x e where e: "processCommand ifc cmds ?l = Some (x, e)" "same_input ?l e"
      using processCommand_calm [OF _ li(2) s(2) [OF Some]] same_input_seven_bit [OF li(1)] seven
      by (auto simp: calm_def)
    have same: "same_input ?c e" using same_input_trans [OF li(1) e(2)] .
    then have e': "buf_data e = ?m" "seven_bit e" "programHeader (parser_state e) = hdr"
      using same_input_seven_bit [OF same] seven by (simp_all add: same_input_def)
    obtain r f where f: "K e hdr r f" "line_runs ifc cmds ?full us e r f"
      using run [OF k(2), of e hdr ?full] e' k(4) full(2) mm(1) by auto
    have "line_runs ifc cmds prev ((header, as) # us) c (x \<and> r) f"
      using line_run [OF refl _ l e(1) f(2)] s(1) Some by simp
    moreover have "parseUnit ifc cmds (c\<lparr>parser_state := ?st\<rparr>) tok result = Some (result \<and> x, hdr, e)" for result
      using e(1) e'(3) by (simp add: unit Some)
    ultimately show ?thesis
      using f(1) by - (rule exI [of _ x], rule exI [of _ hdr], rule exI [of _ e], rule exI [of _ r], rule exI [of _ f], simp)
  qed
qed

lemma parseLoop_runs:
  assumes "us \<noteq> []" "\<forall>u\<in>set us. unit_ok u" "buf_data c = pre @ line_text us tm @ post" "seven_bit c"
    "holds (buf_data c) (length pre) tok prev" "NUL \<notin> set prev" "number_ends (term_text tm @ post)"
  shows "\<exists>r f. (\<forall>result. parseLoop ifc cmds c (length pre) (int (length (line_text us tm))) tok result =
      Some (result \<and> r, f)) \<and> line_runs ifc cmds prev us c r f"
  using assms
proof (induction us arbitrary: c pre tok prev)
  case (Cons u us)
  obtain header bs where u: "u = (header, bs)" by (cases u)
  define tm' where "tm' = (if us = [] then tm else SCPI_MESSAGE_TERMINATION_SEMICOLON)"
  obtain ty where ok: "unit_ok (header, bs)" "scans_header header ty" "\<forall>a\<in>set bs. arg_ok a"
    using Cons.prems(2) by (auto simp: u unit_ok_def)
  have tail: "tm' \<noteq> SCPI_MESSAGE_TERMINATION_NONE \<or> line_text us tm = []" by (simp add: tm'_def)
  have cut: "line_text (u # us) tm = command_line header bs @ term_text tm' @ line_text us tm"
    by (simp add: u line_text_Cons tm'_def)
  let ?n = "length (command_line header bs) + length (term_text tm')"
  let ?st = "line_state (length pre) ty header bs tm'"
  have detect: "scpiParser_detectProgramMessageUnit (buf_data c) (parser_state c) (length pre)
      (int (length (line_text (u # us) tm))) = Some (int ?n, ?st)"
    unfolding cut by (rule detect_line [OF _ ok(2,3) tail refl]) (simp add: Cons.prems(3) cut)
  define K where "K = (\<lambda>e tok' r f. if us = [] then r = True \<and> f = e
    else \<forall>result. parseLoop ifc cmds e (length pre + ?n) (int (length (line_text us tm))) tok' result =
      Some (result \<and> r, f))"
  have run: "\<exists>r f. K e tok' r f \<and> line_runs ifc cmds prev' us e r f"
    if "length pre' = length pre" "buf_data e = pre' @ command_line header bs @ term_text tm' @ line_text us tm @ post"
      "seven_bit e" "holds (buf_data e) (length pre + length header) tok' prev'" "NUL \<notin> set prev'"
    for prev' tok' e pre'
  proof (cases "us = []")
    case True
    then show ?thesis by (auto simp: K_def intro: line_end)
  next
    case False
    let ?pre = "pre' @ command_line header bs @ term_text tm'"
    have "holds (buf_data e) (length ?pre) tok' prev'"
      by (rule holds_mono [OF that(4)]) (simp add: that(1) command_line_def)
    then show ?thesis
      using Cons.IH [OF False _ _ that(3) _ that(5) Cons.prems(7), of ?pre tok'] Cons.prems(2) that(1,2) False
      by (simp add: K_def add.assoc)
  qed
  have ends: "number_ends (term_text tm' @ line_text us tm @ post)"
    using Cons.prems(7) by (simp add: tm'_def number_ends_def isalnum_def isalpha_def isupper_def islower_def isdigit_def)
  obtain x tok' e r f where p: "\<And>result. parseUnit ifc cmds (c\<lparr>parser_state := ?st\<rparr>) tok result = Some (result \<and> x, tok', e)"
    "K e tok' r f" "line_runs ifc cmds prev (u # us) c (x \<and> r) f"
    using parseUnit_runs [OF ok(1,2) _ ends Cons.prems(4-6), of K us tm'] run
      Cons.prems(3) cut u by (auto simp del: term_text.simps)
  have "parseLoop ifc cmds c (length pre) (int (length (line_text (u # us) tm))) tok result = Some (result \<and> (x \<and> r), f)"
    for result
  proof -
    have len: "length (line_text (u # us) tm) = ?n + length (line_text us tm)" by (simp add: cut)
    show ?thesis
    proof (cases "us = []")
      case True
      then have "r \<and> f = e" "length (line_text us tm) = 0" using p(2) by (simp_all add: K_def)
      then show ?thesis
        unfolding parseLoop.simps [of ifc cmds c] detect using p(1) [of result] by (simp add: len)
    next
      case False
      then have "0 < length (line_text us tm)" using line_text_pos Cons.prems(2) by simp
      moreover have "nat (int (length pre) + (int (length (command_line header bs)) + int (length (term_text tm')))) =
          length pre + ?n" by simp
      moreover have "parseLoop ifc cmds e (length pre + ?n) (int (length (line_text us tm))) tok' (result \<and> x) =
          Some ((result \<and> x) \<and> r, f)"
        using p(2) False by (simp add: K_def)
      ultimately show ?thesis
        unfolding parseLoop.simps [of ifc cmds c] detect using p(1) [of result]
        by (simp add: len conj_assoc)
    qed
  qed
  then show ?case using p(3) by blast
qed simp

lemma Parse_runs:
  assumes "us \<noteq> []" "\<forall>u\<in>set us. unit_ok u" "buf_data c = pre @ line_text us tm @ post" "seven_bit c"
    "number_ends (term_text tm @ post)"
  shows "\<exists>r d k e. line_runs ifc cmds [] us (c\<lparr>output_count := 0\<rparr>) r d \<and> writeNewLine ifc d = Some (k, e) \<and>
    SCPI_Parse ifc cmds c (length pre) (int (length (line_text us tm))) = Some (r, e)"
proof -
  have "holds (buf_data c) (length pre) no_header []" by (simp add: holds_def no_header_def)
  then obtain r d where d: "\<forall>result. parseLoop ifc cmds (c\<lparr>output_count := 0\<rparr>) (length pre)
      (int (length (line_text us tm))) no_header result = Some (result \<and> r, d)"
    "line_runs ifc cmds [] us (c\<lparr>output_count := 0\<rparr>) r d"
    using parseLoop_runs [of us "c\<lparr>output_count := 0\<rparr>" pre tm post no_header "[]"] assms
    by (auto simp: seven_bit_def)
  obtain k e where "writeNewLine ifc d = Some (k, e)"
    using delimiters_calm(3) [of d] unfolding calm_def by blast
  then show ?thesis using d by (auto simp: SCPI_Parse_def)
qed

end

section \<open>Properties\<close>

text \<open>C1: The parser implements the line specification.  Wherever a line of program message units lies in the
  input buffer, each a header with its arguments, \<^verbatim>\<open>SCPI_Parse\<close> behaves as the run that takes the units
  one after the other, completes each header with the path of the header before it, looks the
  completed header up in the command list and runs what it finds on exactly that unit's
  arguments (or queues the undefined header error), and then ends the response.  The line ends with
  a terminator, or no digit or letter follows it in memory.\<close>

theorem parse_runs_commands:
  assumes "command_set ifc cmds" "us \<noteq> []" "\<forall>u\<in>set us. unit_ok u"
    "buf_data c = pre @ line_text us tm @ post" "seven_bit c"
    "number_ends (term_text tm @ post)"
  shows "\<exists>r d k e. line_runs ifc cmds [] us (c\<lparr>output_count := 0\<rparr>) r d \<and> writeNewLine ifc d = Some (k, e) \<and>
    SCPI_Parse ifc cmds c (length pre) (int (length (line_text us tm))) = Some (r, e)"
  by (rule command_set.Parse_runs [OF assms])

lemma parse_runs_commands_witness:
  "\<exists>r d k e. line_runs scpi_ifc required_commands []
      [('':STAT:QUES:ENAB'', [Arg_int False 5]), (''ENAB?'', []), (''*ESR?'', [])]
      (running\<lparr>buf_data := '':STAT:QUES:ENAB 5;ENAB?;*ESR?'' @ [CHR 0x0A, NUL], output_count := 0\<rparr>) r d \<and>
    writeNewLine scpi_ifc d = Some (k, e) \<and>
    SCPI_Parse scpi_ifc required_commands
      (running\<lparr>buf_data := '':STAT:QUES:ENAB 5;ENAB?;*ESR?'' @ [CHR 0x0A, NUL]\<rparr>) 0 30 = Some (r, e)"
proof -
  have "is_mnemonic ''STAT'' \<and> is_mnemonic ''QUES'' \<and> is_mnemonic ''ENAB'' \<and> is_mnemonic ''ESR''"
    by (simp add: is_mnemonic_def isMnemonicChar_def isalnum_def isalpha_def isupper_def)
  then have "unit_ok ('':STAT:QUES:ENAB'', [Arg_int False 5])" "unit_ok (''ENAB?'', [])" "unit_ok (''*ESR?'', [])"
    using scans_compound [of "[''STAT'', ''QUES'', ''ENAB'']" True False]
      scans_compound [of "[''ENAB'']" False True] scans_common [of "''ESR''" True]
    by (auto simp: unit_ok_def header_text_def common_text_def)
  then have us: "\<forall>u\<in>set [('':STAT:QUES:ENAB'', [Arg_int False 5]), (''ENAB?'', []), (''*ESR?'', [])]. unit_ok u"
    by simp
  have n: "num_text 10 5 = ''5''" by (subst num_text.simps) (simp add: dchar_def digit_chars_def)
  let ?c = "running\<lparr>buf_data := '':STAT:QUES:ENAB 5;ENAB?;*ESR?'' @ [CHR 0x0A, NUL]\<rparr>"
  have t: "line_text [('':STAT:QUES:ENAB'', [Arg_int False 5]), (''ENAB?'', []), (''*ESR?'', [])]
      SCPI_MESSAGE_TERMINATION_NL = '':STAT:QUES:ENAB 5;ENAB?;*ESR?'' @ [CHR 0x0A]"
    by (simp add: command_line_def n)
  have "seven_bit ?c" by (auto simp: seven_bit_def isascii7bit_def)
  from parse_runs_commands [OF required.command_set_axioms _ us _ this,
      of "[]" SCPI_MESSAGE_TERMINATION_NL "[NUL]", unfolded t]
  show ?thesis
    by (simp add: number_ends_def isalnum_def isalpha_def isupper_def islower_def isdigit_def)
qed

end
