(* ===== verification/InputProps.thy ===== *)
theory InputProps
  imports LineRuns
begin

text \<open>
  What a command and a piece of input leave behind: the errors of \<^verbatim>\<open>processCommand\<close>, the overrun of the
  input buffer, and that \<^verbatim>\<open>SCPI_Input\<close> does not depend on how a line is cut into pieces.
\<close>

section \<open>The errors of one command\<close>

definition parameters_left :: "'u scpi_t \<Rightarrow> bool" where
  "parameters_left c =
     (let state = pl_lex (param_list c) in int (lx_pos state) < int (lx_buffer state) + lx_len state)"

text \<open>What the library reports after a callback that ended with \<open>r\<close> in the context \<open>d\<close>.\<close>

definition reported :: "scpi_result \<Rightarrow> 'u scpi_t \<Rightarrow> int list" where
  "reported r d =
     (if cmd_error d then []
      else if r \<noteq> SCPI_RES_OK then [SCPI_ERROR_EXECUTION_ERROR]
      else if parameters_left d then [SCPI_ERROR_PARAMETER_NOT_ALLOWED]
      else [])"

definition run_callback :: "'u scpi_command \<Rightarrow> 'u scpi_callback" where
  "run_callback entry ctx = (case cmd_callback entry of None \<Rightarrow> Some (SCPI_RES_OK, ctx) | Some f \<Rightarrow> f ctx)"

lemma ErrorPush_cmd_error [simp]: "cmd_error (SCPI_ErrorPush ifc c err)"
  by (simp add: SCPI_ErrorPush_def Let_def)

lemma processCommand_reports:
  assumes "pl_cmd (param_list c) = Some i" "i < length cmds" "writeSemicolon ifc c = Some (k, b)"
    "run_callback (cmds ! i) (b\<lparr>cmd_error := False, output_count := 0, input_count := 0\<rparr>) = Some (r, d)"
  shows "processCommand ifc cmds c =
    Some (\<not> cmd_error d \<and> reported r d = [], foldl (SCPI_ErrorPush ifc) d (reported r d))"
  using assms
  by (auto simp: processCommand_def current_command_def callCommand_def run_callback_def reported_def
      parameters_left_def Let_def split: option.splits)

text \<open>C27: The errors of a command.  \<^verbatim>\<open>processCommand\<close> runs the callback with a clean error flag and
  says that the command succeeded exactly when no error was raised.  A callback that raised its
  own error gets no second one; one that failed without an error gets the execution error, and one
  that succeeded and left parameters unread the parameter not allowed error, which is then the last
  entry of the error queue.\<close>

theorem processCommand_errors:
  assumes "scpi_port ifc" "pl_cmd (param_list c) = Some i" "i < length cmds"
    "writeSemicolon ifc c = Some (k, b)"
    "run_callback (cmds ! i) (b\<lparr>cmd_error := False, output_count := 0, input_count := 0\<rparr>) = Some (r, d)"
    "errors_ok d" "fifo_ready (queue_of d)"
  shows "\<exists>e. processCommand ifc cmds c = Some (\<not> cmd_error e, e) \<and> errors_ok e \<and>
    (cmd_error e \<longleftrightarrow> cmd_error d \<or> r \<noteq> SCPI_RES_OK \<or> parameters_left d) \<and>
    error_list e = newest (fifo_cap (queue_of d)) (error_list d @
      (if cmd_error d then [] else if r \<noteq> SCPI_RES_OK then [- 200]
       else if parameters_left d then [- 108] else []))"
proof -
  have "newest (fifo_cap (queue_of d)) (error_list d) = error_list d"
    using assms(6) fifo_inv_wr(2) [of "queue_of d"]
    by (auto simp: STB_QMA_bit error_list_def fifo_contents_def intro!: newest_all)
  then show ?thesis
    using processCommand_reports [OF assms(2-5)] scpi_port.ErrorPush_ok [OF assms(1,6,7)] assms(6)
    by (auto simp: reported_def error_numbers)
qed

lemma running_errors:
  "errors_ok running" "fifo_ready (queue_of running)" "error_list running = []" "buf_length running = 256"
  "fifo_cap (queue_of running) = 16"
  using started_ok started_queue
  by (simp_all add: running_eq errors_ok_def error_list_def fifo_cap_def started_def SCPI_ErrorInit_def
      scpi_context_def SCPI_INPUT_BUFFER_LENGTH_def)

lemma processCommand_errors_witness:
  "\<exists>e. processCommand scpi_ifc [cmd ''SYSTem:COMMunication:TCPIP:CONTROL?'' SCPI_SystemCommTcpipControlQ]
      (running\<lparr>param_list := (param_list running)\<lparr>pl_cmd := Some 0\<rparr>\<rparr>) = Some (False, e) \<and>
    error_list e = [- 200]"
proof -
  let ?c = "running\<lparr>param_list := (param_list running)\<lparr>pl_cmd := Some 0\<rparr>\<rparr>"
    and ?cmds = "[cmd ''SYSTem:COMMunication:TCPIP:CONTROL?'' SCPI_SystemCommTcpipControlQ]"
  let ?d = "?c\<lparr>cmd_error := False, output_count := 0, input_count := 0\<rparr>"
  have w: "writeSemicolon scpi_ifc ?c = Some (0, ?c)"
    by (simp add: writeSemicolon_def running_eq started_def SCPI_ErrorInit_def scpi_context_def)
  have r: "run_callback (?cmds ! 0) ?d = Some (SCPI_RES_ERR, ?d)"
    by (simp add: run_callback_def cmd_def SCPI_SystemCommTcpipControlQ_def)
  have "errors_ok ?d" "fifo_ready (queue_of ?d)" "error_list ?d = []" "fifo_cap (queue_of ?d) = 16"
    using running_errors by (auto simp: STB_QMA_bit error_list_def)
  then show ?thesis
    using processCommand_errors [OF scpi_port_scpi_ifc _ _ w r] by (fastforce simp: newest_def)
qed

section \<open>The input buffer\<close>

text \<open>The overrun of the input buffer.  Bytes that do not fit behind what is waiting, with one byte
  left for the terminating zero, are refused as a whole: the waiting text is dropped as well, the
  result is failure and the input buffer overrun error is queued.\<close>

theorem Input_overrun:
  assumes "scpi_port ifc" "input_ok c" "errors_ok c" "fifo_ready (queue_of c)"
    "buf_length c \<le> buf_position c + length data"
  shows "\<exists>d. SCPI_Input ifc cmds c data = Some (False, d) \<and> buf_position d = 0 \<and> input_ok d \<and> errors_ok d \<and>
    error_list d = newest (fifo_cap (queue_of c)) (error_list c @ [- 363])"
proof -
  let ?c = "c\<lparr>buf_position := 0, buf_data := (buf_data c)[0 := NUL]\<rparr>"
  let ?d = "SCPI_ErrorPush ifc ?c SCPI_ERROR_INPUT_BUFFER_OVERRUN"
  have c: "buf_position c < buf_length c" "length (buf_data c) = buf_length c" "seven_bit c"
    using assms(2) by (simp_all add: input_ok_def)
  then have "data \<noteq> []" using assms(5) by auto
  then have "SCPI_Input ifc cmds c data = Some (False, ?d)"
    using assms(5) c(1) by (simp add: SCPI_Input_def Let_def)
  moreover have "same_input ?c ?d" by (simp add: scpi_port.ErrorPush_input [OF assms(1)])
  moreover have "seven_bit ?c"
    using c(3) by (auto simp: seven_bit_def isascii7bit_def dest!: subsetD [OF set_update_subset_insert])
  moreover have "errors_ok ?c" "fifo_ready (queue_of ?c)" "error_list ?c = error_list c"
    using assms(3,4) by (auto simp: STB_QMA_bit error_list_def)
  ultimately show ?thesis
    using scpi_port.ErrorPush_ok [OF assms(1), of ?c SCPI_ERROR_INPUT_BUFFER_OVERRUN] c(1,2)
    by (simp add: same_input_def input_ok_def seven_bit_def error_numbers)
qed

lemma Input_overrun_witness:
  "\<exists>d. SCPI_Input scpi_ifc required_commands running (replicate 256 (CHR ''*'')) = Some (False, d) \<and>
    buf_position d = 0 \<and> error_list d = [- 363]"
proof -
  from Input_overrun [OF scpi_port_scpi_ifc running_input running_errors(1,2), of "replicate 256 (CHR ''*'')" required_commands]
    running_errors(3-5)
  show ?thesis by (auto simp: newest_def)
qed

section \<open>Pieces of a line\<close>

lemma detect_ignores_state:
  "scpiParser_detectProgramMessageUnit m st b len = scpiParser_detectProgramMessageUnit m st' b len"
  by (simp add: detect_eq)

lemma inputLoop_ignores_state:
  "inputLoop ifc cmds (c\<lparr>parser_state := st\<rparr>) tot result = inputLoop ifc cmds c tot result"
  by (subst inputLoop.simps, subst (2) inputLoop.simps)
     (simp add: detect_ignores_state [of _ st _ _ "parser_state c"])

lemma unit_state_term [simp]: "termination_kind (unit_state b u) = un_term u"
  by (simp add: unit_state_def split: prod.split)

definition no_break :: "char list \<Rightarrow> bool" where
  "no_break xs \<longleftrightarrow> CHR 0x0D \<notin> set xs \<and> CHR 0x0A \<notin> set xs"

lemma no_break_scan:
  assumes "no_break xs" "unit_scan xs = Some u"
  shows "un_term u \<noteq> SCPI_MESSAGE_TERMINATION_NL"
proof -
  have n: "newline_len (drop k xs) = 0" for k
  proof -
    have "\<not> starts (\<lambda>d. d = CHR 0x0D) (drop k xs)" "\<not> starts (\<lambda>d. d = CHR 0x0A) (drop k xs)"
      using assms(1) by (auto simp: no_break_def starts_def dest: in_set_dropD split: list.splits)
        (metis in_set_dropD list.set_intros(1))+
    then show ?thesis by (simp add: newline_len_def span_stop)
  qed
  then have "snd (end_scan (drop k xs)) \<noteq> SCPI_MESSAGE_TERMINATION_NL" for k by (simp add: end_scan_def)
  note e = this
  obtain ty h where h: "header_scan (drop (span_of isws xs) xs) = (ty, h)" by fastforce
  obtain ok v r k j where d: "data_scan (drop (span_of isws xs + h) xs) = Some (ok, v, r, k, j)"
    using assms(2) by (auto simp: unit_scan_def Let_def h)
  obtain n tm where t: "end_scan (drop (span_of isws xs + h + k) xs) = (n, tm)" by fastforce
  show ?thesis
    using assms(2) e [of "span_of isws xs + h + k"] by (auto simp: unit_scan_def Let_def h d t split: if_splits)
qed

lemma inputLoop_waits:
  "seven_bit c \<Longrightarrow> no_break (take (buf_position c) (buf_data c)) \<Longrightarrow> buf_position c \<le> length (buf_data c) \<Longrightarrow>
     tot \<le> buf_position c \<Longrightarrow> \<exists>st. inputLoop ifc cmds c tot result = Some (result, c\<lparr>parser_state := st\<rparr>)"
proof (induction "buf_position c - tot" arbitrary: c tot rule: less_induct)
  case less
  let ?xs = "map (rd (buf_data c)) [tot ..< buf_position c]" and ?len = "int (buf_position c) - int tot"
  have xs: "nat (int tot + ?len) = buf_position c" by simp
  have "?xs = drop tot (take (buf_position c) (buf_data c))"
    using less.prems(3) by (intro nth_equalityI) (auto simp: rd_def)
  then have nb: "no_break ?xs" using less.prems(2) by (auto simp: no_break_def dest: in_set_dropD)
  have nl: "termination_kind state \<noteq> SCPI_MESSAGE_TERMINATION_NL"
    if "scpiParser_detectProgramMessageUnit (buf_data c) st tot ?len = Some (r, state)" for st r state
    using that no_break_scan [OF nb]
    by (auto simp: detect_eq xs)
  show ?case
  proof (cases "0 < ?len")
    case False
    obtain state where d: "scpiParser_detectProgramMessageUnit (buf_data c) (parser_state c) tot ?len = Some (0, state)"
      "tk_type (programHeader state) = SCPI_TOKEN_UNKNOWN"
      using detect_empty [of ?len "buf_data c" "parser_state c" tot] False by (metis not_less)
    then show ?thesis using nl [OF d(1)] by (subst inputLoop.simps) auto
  next
    case True
    obtain r state where d: "scpiParser_detectProgramMessageUnit (buf_data c) (parser_state c) tot ?len = Some (r, state)"
      "0 < r" "r \<le> ?len"
      using detect_header [OF True less.prems(1) [unfolded seven_bit_def], of "parser_state c" tot] by metis
    define t where "t = tot + nat r"
    have t: "nat (int tot + r) = t" "tot < t" "t \<le> buf_position c" using d(2,3) by (simp_all add: t_def)
    let ?c = "c\<lparr>parser_state := state\<rparr>"
    show ?thesis
    proof (cases "tk_type (programHeader state) = SCPI_TOKEN_UNKNOWN \<or> buf_position c \<le> t")
      case True
      then show ?thesis using nl [OF d(1)] by (subst inputLoop.simps) (auto simp: d(1) t(1) Let_def)
    next
      case go: False
      have "buf_position ?c - t < buf_position c - tot" using t go by simp
      then obtain st where "inputLoop ifc cmds ?c t result = Some (result, ?c\<lparr>parser_state := st\<rparr>)"
        using less.hyps [of ?c t] less.prems t(3) by (auto simp: seven_bit_def)
      then show ?thesis
        using go nl [OF d(1)] by (subst inputLoop.simps) (auto simp: d(1) t(1) Let_def)
    qed
  qed
qed

definition waiting :: "'u scpi_t \<Rightarrow> char list" where
  "waiting c = take (buf_position c) (buf_data c)"

lemma Input_piece:
  assumes "input_ok c" "\<forall>x\<in>set a. isascii7bit x" "no_break (waiting c @ a)" "a \<noteq> []"
    "buf_position c + length a < buf_length c"
  obtains e where "SCPI_Input ifc cmds c a = Some (True, e)" "input_ok e" "waiting e = waiting c @ a"
    "buf_length e = buf_length c" "buf_position e = buf_position c + length a"
    "\<And>b. b \<noteq> [] \<Longrightarrow> buf_position c + length (a @ b) < buf_length c \<Longrightarrow>
       SCPI_Input ifc cmds e b = SCPI_Input ifc cmds c (a @ b)"
proof -
  let ?p = "buf_position c" and ?n = "length a" and ?m = "buf_data c"
  define m where "m = (take ?p ?m @ a @ drop (?p + ?n) ?m)[?p + ?n := NUL]"
  define d where "d = c\<lparr>buf_position := ?p + ?n, buf_data := m\<rparr>"
  have c: "?p < buf_length c" "length ?m = buf_length c" "seven_bit c" using assms(1) by (simp_all add: input_ok_def)
  have m: "take (?p + ?n) m = take ?p ?m @ a" "length m = length ?m"
    using c assms(5) by (simp_all add: m_def)
  have dm: "drop (?p + ?n + k) m = drop (?p + ?n + k) ?m" if "0 < k" for k
    using that c by (simp add: m_def add.commute add.left_commute)
  have "set m \<subseteq> insert NUL (set ?m \<union> set a)"
    unfolding m_def by (auto dest!: subsetD [OF set_update_subset_insert] dest: in_set_takeD in_set_dropD)
  then have seven: "seven_bit d"
    using c(3) assms(2) by (auto simp: seven_bit_def d_def isascii7bit_def)
  obtain st where st: "inputLoop ifc cmds d 0 True = Some (True, d\<lparr>parser_state := st\<rparr>)"
    using inputLoop_waits [of d 0 ifc cmds True] seven m c assms(3,5) by (auto simp: d_def waiting_def)
  let ?e = "d\<lparr>parser_state := st\<rparr>"
  have "SCPI_Input ifc cmds c a = Some (True, ?e)"
    using assms(4,5) st by (simp add: SCPI_Input_def Let_def d_def m_def)
  moreover have "input_ok ?e" "waiting ?e = waiting c @ a"
    using seven c m assms(5) by (simp_all add: input_ok_def seven_bit_def waiting_def d_def)
  moreover have "SCPI_Input ifc cmds ?e b = SCPI_Input ifc cmds c (a @ b)"
    if "b \<noteq> []" "?p + length (a @ b) < buf_length c" for b
  proof -
    have "c\<lparr>parser_state := st, buf_position := y, buf_data := x\<rparr> =
        c\<lparr>buf_position := y, buf_data := x, parser_state := st\<rparr>" for x y by simp
    then have "inputLoop ifc cmds (c\<lparr>parser_state := st, buf_position := y, buf_data := x\<rparr>) 0 True =
        inputLoop ifc cmds (c\<lparr>buf_position := y, buf_data := x\<rparr>) 0 True" for x y
      by (simp only: inputLoop_ignores_state)
    then show ?thesis
      using that assms(4) dm [of "length b"] m(1)
      by (simp add: SCPI_Input_def Let_def d_def ac_simps)
  qed
  ultimately show thesis using that [of ?e] by (simp add: d_def)
qed

text \<open>The bytes arrive in pieces: all but the last one only wait.\<close>

fun feed :: "'u scpi_interface \<Rightarrow> 'u scpi_command list \<Rightarrow> char list list \<Rightarrow> char list \<Rightarrow> 'u scpi_t \<Rightarrow>
    (bool \<times> 'u scpi_t) option" where
  "feed ifc cmds [] b c = SCPI_Input ifc cmds c b"
| "feed ifc cmds (a # as) b c = do {
     (_, c) \<leftarrow> SCPI_Input ifc cmds c a;
     feed ifc cmds as b c
   }"

text \<open>C5: The cut of the input does not matter.  Bytes that fit into the input buffer can be handed to
  \<^verbatim>\<open>SCPI_Input\<close> in pieces of any size: as long as no line break has come, the pieces only wait in the
  buffer, and the call with the last piece does exactly what one call with all the bytes does.\<close>

theorem Input_pieces:
  assumes "input_ok c" "\<forall>a\<in>set as. a \<noteq> [] \<and> (\<forall>x\<in>set a. isascii7bit x)" "no_break (waiting c @ concat as)"
    "b \<noteq> []" "buf_position c + length (concat as @ b) < buf_length c"
  shows "feed ifc cmds as b c = SCPI_Input ifc cmds c (concat as @ b)"
  using assms
proof (induction as arbitrary: c)
  case (Cons a as)
  have "no_break (waiting c @ a)" using Cons.prems(3) by (auto simp: no_break_def)
  then obtain e where e: "SCPI_Input ifc cmds c a = Some (True, e)" "input_ok e" "waiting e = waiting c @ a"
    "buf_length e = buf_length c" "buf_position e = buf_position c + length a"
    "\<And>b. b \<noteq> [] \<Longrightarrow> buf_position c + length (a @ b) < buf_length c \<Longrightarrow>
       SCPI_Input ifc cmds e b = SCPI_Input ifc cmds c (a @ b)"
    using Input_piece [of c a ifc cmds] Cons.prems by auto
  have "feed ifc cmds as b e = SCPI_Input ifc cmds e (concat as @ b)"
    using Cons.IH [OF e(2)] Cons.prems e(3-5) by simp
  then show ?case using e(1) e(6) [of "concat as @ b"] Cons.prems(4,5) by simp
qed simp

lemma Input_pieces_witness:
  "feed scpi_ifc required_commands [''*I'', ''DN''] (''?'' @ [CHR 0x0A]) running =
     SCPI_Input scpi_ifc required_commands running (''*IDN?'' @ [CHR 0x0A])"
  using Input_pieces [OF running_input, of "[''*I'', ''DN'']" "''?'' @ [CHR 0x0A]" scpi_ifc required_commands]
  by (auto simp: isascii7bit_def no_break_def waiting_def running_eq started_def SCPI_ErrorInit_def
      scpi_context_def SCPI_INPUT_BUFFER_LENGTH_def)

end
