(* ===== verification/ParamsProps.thy ===== *)
theory ParamsProps
  imports InputProps
begin

text \<open>
  What a command reads: \<open>at_args c as\<close> says that the arguments \<open>as\<close> are still to be read.  Each call of
  \<^verbatim>\<open>SCPI_Parameter\<close> takes the first of them; the numbers a command gets are the ones that were sent.
\<close>

section \<open>One parameter in one step\<close>

definition bad_token :: scpi_token where
  "bad_token = \<lparr>tk_type = SCPI_TOKEN_UNKNOWN, tk_ptr = None, tk_len = 0\<rparr>"

lemma invalidateToken_None: "invalidateToken t None = bad_token"
  by (simp add: invalidateToken_def bad_token_def)

text \<open>The context after \<open>n\<close> characters of the parameters have been read.\<close>

definition stepped :: "nat \<Rightarrow> 'u scpi_t \<Rightarrow> 'u scpi_t" where
  "stepped n c = put_lex (advance n (pl_lex (param_list c))) (c\<lparr>input_count := int16 (input_count c + 1)\<rparr>)"

definition comma_len :: "'u scpi_t \<Rightarrow> nat" where
  "comma_len c = (if input_count c \<noteq> 0 then 1 else 0)"

lemma put_lex_twice: "put_lex s' ((put_lex s c)\<lparr>input_count := n\<rparr>) = put_lex s' (c\<lparr>input_count := n\<rparr>)"
  by (simp add: put_lex_def)

lemma put_lex_same: "put_lex (pl_lex (param_list c)) c = c"
  by (simp add: put_lex_def)

lemma put_lex_fields [simp]:
  "buf_data (put_lex s c) = buf_data c" "input_count (put_lex s c) = input_count c"
  "pl_lex (param_list (put_lex s c)) = s" "cmd_error (put_lex s c) = cmd_error c"
  "error_queue (put_lex s c) = error_queue c" "registers (put_lex s c) = registers c"
  by (simp_all add: put_lex_def)

lemma Parameter_scan:
  "SCPI_Parameter ifc c (Some t) mandatory =
     (let s = pl_lex (param_list c); xs = rest (buf_data c) s
      in if int (lx_buffer s) + lx_len s \<le> int (lx_pos s) then
           Some (False, if mandatory then (bad_token, SCPI_ErrorPush ifc c SCPI_ERROR_MISSING_PARAMETER)
                        else (bad_token\<lparr>tk_type := SCPI_TOKEN_PROGRAM_MNEMONIC\<rparr>, c))
         else if input_count c \<noteq> 0 \<and> \<not> starts (\<lambda>x. x = CHR '','') xs then
           Some (False, bad_token, SCPI_ErrorPush ifc c SCPI_ERROR_INVALID_SEPARATOR)
         else map_option (\<lambda>(ty, off, n, r, u).
             let d = stepped (comma_len c + u) c
             in if ty \<in> parameter_types
                then (True, \<lparr>tk_type = ty, tk_ptr = Some (lx_pos s + comma_len c + off), tk_len = int n\<rparr>, d)
                else (False, bad_token, SCPI_ErrorPush ifc d SCPI_ERROR_INVALID_STRING_DATA))
           (param_scan (drop (comma_len c) xs)))"
proof (cases "int (lx_buffer (pl_lex (param_list c))) + lx_len (pl_lex (param_list c)) \<le> int (lx_pos (pl_lex (param_list c)))")
  case True
  then show ?thesis by (simp add: SCPI_Parameter_def invalidateToken_None)
next
  case False
  let ?m = "buf_data c" and ?s = "pl_lex (param_list c)"
  have parse: "scpiParser_parseProgramData ?m (advance k ?s) tok =
      map_option (\<lambda>(ty, off, n, r, u). (int r, advance (k + u) ?s,
        \<lparr>tk_type = ty, tk_ptr = Some (lx_pos ?s + k + off), tk_len = int n\<rparr>)) (param_scan (drop k (rest ?m ?s)))" for k tok
    unfolding parseProgramData_eq rest_advance scan_token_def by (simp add: add.assoc)
  show ?thesis
  proof (cases "input_count c = 0")
    case True
    then show ?thesis
      using False parse [of 0]
      by (cases "param_scan (rest ?m ?s)")
         (simp_all add: SCPI_Parameter_def invalidateToken_None stepped_def comma_len_def put_lex_same put_lex_twice
           Let_def split_beta)
  next
    case comma: False
    have "scpiLex_Comma ?m ?s tok = (if starts (\<lambda>x. x = CHR '','') (rest ?m ?s)
        then (1, advance 1 ?s, token_at ?s SCPI_TOKEN_COMMA 1) else (0, ?s, token_at ?s SCPI_TOKEN_COMMA 0))" for tok
      by (simp add: separator_eq opt_def Let_def)
    then show ?thesis
      using False comma parse [of 1]
      by (cases "param_scan (drop 1 (rest ?m ?s))")
         (simp_all add: SCPI_Parameter_def invalidateToken_None stepped_def comma_len_def put_lex_same put_lex_twice
           token_at_def Let_def split_beta)
  qed
qed

section \<open>The arguments still to be read\<close>

definition separated :: "bool \<Rightarrow> arg list \<Rightarrow> char list" where
  "separated comma as = (if comma \<and> as \<noteq> [] then '','' else []) @ args_text as"

definition at_args :: "'u scpi_t \<Rightarrow> arg list \<Rightarrow> bool" where
  "at_args c as \<longleftrightarrow>
     (let s = pl_lex (param_list c)
      in lx_buffer s \<le> lx_pos s \<and>
         int (lx_buffer s) + lx_len s = int (lx_pos s + length (separated (input_count c \<noteq> 0) as)) \<and>
         (\<exists>z. drop (lx_pos s) (buf_data c) = separated (input_count c \<noteq> 0) as @ z \<and> number_ends z))"

lemma loads_at_args: "loads c i full as d \<Longrightarrow> input_count d = 0 \<Longrightarrow> at_args d as"
  by (auto simp: loads_def at_args_def separated_def Let_def)

lemma rest_at_args:
  assumes "at_args c as"
  shows "rest (buf_data c) (pl_lex (param_list c)) = separated (input_count c \<noteq> 0) as"
proof -
  let ?s = "pl_lex (param_list c)" and ?x = "separated (input_count c \<noteq> 0) as"
  obtain z where z: "drop (lx_pos ?s) (buf_data c) = ?x @ z"
    "nat (int (lx_buffer ?s) + lx_len ?s) = lx_pos ?s + length ?x"
    using assms by (auto simp: at_args_def Let_def)
  have l: "lx_pos ?s + k < length (buf_data c)" if "k < length ?x" for k
    using arg_cong [OF z(1), of length] that by simp
  show ?thesis
  proof (rule nth_equalityI)
    fix k assume "k < length (rest (buf_data c) ?s)"
    then have k: "k < length ?x" by (simp add: rest_def z(2))
    have "?x ! k = drop (lx_pos ?s) (buf_data c) ! k" using k by (simp add: z(1) nth_append)
    then show "rest (buf_data c) ?s ! k = ?x ! k"
      using k l [OF k] by (simp add: rest_def z(2) rd_def)
  qed (simp add: rest_def z(2))
qed

text \<open>What the token of an argument holds.\<close>

definition arg_data :: "arg \<Rightarrow> char list" where
  "arg_data a = (case arg_token a of (ty, off, n) \<Rightarrow> take n (drop off (arg_text a)))"

definition arg_type :: "arg \<Rightarrow> scpi_token_type" where
  "arg_type a = fst (arg_token a)"

lemma args_text_Cons: "args_text (a # as) = arg_text a @ separated True as"
  by (cases as) (simp_all add: separated_def)

lemma arg_type_parameter: "arg_type a \<in> parameter_types"
  by (cases a) (simp_all add: arg_type_def parameter_types_def)

lemma arg_ends_separated: "arg_ends (separated True as)"
  by (simp add: separated_def arg_ends_def)

lemma Parameter_arg:
  assumes "at_args c (a # as)" "arg_ok a" "0 \<le> input_count c" "input_count c < 32767"
  obtains p d z where
    "\<forall>mandatory. SCPI_Parameter ifc c (Some t) mandatory =
       Some (True, \<lparr>tk_type = arg_type a, tk_ptr = Some p, tk_len = int (length (arg_data a))\<rparr>, d)"
    "drop p (buf_data c) = arg_data a @ z" "at_args d as" "input_count d = input_count c + 1"
    "d = stepped (length (separated (input_count c \<noteq> 0) (a # as)) - length (separated True as)) c"
    "(\<exists>neg n. a = Arg_int neg n) \<longrightarrow> number_ends z"
proof -
  let ?s = "pl_lex (param_list c)" and ?m = "buf_data c"
  obtain ty off n where t: "arg_token a = (ty, off, n)" by (cases "arg_token a")
  define k :: nat where "k = (if input_count c \<noteq> 0 then 1 else 0)"
  define pre where "pre = (if input_count c \<noteq> 0 then '','' else [])"
  let ?L = "length (arg_text a)" and ?zs = "separated True as"
  have sep: "separated (input_count c \<noteq> 0) (a # as) = pre @ arg_text a @ ?zs" "length pre = k"
    by (simp_all add: separated_def args_text_Cons pre_def k_def)
  have r: "rest ?m ?s = pre @ arg_text a @ ?zs" using rest_at_args [OF assms(1)] sep by simp
  have scan: "param_scan (arg_text a @ ?zs) = Some (ty, off, n, ?L, ?L)"
    by (rule param_scan_arg [OF assms(2) arg_ends_separated t])
  have on: "off + n \<le> ?L" using param_scan_le [OF scan] by simp
  have data: "arg_data a = take n (drop off (arg_text a))" "length (arg_data a) = n"
    using on by (simp_all add: arg_data_def t)
  have ty: "ty = arg_type a" "ty \<in> parameter_types" using arg_type_parameter [of a] by (simp_all add: arg_type_def t)
  obtain z0 where z0: "drop (lx_pos ?s) ?m = pre @ arg_text a @ ?zs @ z0" "number_ends z0"
    "int (lx_buffer ?s) + lx_len ?s = int (lx_pos ?s + (k + ?L + length ?zs))" "lx_buffer ?s \<le> lx_pos ?s"
    using assms(1) sep by (auto simp: at_args_def Let_def)
  define d where "d = stepped (k + ?L) c"
  have step: "k + ?L = length (separated (input_count c \<noteq> 0) (a # as)) - length ?zs" using sep by simp
  have read: "SCPI_Parameter ifc c (Some t') mandatory =
      Some (True, \<lparr>tk_type = ty, tk_ptr = Some (lx_pos ?s + k + off), tk_len = int n\<rparr>, d)" for t' mandatory
  proof -
    have go: "\<not> int (lx_buffer ?s) + lx_len ?s \<le> int (lx_pos ?s)"
      using z0(3) arg_no_ws(2) [OF assms(2)] by (cases "arg_text a") simp_all
    have "\<not> (input_count c \<noteq> 0 \<and> \<not> starts (\<lambda>x. x = CHR '','') (rest ?m ?s))"
      by (simp add: r pre_def)
    note eq = Parameter_scan [of ifc c t' mandatory, unfolded Let_def if_not_P [OF go] if_not_P [OF this]]
    have "drop (comma_len c) (rest ?m ?s) = arg_text a @ ?zs" "comma_len c = k"
      using r sep(2) by (simp_all add: comma_len_def k_def)
    then show ?thesis using ty(2) unfolding eq by (simp add: scan d_def)
  qed
  have mem: "drop (lx_pos ?s + k + j) ?m = drop j (arg_text a @ ?zs @ z0)" for j
    using arg_cong [OF z0(1), of "drop (k + j)"] sep(2) by (simp add: ac_simps)
  have d: "pl_lex (param_list d) = advance (k + ?L) ?s" "input_count d = input_count c + 1" "buf_data d = ?m"
    "input_count d \<noteq> 0"
    using assms(3,4) by (simp_all add: d_def stepped_def)
  have "drop (lx_pos ?s + (k + ?L)) ?m = ?zs @ z0" using mem [of ?L] by (simp add: add.assoc)
  then have "at_args d as" using z0(2-4) d(4) unfolding at_args_def Let_def d(1,3) by auto
  moreover note d(2)
  moreover have "drop (lx_pos ?s + k + off) ?m = arg_data a @ drop (off + n) (arg_text a) @ ?zs @ z0"
    unfolding mem data(1) using on append_take_drop_id [of n "drop off (arg_text a)"] by (simp add: add.commute)
  moreover have "number_ends (drop (off + n) (arg_text a) @ ?zs @ z0)" if "\<exists>neg n. a = Arg_int neg n"
    using that t z0(2) by (auto simp: separated_def number_ends_def isalnum_def isalpha_def isupper_def
        islower_def isdigit_def simp del: arg_text.simps)
  ultimately show thesis
    using that [of "lx_pos ?s + k + off" d] read [unfolded ty(1), folded data(2)] step by (simp add: d_def)
qed

lemma Parameter_end:
  assumes "at_args c []"
  shows "SCPI_Parameter ifc c (Some t) mandatory =
    (if mandatory then Some (False, invalidateToken t None, SCPI_ErrorPush ifc c SCPI_ERROR_MISSING_PARAMETER)
     else Some (False, (invalidateToken t None)\<lparr>tk_type := SCPI_TOKEN_PROGRAM_MNEMONIC\<rparr>, c))"
  using assms by (simp add: Parameter_scan at_args_def separated_def invalidateToken_None Let_def)

section \<open>Typed parameters\<close>

definition lex_inside :: "lex_state \<Rightarrow> bool" where
  "lex_inside s \<longleftrightarrow> lx_buffer s \<le> lx_pos s \<and> int (lx_pos s) \<le> int (lx_buffer s) + lx_len s"

abbreviation params_of :: "'u scpi_t \<Rightarrow> lex_state" where
  "params_of c \<equiv> pl_lex (param_list c)"

context scpi_port begin

lemma ErrorPush_counts [simp]:
  "param_list (SCPI_ErrorPush ifc c err) = param_list c"
  "input_count (SCPI_ErrorPush ifc c err) = input_count c"
  "output_count (SCPI_ErrorPush ifc c err) = output_count c"
  "buf_data (SCPI_ErrorPush ifc c err) = buf_data c"
  by (simp_all add: SCPI_ErrorPush_def SCPI_ErrorEmit_def SCPI_ErrorAddInternal_def Let_def push_bits_eq
      SCPI_RegSetBits.simps)

end

text \<open>What \<^verbatim>\<open>SCPI_Parameter\<close> promises of the token \<open>tok\<close> and the context \<open>d\<close> it leaves.\<close>

definition typed :: "bool \<Rightarrow> 'u scpi_t \<Rightarrow> bool \<Rightarrow> scpi_token \<Rightarrow> 'u scpi_t \<Rightarrow> bool" where
  "typed mandatory c ok tok d \<longleftrightarrow>
     (if ok then tk_type tok \<in> parameter_types \<and> cmd_error d = cmd_error c \<and> error_queue d = error_queue c \<and>
        (\<exists>p n. tk_ptr tok = Some p \<and> tk_len tok = int n \<and> lx_pos (params_of c) \<le> p \<and>
           p + n \<le> lx_pos (params_of d) \<and> lx_pos (params_of c) < lx_pos (params_of d))
      else tk_ptr tok = None \<and> tk_len tok = 0 \<and>
        (if mandatory \<or> parameters_left c then tk_type tok = SCPI_TOKEN_UNKNOWN \<and> cmd_error d
         else tk_type tok = SCPI_TOKEN_PROGRAM_MNEMONIC \<and> d = c))"

text \<open>C26: Parameters are typed and lie in the unit.  On 7-bit text \<^verbatim>\<open>SCPI_Parameter\<close> returns; a token
  it hands out has one of the ten parameter types, lies in the part of the parameters that this call
  has passed, and no error was raised; a call without success hands out an empty token and has
  raised an error, unless an optional parameter was asked for and none is left.  The lexer stays
  inside the parameters.\<close>

theorem Parameter_typed:
  assumes "scpi_port ifc" "seven_bit c" "lex_inside (params_of c)"
  shows "\<exists>ok tok d. SCPI_Parameter ifc c (Some t) mandatory = Some (ok, tok, d) \<and> typed mandatory c ok tok d \<and>
    seven_bit d \<and> lex_inside (params_of d) \<and> lx_buffer (params_of d) = lx_buffer (params_of c) \<and>
    lx_len (params_of d) = lx_len (params_of c)"
proof -
  let ?s = "params_of c" and ?xs = "rest (buf_data c) (params_of c)" and ?k = "comma_len c"
  note push = scpi_port.ErrorPush_counts [OF assms(1)]
  have bad: "tk_type bad_token = SCPI_TOKEN_UNKNOWN" "tk_ptr bad_token = None" "tk_len bad_token = 0"
    by (simp_all add: bad_token_def)
  have left: "parameters_left c \<longleftrightarrow> \<not> int (lx_buffer ?s) + lx_len ?s \<le> int (lx_pos ?s)"
    by (auto simp: parameters_left_def Let_def)
  consider "\<not> parameters_left c"
    | "parameters_left c" "input_count c \<noteq> 0 \<and> \<not> starts (\<lambda>x. x = CHR '','') ?xs"
    | "parameters_left c" "\<not> (input_count c \<noteq> 0 \<and> \<not> starts (\<lambda>x. x = CHR '','') ?xs)" by blast
  then show ?thesis
  proof cases
    case 1
    then show ?thesis
      using assms(2,3) push bad
      by (cases mandatory; intro exI [of _ False]) (simp_all add: Parameter_scan left typed_def seven_bit_def)
  next
    case 2
    then show ?thesis
      using assms(2,3) push bad
      by (intro exI [of _ False]) (simp add: Parameter_scan left typed_def seven_bit_def)
  next
    case 3
    have go: "\<not> int (lx_buffer ?s) + lx_len ?s \<le> int (lx_pos ?s)" using 3(1) by (simp add: left)
    note eq = Parameter_scan [of ifc c t mandatory, unfolded Let_def if_not_P [OF go] if_not_P [OF 3(2)]]
    have "\<forall>x\<in>set (drop ?k ?xs). isascii7bit x"
      using isascii7bit_rd [OF assms(2) [unfolded seven_bit_def]] by (auto simp: rest_def dest!: in_set_dropD)
    then obtain ty off n r u where p: "param_scan (drop ?k ?xs) = Some (ty, off, n, r, u)"
      using param_scan_7bit by fastforce
    let ?d = "stepped (?k + u) c"
    have u: "off + n \<le> u" "u \<le> length ?xs - ?k" "ty \<noteq> SCPI_TOKEN_UNKNOWN \<longrightarrow> 0 < u"
      using param_scan_le [OF p] by simp_all
    have "?k \<le> length ?xs"
      using 3(2) go by (cases ?xs) (auto simp: comma_len_def length_rest starts_def split: if_splits)
    then have "int (lx_pos ?s + (?k + u)) \<le> int (lx_buffer ?s) + lx_len ?s"
      using u(2) go by (auto simp: length_rest)
    then have inside: "lex_inside (params_of ?d)" using assms(3) by (simp add: lex_inside_def stepped_def)
    have d: "seven_bit ?d" "cmd_error ?d = cmd_error c" "error_queue ?d = error_queue c"
      "lx_pos (params_of ?d) = lx_pos ?s + (?k + u)" "lx_buffer (params_of ?d) = lx_buffer ?s"
      "lx_len (params_of ?d) = lx_len ?s"
      using assms(2) by (simp_all add: stepped_def seven_bit_def)
    show ?thesis
    proof (cases "ty \<in> parameter_types")
      case True
      then have "0 < u" using u(3) by (auto simp: parameter_types_def)
      then show ?thesis
        using True u(1) d inside unfolding eq p by (intro exI [of _ True]) (simp add: typed_def)
    next
      case False
      then show ?thesis
        using 3(1) d inside push bad unfolding eq p by (intro exI [of _ False]) (simp add: typed_def seven_bit_def)
    qed
  qed
qed

lemma Parameter_typed_witness:
  "\<exists>ok tok d. SCPI_Parameter scpi_ifc
      (running\<lparr>buf_data := ''1.5 V,X'', param_list := (param_list running)\<lparr>
         pl_lex := \<lparr>lx_buffer = 0, lx_pos = 0, lx_len = 7\<rparr>\<rparr>\<rparr>) (Some zero_token) True = Some (ok, tok, d) \<and>
    lex_inside (params_of d) \<and> lx_len (params_of d) = 7"
proof -
  let ?c = "running\<lparr>buf_data := ''1.5 V,X'', param_list := (param_list running)\<lparr>
         pl_lex := \<lparr>lx_buffer = 0, lx_pos = 0, lx_len = 7\<rparr>\<rparr>\<rparr>"
  have "seven_bit ?c" "lex_inside (params_of ?c)"
    by (simp_all add: seven_bit_def isascii7bit_def lex_inside_def)
  from Parameter_typed [OF scpi_port_scpi_ifc this, of zero_token True] show ?thesis by auto
qed

section \<open>Reading the arguments one by one\<close>

fun read_parameters :: "'u scpi_interface \<Rightarrow> nat \<Rightarrow> 'u scpi_t \<Rightarrow> (scpi_token list \<times> 'u scpi_t) option" where
  "read_parameters ifc 0 c = Some ([], c)"
| "read_parameters ifc (Suc n) c = do {
     (ok, tok, c) \<leftarrow> SCPI_Parameter ifc c (Some zero_token) True;
     if ok then do {
       (toks, c) \<leftarrow> read_parameters ifc n c;
       Some (tok # toks, c)
     }
     else None
   }"

lemma read_at_args:
  "at_args c as \<Longrightarrow> \<forall>a\<in>set as. arg_ok a \<Longrightarrow> 0 \<le> input_count c \<Longrightarrow> input_count c + int (length as) \<le> 32767 \<Longrightarrow>
     \<exists>toks d. read_parameters ifc (length as) c = Some (toks, d) \<and>
       map (\<lambda>t. (tk_type t, token_text (buf_data c) t)) toks = map (\<lambda>a. (arg_type a, arg_data a)) as \<and>
       at_args d [] \<and> cmd_error d = cmd_error c \<and> error_queue d = error_queue c \<and> buf_data d = buf_data c"
proof (induction as arbitrary: c)
  case (Cons a as)
  have b: "arg_ok a" "input_count c < 32767" using Cons.prems(2,4) by auto
  obtain p d z where p: "\<forall>mandatory. SCPI_Parameter ifc c (Some zero_token) mandatory =
       Some (True, \<lparr>tk_type = arg_type a, tk_ptr = Some p, tk_len = int (length (arg_data a))\<rparr>, d)"
    "drop p (buf_data c) = arg_data a @ z" "at_args d as" "input_count d = input_count c + 1"
    "d = stepped (length (separated (input_count c \<noteq> 0) (a # as)) - length (separated True as)) c"
    "(\<exists>neg n. a = Arg_int neg n) \<longrightarrow> number_ends z"
    by (rule Parameter_arg [OF Cons.prems(1) b(1) Cons.prems(3) b(2), of ifc zero_token])
  have d: "cmd_error d = cmd_error c" "error_queue d = error_queue c" "buf_data d = buf_data c"
    by (simp_all add: p(5) stepped_def)
  obtain toks e where e: "read_parameters ifc (length as) d = Some (toks, e)"
    "map (\<lambda>t. (tk_type t, token_text (buf_data d) t)) toks = map (\<lambda>a. (arg_type a, arg_data a)) as"
    "at_args e []" "cmd_error e = cmd_error d" "error_queue e = error_queue d" "buf_data e = buf_data d"
    using Cons.IH [OF p(3)] Cons.prems(2-4) p(4) by auto
  then show ?case using p(1,2) d by (simp add: token_text_def)
qed simp

text \<open>C7: A command reads the arguments that were sent.  In the context that the parser sets up for a
  unit, reading as many parameters as the unit has arguments returns them in order, each with
  the type of the argument and with its text (an arbitrary block without its length), and raises
  no error.  Then none is left: one more optional parameter is refused without an error, one more
  mandatory one with the missing parameter error, and \<^verbatim>\<open>processCommand\<close> will not complain about
  unread parameters.\<close>

theorem arguments_read:
  assumes "loads c i full as d" "input_count d = 0" "\<forall>a\<in>set as. arg_ok a" "length as \<le> 32767"
  shows "\<exists>toks e. read_parameters ifc (length as) d = Some (toks, e) \<and>
    map (\<lambda>t. (tk_type t, token_text (buf_data e) t)) toks = map (\<lambda>a. (arg_type a, arg_data a)) as \<and>
    cmd_error e = cmd_error d \<and> error_queue e = error_queue d \<and> \<not> parameters_left e \<and>
    (\<forall>mandatory. SCPI_Parameter ifc e (Some zero_token) mandatory =
       Some (False, if mandatory then (bad_token, SCPI_ErrorPush ifc e SCPI_ERROR_MISSING_PARAMETER)
                    else (bad_token\<lparr>tk_type := SCPI_TOKEN_PROGRAM_MNEMONIC\<rparr>, e)))"
proof -
  obtain toks e where e: "read_parameters ifc (length as) d = Some (toks, e)"
    "map (\<lambda>t. (tk_type t, token_text (buf_data d) t)) toks = map (\<lambda>a. (arg_type a, arg_data a)) as"
    "at_args e []" "cmd_error e = cmd_error d" "error_queue e = error_queue d" "buf_data e = buf_data d"
    using read_at_args [OF loads_at_args [OF assms(1,2)] assms(3), of ifc] assms(2,4) by auto
  then show ?thesis
    using Parameter_end [OF e(3), of ifc zero_token]
    by (auto simp: invalidateToken_None parameters_left_def at_args_def separated_def Let_def)
qed

lemma arguments_read_witness:
  "\<exists>toks e. read_parameters scpi_ifc 2 (running\<lparr>buf_data := ''X? AB,'' @ [CHR 0x27, CHR ''q'', CHR 0x27, CHR 0x0A],
        param_list := (param_list running)\<lparr>pl_cmd := Some 0, pl_lex := \<lparr>lx_buffer = 3, lx_pos = 3, lx_len = 6\<rparr>,
          pl_raw_data := Some 0, pl_raw_position := 0, pl_raw_length := 2\<rparr>\<rparr>) = Some (toks, e) \<and>
     map (\<lambda>t. (tk_type t, token_text (buf_data e) t)) toks =
       [(SCPI_TOKEN_PROGRAM_MNEMONIC, ''AB''),
        (SCPI_TOKEN_SINGLE_QUOTE_PROGRAM_DATA, [CHR 0x27, CHR ''q'', CHR 0x27])]"
proof -
  let ?as = "[Arg_name ''AB'', Arg_string (CHR 0x27) ''q'']"
  let ?d = "running\<lparr>buf_data := ''X? AB,'' @ [CHR 0x27, CHR ''q'', CHR 0x27, CHR 0x0A],
        param_list := (param_list running)\<lparr>pl_cmd := Some 0, pl_lex := \<lparr>lx_buffer = 3, lx_pos = 3, lx_len = 6\<rparr>,
          pl_raw_data := Some 0, pl_raw_position := 0, pl_raw_length := 2\<rparr>\<rparr>"
  have q: "quote_text (CHR 0x27) ''q'' = [CHR 0x27, CHR ''q'', CHR 0x27]"
    by (simp add: quote_text_def)
  have n: "number_ends [CHR 0x0A]"
    by (simp add: number_ends_def isalnum_def isalpha_def isupper_def islower_def isdigit_def)
  have "?d = (running\<lparr>buf_data := replicate 10 NUL\<rparr>)\<lparr>buf_data := buf_data ?d, parser_state := parser_state running,
      param_list := param_list ?d\<rparr>" by simp
  then have l: "loads (running\<lparr>buf_data := replicate 10 NUL\<rparr>) 0 ''X?'' ?as ?d"
    unfolding loads_def
    by - ((rule exI)+, rule conjI, assumption, simp add: q n)
  have "is_mnemonic ''AB''" by (simp add: is_mnemonic_def isMnemonicChar_def isalnum_def isalpha_def isupper_def)
  then have ok: "\<forall>a\<in>set ?as. arg_ok a" by (simp add: is_quote_def isascii7bit_def)
  have i: "input_count ?d = 0" by (simp add: running_eq started_def SCPI_ErrorInit_def scpi_context_def)
  have a: "map (\<lambda>a. (arg_type a, arg_data a)) ?as = [(SCPI_TOKEN_PROGRAM_MNEMONIC, ''AB''),
      (SCPI_TOKEN_SINGLE_QUOTE_PROGRAM_DATA, [CHR 0x27, CHR ''q'', CHR 0x27])]"
    by (simp_all add: arg_type_def arg_data_def q)
  have n: "length ?as = 2" "length ?as \<le> 32767" by simp_all
  show ?thesis
    using arguments_read [OF l i ok n(2), of scpi_ifc, unfolded a n(1)]
    by (elim exE conjE) (rule exI, rule exI, rule conjI; assumption)
qed

section \<open>Integers\<close>

text \<open>The number an argument stands for, as a 32-bit \<^verbatim>\<open>long\<close> holds it.\<close>

definition int_of_arg :: "bool \<Rightarrow> nat \<Rightarrow> int" where
  "int_of_arg neg n = max (- (2 ^ 31)) (min (2 ^ 31 - 1) (if neg then - int n else int n))"

lemma strBaseToInt32_arg:
  assumes "number_ends z"
  shows "strBaseToInt32 (arg_text (Arg_int neg n) @ z) 10 = (length (arg_text (Arg_int neg n)), int_of_arg neg n)"
proof (cases "neg \<longrightarrow> 0 < n")
  case True
  then show ?thesis
    using strto_subject_num [of 10 z neg n] assms
    by (simp add: strBaseToInt32_def strtol_def int_of_arg_def)
next
  case False
  have "num_text 10 0 = ''0''" by (simp add: num_text_0)
  then show ?thesis
    using False takeWhile_number [of 10 z 0] assms
    by (simp add: strBaseToInt32_def strtol_def int_of_arg_def strto_subject_def Let_def isspace_def digits_value_def
        digit_val_def isdigit_def)
qed

context scpi_port begin

lemma ParamInt32_arg:
  assumes "at_args c (a # as)" "arg_ok a" "0 \<le> input_count c" "input_count c < 32767"
  shows "\<exists>d. at_args d as \<and> input_count d = input_count c + 1 \<and> (\<exists>n. d = stepped n c) \<and>
    SCPI_ParamInt32 ifc c True mandatory =
      Some (case a of Arg_int neg n \<Rightarrow> (True, Some (int_of_arg neg n), d)
            | _ \<Rightarrow> (False, None, SCPI_ErrorPush ifc d SCPI_ERROR_DATA_TYPE_ERROR))"
proof -
  obtain p d z where p: "\<forall>mandatory. SCPI_Parameter ifc c (Some zero_token) mandatory =
       Some (True, \<lparr>tk_type = arg_type a, tk_ptr = Some p, tk_len = int (length (arg_data a))\<rparr>, d)"
    "drop p (buf_data c) = arg_data a @ z" "at_args d as" "input_count d = input_count c + 1"
    "d = stepped (length (separated (input_count c \<noteq> 0) (a # as)) - length (separated True as)) c"
    "(\<exists>neg n. a = Arg_int neg n) \<longrightarrow> number_ends z"
    by (rule Parameter_arg [OF assms, of ifc zero_token])
  have b: "buf_data d = buf_data c" by (simp add: p(5) stepped_def)
  have "SCPI_ParamInt32 ifc c True mandatory =
      Some (case a of Arg_int neg n \<Rightarrow> (True, Some (int_of_arg neg n), d)
            | _ \<Rightarrow> (False, None, SCPI_ErrorPush ifc d SCPI_ERROR_DATA_TYPE_ERROR))"
  proof (cases a)
    case (Arg_int neg n)
    have l: "0 < length (arg_text (Arg_int neg n))" using num_text_digit(2) by simp
    have "arg_data a = arg_text (Arg_int neg n)" "arg_type a = SCPI_TOKEN_DECIMAL_NUMERIC_PROGRAM_DATA"
      by (simp_all add: Arg_int arg_data_def arg_type_def)
    then show ?thesis
      using p(1,2,6) strBaseToInt32_arg [of z neg n] l
      by (simp add: SCPI_ParamInt32_def ParamSignUInt32_def ParamSignToUInt32_def token_ptr_def read_number_def
          Arg_int b Let_def del: arg_text.simps)
  qed (use p(1) in \<open>simp_all add: SCPI_ParamInt32_def ParamSignUInt32_def arg_type_def\<close>)
  then show ?thesis using p(3-5) by blast
qed

end

end
