(* ===== verification/CommandProps.thy ===== *)
theory CommandProps
  imports ParamsProps
begin

text \<open>
  Whole lines through parser, parameters, registers and error queue: what the commands that set an
  enable register do with every list of arguments, and what the queries answer.
\<close>

section \<open>Setting an enable register\<close>

definition enable_register :: "scpi_reg_name \<Rightarrow> bool" where
  "enable_register name \<longleftrightarrow> name \<in> {SCPI_REG_ESE, SCPI_REG_SRE, SCPI_REG_QUESE}"

text \<open>The callbacks of \<^verbatim>\<open>*ESE\<close>, \<^verbatim>\<open>*SRE\<close> and \<^verbatim>\<open>STATus:QUEStionable:ENABle\<close>.\<close>

definition set_register :: "'u scpi_interface \<Rightarrow> scpi_reg_name \<Rightarrow> scpi_result \<Rightarrow> 'u scpi_callback" where
  "set_register ifc name res = (\<lambda>ctx. do {
     (ok, v, ctx) \<leftarrow> SCPI_ParamInt32 ifc ctx True True;
     if ok then do {n \<leftarrow> v; Some (SCPI_RES_OK, SCPI_RegSet ifc ctx name (word_of_int n))} else Some (res, ctx)})"

lemma setting_callbacks:
  "SCPI_CoreEse ifc = set_register ifc SCPI_REG_ESE SCPI_RES_ERR"
  "SCPI_CoreSre ifc = set_register ifc SCPI_REG_SRE SCPI_RES_ERR"
  "SCPI_StatusQuestionableEnable ifc = set_register ifc SCPI_REG_QUESE SCPI_RES_OK"
  by (simp_all add: SCPI_CoreEse_def [abs_def] SCPI_CoreSre_def [abs_def]
      SCPI_StatusQuestionableEnable_def [abs_def] set_register_def)

fun setting_errors :: "arg list \<Rightarrow> int list" where
  "setting_errors [] = [- 109]"
| "setting_errors [Arg_int neg n] = []"
| "setting_errors (Arg_int neg n # a # as) = [- 108]"
| "setting_errors (a # as) = [- 104]"

fun setting_value :: "arg list \<Rightarrow> u16 \<Rightarrow> u16" where
  "setting_value (Arg_int neg n # as) v = word_of_int (int_of_arg neg n)"
| "setting_value as v = v"

lemma reg_effect_QMA_other:
  "name \<noteq> SCPI_REG_STB \<Longrightarrow> bit (reg_effect r name v SCPI_REG_STB) 2 \<longleftrightarrow> bit (r SCPI_REG_STB) 2"
  by (cases name) (simp_all add: reg_effect_def Let_def stb_fix_bit summarise_bit)

lemma errors_ok_same:
  "errors_ok c \<Longrightarrow> registers d = registers c \<Longrightarrow> error_queue d = error_queue c \<Longrightarrow> errors_ok d"
  by (auto simp: STB_QMA_bit error_list_def)

lemma newest_errors: "errors_ok c \<Longrightarrow> newest (fifo_cap (queue_of c)) (error_list c) = error_list c"
  using fifo_inv_wr(2) [of "queue_of c"] by (auto simp: STB_QMA_bit error_list_def fifo_contents_def intro!: newest_all)

context scpi_port begin

lemma RegSet_errors_ok:
  assumes "errors_ok c" "enable_register name"
  shows "errors_ok (SCPI_RegSet ifc c name v)" "SCPI_RegGet (SCPI_RegSet ifc c name v) name = v"
proof -
  obtain r where r: "registers c = Some r" "status_ok r" "fifo_inv (queue_of c)"
    "bit (r SCPI_REG_STB) 2 \<longleftrightarrow> error_list c \<noteq> []" "error_queue c \<noteq> None"
    using assms(1) by (elim errors_okE) simp
  have n: "name \<noteq> SCPI_REG_STB" "name \<noteq> SCPI_REG_COUNT" using assms(2) by (auto simp: enable_register_def)
  have q: "registers (SCPI_RegSet ifc c name v) = Some (reg_effect r name v)"
    using RegSet_registers [OF r(1)] n(2) by simp
  show "SCPI_RegGet (SCPI_RegSet ifc c name v) name = v"
    using n by (simp add: RegGet_Some [OF q] reg_effect_other)
  show "errors_ok (SCPI_RegSet ifc c name v)"
    using r q n status_ok_effect [OF r(2) n(1)] reg_effect_QMA_other [OF n(1)]
    by (auto simp: STB_QMA_bit error_list_def)
qed

lemma ErrorPush_enable:
  assumes "errors_ok c" "enable_register name"
  shows "SCPI_RegGet (SCPI_ErrorPush ifc c err) name = SCPI_RegGet c name"
proof -
  obtain r where r: "registers c = Some r" using assms(1) by (auto simp: STB_QMA_bit)
  show ?thesis
    using assms(2) ErrorPush_eq(1) [OF r, of err] r
    by (auto simp: RegGet_Some pushed_regs_def Let_def reg_effect_other enable_register_def)
qed

lemma ErrorPush_errors:
  assumes "errors_ok c" "fifo_ready (queue_of c)" "enable_register name"
  shows "error_list (SCPI_ErrorPush ifc c err) = newest (fifo_cap (queue_of c)) (error_list c @ [err])"
    "SCPI_RegGet (SCPI_ErrorPush ifc c err) name = SCPI_RegGet c name" "cmd_error (SCPI_ErrorPush ifc c err)"
  using ErrorPush_ok [OF assms(1,2)] ErrorPush_enable [OF assms(1,3)] by simp_all

lemma setting_run:
  assumes "at_args c as" "\<forall>a\<in>set as. arg_ok a" "input_count c = 0" "\<not> cmd_error c"
    "errors_ok c" "fifo_ready (queue_of c)" "enable_register name"
  shows "\<exists>r d. set_register ifc name res c = Some (r, d) \<and>
    (\<not> cmd_error d \<and> reported r d = [] \<longleftrightarrow> setting_errors as = []) \<and>
    error_list (foldl (SCPI_ErrorPush ifc) d (reported r d)) =
      newest (fifo_cap (queue_of c)) (error_list c @ setting_errors as) \<and>
    SCPI_RegGet (foldl (SCPI_ErrorPush ifc) d (reported r d)) name = setting_value as (SCPI_RegGet c name)"
proof (cases as)
  case Nil
  have "set_register ifc name res c = Some (res, SCPI_ErrorPush ifc c SCPI_ERROR_MISSING_PARAMETER)"
    using Parameter_end [of c ifc zero_token True] assms(1)
    by (simp add: Nil set_register_def SCPI_ParamInt32_def ParamSignUInt32_def)
  then show ?thesis
    using ErrorPush_errors [OF assms(5-7)] by (simp add: Nil reported_def error_numbers)
next
  case (Cons a as')
  have ok: "arg_ok a" using assms(2) Cons by simp
  obtain d n where d: "at_args d as'" "input_count d = 1" "d = stepped n c"
    "SCPI_ParamInt32 ifc c True True =
      Some (case a of Arg_int neg n \<Rightarrow> (True, Some (int_of_arg neg n), d)
            | _ \<Rightarrow> (False, None, SCPI_ErrorPush ifc d SCPI_ERROR_DATA_TYPE_ERROR))"
    using ParamInt32_arg [OF assms(1) [unfolded Cons] ok, of True] assms(3) by auto
  have f: "error_queue d = error_queue c" "registers d = registers c" "\<not> cmd_error d"
    using assms(4) by (simp_all add: d(3) stepped_def)
  then have g: "errors_ok d" "error_list d = error_list c" "fifo_ready (queue_of d)"
    "SCPI_RegGet d name = SCPI_RegGet c name"
    using errors_ok_same [OF assms(5)] assms(6) by (simp_all add: error_list_def SCPI_RegGet_def)
  show ?thesis
  proof (cases "\<exists>neg n. a = Arg_int neg n")
    case False
    then have "set_register ifc name res c = Some (res, SCPI_ErrorPush ifc d SCPI_ERROR_DATA_TYPE_ERROR)"
      "setting_errors as = [- 104]" "setting_value as v = v" for v
      using d(4) by (cases a; simp add: set_register_def Cons)+
    then show ?thesis
      using ErrorPush_errors [OF g(1,3) assms(7)] f(1) g(2,4) by (simp add: reported_def error_numbers)
  next
    case True
    then obtain neg k where a: "a = Arg_int neg k" by blast
    let ?e = "SCPI_RegSet ifc d name (word_of_int (int_of_arg neg k))"
    have run: "set_register ifc name res c = Some (SCPI_RES_OK, ?e)"
      using d(4) by (simp add: set_register_def a)
    have e: "errors_ok ?e" "SCPI_RegGet ?e name = word_of_int (int_of_arg neg k)" "error_queue ?e = error_queue c"
      "\<not> cmd_error ?e" "error_list ?e = error_list c" "fifo_ready (queue_of ?e)"
      using RegSet_errors_ok [OF g(1) assms(7)] f g(2,3) by (simp_all add: error_list_def)
    have left: "parameters_left ?e \<longleftrightarrow> as' \<noteq> []"
      using d(1,2) by (auto simp: at_args_def parameters_left_def separated_def Let_def)
    show ?thesis
    proof (cases as')
      case Nil
      then show ?thesis
        using run e left newest_errors [OF assms(5)] by (simp add: reported_def Cons a)
    next
      case (Cons b bs)
      then show ?thesis
        using run e left ErrorPush_errors [OF e(1,6) assms(7)] \<open>as = a # as'\<close>
        by (simp add: reported_def a error_numbers)
    qed
  qed
qed

end

section \<open>Around a command\<close>

text \<open>The context that a callback is called with.\<close>

definition called :: "'u scpi_t \<Rightarrow> 'u scpi_t" where
  "called c = c\<lparr>cmd_error := False, output_count := 0, input_count := 0\<rparr>"

lemma called_at_args: "loads c i full as d \<Longrightarrow> at_args (called d) as"
  by (auto simp: loads_def at_args_def separated_def called_def Let_def)

lemma called_fields [simp]:
  "cmd_error (called c) = False" "output_count (called c) = 0" "input_count (called c) = 0"
  "error_queue (called c) = error_queue c" "registers (called c) = registers c" "buf_data (called c) = buf_data c"
  "error_list (called c) = error_list c" "SCPI_RegGet (called c) name = SCPI_RegGet c name"
  by (simp_all add: called_def error_list_def SCPI_RegGet_def)

lemma loads_fields:
  assumes "loads c i full as d"
  shows "error_queue d = error_queue c" "registers d = registers c" "output_count d = output_count c"
    "pl_cmd (param_list d) = Some i" "idn d = idn c" "user_context d = user_context c"
  using assms by (auto simp: loads_def)

context scpi_writer begin

lemma NewLine_keeps:
  assumes "writeNewLine ifc c = Some (k, d)"
  shows "keeps_library c d"
proof -
  obtain w where w: "if_write ifc = Some w" using can_write by blast
  have f: "keeps_library x (snd (flushData ifc x))" for x
    using flush_keeps by (auto simp: flushData_def split: option.split)
  show ?thesis
    using assms write_keeps [OF w, of c SCPI_LINE_ENDING] f [of "snd (w c SCPI_LINE_ENDING)"] keeps_library_trans
    by (auto simp: writeNewLine_def writeData_def w split_beta split: if_splits)
qed

end

text \<open>A line with one known unit, in terms of its callback.\<close>

lemma line_runs_single:
  assumes "line_runs ifc cmds [] [(header, as)] c r d"
    "searchCommand cmds header (length header) 0 = Some (Some i)"
  shows "\<exists>d1. loads c i header as d1 \<and> processCommand ifc cmds d1 = Some (r, d)"
  using assms by (auto elim!: line_runs_consE line_runs_nilE)

context command_set begin

lemma Parse_single:
  assumes "searchCommand cmds header (length header) 0 = Some (Some i)" "i < length cmds"
    "unit_ok (header, as)" "buf_data c = pre @ line_text [(header, as)] tm @ post" "seven_bit c"
    "number_ends (term_text tm @ post)"
  obtains d where "loads (c\<lparr>output_count := 0\<rparr>) i header as d"
    "\<forall>r f. run_callback (cmds ! i) (called d) = Some (r, f) \<longrightarrow>
      (\<exists>k e. writeNewLine ifc (foldl (SCPI_ErrorPush ifc) f (reported r f)) = Some (k, e) \<and>
        SCPI_Parse ifc cmds c (length pre) (int (length (line_text [(header, as)] tm))) =
        Some (\<not> cmd_error f \<and> reported r f = [], e))"
proof -
  obtain r d k e where p: "line_runs ifc cmds [] [(header, as)] (c\<lparr>output_count := 0\<rparr>) r d"
    "writeNewLine ifc d = Some (k, e)"
    "SCPI_Parse ifc cmds c (length pre) (int (length (line_text [(header, as)] tm))) = Some (r, e)"
    using Parse_runs [of "[(header, as)]" c pre tm post] assms(3-6) by auto
  obtain d1 where l: "loads (c\<lparr>output_count := 0\<rparr>) i header as d1" "processCommand ifc cmds d1 = Some (r, d)"
    using line_runs_single [OF p(1) assms(1)] by blast
  note f = loads_fields [OF l(1)]
  have w: "writeSemicolon ifc d1 = Some (0, d1)" using f(3) by (simp add: writeSemicolon_def)
  have "r = (\<not> cmd_error g \<and> reported q g = []) \<and> d = foldl (SCPI_ErrorPush ifc) g (reported q g)"
    if "run_callback (cmds ! i) (called d1) = Some (q, g)" for q g
    using processCommand_reports [OF f(4) assms(2) w] that l(2) by (simp add: called_def)
  then show thesis using that [OF l(1)] p(2,3) by blast
qed

end

section \<open>Looking a header up in the firmware's list\<close>

primrec first_index :: "('a \<Rightarrow> bool) \<Rightarrow> 'a list \<Rightarrow> nat option" where
  "first_index P [] = None"
| "first_index P (x # xs) = (if P x then Some 0 else map_option Suc (first_index P xs))"

lemma searchCommand_parts:
  assumes "list_all (\<lambda>(ps, q). ps \<noteq> [] \<and> list_all good_part ps \<and> length (pattern_text False ps q) \<le> 40) parts"
    "map cmd_pattern cmds = map (\<lambda>(ps, q). pattern_text False ps q) parts"
    "ws \<noteq> []" "list_all good_word ws" "colon \<Longrightarrow> hd (hd ws) \<noteq> CHR ''*''"
  shows "searchCommand cmds (command_text colon ws query) (length (command_text colon ws query)) i =
    Some (map_option ((+) i) (first_index (\<lambda>(ps, q). q = query \<and> greedy_match ps ws) parts))"
  using assms(1,2)
proof (induction parts arbitrary: cmds i)
  case (Cons part parts)
  obtain ps q where part: "part = (ps, q)" by (cases part)
  obtain c cs where c: "cmds = c # cs" "cmd_pattern c = pattern_text False ps q"
    "map cmd_pattern cs = map (\<lambda>(ps, q). pattern_text False ps q) parts"
    using Cons.prems(2) by (auto simp: part)
  have "matchCommand (cmd_pattern c) (command_text colon ws query) (length (command_text colon ws query)) None 0 0 =
      Some (q = query \<and> greedy_match ps ws, None)"
    using matchCommand_greedy_core [of ps ws colon False q query "[]" 0 0] Cons.prems(1) assms(3-5)
    by (simp add: c(2) part)
  then show ?case
    using Cons.IH [of cs "Suc i"] Cons.prems(1) c
    by (auto simp: part comp_def option.map_comp intro!: option.map_cong)
qed simp

lemmas search_required = searchCommand_parts [OF required_good required_patterns]

section \<open>The setting commands of the firmware\<close>

definition setting_of :: "nat \<Rightarrow> scpi_reg_name option" where
  "setting_of i = (if i = 1 then Some SCPI_REG_ESE else if i = 8 then Some SCPI_REG_SRE
     else if i = 17 then Some SCPI_REG_QUESE else None)"

lemma setting_of_callback:
  assumes "setting_of i = Some name"
  shows "enable_register name" "i < length required_commands"
    "\<exists>res. cmd_callback (required_commands ! i) = Some (set_register scpi_ifc name res)"
  using assms
  by (auto simp: setting_of_def enable_register_def required_commands_def cmd_def setting_callbacks
      split: if_splits)

text \<open>C2: The commands that set an enable register.  When the header of a line's only unit is one that
  the firmware's command list answers with \<^verbatim>\<open>*ESE\<close>, \<^verbatim>\<open>*SRE\<close> or \<^verbatim>\<open>STATus:QUEStionable:ENABle\<close> (in any of its
  spellings), then for every list of arguments of four forms, namely decimal integers (digits behind an
  optional minus sign), names, quoted strings and arbitrary blocks, the line succeeds exactly when the list
  is a single integer; the register then holds the integer, cut to 32 and then to 16 bits.  Without an
  argument the missing parameter error is queued, when the first is not an integer the data type error,
  and the register keeps its value; with more arguments behind an integer the register is set and the
  parameter not allowed error is queued.  Other numbers, with a fraction, an exponent, a suffix or a
  \<^verbatim>\<open>#H\<close>, \<^verbatim>\<open>#Q\<close> or \<^verbatim>\<open>#B\<close> prefix, are not among the forms.\<close>

theorem setting_line:
  fixes c :: "'r device_scheme scpi_t"
  assumes "searchCommand (required_commands :: 'r device_scheme scpi_command list) header (length header) 0 =
      Some (Some i)" "setting_of i = Some name"
    "unit_ok (header, as)" "buf_data c = pre @ line_text [(header, as)] tm @ post" "seven_bit c"
    "number_ends (term_text tm @ post)" "errors_ok c" "fifo_ready (queue_of c)"
  shows "\<exists>e. SCPI_Parse scpi_ifc required_commands c (length pre) (int (length (line_text [(header, as)] tm))) =
      Some (setting_errors as = [], e) \<and>
    error_list e = newest (fifo_cap (queue_of c)) (error_list c @ setting_errors as) \<and>
    SCPI_RegGet e name = setting_value as (SCPI_RegGet c name)"
proof -
  obtain d where d: "loads (c\<lparr>output_count := 0\<rparr>) i header as d"
    "\<forall>r f. run_callback (required_commands ! i) (called d) = Some (r, f) \<longrightarrow>
      (\<exists>k e. writeNewLine scpi_ifc (foldl (SCPI_ErrorPush scpi_ifc) f (reported r f)) = Some (k, e) \<and>
        SCPI_Parse scpi_ifc required_commands c (length pre) (int (length (line_text [(header, as)] tm))) =
        Some (\<not> cmd_error f \<and> reported r f = [], e))"
    by (rule required.Parse_single [OF assms(1) setting_of_callback(2) [OF assms(2)] assms(3-6)])
  note f = loads_fields [OF d(1)]
  obtain res where res: "cmd_callback ((required_commands :: 'r device_scheme scpi_command list) ! i) = Some (set_register scpi_ifc name res)"
    using setting_of_callback(3) [OF assms(2)] by blast
  have ok: "errors_ok (called d)" "fifo_ready (queue_of (called d))" "\<forall>a\<in>set as. arg_ok a"
    using assms(3,7,8) f errors_ok_same [OF assms(7), of "called d"] by (simp_all add: unit_ok_def)
  obtain r g where g: "set_register scpi_ifc name res (called d) = Some (r, g)"
    "\<not> cmd_error g \<and> reported r g = [] \<longleftrightarrow> setting_errors as = []"
    "error_list (foldl (SCPI_ErrorPush scpi_ifc) g (reported r g)) =
      newest (fifo_cap (queue_of (called d))) (error_list (called d) @ setting_errors as)"
    "SCPI_RegGet (foldl (SCPI_ErrorPush scpi_ifc) g (reported r g)) name =
      setting_value as (SCPI_RegGet (called d) name)"
    using port.setting_run [OF called_at_args [OF d(1)] ok(3) _ _ ok(1,2) setting_of_callback(1) [OF assms(2)],
        of res] by auto
  have "run_callback (required_commands ! i) (called d) = Some (r, g)" using g(1) res by (simp add: run_callback_def)
  then obtain k e where e: "writeNewLine scpi_ifc (foldl (SCPI_ErrorPush scpi_ifc) g (reported r g)) = Some (k, e)"
    "SCPI_Parse scpi_ifc required_commands c (length pre) (int (length (line_text [(header, as)] tm))) =
        Some (\<not> cmd_error g \<and> reported r g = [], e)"
    using d(2) by blast
  have "error_list e = error_list (foldl (SCPI_ErrorPush scpi_ifc) g (reported r g))"
    "SCPI_RegGet e name = SCPI_RegGet (foldl (SCPI_ErrorPush scpi_ifc) g (reported r g)) name"
    using keeps_library_fields [OF fw.NewLine_keeps [OF e(1)]] by (simp_all add: error_list_def SCPI_RegGet_def)
  then show ?thesis using e(2) g(2-4) f by (auto simp: error_list_def SCPI_RegGet_def)
qed

lemma setting_line_witness:
  "\<exists>e. SCPI_Parse scpi_ifc required_commands
      (running\<lparr>buf_data := '':STATus:QUES:enab 40000,2'' @ [CHR 0x0A, NUL]\<rparr>) 0 26 = Some (False, e) \<and>
    error_list e = [- 108] \<and> SCPI_RegGet e SCPI_REG_QUESE = 40000"
proof -
  let ?ws = "[''STATus'', ''QUES'', ''enab'']"
  let ?h = "'':STATus:QUES:enab''" and ?as = "[Arg_int False 40000, Arg_int False 2]"
  let ?c = "running\<lparr>buf_data := '':STATus:QUES:enab 40000,2'' @ [CHR 0x0A, NUL]\<rparr>"
  have s: "searchCommand (required_commands :: device scpi_command list) ?h (length ?h) 0 = Some (Some 17)"
  proof -
    have "list_all good_word ?ws \<and> first_index (\<lambda>(ps, q). q = False \<and> greedy_match ps ?ws) required_parts = Some 17 \<and>
        command_text True ?ws False = ?h"
      by code_simp
    then show ?thesis using search_required [of ?ws True False 0] by simp
  qed
  have "is_mnemonic ''STATus'' \<and> is_mnemonic ''QUES'' \<and> is_mnemonic ''enab''"
    by (simp add: is_mnemonic_def isMnemonicChar_def isalnum_def isalpha_def isupper_def islower_def)
  then have u: "unit_ok (?h, ?as)"
    using scans_compound [of "[''STATus'', ''QUES'', ''enab'']" True False]
    by (auto simp: unit_ok_def header_text_def)
  have n: "num_text 10 40000 = ''40000''" "num_text 10 2 = ''2''"
    by (simp_all add: num_text.simps dchar_def digit_chars_def)
  have t: "line_text [(?h, ?as)] SCPI_MESSAGE_TERMINATION_NL = '':STATus:QUES:enab 40000,2'' @ [CHR 0x0A]"
    by (simp add: command_line_def n)
  have "seven_bit ?c" by (auto simp: seven_bit_def isascii7bit_def)
  moreover have "errors_ok ?c" using running_errors(1) by (rule errors_ok_same) simp_all
  ultimately show ?thesis
    using setting_line [OF s _ u, of SCPI_REG_QUESE ?c "[]" SCPI_MESSAGE_TERMINATION_NL "[NUL]", unfolded t]
      running_errors
    by (simp add: setting_of_def number_ends_def isalnum_def isalpha_def isupper_def islower_def isdigit_def
        error_list_def newest_def int_of_arg_def)
qed

section \<open>Queries\<close>

text \<open>The reports of the status system go to the console with \<^verbatim>\<open>printf\<close>, not into the response.\<close>

lemma out_text_updates [simp]:
  "out_text_of (c\<lparr>registers := r\<rparr>) = out_text_of c" "out_text_of (c\<lparr>error_queue := q\<rparr>) = out_text_of c"
  "out_text_of (c\<lparr>output_count := n\<rparr>) = out_text_of c" "out_text_of (called c) = out_text_of c"
  "out_text_of (emit (Printf fmt xs) c) = out_text_of c" "out_text_of (snd (on_queue x g c)) = out_text_of c"
  "out_text_of (snd (SCPI_ErrorCount c)) = out_text_of c"
  by (simp_all add: out_text_of_def called_def emit_def SCPI_ErrorCount_def)

lemma ErrorCount_fields [simp]:
  "registers (snd (SCPI_ErrorCount c)) = registers c" "param_list (snd (SCPI_ErrorCount c)) = param_list c"
  "cmd_error (snd (SCPI_ErrorCount c)) = cmd_error c" "output_count (snd (SCPI_ErrorCount c)) = output_count c"
  by (simp_all add: SCPI_ErrorCount_def)

lemma service_request_silent [simp]: "out_text_of (service_request scpi_ifc b c) = out_text_of c"
  by (simp add: service_request_def writeControl_def scpi_ifc_def SCPI_Control_def)

lemma RegSet_silent:
  assumes "registers c = Some r" "name \<noteq> SCPI_REG_COUNT"
  shows "out_text_of (SCPI_RegSet scpi_ifc c name v) = out_text_of c"
  using port.RegSet_eq [OF assms] by simp

lemma call_error_silent [simp]: "out_text_of (call_error scpi_ifc err c) = out_text_of c"
  by (simp add: call_error_def scpi_ifc_def SCPI_Error_def)

lemma ErrorPop_silent:
  assumes "errors_ok c"
  shows "out_text_of (snd (SCPI_ErrorPop scpi_ifc c)) = out_text_of c"
  using assms
  by (auto simp: STB_QMA_bit SCPI_ErrorPop_def SCPI_ErrorEmitEmpty_def SCPI_RegClearBits.simps RegSet_silent
      split_beta Let_def)

lemma ErrorPush_silent:
  assumes "registers c = Some r"
  shows "out_text_of (SCPI_ErrorPush scpi_ifc c err) = out_text_of c"
proof -
  have bits: "out_text_of (SCPI_RegSetBits scpi_ifc d name v) = out_text_of d"
    if "registers d = Some q" "name \<noteq> SCPI_REG_COUNT" for d :: "'a device_scheme scpi_t" and q name v
    using RegSet_silent [OF that] by (simp add: SCPI_RegSetBits.simps)
  have [simp]: "out_text_of (d\<lparr>cmd_error := b\<rparr>) = out_text_of d" for d :: "'a device_scheme scpi_t" and b
    by (simp add: out_text_of_def)
  show ?thesis
    using assms
    by (simp add: SCPI_ErrorPush_def SCPI_ErrorEmit_def SCPI_ErrorAddInternal_def push_bits_eq
        port.RegSetBits_registers bits Let_def)
qed

lemma flushData_fw: "flushData scpi_ifc c = (SCPI_RES_OK, c)"
  by (simp add: flushData_def scpi_ifc_def SCPI_Flush_def)

lemma NewLine_text:
  "writeNewLine scpi_ifc c = Some (k, d) \<Longrightarrow> 0 < output_count c \<Longrightarrow>
     out_text_of d = out_text_of c @ SCPI_LINE_ENDING"
  by (auto simp: writeNewLine_def writeData_fw flushData_fw)

lemma only_output_fields:
  assumes "only_output c d"
  shows "cmd_error d = cmd_error c" "param_list d = param_list c" "error_queue d = error_queue c"
    "registers d = registers c"
  using assms by (auto simp: only_output_def emits_def)

text \<open>A query whose callback puts the results \<open>rs\<close> into the context \<open>c1\<close>.\<close>

lemma answered:
  assumes "loads (c\<lparr>output_count := 0\<rparr>) i header [] d" "param_list c1 = param_list (called d)" "\<not> cmd_error c1"
    "output_count c1 = 0" "\<forall>r\<in>set rs. item_ok r" "rs \<noteq> []" "length rs < 32768"
  obtains n f where "put_results scpi_ifc rs c1 = Some (n, f)" "reported SCPI_RES_OK f = []" "\<not> cmd_error f"
    "0 < output_count f" "out_text_of f = out_text_of c1 @ joined False (map item_text rs)"
    "error_queue f = error_queue c1" "registers f = registers c1"
proof -
  obtain f where f: "put_results scpi_ifc rs c1 = Some (length (joined False (map item_text rs)), f)"
    "out_text_of f = out_text_of c1 @ joined False (map item_text rs)"
    "output_count f = int (length rs)" "only_output c1 f"
    using put_results_joined [OF assms(5), of c1] assms(4,7) by auto
  note o = only_output_fields [OF f(4)]
  have "at_args (called d) []" by (rule called_at_args [OF assms(1)])
  then have "\<not> parameters_left f"
    by (simp add: parameters_left_def o(2) assms(2) at_args_def separated_def Let_def)
  then have "reported SCPI_RES_OK f = []" by (simp add: reported_def)
  then show thesis using that [OF f(1)] f(2,3) o assms(3,6) by simp
qed

lemma ErrorPop_fields:
  assumes "scpi_port ifc"
  shows "param_list (snd (SCPI_ErrorPop ifc c)) = param_list c" "cmd_error (snd (SCPI_ErrorPop ifc c)) = cmd_error c"
    "output_count (snd (SCPI_ErrorPop ifc c)) = output_count c"
  using scpi_port.call_error_fields [OF assms] scpi_port.RegSet_fields [OF assms]
  by (simp_all add: SCPI_ErrorPop_def SCPI_ErrorEmitEmpty_def SCPI_RegClearBits.simps split_beta Let_def)

text \<open>C6: \<^verbatim>\<open>SYSTem:ERRor[:NEXT]?\<close> answers with the oldest error.  For every spelling of the header the line
  succeeds; the response is the number of the oldest error in the queue, a comma, its description
  from the error table in quotes, and the line ending; exactly that error leaves the queue and
  the status byte stays consistent with it.  From an empty queue the answer is 0 and no error.\<close>

theorem error_query_line:
  fixes c :: "'r device_scheme scpi_t"
  assumes "searchCommand (required_commands :: 'r device_scheme scpi_command list) header (length header) 0 =
      Some (Some 13)"
    "unit_ok (header, [])" "buf_data c = pre @ line_text [(header, [])] tm @ post" "seven_bit c"
    "number_ends (term_text tm @ post)" "errors_ok c"
    "err = (case error_list c of [] \<Rightarrow> 0 | e # _ \<Rightarrow> e)" "- 32768 \<le> err" "err \<le> 32767"
  shows "\<exists>e. SCPI_Parse scpi_ifc required_commands c (length pre) (int (length (line_text [(header, [])] tm))) =
      Some (True, e) \<and>
    out_text_of e = out_text_of c @ int_text err @ '','' @ CHR 0x22 # SCPI_ErrorTranslate err @ [CHR 0x22] @
      SCPI_LINE_ENDING \<and>
    error_list e = tl (error_list c) \<and> errors_ok e"
proof -
  obtain d where d: "loads (c\<lparr>output_count := 0\<rparr>) 13 header [] d"
    "\<forall>r f. run_callback (required_commands ! 13) (called d) = Some (r, f) \<longrightarrow>
      (\<exists>k e. writeNewLine scpi_ifc (foldl (SCPI_ErrorPush scpi_ifc) f (reported r f)) = Some (k, e) \<and>
        SCPI_Parse scpi_ifc required_commands c (length pre) (int (length (line_text [(header, [])] tm))) =
        Some (\<not> cmd_error f \<and> reported r f = [], e))"
    by (rule required.Parse_single [OF assms(1) _ assms(2-5)]) (simp add: required_commands_def)
  have ok: "errors_ok (called d)" "error_list (called d) = error_list c" "out_text_of (called d) = out_text_of c"
    using errors_ok_same [OF assms(6), of "called d"] loads_fields [OF d(1)]
    by (simp_all add: error_list_def out_text_of_def called_def)
  obtain c1 where c1: "SCPI_ErrorPop scpi_ifc (called d) = (err, c1)"
    using port.ErrorPop_ok(3) [OF ok(1)] ok(2) assms(7) by (metis prod.collapse)
  have p: "param_list c1 = param_list (called d)" "\<not> cmd_error c1" "output_count c1 = 0" "errors_ok c1"
    "error_list c1 = tl (error_list c)" "out_text_of c1 = out_text_of c"
    using ErrorPop_fields [OF scpi_port_scpi_ifc, of "called d"] port.ErrorPop_ok [OF ok(1)]
      ErrorPop_silent [OF ok(1)] c1 ok(2,3) by simp_all
  let ?rs = "[R_int32 err, R_text (SCPI_ErrorTranslate err)]"
  have rs: "\<forall>r\<in>set ?rs. item_ok r" "?rs \<noteq> []" "length ?rs < 32768" using assms(8,9) by simp_all
  obtain n f where f: "put_results scpi_ifc ?rs c1 = Some (n, f)" "reported SCPI_RES_OK f = []" "\<not> cmd_error f"
    "0 < output_count f" "out_text_of f = out_text_of c1 @ joined False (map item_text ?rs)"
    "error_queue f = error_queue c1" "registers f = registers c1"
    by (rule answered [OF d(1) p(1-3) rs])
  have "run_callback (required_commands ! 13) (called d) = SCPI_SystemErrorNextQ scpi_ifc (called d)"
    by (simp add: run_callback_def required_commands_def cmd_def)
  also have "\<dots> = Some (SCPI_RES_OK, f)"
    using f(1) by (auto simp: SCPI_SystemErrorNextQ_def c1 split: option.splits Option.bind_splits)
  finally obtain k e where e: "writeNewLine scpi_ifc f = Some (k, e)"
    "SCPI_Parse scpi_ifc required_commands c (length pre) (int (length (line_text [(header, [])] tm))) = Some (True, e)"
    using d(2) f(2,3) by fastforce
  note k = keeps_library_fields [OF fw.NewLine_keeps [OF e(1)]]
  have "error_list e = tl (error_list c)" "errors_ok e"
    using errors_ok_same [OF p(4), of e] k f(6,7) p(5) by (simp_all add: error_list_def)
  then show ?thesis using e(2) NewLine_text [OF e(1) f(4)] f(5) p(6) by simp
qed

lemma error_query_line_witness:
  "\<exists>e. SCPI_Parse scpi_ifc required_commands
      (SCPI_ErrorPush scpi_ifc (running\<lparr>buf_data := ''syst:ERROR?'' @ [CHR 0x0A, NUL]\<rparr>) (- 113)) 0 12 = Some (True, e) \<and>
    out_text_of e = ''-113,'' @ [CHR 0x22] @ ''Undefined header'' @ [CHR 0x22, CHR 0x0D, CHR 0x0A] \<and>
    error_list e = []"
proof -
  let ?h = "''syst:ERROR?''" and ?ws = "[''syst'', ''ERROR'']"
  let ?b = "running\<lparr>buf_data := ''syst:ERROR?'' @ [CHR 0x0A, NUL]\<rparr>"
  let ?c = "SCPI_ErrorPush scpi_ifc ?b (- 113)"
  have s: "searchCommand (required_commands :: device scpi_command list) ?h (length ?h) 0 = Some (Some 13)"
  proof -
    have "list_all good_word ?ws \<and> first_index (\<lambda>(ps, q). q = True \<and> greedy_match ps ?ws) required_parts = Some 13 \<and>
        command_text False ?ws True = ?h"
      by code_simp
    then show ?thesis using search_required [of ?ws False True 0] by simp
  qed
  have "is_mnemonic ''syst'' \<and> is_mnemonic ''ERROR''"
    by (simp add: is_mnemonic_def isMnemonicChar_def isalnum_def isalpha_def isupper_def islower_def)
  then have u: "unit_ok (?h, [])"
    using scans_compound [of "[''syst'', ''ERROR'']" False True] by (auto simp: unit_ok_def header_text_def)
  have t: "line_text [(?h, [])] SCPI_MESSAGE_TERMINATION_NL = ''syst:ERROR?'' @ [CHR 0x0A]"
    by (simp add: command_line_def)
  have b: "errors_ok ?b" "fifo_ready (queue_of ?b)" "error_list ?b = []" "fifo_cap (queue_of ?b) = 16"
    using running_errors errors_ok_same [OF running_errors(1), of ?b] by (simp_all add: error_list_def)
  have c: "errors_ok ?c" "error_list ?c = [- 113]" "buf_data ?c = ''syst:ERROR?'' @ [CHR 0x0A, NUL]"
    using port.ErrorPush_ok [OF b(1,2), of "- 113"] b(3,4) by (simp_all add: newest_def)
  have "registers ?b = Some (\<lambda>_. 0)"
    by (simp add: running_eq started_def SCPI_ErrorInit_def scpi_context_def)
  from ErrorPush_silent [OF this] have o: "out_text_of ?c = []"
    by (simp add: out_text_of_def running_eq started_def SCPI_ErrorInit_def scpi_context_def)
  have "seven_bit ?c" by (auto simp: c(3) seven_bit_def isascii7bit_def)
  moreover have "SCPI_ErrorTranslate (- 113) = ''Undefined header''" "int_text (- 113) = ''-113''"
    by (simp_all add: SCPI_ErrorTranslate_def LIST_OF_ERRORS_def error_numbers USE_FULL_ERROR_LIST_def int_text_def num_text.simps
        dchar_def digit_chars_def)
  moreover have "- 113 = (case error_list ?c of [] \<Rightarrow> 0 | e # _ \<Rightarrow> e)" unfolding c(2) by simp
  ultimately show ?thesis
    using error_query_line [OF s u, of ?c "[]" SCPI_MESSAGE_TERMINATION_NL "[NUL]" "- 113", unfolded t] c o
    by (auto simp: number_ends_def isalnum_def isalpha_def isupper_def islower_def isdigit_def SCPI_LINE_ENDING_def)
qed

end
