(* ===== verification/ReadBack.thy ===== *)
theory ReadBack
  imports CommandProps
begin

text \<open>
  A response read back: the results a command writes (\<^verbatim>\<open>parser.c\<close>, \<^verbatim>\<open>SCPI_Result...\<close>), placed in the
  receive buffer as the parameters of another command and read by the parameter functions of the same kinds
  (\<^verbatim>\<open>SCPI_Param...\<close>).
\<close>

section \<open>Reading by kind\<close>

datatype result_kind = K_characters | K_int32 | K_uint32 | K_int64 | K_uint64 | K_text | K_bool

fun kind_of :: "result_item \<Rightarrow> result_kind" where
  "kind_of (R_characters data) = K_characters"
| "kind_of (R_int32 v) = K_int32"
| "kind_of (R_uint32 v base) = K_uint32"
| "kind_of (R_int64 v) = K_int64"
| "kind_of (R_uint64 v base) = K_uint64"
| "kind_of (R_text data) = K_text"
| "kind_of (R_bool b) = K_bool"

text \<open>One mandatory parameter is read; \<open>None\<close> if the function did not succeed or stored nothing.\<close>

definition stored_value ::
  "('v \<Rightarrow> 'u scpi_t \<Rightarrow> result_item) \<Rightarrow> (bool \<times> 'v option \<times> 'u scpi_t) option \<Rightarrow> (result_item \<times> 'u scpi_t) option" where
  "stored_value f r = do {
     (ok, v, ctx) \<leftarrow> r;
     v \<leftarrow> v;
     if ok then Some (f v ctx, ctx) else None
   }"

definition pointed :: "nat option \<times> int \<Rightarrow> 'u scpi_t \<Rightarrow> char list" where
  "pointed = (\<lambda>(p, n) ctx. take (nat n) (drop (addr p) (buf_data ctx)))"

fun get_result ::
  "'u scpi_interface \<Rightarrow> result_kind \<Rightarrow> 'u scpi_t \<Rightarrow> (result_item \<times> 'u scpi_t) option" where
  "get_result ifc K_characters ctx = stored_value (\<lambda>v d. R_characters (pointed v d)) (SCPI_ParamCharacters ifc ctx True True)"
| "get_result ifc K_int32 ctx = stored_value (\<lambda>v d. R_int32 v) (SCPI_ParamInt32 ifc ctx True True)"
| "get_result ifc K_uint32 ctx = stored_value (\<lambda>v d. R_uint32 (word_of_int v) 10) (SCPI_ParamUInt32 ifc ctx True True)"
| "get_result ifc K_int64 ctx = stored_value (\<lambda>v d. R_int64 v) (SCPI_ParamInt64 ifc ctx True True)"
| "get_result ifc K_uint64 ctx = stored_value (\<lambda>v d. R_uint64 (word_of_int v) 10) (SCPI_ParamUInt64 ifc ctx True True)"
| "get_result ifc K_text ctx = stored_value (\<lambda>v d. R_text (pointed v d)) (SCPI_ParamCharacters ifc ctx True True)"
| "get_result ifc K_bool ctx = stored_value (\<lambda>v d. R_bool v) (SCPI_ParamBool ifc ctx True True)"

fun get_results ::
  "'u scpi_interface \<Rightarrow> result_kind list \<Rightarrow> 'u scpi_t \<Rightarrow> (result_item list \<times> 'u scpi_t) option" where
  "get_results ifc [] ctx = Some ([], ctx)"
| "get_results ifc (k # ks) ctx = do {
     (r, ctx) \<leftarrow> get_result ifc k ctx;
     (rs, ctx) \<leftarrow> get_results ifc ks ctx;
     Some (r # rs, ctx)
   }"

text \<open>The results that can be read: integers within their width and, where the caller chooses a base, in
  base 10; texts of 7-bit characters without a quotation mark, which the library does not double; names.\<close>

fun result_readable :: "result_item \<Rightarrow> bool" where
  "result_readable (R_characters data) = is_mnemonic data"
| "result_readable (R_int32 v) = (- (2 ^ 31) \<le> v \<and> v < 2 ^ 31)"
| "result_readable (R_uint32 v base) = (base = 10)"
| "result_readable (R_int64 v) = (- (2 ^ 63) \<le> v \<and> v < 2 ^ 63)"
| "result_readable (R_uint64 v base) = (base = 10)"
| "result_readable (R_text data) = (CHR 0x22 \<notin> set data \<and> (\<forall>c\<in>set data. isascii7bit c))"
| "result_readable (R_bool b) = True"

text \<open>The value that comes back: a 64-bit integer is read through the 32-bit \<^verbatim>\<open>strtol\<close> and \<^verbatim>\<open>strtoul\<close>.\<close>

fun read_back :: "result_item \<Rightarrow> result_item" where
  "read_back (R_int64 v) = R_int64 (max (- (2 ^ 31)) (min (2 ^ 31 - 1) v))"
| "read_back (R_uint64 v base) = R_uint64 (min v (2 ^ 32 - 1)) base"
| "read_back r = r"

section \<open>One value\<close>

lemma strBaseToUInt32_arg:
  assumes "number_ends z"
  shows "strBaseToUInt32 (arg_text (Arg_int False n) @ z) 10 = (length (arg_text (Arg_int False n)), min (int n) (2 ^ 32 - 1))"
  using strto_subject_num [of 10 z False n] assms
  by (auto simp: strBaseToUInt32_def strtoul_def)

lemma strBase64_arg:
  "strBaseToInt64 s base = strBaseToInt32 s base" "strBaseToUInt64 s base = strBaseToUInt32 s base"
  by (simp_all add: strBaseToInt64_def strBaseToUInt64_def strBaseToInt32_def strBaseToUInt32_def)

lemma int_of_arg_signed:
  "int_of_arg (v < 0) (nat \<bar>v\<bar>) = max (- (2 ^ 31)) (min (2 ^ 31 - 1) v)"
  by (simp add: int_of_arg_def)

text \<open>The step that every kind shares: the parameter function succeeds with the value that stands for the
  argument, and the arguments behind it are still to be read.\<close>

definition reads_one :: "'u scpi_interface \<Rightarrow> result_kind \<Rightarrow> arg \<Rightarrow> result_item \<Rightarrow> bool" where
  "reads_one ifc k a r \<longleftrightarrow>
     (\<forall>c as. at_args c (a # as) \<longrightarrow> 0 \<le> input_count c \<longrightarrow> input_count c < 32767 \<longrightarrow>
        (\<exists>n. get_result ifc k c = Some (r, stepped n c) \<and> at_args (stepped n c) as \<and>
           input_count (stepped n c) = input_count c + 1))"

text \<open>A function that reads a parameter and then looks only at its token.\<close>

lemma reads_one_token:
  fixes ifc :: "'u scpi_interface"
  assumes "arg_ok a"
    and "\<And>(c :: 'u scpi_t) p d z. \<forall>mandatory. SCPI_Parameter ifc c (Some zero_token) mandatory =
        Some (True, \<lparr>tk_type = arg_type a, tk_ptr = Some p, tk_len = int (length (arg_data a))\<rparr>, d) \<Longrightarrow>
      drop p (buf_data d) = arg_data a @ z \<Longrightarrow> (case a of Arg_int neg n \<Rightarrow> number_ends z | _ \<Rightarrow> True) \<Longrightarrow>
      get_result ifc k c = Some (r, d)"
  shows "reads_one ifc k a r"
  unfolding reads_one_def
proof (intro allI impI)
  fix c :: "'u scpi_t" and as
  assume c: "at_args c (a # as)" "0 \<le> input_count c" "input_count c < 32767"
  obtain p d z where p: "\<forall>mandatory. SCPI_Parameter ifc c (Some zero_token) mandatory =
       Some (True, \<lparr>tk_type = arg_type a, tk_ptr = Some p, tk_len = int (length (arg_data a))\<rparr>, d)"
    "drop p (buf_data c) = arg_data a @ z" "at_args d as" "input_count d = input_count c + 1"
    "d = stepped (length (separated (input_count c \<noteq> 0) (a # as)) - length (separated True as)) c"
    "(\<exists>neg n. a = Arg_int neg n) \<longrightarrow> number_ends z"
    by (rule Parameter_arg [OF c(1) assms(1) c(2,3), of ifc zero_token])
  have "buf_data d = buf_data c" by (simp add: p(5) stepped_def)
  moreover have "case a of Arg_int neg n \<Rightarrow> number_ends z | _ \<Rightarrow> True" using p(6) by (cases a) auto
  ultimately have "get_result ifc k c = Some (r, d)" using assms(2) [OF p(1)] p(2) by simp
  then show "\<exists>n. get_result ifc k c = Some (r, stepped n c) \<and> at_args (stepped n c) as \<and>
      input_count (stepped n c) = input_count c + 1"
    using p(3-5) by blast
qed

lemmas number_read_defs = stored_value_def ParamSignToUInt32_def ParamSignToUInt64_def token_ptr_def
  read_number_def arg_type_def strBase64_arg Let_def

lemma reads_signed:
  "reads_one ifc K_int32 (Arg_int neg n) (R_int32 (int_of_arg neg n))"
  "reads_one ifc K_int64 (Arg_int neg n) (R_int64 (int_of_arg neg n))"
proof -
  have l: "arg_text (Arg_int neg n) \<noteq> []" "arg_data (Arg_int neg n) = arg_text (Arg_int neg n)"
    by (simp_all add: arg_data_def num_text_digit(2))
  show "reads_one ifc K_int32 (Arg_int neg n) (R_int32 (int_of_arg neg n))"
    "reads_one ifc K_int64 (Arg_int neg n) (R_int64 (int_of_arg neg n))"
    by (rule reads_one_token; simp add: number_read_defs SCPI_ParamInt32_def SCPI_ParamInt64_def ParamSignUInt32_def
        ParamSignUInt64_def l strBaseToInt32_arg del: arg_text.simps)+
qed

lemma reads_unsigned:
  "reads_one ifc K_uint32 (Arg_int False n) (R_uint32 (word_of_int (min (int n) (2 ^ 32 - 1))) 10)"
  "reads_one ifc K_uint64 (Arg_int False n) (R_uint64 (word_of_int (min (int n) (2 ^ 32 - 1))) 10)"
proof -
  have l: "arg_text (Arg_int False n) \<noteq> []" "arg_data (Arg_int False n) = arg_text (Arg_int False n)"
    by (simp_all add: arg_data_def num_text_digit(2))
  show "reads_one ifc K_uint32 (Arg_int False n) (R_uint32 (word_of_int (min (int n) (2 ^ 32 - 1))) 10)"
    "reads_one ifc K_uint64 (Arg_int False n) (R_uint64 (word_of_int (min (int n) (2 ^ 32 - 1))) 10)"
    by (rule reads_one_token; simp add: number_read_defs SCPI_ParamUInt32_def SCPI_ParamUInt64_def ParamSignUInt32_def
        ParamSignUInt64_def l strBaseToUInt32_arg del: arg_text.simps)+
qed

lemma reads_bool: "reads_one ifc K_bool (Arg_int False (if b then 1 else 0)) (R_bool b)"
proof -
  define n :: nat where "n = (if b then 1 else 0)"
  have l: "arg_text (Arg_int False n) \<noteq> []" "arg_data (Arg_int False n) = arg_text (Arg_int False n)"
    by (simp_all add: arg_data_def num_text_digit(2))
  have i: "int_of_arg False n \<noteq> 0 \<longleftrightarrow> b" by (simp add: int_of_arg_def n_def)
  have "reads_one ifc K_bool (Arg_int False n) (R_bool b)"
    by (rule reads_one_token; simp add: number_read_defs SCPI_ParamBool_def SCPI_ParamToInt32_def l i
        strBaseToInt32_arg del: arg_text.simps)
  then show ?thesis by (simp only: n_def)
qed

lemma reads_name: "is_mnemonic w \<Longrightarrow> reads_one ifc K_characters (Arg_name w) (R_characters w)"
  by (rule reads_one_token) (simp_all add: stored_value_def SCPI_ParamCharacters_def arg_type_def arg_data_def pointed_def)

lemma reads_text:
  assumes "CHR 0x22 \<notin> set w" "\<forall>c\<in>set w. isascii7bit c"
  shows "reads_one ifc K_text (Arg_string (CHR 0x22) w) (R_text w)"
proof (rule reads_one_token)
  fix c p d z
  have data: "arg_data (Arg_string (CHR 0x22) w) = CHR 0x22 # w @ [CHR 0x22]"
    by (simp add: arg_data_def quote_text_plain [OF assms(1)])
  assume P: "\<forall>mandatory. SCPI_Parameter ifc c (Some zero_token) mandatory =
        Some (True, \<lparr>tk_type = arg_type (Arg_string (CHR 0x22) w), tk_ptr = Some p,
          tk_len = int (length (arg_data (Arg_string (CHR 0x22) w)))\<rparr>, d)"
    and m: "drop p (buf_data d) = arg_data (Arg_string (CHR 0x22) w) @ z"
  have "drop (Suc p) (buf_data d) = w @ CHR 0x22 # z"
    using arg_cong [OF m, of "drop 1"] by (simp add: data)
  then show "get_result ifc K_text c = Some (R_text w, d)"
    using P by (simp add: stored_value_def SCPI_ParamCharacters_def arg_type_def data pointed_def)
qed (use assms in \<open>simp add: is_quote_def\<close>)

lemma unsigned_cut:
  "word_of_int (min (int (unat v)) (2 ^ 32 - 1)) = (v :: u32)"
  "word_of_int (min (int (unat w)) (2 ^ 32 - 1)) = (min w (2 ^ 32 - 1) :: u64)"
proof -
  show "word_of_int (min (int (unat v)) (2 ^ 32 - 1)) = v"
    using uint_bounded [of v] by (simp add: uint_nat [symmetric] min_def)
  have "w \<le> 2 ^ 32 - 1 \<longleftrightarrow> uint w \<le> 2 ^ 32 - 1" by (simp add: word_le_def)
  then show "word_of_int (min (int (unat w)) (2 ^ 32 - 1)) = (min w (2 ^ 32 - 1) :: u64)"
    by (simp add: uint_nat [symmetric] min_def)
qed

text \<open>The argument that a result is the text of, and what is read from it.\<close>

lemma readable_reads:
  "result_readable r \<Longrightarrow> \<exists>a. item_arg r = Some a \<and> item_ok r \<and> reads_one ifc (kind_of r) a (read_back r)"
proof (cases r)
  case (R_bool b)
  then show ?thesis using reads_bool [of ifc b] by simp
next
  case (R_int32 v)
  assume "result_readable r"
  then show ?thesis using reads_signed(1) [of ifc "v < 0" "nat \<bar>v\<bar>"] unfolding int_of_arg_signed by (simp add: R_int32)
next
  case (R_int64 v)
  assume "result_readable r"
  then show ?thesis using reads_signed(2) [of ifc "v < 0" "nat \<bar>v\<bar>"] unfolding int_of_arg_signed by (simp add: R_int64)
next
  case (R_uint32 v base)
  assume "result_readable r"
  then show ?thesis using reads_unsigned(1) [of ifc "unat v"] unfolding unsigned_cut by (simp add: R_uint32)
next
  case (R_uint64 v base)
  assume "result_readable r"
  then show ?thesis using reads_unsigned(2) [of ifc "unat v"] unfolding unsigned_cut by (simp add: R_uint64)
next
  case (R_text w)
  assume "result_readable r"
  then show ?thesis using reads_text [of w ifc] by (simp add: R_text)
next
  case (R_characters w)
  assume "result_readable r"
  then show ?thesis using reads_name [of w ifc] by (simp add: R_characters)
qed

section \<open>A whole response\<close>

lemma get_results_at_args:
  "\<forall>r\<in>set rs. result_readable r \<Longrightarrow> map item_arg rs = map Some as \<Longrightarrow> at_args c as \<Longrightarrow> 0 \<le> input_count c \<Longrightarrow>
     input_count c + int (length rs) \<le> 32767 \<Longrightarrow>
     \<exists>e. get_results ifc (map kind_of rs) c = Some (map read_back rs, e) \<and> at_args e [] \<and>
       cmd_error e = cmd_error c \<and> error_queue e = error_queue c"
proof (induction rs arbitrary: as c)
  case (Cons r rs)
  obtain a as' where a: "as = a # as'" "item_arg r = Some a" "map item_arg rs = map Some as'"
    using Cons.prems(2) by (cases as) auto
  have "reads_one ifc (kind_of r) a (read_back r)"
    using readable_reads [of r ifc] Cons.prems(1) a(2) by auto
  then obtain n where n: "get_result ifc (kind_of r) c = Some (read_back r, stepped n c)" "at_args (stepped n c) as'"
    "input_count (stepped n c) = input_count c + 1"
    using Cons.prems(3-5) by (fastforce simp: reads_one_def a(1))
  obtain e where "get_results ifc (map kind_of rs) (stepped n c) = Some (map read_back rs, e)" "at_args e []"
    "cmd_error e = cmd_error (stepped n c)" "error_queue e = error_queue (stepped n c)"
    using Cons.IH [OF _ a(3) n(2)] Cons.prems(1,4,5) n(3) by auto
  then show ?case using n(1) by (simp add: stepped_def)
qed simp

lemma readable_args:
  "\<forall>r\<in>set rs. result_readable r \<Longrightarrow> \<exists>as. map item_arg rs = map Some as"
proof (induction rs)
  case (Cons r rs)
  then obtain a as where "item_arg r = Some a" "map item_arg rs = map Some as"
    using readable_reads [of r] by fastforce
  then show ?case by (intro exI [of _ "a # as"]) simp
qed simp

text \<open>C23: A response can be read back as parameters.  Any sequence of results, namely integers (where there is a
  choice of base, in base 10), booleans, names, and 7-bit texts without a quotation mark, is written in full;
  the text that was written, placed anywhere in the buffer as the parameters of a command and followed by
  nothing that would continue a number, is read by the parameter functions of the same kinds, one after
  the other, as the same values in the same order: 32-bit integers, booleans, names and texts unchanged,
  64-bit integers when they fit into 32 bits and as the nearest 32-bit value otherwise.  No error is
  raised and no parameter is left over.\<close>

theorem response_read_back:
  assumes "\<forall>r\<in>set rs. result_readable r" "length rs < 32768" "output_count ctx = 0"
  shows "\<exists>n ctx' response. put_results scpi_ifc rs ctx = Some (n, ctx') \<and>
    out_text_of ctx' = out_text_of ctx @ response \<and>
    (\<forall>d pre post. buf_data d = pre @ response @ post \<and> number_ends post \<and> input_count d = 0 \<and>
       pl_lex (param_list d) = \<lparr>lx_buffer = length pre, lx_pos = length pre, lx_len = int n\<rparr> \<longrightarrow>
       (\<exists>e. get_results ifc (map kind_of rs) d = Some (map read_back rs, e) \<and> \<not> parameters_left e \<and>
          cmd_error e = cmd_error d \<and> error_queue e = error_queue d))"
proof -
  obtain as where as: "map item_arg rs = map Some as" using readable_args [OF assms(1)] by blast
  have ok: "\<forall>r\<in>set rs. item_ok r" using assms(1) readable_reads by blast
  let ?t = "joined False (map item_text rs)"
  have t: "?t = args_text as" by (rule joined_args [OF as])
  obtain ctx' where w: "put_results scpi_ifc rs ctx = Some (length ?t, ctx')" "out_text_of ctx' = out_text_of ctx @ ?t"
    using put_results_joined [OF ok, of ctx] assms(2,3) by auto
  have "\<exists>e. get_results ifc (map kind_of rs) d = Some (map read_back rs, e) \<and> \<not> parameters_left e \<and>
          cmd_error e = cmd_error d \<and> error_queue e = error_queue d"
    if "buf_data d = pre @ ?t @ post" "number_ends post" "input_count d = 0"
      "pl_lex (param_list d) = \<lparr>lx_buffer = length pre, lx_pos = length pre, lx_len = int (length ?t)\<rparr>" for d pre post
  proof -
    have "at_args d as" using that by (simp add: at_args_def separated_def t Let_def)
    from get_results_at_args [OF assms(1) as this, of ifc] that(3) assms(2)
    obtain e where "get_results ifc (map kind_of rs) d = Some (map read_back rs, e)" "at_args e []"
      "cmd_error e = cmd_error d" "error_queue e = error_queue d" by auto
    then show ?thesis by (auto simp: parameters_left_def at_args_def separated_def Let_def)
  qed
  then show ?thesis using w by blast
qed

lemma response_read_back_witness:
  "\<exists>n ctx' response. put_results scpi_ifc [R_int32 (- 5), R_uint32 0xFFFFFFFF 10, R_int64 (2 ^ 40), R_bool True, R_text ''V''] started =
      Some (n, ctx') \<and> out_text_of ctx' = out_text_of started @ response \<and>
    (\<forall>d :: device scpi_t. buf_data d = ''X '' @ response @ [CHR 0x0A] \<and> input_count d = 0 \<and>
       pl_lex (param_list d) = \<lparr>lx_buffer = 2, lx_pos = 2, lx_len = int n\<rparr> \<longrightarrow>
       (\<exists>e. get_results scpi_ifc [K_int32, K_uint32, K_int64, K_bool, K_text] d =
          Some ([R_int32 (- 5), R_uint32 0xFFFFFFFF 10, R_int64 (2 ^ 31 - 1), R_bool True, R_text ''V''], e) \<and>
          cmd_error e = cmd_error d))"
proof -
  let ?rs = "[R_int32 (- 5), R_uint32 0xFFFFFFFF 10, R_int64 (2 ^ 40), R_bool True, R_text ''V'']"
  have s: "output_count started = 0"
    by (simp add: started_def SCPI_ErrorInit_def scpi_context_def)
  have ok: "\<forall>r\<in>set ?rs. result_readable r" by (simp add: isascii7bit_def)
  have n: "number_ends [CHR 0x0A]"
    by (simp add: number_ends_def isalnum_def isalpha_def isupper_def islower_def isdigit_def)
  obtain n ctx' response where r: "put_results scpi_ifc ?rs started = Some (n, ctx')"
    "out_text_of ctx' = out_text_of started @ response"
    "\<forall>(d :: device scpi_t) pre post. buf_data d = pre @ response @ post \<and> number_ends post \<and> input_count d = 0 \<and>
       pl_lex (param_list d) = \<lparr>lx_buffer = length pre, lx_pos = length pre, lx_len = int n\<rparr> \<longrightarrow>
       (\<exists>e. get_results scpi_ifc (map kind_of ?rs) d = Some (map read_back ?rs, e) \<and> \<not> parameters_left e \<and>
          cmd_error e = cmd_error d \<and> error_queue e = error_queue d)"
    using response_read_back [OF ok _ s, of scpi_ifc] by auto
  have k: "map kind_of ?rs = [K_int32, K_uint32, K_int64, K_bool, K_text]"
    "map read_back ?rs = [R_int32 (- 5), R_uint32 0xFFFFFFFF 10, R_int64 (2 ^ 31 - 1), R_bool True, R_text ''V'']"
    by simp_all
  show ?thesis
  proof (rule exI [of _ n], rule exI [of _ ctx'], rule exI [of _ response], intro conjI allI impI)
    fix d :: "device scpi_t"
    assume "buf_data d = ''X '' @ response @ [CHR 0x0A] \<and> input_count d = 0 \<and>
       pl_lex (param_list d) = \<lparr>lx_buffer = 2, lx_pos = 2, lx_len = int n\<rparr>"
    then have "buf_data d = ''X '' @ response @ [CHR 0x0A] \<and> number_ends [CHR 0x0A] \<and> input_count d = 0 \<and>
        pl_lex (param_list d) = \<lparr>lx_buffer = length ''X '', lx_pos = length ''X '', lx_len = int n\<rparr>"
      using n by simp
    with r(3) have "\<exists>e. get_results scpi_ifc (map kind_of ?rs) d = Some (map read_back ?rs, e) \<and> \<not> parameters_left e \<and>
        cmd_error e = cmd_error d \<and> error_queue e = error_queue d"
      by blast
    then show "\<exists>e. get_results scpi_ifc [K_int32, K_uint32, K_int64, K_bool, K_text] d =
          Some ([R_int32 (- 5), R_uint32 0xFFFFFFFF 10, R_int64 (2 ^ 31 - 1), R_bool True, R_text ''V''], e) \<and>
          cmd_error e = cmd_error d"
      unfolding k by blast
  qed (rule r(1), rule r(2))
qed

end
