(* ===== verification/ExpressionProps.thy ===== *)
theory ExpressionProps
  imports ParamsProps Expression
begin

text \<open>
  Lists in expression parameters: the entry with a given index of a numeric list or a channel list is
  found and converted, and asking for an index behind the end says that there are no more entries.
\<close>

section \<open>Text in memory\<close>

text \<open>The lexer state \<open>s\<close> stands before the text \<open>xs\<close> of an expression, which a closing
  parenthesis ends in memory.\<close>

definition reads :: "mem \<Rightarrow> lex_state \<Rightarrow> char list \<Rightarrow> bool" where
  "reads m s xs \<longleftrightarrow> lx_buffer s \<le> lx_pos s \<and> int (lx_buffer s) + lx_len s = int (lx_pos s + length xs) \<and>
     (\<exists>z. drop (lx_pos s) m = xs @ CHR '')'' # z)"

lemma reads_rest:
  assumes "reads m s xs"
  shows "rest m s = xs"
proof -
  obtain z where z: "drop (lx_pos s) m = xs @ CHR '')'' # z" "nat (int (lx_buffer s) + lx_len s) = lx_pos s + length xs"
    using assms by (auto simp: reads_def)
  show ?thesis
  proof (rule nth_equalityI)
    fix k assume "k < length (rest m s)"
    then have k: "k < length xs" by (simp add: rest_def z(2))
    then have "lx_pos s + k < length m" using arg_cong [OF z(1), of length] by simp
    moreover have "xs ! k = drop (lx_pos s) m ! k" using k by (simp add: z(1) nth_append)
    ultimately show "rest m s ! k = xs ! k" using k by (simp add: rest_def z(2) rd_def)
  qed (simp add: rest_def z(2))
qed

lemma reads_advance: "reads m s (xs @ ys) \<Longrightarrow> reads m (advance (length xs) s) ys"
  by (auto simp: reads_def) (metis add.commute append_eq_append_conv2 append_eq_conv_conj append_assoc drop_drop)

text \<open>Numbers as they are written in a list.\<close>

type_synonym number = "bool \<times> nat"

definition number_text :: "number \<Rightarrow> char list" where
  "number_text = (\<lambda>(neg, n). arg_text (Arg_int neg n))"

definition number_value :: "number \<Rightarrow> int" where
  "number_value = (\<lambda>(neg, n). int_of_arg neg n)"

definition list_end :: "char list \<Rightarrow> bool" where
  "list_end zs \<longleftrightarrow> zs = [] \<or> hd zs \<in> {CHR '','', CHR '':'', CHR ''!''}"

lemma number_text_len: "number_text n \<noteq> []"
  using num_text_digit(2) by (cases n) (simp add: number_text_def)

lemma list_end_starts:
  assumes "list_end zs"
  shows "\<not> starts isdigit zs" "\<not> starts isws zs" "\<not> starts isE zs" "\<not> starts (\<lambda>c. c = CHR ''.'') zs"
  using assms by (cases zs; auto simp: list_end_def isdigit_def isws_def isE_def)+

lemma lex_number:
  assumes "reads m s (number_text n @ zs)" "list_end zs"
  shows "scpiLex_DecimalNumericProgramData m s tok =
    (int (length (number_text n)), advance (length (number_text n)) s,
     \<lparr>tk_type = SCPI_TOKEN_DECIMAL_NUMERIC_PROGRAM_DATA, tk_ptr = Some (lx_pos s),
      tk_len = int (length (number_text n))\<rparr>)"
    "reads m (advance (length (number_text n)) s) zs"
proof -
  obtain neg k where n: "n = (neg, k)" by (cases n)
  show "scpiLex_DecimalNumericProgramData m s tok =
    (int (length (number_text n)), advance (length (number_text n)) s,
     \<lparr>tk_type = SCPI_TOKEN_DECIMAL_NUMERIC_PROGRAM_DATA, tk_ptr = Some (lx_pos s),
      tk_len = int (length (number_text n))\<rparr>)"
    using decimal_len_stop [OF list_end_starts [OF assms(2)], of neg k] number_text_len [of n]
    by (simp add: DecimalNumericProgramData_eq reads_rest [OF assms(1)] token_at_def Let_def n number_text_def
        del: arg_text.simps)
  show "reads m (advance (length (number_text n)) s) zs" by (rule reads_advance [OF assms(1)])
qed

lemma lex_no_number:
  assumes "reads m s []"
  shows "scpiLex_DecimalNumericProgramData m s tok = (0, s, token_at s SCPI_TOKEN_DECIMAL_NUMERIC_PROGRAM_DATA 0)"
  using reads_rest [OF assms] by (simp add: DecimalNumericProgramData_eq decimal_len_def mantissa_scan_def Let_def)

lemma number_converts:
  assumes "reads m s (number_text n @ zs)" "list_end zs" "buf_data c = m"
  shows "SCPI_ParamToInt32 ifc c \<lparr>tk_type = SCPI_TOKEN_DECIMAL_NUMERIC_PROGRAM_DATA, tk_ptr = Some (lx_pos s),
      tk_len = int (length (number_text n))\<rparr> True = (True, Some (number_value n), c)"
proof -
  obtain neg k where n: "n = (neg, k)" by (cases n)
  obtain z where z: "drop (lx_pos s) m = number_text n @ zs @ CHR '')'' # z" using assms(1) by (auto simp: reads_def)
  have "number_ends (zs @ CHR '')'' # z)"
    using assms(2) by (cases zs) (auto simp: list_end_def number_ends_def isalnum_def isalpha_def isupper_def
        islower_def isdigit_def)
  from strBaseToInt32_arg [OF this, of neg k] show ?thesis
    using z number_text_len [of n]
    by (simp add: SCPI_ParamToInt32_def ParamSignToUInt32_def token_ptr_def read_number_def n number_text_def
        number_value_def assms(3) del: arg_text.simps)
qed

section \<open>Numeric lists\<close>

type_synonym numeric_item = "number \<times> number option"

definition item_string :: "numeric_item \<Rightarrow> char list" where
  "item_string = (\<lambda>(a, b). number_text a @ (case b of None \<Rightarrow> [] | Some b \<Rightarrow> CHR '':'' # number_text b))"

fun list_string :: "('a \<Rightarrow> char list) \<Rightarrow> 'a list \<Rightarrow> char list" where
  "list_string f [] = []"
| "list_string f [x] = f x"
| "list_string f (x # y # xs) = f x @ '','' @ list_string f (y # xs)"

text \<open>The text behind the first item: empty, or a comma and the other items.\<close>

definition tail_string :: "('a \<Rightarrow> char list) \<Rightarrow> 'a list \<Rightarrow> char list" where
  "tail_string f xs = (if xs = [] then [] else CHR '','' # list_string f xs)"

lemma list_string_Cons: "list_string f (x # xs) = f x @ tail_string f xs"
  by (cases xs) (simp_all add: tail_string_def)

lemma list_end_tail: "list_end (tail_string f xs)" "list_end (CHR '':'' # zs)" "list_end (CHR ''!'' # zs)"
  by (simp_all add: list_end_def tail_string_def)

lemma separator_tail:
  assumes "reads m s (tail_string f xs)"
  shows "scpiLex_Colon m s tok = (0, s, token_at s SCPI_TOKEN_COLON 0)"
    "scpiLex_SpecificCharacter m s tok (CHR ''!'') = (0, s, token_at s SCPI_TOKEN_SPECIFIC_CHARACTER 0)"
    "scpiLex_Comma m s tok = (if xs = [] then (0, s, token_at s SCPI_TOKEN_COMMA 0)
       else (1, advance 1 s, token_at s SCPI_TOKEN_COMMA 1))"
    "xs = [] \<Longrightarrow> scpiLex_IsEos s"
    "xs \<noteq> [] \<Longrightarrow> reads m (advance 1 s) (list_string f xs)"
proof -
  note r = reads_rest [OF assms]
  show "scpiLex_Colon m s tok = (0, s, token_at s SCPI_TOKEN_COLON 0)"
    "scpiLex_SpecificCharacter m s tok (CHR ''!'') = (0, s, token_at s SCPI_TOKEN_SPECIFIC_CHARACTER 0)"
    "scpiLex_Comma m s tok = (if xs = [] then (0, s, token_at s SCPI_TOKEN_COMMA 0)
       else (1, advance 1 s, token_at s SCPI_TOKEN_COMMA 1))"
    by (simp_all add: separator_eq r tail_string_def opt_def)
  show "xs = [] \<Longrightarrow> scpiLex_IsEos s" using assms by (simp add: reads_def tail_string_def scpiLex_IsEos_def iseos_def)
  show "xs \<noteq> [] \<Longrightarrow> reads m (advance 1 s) (list_string f xs)"
    using reads_advance [of m s "'',''" "list_string f xs"] assms by (simp add: tail_string_def)
qed

text \<open>The tokens of an item that starts at \<open>p\<close>.\<close>

definition number_token :: "nat \<Rightarrow> number \<Rightarrow> scpi_token" where
  "number_token p n = \<lparr>tk_type = SCPI_TOKEN_DECIMAL_NUMERIC_PROGRAM_DATA, tk_ptr = Some p,
     tk_len = int (length (number_text n))\<rparr>"

lemma numericRange_item:
  assumes "reads m s (item_string (a, b) @ tail_string f xs)"
  shows "\<exists>s' upto. numericRange m s e = (SCPI_EXPR_OK, s', b \<noteq> None, number_token (lx_pos s) a, upto) \<and>
    reads m s' (tail_string f xs) \<and>
    (\<forall>n. b = Some n \<longrightarrow> (\<exists>t. upto = number_token (lx_pos t) n \<and> reads m t (number_text n @ tail_string f xs)))"
proof (cases b)
  case None
  have r: "reads m s (number_text a @ tail_string f xs)" using assms by (simp add: item_string_def None)
  note l = lex_number [OF r list_end_tail(1)]
  show ?thesis
    using l separator_tail(1) [OF l(2)] number_text_len [of a]
    by (simp add: numericRange_def split_beta Let_def None number_token_def)
next
  case (Some n)
  let ?s = "advance (length (number_text a)) s"
  have r: "reads m s (number_text a @ CHR '':'' # number_text n @ tail_string f xs)"
    using assms by (simp add: item_string_def Some)
  note l = lex_number [OF r list_end_tail(2)]
  define t where "t = advance 1 ?s"
  have c: "scpiLex_Colon m ?s tok = (1, t, token_at ?s SCPI_TOKEN_COLON 1)" for tok
    by (simp only: separator_eq reads_rest [OF l(2)]) (simp add: opt_def t_def)
  have r': "reads m t (number_text n @ tail_string f xs)"
    using reads_advance [of m ?s "'':''"] l(2) by (simp add: t_def)
  note k = lex_number [OF r' list_end_tail(1)]
  show ?thesis
    using number_text_len [of a] number_text_len [of n] k(2) r'
    by (auto simp: numericRange_def split_beta Let_def Some number_token_def l(1) c k(1))
qed

lemma numericEntries_item:
  "reads m s (list_string item_string xs) \<Longrightarrow>
     if k < length xs then \<exists>s' t upto. numericEntries m k s e =
         (SCPI_EXPR_OK, s', snd (xs ! k) \<noteq> None, number_token (lx_pos t) (fst (xs ! k)), upto) \<and>
         (\<exists>zs. list_end zs \<and> reads m t (number_text (fst (xs ! k)) @ zs)) \<and>
         (\<forall>n. snd (xs ! k) = Some n \<longrightarrow>
           (\<exists>u zs. upto = number_token (lx_pos u) n \<and> list_end zs \<and> reads m u (number_text n @ zs)))
     else \<exists>s' e'. numericEntries m k s e = (SCPI_EXPR_NO_MORE, s', e')"
proof (induction xs arbitrary: s e k)
  case Nil
  then have "numericRange m s e = (SCPI_EXPR_NO_MORE, s, fst e,
      token_at s SCPI_TOKEN_DECIMAL_NUMERIC_PROGRAM_DATA 0, snd (snd e))"
    by (simp add: numericRange_def lex_no_number split_beta)
  then show ?case by (simp add: numericEntries.simps [of m k])
next
  case (Cons x xs)
  obtain a b where x: "x = (a, b)" by (cases x)
  have r: "reads m s (item_string (a, b) @ tail_string item_string xs)"
    using Cons.prems by (simp add: list_string_Cons x)
  obtain s' upto where i: "numericRange m s e = (SCPI_EXPR_OK, s', b \<noteq> None, number_token (lx_pos s) a, upto)"
    "reads m s' (tail_string item_string xs)"
    "\<forall>n. b = Some n \<longrightarrow> (\<exists>t. upto = number_token (lx_pos t) n \<and>
       reads m t (number_text n @ tail_string item_string xs))"
    using numericRange_item [OF r, of e] by blast
  show ?case
  proof (cases k)
    case 0
    have "\<exists>zs. list_end zs \<and> reads m s (number_text a @ zs)"
      using r list_end_tail(1,2) by (cases b) (auto simp: item_string_def)
    moreover have "\<forall>n. b = Some n \<longrightarrow> (\<exists>u zs. upto = number_token (lx_pos u) n \<and> list_end zs \<and>
        reads m u (number_text n @ zs))"
      using i(3) list_end_tail(1) by blast
    moreover have "numericEntries m k s e = (SCPI_EXPR_OK, s', b \<noteq> None, number_token (lx_pos s) a, upto)"
      by (simp add: numericEntries.simps [of m 0] 0 i(1))
    ultimately show ?thesis by - (simp add: 0 x, rule exI [of _ s], simp)
  next
    case (Suc j)
    note sep = separator_tail [OF i(2)]
    show ?thesis
    proof (cases "xs = []")
      case True
      then show ?thesis using sep(4) by (simp add: numericEntries.simps [of m "Suc j"] Suc i(1) sep(3))
    next
      case False
      have go: "numericEntries m k s e = numericEntries m j (advance 1 s')
          (b \<noteq> None, token_at s' SCPI_TOKEN_COMMA 1, upto)"
        using False by (simp add: numericEntries.simps [of m "Suc j"] Suc i(1) sep(3))
      have idx: "k < length (x # xs) \<longleftrightarrow> j < length xs" "(x # xs) ! k = xs ! j" by (simp_all add: Suc)
      show ?thesis unfolding go idx by (rule Cons.IH [OF sep(5) [OF False]])
    qed
  qed
qed

text \<open>The expression parameter that holds a text in parentheses at \<open>p\<close>.\<close>

definition expression_token :: "nat \<Rightarrow> char list \<Rightarrow> scpi_token" where
  "expression_token p xs =
     \<lparr>tk_type = SCPI_TOKEN_PROGRAM_EXPRESSION, tk_ptr = Some p, tk_len = int (length xs) + 2\<rparr>"

lemma expression_reads:
  assumes "drop p m = CHR ''('' # xs @ CHR '')'' # z"
  shows "reads m (expression_lexer (expression_token p xs)) xs"
proof -
  have "drop (p + 1) m = xs @ CHR '')'' # z" using arg_cong [OF assms, of "drop 1"] by simp
  then show ?thesis by (auto simp: reads_def expression_lexer_def expression_token_def)
qed

text \<open>Entries of a numeric list.  For an expression parameter that holds a list of numbers and ranges,
  such as (1,3:5,-2), \<^verbatim>\<open>SCPI_ExprNumericListEntryInt\<close> returns the entry with the given index, the
  range flag and the converted numbers; for an index behind the last entry it says that there are no
  more.  No error is raised in either case.\<close>

theorem numeric_list_entry:
  assumes "drop p (buf_data c) = CHR ''('' # list_string item_string xs @ CHR '')'' # z" "0 \<le> index"
  shows "SCPI_ExprNumericListEntryInt ifc c (Some (expression_token p (list_string item_string xs))) index True True =
    (if nat index < length xs then
       (SCPI_EXPR_OK, Some (case xs ! nat index of (a, b) \<Rightarrow>
          (b \<noteq> None, Some (number_value a), map_option number_value b)), c)
     else (SCPI_EXPR_NO_MORE, None, c))"
proof -
  let ?e = "(False, zero_token, zero_token)"
  let ?s = "expression_lexer (expression_token p (list_string item_string xs))"
  have ty: "tk_type (expression_token p (list_string item_string xs)) = SCPI_TOKEN_PROGRAM_EXPRESSION"
    by (simp add: expression_token_def)
  note r = numericEntries_item [OF expression_reads [OF assms(1)], of "nat index" ?e]
  show ?thesis
  proof (cases "nat index < length xs")
    case True
    obtain a b where ab: "xs ! nat index = (a, b)" by (cases "xs ! nat index")
    obtain s' t upto zs where i: "numericEntries (buf_data c) (nat index) ?s ?e =
        (SCPI_EXPR_OK, s', b \<noteq> None, number_token (lx_pos t) a, upto)"
      "list_end zs" "reads (buf_data c) t (number_text a @ zs)"
      "\<forall>n. b = Some n \<longrightarrow> (\<exists>u zs. upto = number_token (lx_pos u) n \<and> list_end zs \<and>
        reads (buf_data c) u (number_text n @ zs))"
      using r True by (auto simp: ab)
    have f: "SCPI_ParamToInt32 ifc c (number_token (lx_pos t) a) True = (True, Some (number_value a), c)"
      unfolding number_token_def by (rule number_converts [OF i(3,2) refl])
    have u: "SCPI_ParamToInt32 ifc c upto True = (True, Some (number_value n), c)" if b: "b = Some n" for n
    proof -
      obtain u zs where "upto = number_token (lx_pos u) n" "list_end zs" "reads (buf_data c) u (number_text n @ zs)"
        using i(4) b by blast
      then show ?thesis using number_converts [OF _ _ refl, of c u n zs] by (simp add: number_token_def)
    qed
    show ?thesis
      using True assms(2) f u ty
      by (cases b) (simp_all add: SCPI_ExprNumericListEntryInt_def SCPI_ExprNumericListEntry_def i(1) ab)
  next
    case False
    then obtain s' e' where "numericEntries (buf_data c) (nat index) ?s ?e = (SCPI_EXPR_NO_MORE, s', e')"
      using r by auto
    then show ?thesis
      using False assms(2) ty
      by (simp add: SCPI_ExprNumericListEntryInt_def SCPI_ExprNumericListEntry_def split_beta)
  qed
qed

lemma numeric_list_entry_witness:
  "SCPI_ExprNumericListEntryInt scpi_ifc (running\<lparr>buf_data := ''X (7,2:-3)''\<rparr>)
     (Some \<lparr>tk_type = SCPI_TOKEN_PROGRAM_EXPRESSION, tk_ptr = Some 2, tk_len = 8\<rparr>) 1 True True =
   (SCPI_EXPR_OK, Some (True, Some 2, Some (- 3)), running\<lparr>buf_data := ''X (7,2:-3)''\<rparr>)"
proof -
  let ?xs = "[((False, 7), None), ((False, 2), Some (True, 3))]"
  have n: "num_text 10 7 = ''7''" "num_text 10 2 = ''2''" "num_text 10 3 = ''3''"
    by (simp_all add: num_text.simps dchar_def digit_chars_def)
  have t: "list_string item_string ?xs = ''7,2:-3''" by (simp add: item_string_def number_text_def n)
  have d: "drop 2 (buf_data (running\<lparr>buf_data := ''X (7,2:-3)''\<rparr>)) =
      CHR ''('' # list_string item_string ?xs @ CHR '')'' # []" by (simp only: t) simp
  show ?thesis
    using numeric_list_entry [OF d, of 1 scpi_ifc, unfolded t]
    by (auto simp: expression_token_def number_value_def int_of_arg_def)
qed

section \<open>Channel lists\<close>

type_synonym channel_item = "number list \<times> number list option"

fun spec_string :: "number list \<Rightarrow> char list" where
  "spec_string [] = []"
| "spec_string [n] = number_text n"
| "spec_string (n # k # ns) = number_text n @ ''!'' @ spec_string (k # ns)"

definition channel_string :: "channel_item \<Rightarrow> char list" where
  "channel_string = (\<lambda>(a, b). spec_string a @ (case b of None \<Rightarrow> [] | Some b \<Rightarrow> CHR '':'' # spec_string b))"

text \<open>The values an array holds after the coordinates \<open>ns\<close> have been stored from index \<open>i\<close> on, and whether
  all these stores are inside the array; only the indices below \<open>len\<close> are stored.\<close>

fun stored :: "nat \<Rightarrow> number list \<Rightarrow> nat \<Rightarrow> int list \<Rightarrow> int list" where
  "stored len [] i vs = vs"
| "stored len (n # ns) i vs = stored len ns (Suc i) (if i < len then vs[i := number_value n] else vs)"

fun fits :: "nat \<Rightarrow> number list \<Rightarrow> nat \<Rightarrow> int list \<Rightarrow> bool" where
  "fits len [] i vs = True"
| "fits len (n # ns) i vs = ((i < len \<longrightarrow> i < length vs) \<and> fits len ns (Suc i) vs)"

lemma fits_update [simp]: "fits len ns i (vs[j := v]) = fits len ns i vs"
  by (induction ns arbitrary: i) simp_all

lemma fits_iff: "fits len ns i vs \<longleftrightarrow> min len (i + length ns) \<le> max i (length vs)"
  by (induction ns arbitrary: i) auto

lemma stored_eq:
  "fits len ns i vs \<Longrightarrow> stored len ns i vs =
     take i vs @ map number_value (take (len - i) ns) @ drop (i + min (len - i) (length ns)) vs"
proof (induction ns arbitrary: i vs)
  case (Cons n ns)
  show ?case
  proof (cases "i < len")
    case True
    then have "i < length vs" using Cons.prems by simp
    then show ?thesis
      using True Cons.IH [of "Suc i" "vs[i := number_value n]"] Cons.prems
      by (simp add: take_Suc_conv_app_nth Suc_diff_Suc [symmetric])
  next
    case False
    then show ?thesis using Cons.IH [of "Suc i" vs] Cons.prems by simp
  qed
qed simp

lemma store_number:
  assumes "reads (buf_data c) s (number_text n @ zs)" "list_end zs"
  shows "store_value ifc c (number_token (lx_pos s) n) vs len i =
    (if i < len \<longrightarrow> i < length vs then Some (if i < len then vs[i := number_value n] else vs, c) else None)"
  using number_converts [OF assms refl, of ifc] by (simp add: store_value_def number_token_def)

lemma channelSpec_number:
  assumes "reads (buf_data c) s (number_text n @ zs)" "list_end zs"
  shows "channelSpec ifc c s vs len i =
    (if i < len \<longrightarrow> i < length vs then
       let vs = (if i < len then vs[i := number_value n] else vs);
           t = advance (length (number_text n)) s
       in if starts (\<lambda>x. x = CHR ''!'') zs then channelSpec ifc c (advance 1 t) vs len (i + 1)
          else Some (SCPI_EXPR_OK, t, vs, i + 1, c)
     else None)"
proof -
  have l: "scpiLex_DecimalNumericProgramData (buf_data c) s tok =
      (int (length (number_text n)), advance (length (number_text n)) s, number_token (lx_pos s) n)" for tok
    using lex_number(1) [OF assms] by (simp add: number_token_def)
  have x: "scpiLex_SpecificCharacter (buf_data c) t tok (CHR ''!'') =
      (let k = opt (\<lambda>x. x = CHR ''!'') zs in (int k, advance k t, token_at t SCPI_TOKEN_SPECIFIC_CHARACTER k))"
    if "t = advance (length (number_text n)) s" for t tok
    using reads_rest [OF assms(1)] by (simp add: separator_eq that)
  show ?thesis
    using number_text_len [of n]
    by (subst channelSpec.simps) (simp add: l x store_number [OF assms] opt_def Let_def)
qed

lemma channelSpec_numbers:
  "reads (buf_data c) s (spec_string ns @ zs) \<Longrightarrow> ns \<noteq> [] \<Longrightarrow> zs = [] \<or> hd zs \<in> {CHR '','', CHR '':''} \<Longrightarrow>
     channelSpec ifc c s vs len i =
       (if fits len ns i vs
        then Some (SCPI_EXPR_OK, advance (length (spec_string ns)) s, stored len ns i vs, i + length ns, c)
        else None)"
proof (induction ns arbitrary: s vs i rule: spec_string.induct)
  case (2 n)
  have "list_end zs" "\<not> starts (\<lambda>x. x = CHR ''!'') zs" using 2(3) by (cases zs; auto simp: list_end_def)+
  then show ?case using channelSpec_number [of c s n zs] 2(1) by simp
next
  case (3 n k ns)
  let ?zs = "''!'' @ spec_string (k # ns) @ zs"
  have r: "reads (buf_data c) s (number_text n @ ?zs)" using 3(2) by simp
  have "reads (buf_data c) (advance 1 (advance (length (number_text n)) s)) (spec_string (k # ns) @ zs)"
    using reads_advance [of _ _ "''!''", OF lex_number(2) [OF r]] by (simp add: list_end_def)
  then show ?case
    using channelSpec_number [OF r, of ifc vs len i] 3(1) [of "advance 1 (advance (length (number_text n)) s)"] 3(4)
    by (simp add: list_end_def)
qed simp

definition channel_ok :: "channel_item \<Rightarrow> bool" where
  "channel_ok = (\<lambda>(a, b). a \<noteq> [] \<and> (case b of None \<Rightarrow> True | Some b \<Rightarrow> length b = length a))"

text \<open>What reading an item does to the arrays of the caller.\<close>

definition item_fits :: "nat \<Rightarrow> channel_item \<Rightarrow> int list \<Rightarrow> int list \<Rightarrow> bool" where
  "item_fits len = (\<lambda>(a, b) vf vt. fits len a 0 vf \<and> (case b of None \<Rightarrow> True | Some b \<Rightarrow> fits len b 0 vt))"

definition item_entry :: "nat \<Rightarrow> channel_item \<Rightarrow> int list \<Rightarrow> int list \<Rightarrow> channel_entry" where
  "item_entry len = (\<lambda>(a, b) vf vt. (b \<noteq> None, stored len a 0 vf,
     case b of None \<Rightarrow> vt | Some b \<Rightarrow> stored len b 0 vt, length a))"

lemma tail_string_head: "tail_string f xs = [] \<or> hd (tail_string f xs) \<in> {CHR '','', CHR '':''}"
  by (simp add: tail_string_def)

lemma channelRange_item:
  assumes "reads (buf_data c) s (channel_string x @ tail_string f xs)" "channel_ok x"
  shows "\<exists>t. reads (buf_data c) t (tail_string f xs) \<and> channelRange ifc c s len (r, vf, vt, dims) =
    (if item_fits len x vf vt then Some (SCPI_EXPR_OK, t, item_entry len x vf vt, c) else None)"
proof -
  obtain a b where x: "x = (a, b)" by (cases x)
  have a: "a \<noteq> []" "b = Some b' \<Longrightarrow> b' \<noteq> [] \<and> length b' = length a" for b'
    using assms(2) by (auto simp: channel_ok_def x)
  show ?thesis
  proof (cases b)
    case None
    have r: "reads (buf_data c) s (spec_string a @ tail_string f xs)"
      using assms(1) by (simp add: channel_string_def x None)
    note t = reads_advance [OF r]
    show ?thesis
      using channelSpec_numbers [OF r a(1) tail_string_head, of ifc vf len 0] t separator_tail(1) [OF t]
      by (intro exI [of _ "advance (length (spec_string a)) s"])
         (simp add: channelRange_def item_fits_def item_entry_def x None)
  next
    case (Some b')
    let ?zs = "CHR '':'' # spec_string b' @ tail_string f xs"
    have r: "reads (buf_data c) s (spec_string a @ ?zs)" using assms(1) by (simp add: channel_string_def x Some)
    note t = reads_advance [OF r]
    define u where "u = advance 1 (advance (length (spec_string a)) s)"
    have c: "scpiLex_Colon (buf_data c) (advance (length (spec_string a)) s) tok =
        (1, u, token_at (advance (length (spec_string a)) s) SCPI_TOKEN_COLON 1)" for tok
      using reads_rest [OF r] by (simp add: separator_eq opt_def u_def)
    have r': "reads (buf_data c) u (spec_string b' @ tail_string f xs)"
      using reads_advance [of "buf_data c" "advance (length (spec_string a)) s" "'':''"] t by (simp add: u_def)
    have n: "?zs = [] \<or> hd ?zs \<in> {CHR '','', CHR '':''}" by simp
    have b: "b' \<noteq> []" "length b' = length a" using a(2) [OF Some] by simp_all
    show ?thesis
      using channelSpec_numbers [OF r a(1) n, of ifc vf len 0] c reads_advance [OF r']
        channelSpec_numbers [OF r' b(1) tail_string_head, of ifc vt len 0] b(2)
      by (intro exI [of _ "advance (length (spec_string b')) u"])
         (simp add: channelRange_def item_fits_def item_entry_def x Some)
  qed
qed

lemma item_none [simp]: "item_fits 0 x vf vt" "\<exists>r d. item_entry 0 x vf vt = (r, vf, vt, d)"
proof -
  have f: "fits 0 ns 0 vs" "stored 0 ns 0 vs = vs" for ns vs using fits_iff [of 0 ns 0 vs] stored_eq [of 0 ns 0 vs] by simp_all
  show "item_fits 0 x vf vt" "\<exists>r d. item_entry 0 x vf vt = (r, vf, vt, d)"
    by (auto simp: item_fits_def item_entry_def f split: prod.split option.split)
qed

lemma channelEntries_item:
  "reads (buf_data c) s (list_string channel_string xs) \<Longrightarrow> \<forall>x\<in>set xs. channel_ok x \<Longrightarrow>
     if k < length xs
     then \<exists>t. channelEntries ifc len k c s (r, vf, vt, dims) =
       (if item_fits len (xs ! k) vf vt then Some (SCPI_EXPR_OK, t, item_entry len (xs ! k) vf vt, c) else None)
     else \<exists>t e. channelEntries ifc len k c s (r, vf, vt, dims) = Some (SCPI_EXPR_NO_MORE, t, e, c) \<and> scpiLex_IsEos t"
proof (induction xs arbitrary: s r dims k)
  case Nil
  have "channelRange ifc c s n (r, vf, vt, dims) = Some (SCPI_EXPR_NO_MORE, s, (r, vf, vt, dims), c)" for n
    using Nil by (simp add: channelRange_def channelSpec.simps [of ifc c s] lex_no_number)
  moreover have "scpiLex_IsEos s" using Nil(1) by (simp add: reads_def scpiLex_IsEos_def iseos_def)
  ultimately show ?case by (simp add: channelEntries.simps [of ifc len k])
next
  case (Cons x xs)
  have x: "reads (buf_data c) s (channel_string x @ tail_string channel_string xs)" "channel_ok x"
    using Cons.prems by (simp_all add: list_string_Cons)
  show ?case
  proof (cases k)
    case 0
    obtain t where "channelRange ifc c s len (r, vf, vt, dims) =
        (if item_fits len x vf vt then Some (SCPI_EXPR_OK, t, item_entry len x vf vt, c) else None)"
      using channelRange_item [OF x, of ifc len r vf vt dims] by blast
    then show ?thesis by (auto simp: 0 channelEntries.simps [of ifc len 0])
  next
    case (Suc j)
    obtain r' d' where e: "item_entry 0 x vf vt = (r', vf, vt, d')" using item_none(2) by blast
    obtain t where t: "reads (buf_data c) t (tail_string channel_string xs)"
      "channelRange ifc c s 0 (r, vf, vt, dims) = Some (SCPI_EXPR_OK, t, (r', vf, vt, d'), c)"
      using channelRange_item [OF x, of ifc 0 r vf vt dims] by (auto simp: e)
    note sep = separator_tail [OF t(1)]
    show ?thesis
    proof (cases "xs = []")
      case True
      then show ?thesis using sep(3,4) by (simp add: Suc channelEntries.simps [of ifc len "Suc j"] t(2))
    next
      case False
      have go: "channelEntries ifc len k c s (r, vf, vt, dims) = channelEntries ifc len j c (advance 1 t) (r', vf, vt, d')"
        using False sep(3) by (simp add: Suc channelEntries.simps [of ifc len "Suc j"] t(2))
      have idx: "k < length (x # xs) \<longleftrightarrow> j < length xs" "(x # xs) ! k = xs ! j" by (simp_all add: Suc)
      show ?thesis
        unfolding go idx using Cons.IH [OF sep(5) [OF False], of j r' d'] Cons.prems(2) by simp
    qed
  qed
qed

text \<open>C32: Entries of a channel list.  For an expression parameter that holds a channel list, such as
  (@1!2,3!1:4!6), whose ranges have as many dimensions on both sides, \<^verbatim>\<open>SCPI_ExprChannelListEntry\<close>
  returns the entry with the given index: the range flag, the number of dimensions, and the
  coordinates below \<open>length\<close> in the caller's arrays, whose other elements stay.  It stores outside an
  array exactly when that has fewer elements than both \<open>length\<close> and the entry's dimensions.  For an index
  behind the last entry it says that there are no more.\<close>

theorem channel_list_entry:
  assumes "drop p (buf_data c) = CHR ''('' # (CHR ''@'' # list_string channel_string xs) @ CHR '')'' # z"
    "0 \<le> index" "\<forall>x\<in>set xs. channel_ok x"
  shows "if nat index < length xs then
      (case xs ! nat index of (a, b) \<Rightarrow>
        SCPI_ExprChannelListEntry ifc c (Some (expression_token p (CHR ''@'' # list_string channel_string xs)))
          index (Some (r, vf, vt, dims)) len =
        (if min len (length a) \<le> length vf \<and> (b \<noteq> None \<longrightarrow> min len (length a) \<le> length vt) then
           Some (SCPI_EXPR_OK, Some (b \<noteq> None, map number_value (take len a) @ drop (min len (length a)) vf,
             case b of None \<Rightarrow> vt | Some b \<Rightarrow> map number_value (take len b) @ drop (min len (length a)) vt, length a), c)
         else None))
    else \<exists>e. SCPI_ExprChannelListEntry ifc c (Some (expression_token p (CHR ''@'' # list_string channel_string xs)))
          index (Some (r, vf, vt, dims)) len = Some (SCPI_EXPR_NO_MORE, Some e, c)"
proof -
  let ?list = "list_string channel_string xs"
  let ?tok = "expression_token p (CHR ''@'' # ?list)"
  let ?s = "expression_lexer ?tok"
  have ty: "tk_type ?tok = SCPI_TOKEN_PROGRAM_EXPRESSION" by (simp add: expression_token_def)
  have r0: "reads (buf_data c) ?s (CHR ''@'' # ?list)"
    using expression_reads [of p "buf_data c" "CHR ''@'' # ?list" z] assms(1) by simp
  have at: "scpiLex_SpecificCharacter (buf_data c) ?s tok (CHR ''@'') =
      (1, advance 1 ?s, token_at ?s SCPI_TOKEN_SPECIFIC_CHARACTER 1)" for tok
    using reads_rest [OF r0] by (simp add: separator_eq opt_def)
  have "reads (buf_data c) (advance 1 ?s) ?list" using reads_advance [of "buf_data c" ?s "''@''"] r0 by simp
  note e = channelEntries_item [OF this assms(3), of "nat index" ifc len r vf vt dims]
  show ?thesis
  proof (cases "nat index < length xs")
    case True
    obtain a b where ab: "xs ! nat index = (a, b)" by (cases "xs ! nat index")
    have "channel_ok (a, b)" using assms(3) True ab by (metis nth_mem)
    then have l: "b = Some b' \<Longrightarrow> length b' = length a" for b' by (auto simp: channel_ok_def)
    have f: "item_fits len (a, b) vf vt \<longleftrightarrow>
        min len (length a) \<le> length vf \<and> (b \<noteq> None \<longrightarrow> min len (length a) \<le> length vt)"
    proof (cases b)
      case (Some b')
      then show ?thesis using l [OF Some] by (simp add: item_fits_def fits_iff)
    qed (simp add: item_fits_def fits_iff)
    have g: "item_entry len (a, b) vf vt =
        (b \<noteq> None, map number_value (take len a) @ drop (min len (length a)) vf,
         case b of None \<Rightarrow> vt | Some b \<Rightarrow> map number_value (take len b) @ drop (min len (length a)) vt, length a)"
      if "item_fits len (a, b) vf vt"
    proof (cases b)
      case (Some b')
      then show ?thesis using that l [OF Some] by (simp add: item_fits_def item_entry_def stored_eq)
    qed (use that in \<open>simp add: item_fits_def item_entry_def stored_eq\<close>)
    obtain t where t: "channelEntries ifc len (nat index) c (advance 1 ?s) (r, vf, vt, dims) =
       (if item_fits len (a, b) vf vt then Some (SCPI_EXPR_OK, t, item_entry len (a, b) vf vt, c) else None)"
      using e [unfolded if_P [OF True] ab] by blast
    have "SCPI_ExprChannelListEntry ifc c (Some ?tok) index (Some (r, vf, vt, dims)) len =
        (if item_fits len (a, b) vf vt then Some (SCPI_EXPR_OK, Some (item_entry len (a, b) vf vt), c) else None)"
      using assms(2) ty t by (simp add: SCPI_ExprChannelListEntry_def at)
    then show ?thesis using True g unfolding f ab by (cases b; simp)
  next
    case False
    then obtain t d where "channelEntries ifc len (nat index) c (advance 1 ?s) (r, vf, vt, dims) =
        Some (SCPI_EXPR_NO_MORE, t, d, c)" "scpiLex_IsEos t" using e by auto
    then show ?thesis using False assms(2) ty by (cases d) (simp add: SCPI_ExprChannelListEntry_def at)
  qed
qed

lemma channel_list_entry_witness:
  "SCPI_ExprChannelListEntry scpi_ifc (running\<lparr>buf_data := ''(@5,1!2!3:4!5!6)''\<rparr>)
     (Some \<lparr>tk_type = SCPI_TOKEN_PROGRAM_EXPRESSION, tk_ptr = Some 0, tk_len = 16\<rparr>) 1
     (Some (False, [0, 0], [0, 0], 0)) 2 =
   Some (SCPI_EXPR_OK, Some (True, [1, 2], [4, 5], 3), running\<lparr>buf_data := ''(@5,1!2!3:4!5!6)''\<rparr>) \<and>
   SCPI_ExprChannelListEntry scpi_ifc (running\<lparr>buf_data := ''(@5,1!2!3:4!5!6)''\<rparr>)
     (Some \<lparr>tk_type = SCPI_TOKEN_PROGRAM_EXPRESSION, tk_ptr = Some 0, tk_len = 16\<rparr>) 1
     (Some (False, [0, 0], [0, 0], 0)) 4 = None"
proof -
  let ?f = "\<lambda>n. (False, n)"
  let ?xs = "[([?f 5], None), ([?f 1, ?f 2, ?f 3], Some [?f 4, ?f 5, ?f 6])] :: channel_item list"
  let ?c = "running\<lparr>buf_data := ''(@5,1!2!3:4!5!6)''\<rparr>"
  have n: "num_text 10 1 = ''1''" "num_text 10 2 = ''2''" "num_text 10 3 = ''3''" "num_text 10 4 = ''4''"
    "num_text 10 5 = ''5''" "num_text 10 6 = ''6''" "num_text 10 (Suc 0) = ''1''"
    by (simp_all add: num_text.simps dchar_def digit_chars_def)
  have t: "CHR ''@'' # list_string channel_string ?xs = ''@5,1!2!3:4!5!6''"
    by (simp add: channel_string_def number_text_def n)
  have d: "drop 0 (buf_data ?c) = CHR ''('' # (CHR ''@'' # list_string channel_string ?xs) @ CHR '')'' # []"
    by (simp only: t) simp
  have ok: "\<forall>x\<in>set ?xs. channel_ok x" by (simp add: channel_ok_def)
  note e = channel_list_entry [OF d _ ok, of 1 scpi_ifc False "[0, 0]" "[0, 0]" 0, unfolded t]
  show ?thesis
    using e [of 2] e [of 4] by (simp add: expression_token_def number_value_def int_of_arg_def)
qed

end
