(* ===== verification/Snprintf.thy ===== *)
theory Snprintf
  imports Double Registers
begin

text \<open>
  The formatted output of \<^verbatim>\<open>Utilities/Scpi/Src/snprintf.c\<close>, which is what prints the doubles of the
  results (\<^verbatim>\<open>SCPI_DoubleToStr\<close> and \<^verbatim>\<open>SCPI_FloatToStr\<close> of \<^verbatim>\<open>utils.c\<close>, lines 290 to 310, with the
  formats of \<^verbatim>\<open>config.h\<close>).  \<^verbatim>\<open>dopr\<close> is a state machine over the format; every formatter hands its
  characters to \<^verbatim>\<open>dopr_outch\<close>, which stores what fits below \<^verbatim>\<open>maxlen\<close> and counts everything.  The
  buffer is the caller's array; the model is meant for a \<open>maxlen\<close> of at most its length, as the properties
  assume, and does not store behind its end.

  On the target \<^verbatim>\<open>int\<close>, \<^verbatim>\<open>long\<close> and pointers have 32 bits, \<^verbatim>\<open>LLONG\<close> is \<^verbatim>\<open>long\<close> and \<^verbatim>\<open>LDOUBLE\<close> is
  \<^verbatim>\<open>double\<close>.  The variable arguments are a list; an argument of the wrong kind or a missing one, a
  width that overflows, a read past the end of the format and a conversion of a double that does not
  fit are the result \<open>None\<close>.  A loop that emits the same character \<^verbatim>\<open>n\<close> times is \<open>dopr_puts\<close> of the
  \<open>n\<close> copies.
\<close>

unbundle bit_operations_syntax

section \<open>Output\<close>

text \<open>The buffer with \<^verbatim>\<open>*currlen\<close>.\<close>

type_synonym outbuf = "char list \<times> nat"

definition dopr_outch :: "nat \<Rightarrow> char \<Rightarrow> outbuf \<Rightarrow> outbuf" where
  "dopr_outch maxlen c = (\<lambda>(buffer, currlen).
     (if currlen < maxlen then buffer[currlen := c] else buffer, currlen + 1))"

definition dopr_puts :: "nat \<Rightarrow> char list \<Rightarrow> outbuf \<Rightarrow> outbuf" where
  "dopr_puts maxlen cs b = fold (dopr_outch maxlen) cs b"

section \<open>Flags and arguments\<close>

definition DP_F_MINUS :: u8 where "DP_F_MINUS = 1"
definition DP_F_PLUS :: u8 where "DP_F_PLUS = 2"
definition DP_F_SPACE :: u8 where "DP_F_SPACE = 4"
definition DP_F_NUM :: u8 where "DP_F_NUM = 8"
definition DP_F_ZERO :: u8 where "DP_F_ZERO = 16"
definition DP_F_UP :: u8 where "DP_F_UP = 32"
definition DP_F_UNSIGNED :: u8 where "DP_F_UNSIGNED = 64"

lemmas dp_flags = DP_F_MINUS_def DP_F_PLUS_def DP_F_SPACE_def DP_F_NUM_def DP_F_ZERO_def
  DP_F_UP_def DP_F_UNSIGNED_def

definition flag :: "u8 \<Rightarrow> u8 \<Rightarrow> bool" where
  "flag flags f \<longleftrightarrow> flags AND f \<noteq> 0"

datatype dopr_cflags = DP_C_NONE | DP_C_SHORT | DP_C_LONG | DP_C_LDOUBLE | DP_C_LLONG

text \<open>Arguments: a 32-bit integer, a double, a string or NULL, and a pointer (its address).\<close>

datatype c_arg = AInt u32 | ADouble double | AStr "char list option" | APtr u32

section \<open>Strings\<close>

definition spaces :: "int \<Rightarrow> char list" where
  "spaces n = replicate (nat n) (CHR '' '')"

definition zeros :: "int \<Rightarrow> char list" where
  "zeros n = replicate (nat n) (CHR ''0'')"

text \<open>The three loops stop when \<^verbatim>\<open>max\<close> characters have been written.\<close>

definition fmtstr :: "nat \<Rightarrow> char list option \<Rightarrow> u8 \<Rightarrow> int \<Rightarrow> int \<Rightarrow> outbuf \<Rightarrow> outbuf" where
  "fmtstr maxlen value flags mn mx b =
     (let value = (case value of None \<Rightarrow> ''<NULL>'' | Some s \<Rightarrow> s);
          padlen = mn - int (length value);
          padlen = (if padlen < 0 then 0 else padlen);
          padlen = (if flag flags DP_F_MINUS then - padlen else padlen);
          left = spaces (min padlen mx);
          cnt = int (length left);
          body = take (nat (mx - cnt)) value;
          cnt = cnt + int (length body);
          right = spaces (min (- padlen) (mx - cnt))
      in dopr_puts maxlen right (dopr_puts maxlen body (dopr_puts maxlen left b)))"

section \<open>Integers\<close>

definition format_digits :: "bool \<Rightarrow> char list" where
  "format_digits caps = (if caps then ''0123456789ABCDEF'' else ''0123456789abcdef'')"

text \<open>The digits in \<^verbatim>\<open>convert\<close>, the least significant one first; the array has 20 elements.\<close>

function int_digits :: "bool \<Rightarrow> u32 \<Rightarrow> u32 \<Rightarrow> nat \<Rightarrow> char list" where
  "int_digits caps base uvalue place =
     (let c = format_digits caps ! unat (uvalue mod base);
          uvalue = uvalue div base; place = place + 1
      in if uvalue \<noteq> 0 \<and> place < 20 then c # int_digits caps base uvalue place else [c])"
  by auto
termination by (relation "measure (\<lambda>(caps, base, uvalue, place). 20 - place)") auto

declare int_digits.simps [simp del]

text \<open>A value of the least negative \<^verbatim>\<open>long\<close> is negated in two's complement.\<close>

definition fmtint :: "nat \<Rightarrow> u32 \<Rightarrow> u32 \<Rightarrow> int \<Rightarrow> int \<Rightarrow> u8 \<Rightarrow> outbuf \<Rightarrow> outbuf" where
  "fmtint maxlen value base mn mx flags b =
     (let mx = (if mx < 0 then 0 else mx);
          neg = (\<not> flag flags DP_F_UNSIGNED \<and> sint value < 0);
          uvalue = (if neg then - value else value);
          signvalue = (if flag flags DP_F_UNSIGNED then ''''
                       else if neg then ''-''
                       else if flag flags DP_F_PLUS then ''+''
                       else if flag flags DP_F_SPACE then '' '' else '''');
          convert = int_digits (flag flags DP_F_UP) base uvalue 0;
          place = (if length convert = 20 then 19 else length convert);
          zpadlen = mx - int place;
          spadlen = mn - max mx (int place) - int (length signvalue);
          zpadlen = (if zpadlen < 0 then 0 else zpadlen);
          spadlen = (if spadlen < 0 then 0 else spadlen);
          (zpadlen, spadlen) = (if flag flags DP_F_ZERO then (max zpadlen spadlen, 0)
                                else (zpadlen, spadlen));
          spadlen = (if flag flags DP_F_MINUS then - spadlen else spadlen);
          b = dopr_puts maxlen (spaces spadlen) b;
          b = dopr_puts maxlen signvalue b;
          b = dopr_puts maxlen (zeros zpadlen) b;
          b = dopr_puts maxlen (rev (take place convert)) b
      in dopr_puts maxlen (spaces (- spadlen)) b)"

section \<open>Floating point numbers\<close>

fun abs_val :: "double \<Rightarrow> double" where
  "abs_val value = (if dneg_sign value then dneg value else value)"

fun POW10 :: "nat \<Rightarrow> double" where
  "POW10 0 = Fin 1"
| "POW10 (Suc e) = dmul (POW10 e) (Fin 10)"

definition ROUND :: "double \<Rightarrow> int option" where
  "ROUND value = do {
     intpart \<leftarrow> double_to_long value;
     let value = dsub value (Fin (of_int intpart));
     if dle (Fin (1 / 2)) value
     then if intpart + 1 < 2 ^ 31 then Some (intpart + 1) else None
     else Some intpart
   }"

text \<open>The loop of \<^verbatim>\<open>my_modf\<close>: the iterations left, \<^verbatim>\<open>i\<close>, \<^verbatim>\<open>x\<close> and \<^verbatim>\<open>f\<close>; the result has \<^verbatim>\<open>l\<close> first.\<close>

fun modf_loop :: "nat \<Rightarrow> nat \<Rightarrow> double \<Rightarrow> double \<Rightarrow> (int \<times> nat \<times> double \<times> double) option" where
  "modf_loop 0 i x f = Some (0, i, x, f)"
| "modf_loop (Suc k) i x f = do {
     l \<leftarrow> double_to_long x;
     if dle (Fin (of_int l)) (dadd x (Fin 1)) \<and> dle (dsub x (Fin 1)) (Fin (of_int l))
     then Some (l, i, x, f)
     else modf_loop k (i + 1) (dmul x (double_of (1 / 10))) (dmul f (Fin 10))
   }"

text \<open>The value returned and the one stored through \<^verbatim>\<open>iptr\<close>.\<close>

partial_function (option) my_modf :: "double \<Rightarrow> (double \<times> double) option" where
  "my_modf x0 = do {
     (l, i, x, f) \<leftarrow> modf_loop 100 0 x0 (Fin 1);
     if i = 100 then Some (Fin 0, Fin 0)
     else if i \<noteq> 0 then do {
       (ret, i2) \<leftarrow> my_modf (dsub x0 (dmul (Fin (of_int l)) f));
       Some (ret, dadd (dmul (Fin (of_int l)) f) i2)
     }
     else Some (dsub x (Fin (of_int l)), Fin (of_int l))
   }"

declare my_modf.simps [code]

text \<open>The loops that fill \<^verbatim>\<open>iconvert\<close> and \<^verbatim>\<open>fconvert\<close>, both of 311 characters; \<^verbatim>\<open>caps\<close> is 0.\<close>

function fp_digits :: "double \<Rightarrow> nat \<Rightarrow> char list option" where
  "fp_digits part place = do {
     let temp = dmul part (double_of (1 / 10));
     (_, part) \<leftarrow> my_modf temp;
     index \<leftarrow> double_to_long (dmul (dadd (dsub temp part) (double_of (1 / 20))) (Fin 10));
     c \<leftarrow> rdz (format_digits False) index;
     if part \<noteq> Fin 0 \<and> place + 1 < 311 then do {
       cs \<leftarrow> fp_digits part (place + 1);
       Some (c # cs)
     }
     else Some [c]
   }"
  by auto
termination by (relation "measure (\<lambda>(part, place). 311 - place)") auto

declare fp_digits.simps [simp del]

definition fp_cut :: "char list \<Rightarrow> char list" where
  "fp_cut cs = (if length cs = 311 then butlast cs else cs)"

text \<open>The integer part and the fraction, scaled by \<open>10 ^ mx\<close> and rounded.\<close>

definition fp_parts :: "double \<Rightarrow> nat \<Rightarrow> (double \<times> double) option" where
  "fp_parts ufvalue mx = do {
     (_, intpart) \<leftarrow> my_modf ufvalue;
     n \<leftarrow> ROUND (dmul (POW10 mx) (dsub ufvalue intpart));
     let fracpart = double_of (of_int n);
     Some (if dle (POW10 mx) fracpart then (dadd intpart (Fin 1), dsub fracpart (POW10 mx))
           else (intpart, fracpart))
   }"

text \<open>The two digit texts, and the output of padding, sign, digits and point.\<close>

definition fp_converts :: "double \<Rightarrow> nat \<Rightarrow> (char list \<times> char list) option" where
  "fp_converts ufvalue mx = do {
     (intpart, fracpart) \<leftarrow> fp_parts ufvalue mx;
     iconvert \<leftarrow> fp_digits intpart 0;
     fconvert \<leftarrow> (if fracpart \<noteq> Fin 0 then fp_digits fracpart 0 else Some []);
     Some (fp_cut iconvert, fp_cut fconvert)
   }"

definition fp_out ::
  "nat \<Rightarrow> char list \<Rightarrow> int \<Rightarrow> int \<Rightarrow> u8 \<Rightarrow> char list \<times> char list \<Rightarrow> outbuf \<Rightarrow> outbuf" where
  "fp_out maxlen signvalue mn mx flags = (\<lambda>(iconvert, fconvert) b.
     let padlen = mn - int (length iconvert) - mx - 1 - int (length signvalue);
         zpadlen = mx - int (length fconvert);
         zpadlen = (if zpadlen < 0 then 0 else zpadlen);
         padlen = (if padlen < 0 then 0 else padlen);
         padlen = (if flag flags DP_F_MINUS then - padlen else padlen);
         early = (flag flags DP_F_ZERO \<and> 0 < padlen);
         b = (if early then dopr_puts maxlen (signvalue @ zeros (padlen - int (length signvalue))) b
              else b);
         padlen = (if early then 0 else padlen);
         signvalue = (if early then '''' else signvalue);
         b = dopr_puts maxlen (spaces padlen @ signvalue @ rev iconvert) b;
         b = (if 0 < mx then dopr_puts maxlen (CHR ''.'' # zeros zpadlen @ rev fconvert) b else b)
     in dopr_puts maxlen (spaces (- padlen)) b)"

definition fmtfp :: "nat \<Rightarrow> double \<Rightarrow> int \<Rightarrow> int \<Rightarrow> u8 \<Rightarrow> outbuf \<Rightarrow> outbuf option" where
  "fmtfp maxlen fvalue mn mx flags b = do {
     let mx = (if mx < 0 then 6 else mx);
     let signvalue = (if dneg_sign fvalue then ''-'' else if flag flags DP_F_PLUS then ''+''
                      else if flag flags DP_F_SPACE then '' '' else '''');
     let mx = (if 16 < mx then 16 else mx);
     converts \<leftarrow> fp_converts (abs_val fvalue) (nat mx);
     Some (fp_out maxlen signvalue mn mx flags converts b)
   }"

section \<open>The format\<close>

datatype dopr_state = DP_S_DEFAULT | DP_S_FLAGS | DP_S_MIN | DP_S_DOT | DP_S_MAX | DP_S_MOD |
  DP_S_CONV | DP_S_DONE

text \<open>The local variables of \<^verbatim>\<open>dopr\<close>: \<open>dp_format\<close> is what \<^verbatim>\<open>format\<close> points at, its NUL included, and
  \<open>dp_stores\<close> what was stored through pointers by \<^verbatim>\<open>%n\<close>.\<close>

record dopr_vars =
  dp_state :: dopr_state
  dp_ch :: char
  dp_format :: "char list"
  dp_min :: int
  dp_max :: int
  dp_flags :: u8
  dp_cflags :: dopr_cflags
  dp_args :: "c_arg list"
  dp_stores :: "(u32 \<times> int) list"
  dp_out :: outbuf

text \<open>\<^verbatim>\<open>ch = *format++\<close>\<close>

definition next_ch :: "dopr_vars \<Rightarrow> dopr_vars option" where
  "next_ch v = (case dp_format v of [] \<Rightarrow> None | c # cs \<Rightarrow> Some (v\<lparr>dp_ch := c, dp_format := cs\<rparr>))"

text \<open>\<^verbatim>\<open>va_arg\<close>\<close>

definition arg_int :: "dopr_vars \<Rightarrow> (u32 \<times> dopr_vars) option" where
  "arg_int v = (case dp_args v of AInt w # as \<Rightarrow> Some (w, v\<lparr>dp_args := as\<rparr>) | _ \<Rightarrow> None)"

definition arg_double :: "dopr_vars \<Rightarrow> (double \<times> dopr_vars) option" where
  "arg_double v = (case dp_args v of ADouble d # as \<Rightarrow> Some (d, v\<lparr>dp_args := as\<rparr>) | _ \<Rightarrow> None)"

definition arg_str :: "dopr_vars \<Rightarrow> (char list option \<times> dopr_vars) option" where
  "arg_str v = (case dp_args v of AStr s # as \<Rightarrow> Some (s, v\<lparr>dp_args := as\<rparr>) | _ \<Rightarrow> None)"

definition arg_ptr :: "dopr_vars \<Rightarrow> (u32 \<times> dopr_vars) option" where
  "arg_ptr v = (case dp_args v of APtr p # as \<Rightarrow> Some (p, v\<lparr>dp_args := as\<rparr>) | _ \<Rightarrow> None)"

text \<open>\<^verbatim>\<open>n = 10*n + char_to_int (ch)\<close>\<close>

definition add_digit :: "int \<Rightarrow> char \<Rightarrow> int option" where
  "add_digit n c = (let n = 10 * n + (int (code c) - 48) in if n < 2 ^ 31 then Some n else None)"

definition put_out :: "(outbuf \<Rightarrow> outbuf) \<Rightarrow> dopr_vars \<Rightarrow> dopr_vars" where
  "put_out f v = v\<lparr>dp_out := f (dp_out v)\<rparr>"

definition conv_int :: "nat \<Rightarrow> u32 \<Rightarrow> u8 \<Rightarrow> dopr_vars \<Rightarrow> dopr_vars option" where
  "conv_int maxlen base fl v = do {
     let v = v\<lparr>dp_flags := dp_flags v OR fl\<rparr>;
     (value, v) \<leftarrow> arg_int v;
     Some (put_out (fmtint maxlen value base (dp_min v) (dp_max v) (dp_flags v)) v)
   }"

definition conv_fp :: "nat \<Rightarrow> u8 \<Rightarrow> dopr_vars \<Rightarrow> dopr_vars option" where
  "conv_fp maxlen fl v = do {
     let v = v\<lparr>dp_flags := dp_flags v OR fl\<rparr>;
     (fvalue, v) \<leftarrow> arg_double v;
     b \<leftarrow> fmtfp maxlen fvalue (dp_min v) (dp_max v) (dp_flags v) (dp_out v);
     Some (v\<lparr>dp_out := b\<rparr>)
   }"

definition conv_str :: "nat \<Rightarrow> dopr_vars \<Rightarrow> dopr_vars option" where
  "conv_str maxlen v = do {
     (s, v) \<leftarrow> arg_str v;
     let s = (case s of None \<Rightarrow> ''(NULL)'' | Some s \<Rightarrow> s);
     let mx = (if dp_max v = - 1 then int (length s) else dp_max v);
     let mx = (if 0 < dp_min v \<and> 0 \<le> mx \<and> mx < dp_min v then dp_min v else mx);
     Some (put_out (fmtstr maxlen (Some s) (dp_flags v) (dp_min v) mx) (v\<lparr>dp_max := mx\<rparr>))
   }"

text \<open>The inner \<^verbatim>\<open>switch\<close> of \<^verbatim>\<open>DP_S_CONV\<close>; the three kinds of \<^verbatim>\<open>%n\<close> store the same 32-bit number but
  \<^verbatim>\<open>%hn\<close>, which stores it as a \<^verbatim>\<open>short\<close>.\<close>

definition dopr_conv :: "nat \<Rightarrow> dopr_vars \<Rightarrow> dopr_vars option" where
  "dopr_conv maxlen v =
     (let ch = dp_ch v
      in if ch = CHR ''d'' \<or> ch = CHR ''i'' then conv_int maxlen 10 0 v
         else if ch = CHR ''o'' then conv_int maxlen 8 DP_F_UNSIGNED v
         else if ch = CHR ''u'' then conv_int maxlen 10 DP_F_UNSIGNED v
         else if ch = CHR ''X'' then conv_int maxlen 16 (DP_F_UP OR DP_F_UNSIGNED) v
         else if ch = CHR ''x'' then conv_int maxlen 16 DP_F_UNSIGNED v
         else if ch = CHR ''f'' \<or> ch = CHR ''e'' \<or> ch = CHR ''g'' then conv_fp maxlen 0 v
         else if ch = CHR ''E'' \<or> ch = CHR ''G'' then conv_fp maxlen DP_F_UP v
         else if ch = CHR ''c'' then do {
           (c, v) \<leftarrow> arg_int v;
           Some (put_out (dopr_outch maxlen (char_of (unat c))) v)
         }
         else if ch = CHR ''s'' then conv_str maxlen v
         else if ch = CHR ''p'' then do {
           (p, v) \<leftarrow> arg_ptr v;
           Some (put_out (fmtint maxlen p 16 (dp_min v) (dp_max v) (dp_flags v)) v)
         }
         else if ch = CHR ''n'' then do {
           (p, v) \<leftarrow> arg_ptr v;
           let n = int (snd (dp_out v));
           Some (v\<lparr>dp_stores := dp_stores v @ [(p, if dp_cflags v = DP_C_SHORT then int16 n else n)]\<rparr>)
         }
         else if ch = CHR ''%'' then Some (put_out (dopr_outch maxlen ch) v)
         else if ch = CHR ''w'' then next_ch v
         else Some v)"

definition dopr_flag :: "char \<Rightarrow> u8 option" where
  "dopr_flag c =
     (if c = CHR ''-'' then Some DP_F_MINUS else if c = CHR ''+'' then Some DP_F_PLUS
      else if c = CHR '' '' then Some DP_F_SPACE else if c = CHR ''#'' then Some DP_F_NUM
      else if c = CHR ''0'' then Some DP_F_ZERO else None)"

text \<open>The \<^verbatim>\<open>switch\<close> over the state, and one round of the loop.\<close>

definition dopr_switch :: "nat \<Rightarrow> dopr_vars \<Rightarrow> dopr_vars option" where
  "dopr_switch maxlen v =
     (let ch = dp_ch v
      in case dp_state v of
           DP_S_DEFAULT \<Rightarrow>
             if ch = CHR ''%'' then next_ch (v\<lparr>dp_state := DP_S_FLAGS\<rparr>)
             else next_ch (put_out (dopr_outch maxlen ch) v)
         | DP_S_FLAGS \<Rightarrow>
             (case dopr_flag ch of
                Some f \<Rightarrow> next_ch (v\<lparr>dp_flags := dp_flags v OR f\<rparr>)
              | None \<Rightarrow> Some (v\<lparr>dp_state := DP_S_MIN\<rparr>))
         | DP_S_MIN \<Rightarrow>
             if isdigit ch then do {
               n \<leftarrow> add_digit (dp_min v) ch;
               next_ch (v\<lparr>dp_min := n\<rparr>)
             }
             else if ch = CHR ''*'' then do {
               (n, v) \<leftarrow> arg_int v;
               next_ch (v\<lparr>dp_min := sint n, dp_state := DP_S_DOT\<rparr>)
             }
             else Some (v\<lparr>dp_state := DP_S_DOT\<rparr>)
         | DP_S_DOT \<Rightarrow>
             if ch = CHR ''.'' then next_ch (v\<lparr>dp_state := DP_S_MAX\<rparr>)
             else Some (v\<lparr>dp_state := DP_S_MOD\<rparr>)
         | DP_S_MAX \<Rightarrow>
             if isdigit ch then do {
               n \<leftarrow> add_digit (if dp_max v < 0 then 0 else dp_max v) ch;
               next_ch (v\<lparr>dp_max := n\<rparr>)
             }
             else if ch = CHR ''*'' then do {
               (n, v) \<leftarrow> arg_int v;
               next_ch (v\<lparr>dp_max := sint n, dp_state := DP_S_MOD\<rparr>)
             }
             else Some (v\<lparr>dp_state := DP_S_MOD\<rparr>)
         | DP_S_MOD \<Rightarrow> do {
             v \<leftarrow> (if ch = CHR ''h'' then next_ch (v\<lparr>dp_cflags := DP_C_SHORT\<rparr>)
                  else if ch = CHR ''l'' then do {
                    v \<leftarrow> next_ch (v\<lparr>dp_cflags := DP_C_LONG\<rparr>);
                    if dp_ch v = CHR ''l'' then next_ch (v\<lparr>dp_cflags := DP_C_LLONG\<rparr>) else Some v
                  }
                  else if ch = CHR ''L'' then next_ch (v\<lparr>dp_cflags := DP_C_LDOUBLE\<rparr>)
                  else Some v);
             Some (v\<lparr>dp_state := DP_S_CONV\<rparr>)
           }
         | DP_S_CONV \<Rightarrow> do {
             v \<leftarrow> dopr_conv maxlen v;
             v \<leftarrow> next_ch v;
             Some (v\<lparr>dp_state := DP_S_DEFAULT, dp_flags := 0, dp_cflags := DP_C_NONE,
                     dp_min := 0, dp_max := - 1\<rparr>)
           }
         | DP_S_DONE \<Rightarrow> Some v)"

definition dopr_step :: "nat \<Rightarrow> dopr_vars \<Rightarrow> dopr_vars option" where
  "dopr_step maxlen v = dopr_switch maxlen (if dp_ch v = NUL then v\<lparr>dp_state := DP_S_DONE\<rparr> else v)"

text \<open>Every round that does not end the loop consumes a character of the format or moves on to a later
  state, so the loop ends.\<close>

fun state_rank :: "dopr_state \<Rightarrow> nat" where
  "state_rank DP_S_DEFAULT = 0" | "state_rank DP_S_FLAGS = 1" | "state_rank DP_S_MIN = 2"
| "state_rank DP_S_DOT = 3" | "state_rank DP_S_MAX = 4" | "state_rank DP_S_MOD = 5"
| "state_rank DP_S_CONV = 6" | "state_rank DP_S_DONE = 7"

lemma state_rank_le: "state_rank s \<le> 7"
  by (cases s) simp_all

lemma next_ch_length: "next_ch v = Some v' \<Longrightarrow> length (dp_format v') < length (dp_format v)"
  by (auto simp: next_ch_def split: list.splits)

lemma next_ch_state: "next_ch v = Some v' \<Longrightarrow> dp_state v' = dp_state v"
  by (auto simp: next_ch_def split: list.splits)

lemma args_format:
  "arg_int v = Some (w, v') \<Longrightarrow> dp_format v' = dp_format v"
  "arg_double v = Some (d, v') \<Longrightarrow> dp_format v' = dp_format v"
  "arg_str v = Some (s, v') \<Longrightarrow> dp_format v' = dp_format v"
  "arg_ptr v = Some (p, v') \<Longrightarrow> dp_format v' = dp_format v"
  by (auto simp: arg_int_def arg_double_def arg_str_def arg_ptr_def split: list.splits c_arg.splits)

lemma put_out_format [simp]: "dp_format (put_out f v) = dp_format v"
  by (simp add: put_out_def)

lemma conv_format:
  "conv_int maxlen base fl v = Some v' \<Longrightarrow> dp_format v' = dp_format v"
  "conv_fp maxlen fl v = Some v' \<Longrightarrow> dp_format v' = dp_format v"
  "conv_str maxlen v = Some v' \<Longrightarrow> dp_format v' = dp_format v"
  by (auto simp: conv_int_def conv_fp_def conv_str_def Let_def dest!: args_format
      split: Option.bind_splits)

lemma dopr_conv_length: "dopr_conv maxlen v = Some v' \<Longrightarrow> length (dp_format v') \<le> length (dp_format v)"
  by (auto simp: dopr_conv_def Let_def dest: conv_format args_format next_ch_length
      split: if_splits Option.bind_splits)

lemma dopr_step_measure:
  assumes "dopr_step maxlen v = Some v'" "dp_state v \<noteq> DP_S_DONE"
  shows "length (dp_format v') < length (dp_format v) \<or>
    length (dp_format v') = length (dp_format v) \<and> state_rank (dp_state v) < state_rank (dp_state v')"
proof (cases "dp_ch v = NUL")
  case True
  then have "v' = v\<lparr>dp_state := DP_S_DONE\<rparr>" using assms by (simp add: dopr_step_def dopr_switch_def)
  then show ?thesis using assms by (cases "dp_state v") simp_all
next
  case False
  show ?thesis
    using assms False unfolding dopr_step_def dopr_switch_def
    by (cases "dp_state v")
      (auto simp: Let_def dest!: next_ch_length args_format dopr_conv_length
        split: if_splits option.splits Option.bind_splits)
qed

function dopr_loop :: "nat \<Rightarrow> dopr_vars \<Rightarrow> dopr_vars option" where
  "dopr_loop maxlen v =
     (if dp_state v = DP_S_DONE then Some v
      else case dopr_step maxlen v of None \<Rightarrow> None | Some v \<Rightarrow> dopr_loop maxlen v)"
  by auto
termination
  by (relation "inv_image (less_than <*lex*> less_than)
        (\<lambda>(maxlen, v). (length (dp_format v), 7 - state_rank (dp_state v)))")
    (auto dest!: dopr_step_measure intro: diff_less_mono2 order.strict_trans2 [OF _ state_rank_le])

declare dopr_loop.simps [simp del]

text \<open>The variables when the loop starts, after the first \<^verbatim>\<open>ch = *format++\<close>.\<close>

definition dopr_init :: "char list \<Rightarrow> c_arg list \<Rightarrow> outbuf \<Rightarrow> dopr_vars option" where
  "dopr_init fmt args b =
     next_ch \<lparr>dp_state = DP_S_DEFAULT, dp_ch = NUL, dp_format = fmt @ [NUL], dp_min = 0, dp_max = - 1,
       dp_flags = 0, dp_cflags = DP_C_NONE, dp_args = args, dp_stores = [], dp_out = b\<rparr>"

text \<open>The result, the buffer and the stores of \<^verbatim>\<open>%n\<close>.\<close>

definition dopr ::
  "char list \<Rightarrow> nat \<Rightarrow> char list \<Rightarrow> c_arg list \<Rightarrow> (nat \<times> char list \<times> (u32 \<times> int) list) option" where
  "dopr buffer maxlen fmt args = do {
     v \<leftarrow> dopr_init fmt args (buffer, 0);
     v \<leftarrow> dopr_loop maxlen v;
     let (buffer, currlen) = dp_out v;
     let buffer = (if maxlen \<noteq> 0
                   then if currlen < maxlen - 1 then buffer[currlen := NUL]
                        else if 0 < maxlen then buffer[maxlen - 1 := NUL] else buffer
                   else buffer);
     Some (currlen, buffer, dp_stores v)
   }"

definition vsnprintf ::
  "char list \<Rightarrow> nat \<Rightarrow> char list \<Rightarrow> c_arg list \<Rightarrow> (nat \<times> char list \<times> (u32 \<times> int) list) option" where
  "vsnprintf str count fmt args = dopr str count fmt args"

definition snprintf ::
  "char list \<Rightarrow> nat \<Rightarrow> char list \<Rightarrow> c_arg list \<Rightarrow> (nat \<times> char list \<times> (u32 \<times> int) list) option" where
  "snprintf str count fmt args = vsnprintf str count fmt args"

section \<open>Doubles to text\<close>

definition SCPI_FloatToStr :: "double \<Rightarrow> char list \<Rightarrow> nat \<Rightarrow> (nat \<times> char list) option" where
  "SCPI_FloatToStr val str len = do {
     (n, str, _) \<leftarrow> snprintf str len ''%g'' [ADouble val];
     Some (n, str)
   }"

definition SCPI_DoubleToStr :: "double \<Rightarrow> char list \<Rightarrow> nat \<Rightarrow> (nat \<times> char list) option" where
  "SCPI_DoubleToStr val str len = do {
     (n, str, _) \<leftarrow> snprintf str len ''%lg'' [ADouble val];
     Some (n, str)
   }"
end
