(* ===== verification/DoubleFacts.thy ===== *)
theory DoubleFacts
  imports Double
begin

text \<open>
  Rounding: \<open>round_to\<close> is off by at most half a unit of the last place, does not cross an integer, and
  leaves integers of at most \<open>p\<close> digits alone.  \<open>double_of_small\<close> bundles this for doubles below
  \<open>2 ^ 53\<close>, which is all that printing and reading need.
\<close>

section \<open>The leading bit\<close>

lemma bit_len_bounds: "0 < n \<Longrightarrow> 2 ^ bit_len n \<le> 2 * n \<and> n < 2 ^ bit_len n"
proof (induction n rule: bit_len.induct)
  case (1 n)
  show ?case
  proof (cases "n = 1")
    case True
    then show ?thesis by (simp add: bit_len.simps [of 1] bit_len.simps [of 0])
  next
    case False
    then have "0 < n div 2" using 1 by simp
    then have "2 ^ bit_len (n div 2) \<le> 2 * (n div 2) \<and> n div 2 < 2 ^ bit_len (n div 2)"
      using 1 by simp
    then show ?thesis using 1(2) by (subst (1 2) bit_len.simps) auto
  qed
qed

lemma powi_2_diff: "2 powi (int a - int b) = (2 ^ a / 2 ^ b :: rat)"
  by (simp add: power_int_diff)

lemma ilog2_bounds:
  assumes "0 < x"
  shows "2 powi ilog2 x \<le> x" "x < 2 powi (ilog2 x + 1)"
proof -
  obtain a b where q: "quotient_of x = (a, b)" by (cases "quotient_of x")
  have x: "x = of_int a / of_int b" and b: "0 < b"
    using quotient_of_div [OF q] quotient_of_denom_pos [OF q] by simp_all
  have a: "0 < a" using assms x b by (simp add: zero_less_divide_iff)
  define k where "k = int (bit_len a) - int (bit_len b)"
  have A: "(2::rat) ^ bit_len a \<le> 2 * of_int a" "rat_of_int a < 2 ^ bit_len a"
    using bit_len_bounds [OF a] by (metis of_int_le_iff of_int_mult of_int_numeral of_int_power,
      metis of_int_less_iff of_int_numeral of_int_power)
  have B: "(2::rat) ^ bit_len b \<le> 2 * of_int b" "rat_of_int b < 2 ^ bit_len b"
    using bit_len_bounds [OF b] by (metis of_int_le_iff of_int_mult of_int_numeral of_int_power,
      metis of_int_less_iff of_int_numeral of_int_power)
  have k: "2 powi k = (2 ^ bit_len a / 2 ^ bit_len b :: rat)"
    by (simp add: k_def powi_2_diff)
  have "x < 2 powi (k + 1)"
  proof -
    have "of_int a * 2 ^ bit_len b \<le> of_int a * (2 * rat_of_int b)"
      using a B by (intro mult_left_mono) simp_all
    also have "\<dots> < 2 * 2 ^ bit_len a * of_int b"
      using mult_strict_right_mono [OF A(2), of "2 * of_int b"] b by (simp add: mult_ac)
    finally show ?thesis using b by (simp add: x power_int_add k field_simps)
  qed
  moreover have "2 powi (k - 1) \<le> x"
  proof -
    have "2 ^ bit_len a * rat_of_int b \<le> 2 * of_int a * 2 ^ bit_len b"
      using A B a b by (intro mult_mono) simp_all
    then show ?thesis using b by (simp add: x power_int_diff k field_simps)
  qed
  moreover have "ilog2 x = (if 2 powi k \<le> x then k else k - 1)"
    by (simp add: ilog2_def q k_def Let_def)
  ultimately show "2 powi ilog2 x \<le> x" "x < 2 powi (ilog2 x + 1)"
    by (auto split: if_splits)
qed

section \<open>The nearest integer\<close>

lemma nearest_even_error: "\<bar>of_int (nearest_even x) - x\<bar> \<le> 1 / 2"
proof -
  have "of_int \<lfloor>x\<rfloor> \<le> x" "x < of_int \<lfloor>x\<rfloor> + 1" by linarith+
  then show ?thesis by (auto simp: nearest_even_def Let_def abs_le_iff)
qed

lemma nearest_even_range: "\<lfloor>x\<rfloor> \<le> nearest_even x" "nearest_even x \<le> \<lceil>x\<rceil>"
proof -
  show "\<lfloor>x\<rfloor> \<le> nearest_even x" by (simp add: nearest_even_def Let_def)
  show "nearest_even x \<le> \<lceil>x\<rceil>"
    by (cases "x = of_int \<lfloor>x\<rfloor>") (auto simp: nearest_even_def Let_def ceiling_altdef)
qed

lemma nearest_even_above: "of_int a \<le> x \<Longrightarrow> a \<le> nearest_even x"
  using nearest_even_range(1) [of x] by (simp add: le_floor_iff [symmetric])

lemma nearest_even_below: "x \<le> of_int b \<Longrightarrow> nearest_even x \<le> b"
  using nearest_even_range(2) [of x] by (simp add: ceiling_le_iff [symmetric])

section \<open>Rounding\<close>

lemma round_error: "\<bar>round_to p emin x - x\<bar> \<le> \<bar>x\<bar> / 2 ^ p + 2 powi (emin - 1)"
proof (cases "x = 0")
  case False
  define e where "e = round_exponent p emin x"
  define u :: rat where "u = 2 powi e"
  have u: "0 < u" by (simp add: u_def)
  have "round_to p emin x - x = (of_int (nearest_even (x / u)) - x / u) * u"
    using False u by (simp add: round_to_def Let_def e_def u_def algebra_simps)
  then have "\<bar>round_to p emin x - x\<bar> = \<bar>of_int (nearest_even (x / u)) - x / u\<bar> * u"
    using u by (simp add: abs_mult)
  also have "\<dots> \<le> 1 / 2 * u"
    using u nearest_even_error [of "x / u"] by (intro mult_right_mono) simp_all
  also have "\<dots> \<le> \<bar>x\<bar> / 2 ^ p + 2 powi (emin - 1)"
  proof (cases "e = emin")
    case True
    then have "1 / 2 * u = 2 powi (emin - 1)" by (simp add: u_def power_int_diff)
    moreover have "0 \<le> \<bar>x\<bar> / 2 ^ p" by simp
    ultimately show ?thesis by simp
  next
    case e: False
    then have "e = ilog2 \<bar>x\<bar> - int p + 1" by (simp add: e_def round_exponent_def max_def split: if_splits)
    then have "1 / 2 * u = 2 powi ilog2 \<bar>x\<bar> / 2 ^ p"
      by (simp add: u_def power_int_add power_int_diff)
    also have "\<dots> \<le> \<bar>x\<bar> / 2 ^ p"
      using False ilog2_bounds(1) [of "\<bar>x\<bar>"] by (simp add: divide_right_mono)
    finally show ?thesis by (simp add: add_increasing2)
  qed
  finally show ?thesis .
qed (simp add: round_to_def)

lemma scaled_int:
  assumes "e \<le> 0" shows "of_int a / (2 powi e :: rat) = of_int (a * 2 ^ nat (- e))"
proof -
  have "(2 powi e :: rat) = inverse (2 ^ nat (- e))"
    using assms by (cases "e = 0") (simp_all add: power_int_def power_one_over inverse_eq_divide)
  then show ?thesis by (simp only: of_int_mult of_int_power of_int_numeral divide_inverse inverse_inverse_eq)
qed

lemma round_exponent_le:
  assumes "\<bar>x\<bar> < 2 ^ p" "emin \<le> 0" "x \<noteq> 0" shows "round_exponent p emin x \<le> 0"
proof -
  have "2 powi ilog2 \<bar>x\<bar> < (2 powi int p :: rat)"
    using ilog2_bounds(1) [of "\<bar>x\<bar>"] assms by (simp add: order.strict_trans1)
  then have "ilog2 \<bar>x\<bar> < int p"
    by (metis less_le_not_le linorder_not_le one_le_numeral power_int_increasing)
  then show ?thesis using assms by (simp add: round_exponent_def)
qed

lemma round_int:
  assumes "\<bar>x\<bar> < 2 ^ p" "emin \<le> 0"
  shows round_int_above: "of_int a \<le> x \<Longrightarrow> of_int a \<le> round_to p emin x"
    and round_int_below: "x \<le> of_int b \<Longrightarrow> round_to p emin x \<le> of_int b"
proof -
  define e where "e = round_exponent p emin x"
  define u :: rat where "u = 2 powi e"
  have u: "0 < u" by (simp add: u_def)
  have r: "round_to p emin x = of_int (nearest_even (x / u)) * u" if "x \<noteq> 0"
    using that by (simp add: round_to_def Let_def e_def u_def)
  have scaled: "of_int c / u = of_int (c * 2 ^ nat (- e))" if "x \<noteq> 0" for c
    using scaled_int [of e c] round_exponent_le [OF assms that] by (simp add: u_def e_def)
  show "of_int a \<le> round_to p emin x" if "of_int a \<le> x"
  proof (cases "x = 0")
    case False
    have "of_int (a * 2 ^ nat (- e)) \<le> x / u"
      using that u scaled [OF False, of a] by (metis divide_right_mono less_imp_le)
    from nearest_even_above [OF this]
    have "of_int a / u \<le> of_int (nearest_even (x / u))" by (simp only: scaled [OF False] of_int_le_iff)
    then show ?thesis using u by (simp add: r [OF False] pos_divide_le_eq)
  qed (use that in \<open>simp add: round_to_def\<close>)
  show "round_to p emin x \<le> of_int b" if "x \<le> of_int b"
  proof (cases "x = 0")
    case False
    have "x / u \<le> of_int (b * 2 ^ nat (- e))"
      using that u scaled [OF False, of b] by (metis divide_right_mono less_imp_le)
    from nearest_even_below [OF this]
    have "of_int (nearest_even (x / u)) \<le> of_int b / u" by (simp only: scaled [OF False] of_int_le_iff)
    then show ?thesis using u by (simp add: r [OF False] pos_le_divide_eq)
  qed (use that in \<open>simp add: round_to_def\<close>)
qed

section \<open>Doubles below \<open>2 ^ 53\<close>\<close>

definition near :: "rat \<Rightarrow> rat \<Rightarrow> bool" where
  "near x y \<longleftrightarrow> \<bar>y - x\<bar> \<le> \<bar>x\<bar> / 2 ^ 53 + 1 / 2 ^ 60 \<and>
     (\<forall>a. of_int a \<le> x \<longrightarrow> of_int a \<le> y) \<and> (\<forall>b. x \<le> of_int b \<longrightarrow> y \<le> of_int b)"

lemma double_of_small:
  assumes "\<bar>x\<bar> < 2 ^ 53"
  obtains y where "double_of x = Fin y" "near x y"
proof -
  let ?y = "round_to 53 (- 1074) x"
  have above: "of_int a \<le> ?y" if "of_int a \<le> x" for a
    by (rule round_int_above) (use assms that in simp_all)
  have below: "?y \<le> of_int b" if "x \<le> of_int b" for b
    by (rule round_int_below) (use assms that in simp_all)
  have "\<bar>?y\<bar> \<le> 2 ^ 53"
    using assms above [of "- (2 ^ 53)"] below [of "2 ^ 53"] by (simp add: abs_le_iff abs_less_iff)
  also have "\<dots> < 2 powi 1024" by (simp add: power_int_def)
  finally have "double_of x = Fin ?y" by (simp add: double_of_def fp_round_def Let_def)
  moreover have "\<bar>?y - x\<bar> \<le> \<bar>x\<bar> / 2 ^ 53 + 1 / 2 ^ 60"
  proof -
    have "\<bar>?y - x\<bar> \<le> \<bar>x\<bar> / 2 ^ 53 + 2 powi (- 1074 - 1)" by (rule round_error)
    also have "(2 powi (- 1074 - 1) :: rat) \<le> 2 powi (- 60)" by (intro power_int_increasing) simp_all
    finally show ?thesis by (simp add: power_int_minus_divide)
  qed
  ultimately show ?thesis using above below by (intro that) (auto simp: near_def)
qed

lemma double_of_int: "\<bar>n\<bar> < 2 ^ 53 \<Longrightarrow> double_of (of_int n) = Fin (of_int n)"
proof -
  assume "\<bar>n\<bar> < 2 ^ 53"
  then have "\<bar>rat_of_int n\<bar> < 2 ^ 53"
    by (metis of_int_abs of_int_less_iff of_int_numeral of_int_power)
  then obtain y where "double_of (of_int n) = Fin y" "near (of_int n) y" by (rule double_of_small)
  then show ?thesis by (simp add: near_def order_antisym)
qed

lemma rat_trunc_nonneg: "0 \<le> x \<Longrightarrow> rat_trunc x = \<lfloor>x\<rfloor>"
  by (simp add: rat_trunc_def)

lemma rat_trunc_int [simp]: "rat_trunc (of_int n) = n"
  by (simp add: rat_trunc_def flip: of_int_minus)

end
