(* ===== verification/SnprintfProps.thy ===== *)
theory SnprintfProps
  imports Snprintf DoubleFacts
begin

text \<open>
  What \<^verbatim>\<open>snprintf\<close> prints.  Every formatter hands a text to \<^verbatim>\<open>dopr_outch\<close> that depends neither on the
  buffer nor on its size (\<open>uniform\<close>), so the call is the text, cut to the buffer.  A double whose
  integer part fits a \<^verbatim>\<open>long\<close> is printed in decimal with six digits behind the point.
\<close>

section \<open>Output that does not depend on the buffer\<close>

lemma dopr_puts_Nil [simp]: "dopr_puts m [] b = b"
  by (simp add: dopr_puts_def)

lemma dopr_puts_puts: "dopr_puts m d (dopr_puts m c b) = dopr_puts m (c @ d) b"
  by (simp add: dopr_puts_def)

lemma dopr_outch_puts: "dopr_outch m c b = dopr_puts m [c] b"
  by (simp add: dopr_puts_def)

lemma dopr_puts_len: "snd (dopr_puts m cs b) = snd b + length cs"
  by (induction cs arbitrary: b) (auto simp: dopr_puts_def dopr_outch_def)

definition emits :: "(nat \<Rightarrow> outbuf \<Rightarrow> outbuf) \<Rightarrow> bool" where
  "emits f \<longleftrightarrow> (\<exists>u. \<forall>m b. f m b = dopr_puts m u b)"

lemma emits_outch: "emits (\<lambda>m. dopr_outch m c)"
  unfolding emits_def dopr_outch_puts by blast

lemma emits_fmtstr: "emits (\<lambda>m. fmtstr m value flags mn mx)"
  unfolding emits_def fmtstr_def Let_def dopr_puts_puts by (rule exI, intro allI, rule refl)

lemma emits_fmtint: "emits (\<lambda>m. fmtint m value base mn mx flags)"
  unfolding emits_def fmtint_def Let_def case_prod_unfold dopr_puts_puts
  by (rule exI, intro allI, rule refl)

lemma puts_if: "(if P then dopr_puts m c b else b) = dopr_puts m (if P then c else []) b"
  by simp

lemma emits_fp_out: "emits (\<lambda>m. fp_out m sign mn mx flags cs)"
  unfolding emits_def fp_out_def Let_def case_prod_unfold puts_if dopr_puts_puts
  by (rule exI, intro allI, rule refl)

lemma fmtfp_text: "\<exists>T. \<forall>m b. fmtfp m d mn mx flags b = map_option (\<lambda>u. dopr_puts m u b) T"
proof -
  define mx' where "mx' = (let mx = if mx < 0 then 6 else mx in if 16 < mx then 16 else mx)"
  define sg where "sg = (if dneg_sign d then ''-'' else if flag flags DP_F_PLUS then ''+''
    else if flag flags DP_F_SPACE then '' '' else [])"
  define cs where "cs = fp_converts (abs_val d) (nat mx')"
  have *: "fmtfp m d mn mx flags b = map_option (\<lambda>c. fp_out m sg mn mx' flags c b) cs" for m b
    unfolding fmtfp_def Let_def mx'_def [unfolded Let_def, symmetric] sg_def [symmetric]
      cs_def [symmetric]
    by (cases cs) simp_all
  have **: "\<exists>u. \<forall>m b. fp_out m sg mn mx' flags c b = dopr_puts m u b" for c
    using emits_fp_out unfolding emits_def by blast
  show ?thesis
  proof (cases cs)
    case None
    then show ?thesis using * by (intro exI [of _ None]) simp
  next
    case (Some c)
    obtain u where "\<forall>m b. fp_out m sg mn mx' flags c b = dopr_puts m u b" using ** by blast
    then show ?thesis using * Some by (intro exI [of _ "Some u"]) simp
  qed
qed

section \<open>The state machine\<close>

text \<open>A step of the machine with the text it prints.\<close>

definition uniform :: "(nat \<Rightarrow> dopr_vars \<Rightarrow> dopr_vars option) \<Rightarrow> bool" where
  "uniform F \<longleftrightarrow> (\<forall>v n. \<exists>T. \<forall>m buf. F m (v\<lparr>dp_out := (buf, n)\<rparr>) =
     map_option (\<lambda>(u, v'). v'\<lparr>dp_out := dopr_puts m u (buf, n)\<rparr>) T)"

named_theorems uniform_intros \<open>operations that do not look at the buffer\<close>

lemma uniform_None [uniform_intros]: "uniform (\<lambda>m v. None)"
  unfolding uniform_def by (intro allI exI [of _ None]) simp

lemma uniform_Some [uniform_intros]: "uniform (\<lambda>m v. Some v)"
  unfolding uniform_def by (intro allI, rule_tac x = "Some ([], v)" in exI) simp

lemma uniformE:
  assumes "uniform F"
  obtains T where "\<And>m buf. F m (v\<lparr>dp_out := (buf, n)\<rparr>) =
    map_option (\<lambda>(u, v'). v'\<lparr>dp_out := dopr_puts m u (buf, n)\<rparr>) T"
  using assms unfolding uniform_def by blast

lemma puts_pair: "dopr_puts m u (buf, n) = (fst (dopr_puts m u (buf, n)), n + length u)"
  by (metis dopr_puts_len prod.collapse snd_conv)

lemma uniform_bind [uniform_intros]:
  assumes F: "uniform F" and G: "uniform G"
  shows "uniform (\<lambda>m v. F m v \<bind> G m)"
  unfolding uniform_def
proof (intro allI)
  fix v n
  obtain T where T: "\<And>m buf. F m (v\<lparr>dp_out := (buf, n)\<rparr>) =
      map_option (\<lambda>(u, v'). v'\<lparr>dp_out := dopr_puts m u (buf, n)\<rparr>) T"
    by (rule uniformE [OF F]) blast
  show "\<exists>T. \<forall>m buf. F m (v\<lparr>dp_out := (buf, n)\<rparr>) \<bind> G m =
      map_option (\<lambda>(u, v'). v'\<lparr>dp_out := dopr_puts m u (buf, n)\<rparr>) T"
  proof (cases T)
    case None
    then show ?thesis using T by (intro exI [of _ None]) simp
  next
    case (Some uv)
    obtain u v' where uv: "uv = (u, v')" by (cases uv)
    obtain T' where T': "\<And>m buf. G m (v'\<lparr>dp_out := (buf, n + length u)\<rparr>) =
        map_option (\<lambda>(w, v'). v'\<lparr>dp_out := dopr_puts m w (buf, n + length u)\<rparr>) T'"
      by (rule uniformE [OF G]) blast
    have "F m (v\<lparr>dp_out := (buf, n)\<rparr>) \<bind> G m =
        map_option (\<lambda>(w, v'). v'\<lparr>dp_out := dopr_puts m w (buf, n)\<rparr>)
          (map_option (\<lambda>(w, v'). (u @ w, v')) T')" for m buf
    proof -
      have "F m (v\<lparr>dp_out := (buf, n)\<rparr>) \<bind> G m = G m (v'\<lparr>dp_out := dopr_puts m u (buf, n)\<rparr>)"
        by (simp add: T Some uv)
      also have "\<dots> = map_option (\<lambda>(w, v'). v'\<lparr>dp_out := dopr_puts m w (dopr_puts m u (buf, n))\<rparr>) T'"
        using T' [of m "fst (dopr_puts m u (buf, n))"] by (metis puts_pair)
      finally show ?thesis
        by (simp add: option.map_comp comp_def case_prod_unfold dopr_puts_puts)
    qed
    then show ?thesis by blast
  qed
qed

text \<open>What an operation reads and how it updates the variables does not involve the buffer.\<close>

definition reads_not :: "(dopr_vars \<Rightarrow> 'a) \<Rightarrow> bool" where
  "reads_not f \<longleftrightarrow> (\<forall>v b. f (v\<lparr>dp_out := b\<rparr>) = f v)"

definition commutes :: "(dopr_vars \<Rightarrow> dopr_vars) \<Rightarrow> bool" where
  "commutes g \<longleftrightarrow> (\<forall>v b. g (v\<lparr>dp_out := b\<rparr>) = (g v)\<lparr>dp_out := b\<rparr>)"

lemma uniform_if [uniform_intros]:
  assumes "reads_not P" "uniform F" "uniform G"
  shows "uniform (\<lambda>m v. if P v then F m v else G m v)"
  using assms unfolding uniform_def reads_not_def by metis

lemma uniform_case_state [uniform_intros]:
  assumes "uniform F0" "uniform F1" "uniform F2" "uniform F3" "uniform F4" "uniform F5" "uniform F6"
    "uniform F7"
  shows "uniform (\<lambda>m v. case dp_state v of DP_S_DEFAULT \<Rightarrow> F0 m v | DP_S_FLAGS \<Rightarrow> F1 m v
    | DP_S_MIN \<Rightarrow> F2 m v | DP_S_DOT \<Rightarrow> F3 m v | DP_S_MAX \<Rightarrow> F4 m v | DP_S_MOD \<Rightarrow> F5 m v
    | DP_S_CONV \<Rightarrow> F6 m v | DP_S_DONE \<Rightarrow> F7 m v)"
  unfolding uniform_def
proof (intro allI)
  fix v n
  show "\<exists>T. \<forall>m buf. (case dp_state (v\<lparr>dp_out := (buf, n)\<rparr>) of DP_S_DEFAULT \<Rightarrow> F0 m (v\<lparr>dp_out := (buf, n)\<rparr>)
    | DP_S_FLAGS \<Rightarrow> F1 m (v\<lparr>dp_out := (buf, n)\<rparr>) | DP_S_MIN \<Rightarrow> F2 m (v\<lparr>dp_out := (buf, n)\<rparr>)
    | DP_S_DOT \<Rightarrow> F3 m (v\<lparr>dp_out := (buf, n)\<rparr>) | DP_S_MAX \<Rightarrow> F4 m (v\<lparr>dp_out := (buf, n)\<rparr>)
    | DP_S_MOD \<Rightarrow> F5 m (v\<lparr>dp_out := (buf, n)\<rparr>) | DP_S_CONV \<Rightarrow> F6 m (v\<lparr>dp_out := (buf, n)\<rparr>)
    | DP_S_DONE \<Rightarrow> F7 m (v\<lparr>dp_out := (buf, n)\<rparr>)) =
    map_option (\<lambda>(u, v'). v'\<lparr>dp_out := dopr_puts m u (buf, n)\<rparr>) T"
    using assms unfolding uniform_def by (cases "dp_state v") auto
qed

lemma uniform_upd [uniform_intros]: "commutes g \<Longrightarrow> uniform (\<lambda>m v. Some (g v))"
  unfolding uniform_def commutes_def
  by (intro allI, rule_tac x = "Some ([], g v)" in exI) simp

lemma uniform_store [uniform_intros]:
  "(\<And>n. commutes (g n)) \<Longrightarrow> uniform (\<lambda>m v. Some (g (snd (dp_out v)) v))"
  unfolding uniform_def commutes_def
  by (intro allI, rule_tac x = "Some ([], g n v)" in exI) simp

lemma uniform_next_ch [uniform_intros]: "commutes g \<Longrightarrow> uniform (\<lambda>m v. next_ch (g v))"
  unfolding uniform_def commutes_def
  by (intro allI, rule_tac x = "map_option (Pair []) (next_ch (g v))" in exI)
    (simp add: next_ch_def option.map_comp comp_def split: list.split)

lemma uniform_put [uniform_intros]:
  assumes "\<And>v. emits (f v)" "reads_not f" "commutes g"
  shows "uniform (\<lambda>m v. Some (put_out (f v m) (g v)))"
  unfolding uniform_def
proof (intro allI)
  fix v n
  obtain u where "\<And>m b. f v m b = dopr_puts m u b" using assms(1) unfolding emits_def by blast
  then show "\<exists>T. \<forall>m buf. Some (put_out (f (v\<lparr>dp_out := (buf, n)\<rparr>) m) (g (v\<lparr>dp_out := (buf, n)\<rparr>))) =
      map_option (\<lambda>(u, v'). v'\<lparr>dp_out := dopr_puts m u (buf, n)\<rparr>) T"
    using assms(2,3) unfolding reads_not_def commutes_def
    by (intro exI [of _ "Some (u, g v)"]) (simp add: put_out_def)
qed

lemma uniform_next_put [uniform_intros]:
  assumes "\<And>v. emits (f v)" "reads_not f"
  shows "uniform (\<lambda>m v. next_ch (put_out (f v m) v))"
proof -
  have "uniform (\<lambda>m v. Some (put_out (f v m) v) \<bind> next_ch)"
    by (intro uniform_bind uniform_put assms uniform_next_ch [of "\<lambda>v. v"]) (simp_all add: commutes_def)
  then show ?thesis by simp
qed

text \<open>\<^verbatim>\<open>va_arg\<close> in all its kinds.\<close>

definition extracts :: "(dopr_vars \<Rightarrow> ('a \<times> dopr_vars) option) \<Rightarrow> bool" where
  "extracts A \<longleftrightarrow> (\<forall>v b. A (v\<lparr>dp_out := b\<rparr>) = map_option (\<lambda>(w, v). (w, v\<lparr>dp_out := b\<rparr>)) (A v))"

lemma extracts_args: "extracts arg_int" "extracts arg_double" "extracts arg_str" "extracts arg_ptr"
  by (auto simp: extracts_def arg_int_def arg_double_def arg_str_def arg_ptr_def
      split: list.split c_arg.split)

lemma uniform_arg:
  assumes "extracts A" "commutes g" "\<And>w. uniform (H w)"
  shows "uniform (\<lambda>m v. A (g v) \<bind> (\<lambda>(w, v). H w m v))"
  unfolding uniform_def
proof (intro allI)
  fix v n
  have "A (g (v\<lparr>dp_out := b\<rparr>)) = map_option (\<lambda>(w, v). (w, v\<lparr>dp_out := b\<rparr>)) (A (g v))" for b
    using assms(1) assms(2) [unfolded commutes_def, rule_format, of b v]
    by (simp only: extracts_def)
  then show "\<exists>T. \<forall>m buf. A (g (v\<lparr>dp_out := (buf, n)\<rparr>)) \<bind> (\<lambda>(w, v). H w m v) =
      map_option (\<lambda>(u, v'). v'\<lparr>dp_out := dopr_puts m u (buf, n)\<rparr>) T"
    using assms(3) unfolding uniform_def by (cases "A (g v)") (auto intro: exI [of _ None])
qed

lemmas uniform_args [uniform_intros] = extracts_args [THEN uniform_arg]

lemma uniform_fmtfp [uniform_intros]:
  assumes "reads_not a" "reads_not b" "reads_not c"
  shows "uniform (\<lambda>m v. fmtfp m d (a v) (b v) (c v) (dp_out v) \<bind> (\<lambda>b. Some (v\<lparr>dp_out := b\<rparr>)))"
  unfolding uniform_def
proof (intro allI)
  fix v n
  obtain T where T: "\<And>m x. fmtfp m d (a v) (b v) (c v) x = map_option (\<lambda>u. dopr_puts m u x) T"
    using fmtfp_text by blast
  have same: "a (v\<lparr>dp_out := x\<rparr>) = a v" "b (v\<lparr>dp_out := x\<rparr>) = b v" "c (v\<lparr>dp_out := x\<rparr>) = c v" for x
    using assms unfolding reads_not_def by blast+
  show "\<exists>T. \<forall>m buf. fmtfp m d (a (v\<lparr>dp_out := (buf, n)\<rparr>)) (b (v\<lparr>dp_out := (buf, n)\<rparr>))
      (c (v\<lparr>dp_out := (buf, n)\<rparr>)) (dp_out (v\<lparr>dp_out := (buf, n)\<rparr>)) \<bind>
      (\<lambda>x. Some (v\<lparr>dp_out := (buf, n), dp_out := x\<rparr>)) =
    map_option (\<lambda>(u, v'). v'\<lparr>dp_out := dopr_puts m u (buf, n)\<rparr>) T"
    by (intro exI [of _ "map_option (\<lambda>u. (u, v)) T"]) (cases T; simp add: same T)
qed

lemma uniform_conv [uniform_intros]:
  "uniform (\<lambda>m. conv_int m base fl)" "uniform (\<lambda>m. conv_fp m fl)" "uniform conv_str"
  unfolding conv_int_def conv_fp_def conv_str_def Let_def
  by (intro uniform_intros; simp add: commutes_def reads_not_def emits_fmtint emits_fmtstr emits_outch
      cong: if_cong split del: if_split)+

lemma uniform_dopr_conv [uniform_intros]: "uniform dopr_conv"
  unfolding dopr_conv_def Let_def
  by (intro uniform_intros; simp add: commutes_def reads_not_def emits_fmtint emits_fmtstr emits_outch
      cong: if_cong split del: if_split)+

lemma uniform_flags [uniform_intros]:
  assumes "reads_not c" "\<And>f. uniform (F f)" "uniform G"
  shows "uniform (\<lambda>m v. case c v of None \<Rightarrow> G m v | Some f \<Rightarrow> F f m v)"
proof -
  have "uniform (\<lambda>m v. if c v = None then G m v else F (the (c v)) m v)"
    using assms unfolding uniform_def reads_not_def by metis
  then show ?thesis by (simp add: option.case_eq_if)
qed

lemma uniform_add_digit [uniform_intros]:
  assumes "reads_not a" "reads_not c" "\<And>n. uniform (F n)"
  shows "uniform (\<lambda>m v. add_digit (a v) (c v) \<bind> (\<lambda>n. F n m v))"
  unfolding uniform_def
proof (intro allI)
  fix v n
  have "a (v\<lparr>dp_out := x\<rparr>) = a v" "c (v\<lparr>dp_out := x\<rparr>) = c v" for x
    using assms unfolding reads_not_def by blast+
  then show "\<exists>T. \<forall>m buf. add_digit (a (v\<lparr>dp_out := (buf, n)\<rparr>)) (c (v\<lparr>dp_out := (buf, n)\<rparr>)) \<bind>
      (\<lambda>k. F k m (v\<lparr>dp_out := (buf, n)\<rparr>)) = map_option (\<lambda>(u, v'). v'\<lparr>dp_out := dopr_puts m u (buf, n)\<rparr>) T"
    using assms(3) unfolding uniform_def
    by (cases "add_digit (a v) (c v)") (auto intro: exI [of _ None])
qed

lemma uniform_dopr_switch [uniform_intros]: "uniform dopr_switch"
  unfolding dopr_switch_def Let_def
  by (intro uniform_intros; simp add: commutes_def reads_not_def emits_outch cong: if_cong
      split del: if_split)

lemma uniform_dopr_step: "uniform dopr_step"
proof -
  have "commutes (\<lambda>v. if dp_ch v = NUL then v\<lparr>dp_state := DP_S_DONE\<rparr> else v)"
    by (simp add: commutes_def)
  from uniform_bind [OF uniform_upd [OF this] uniform_dopr_switch]
  show ?thesis by (simp add: dopr_step_def [abs_def])
qed

lemma uniform_dopr_loop: "uniform dopr_loop"
  unfolding uniform_def
proof (intro allI)
  fix v n
  show "\<exists>T. \<forall>m buf. dopr_loop m (v\<lparr>dp_out := (buf, n)\<rparr>) =
      map_option (\<lambda>(u, v'). v'\<lparr>dp_out := dopr_puts m u (buf, n)\<rparr>) T"
  proof (induction "(length (dp_format v), 7 - state_rank (dp_state v))" arbitrary: v n
      rule: wf_induct_rule [OF wf_lex_prod [OF wf_less_than wf_less_than]])
    case 1
    show ?case
    proof (cases "dp_state v = DP_S_DONE")
      case True
      then show ?thesis by (intro exI [of _ "Some ([], v)"]) (simp add: dopr_loop.simps)
    next
      case False
      obtain T where T: "\<And>m buf. dopr_step m (v\<lparr>dp_out := (buf, n)\<rparr>) =
          map_option (\<lambda>(u, v'). v'\<lparr>dp_out := dopr_puts m u (buf, n)\<rparr>) T"
        by (rule uniformE [OF uniform_dopr_step]) blast
      show ?thesis
      proof (cases T)
        case None
        then show ?thesis using T False by (intro exI [of _ None]) (simp add: dopr_loop.simps)
      next
        case (Some uv)
        obtain u v' where uv: "uv = (u, v')" by (cases uv)
        have "dopr_step m (v\<lparr>dp_out := (buf, n)\<rparr>) = Some (v'\<lparr>dp_out := dopr_puts m u (buf, n)\<rparr>)" for m buf
          by (simp add: T Some uv)
        from dopr_step_measure [OF this] False
        have "((length (dp_format v'), 7 - state_rank (dp_state v')),
            (length (dp_format v), 7 - state_rank (dp_state v))) \<in> less_than <*lex*> less_than"
          by (auto intro: diff_less_mono2 order.strict_trans2 [OF _ state_rank_le])
        from 1 [OF this, of "n + length u"] obtain T' where T': "\<And>m buf.
            dopr_loop m (v'\<lparr>dp_out := (buf, n + length u)\<rparr>) =
            map_option (\<lambda>(w, v'). v'\<lparr>dp_out := dopr_puts m w (buf, n + length u)\<rparr>) T'"
          by blast
        have "dopr_loop m (v\<lparr>dp_out := (buf, n)\<rparr>) =
            map_option (\<lambda>(w, v'). v'\<lparr>dp_out := dopr_puts m w (buf, n)\<rparr>)
              (map_option (\<lambda>(w, v'). (u @ w, v')) T')" for m buf
        proof -
          have "dopr_loop m (v\<lparr>dp_out := (buf, n)\<rparr>) = dopr_loop m (v'\<lparr>dp_out := dopr_puts m u (buf, n)\<rparr>)"
            using False by (subst dopr_loop.simps) (simp add: T Some uv)
          also have "\<dots> = map_option (\<lambda>(w, v'). v'\<lparr>dp_out := dopr_puts m w (dopr_puts m u (buf, n))\<rparr>) T'"
            using T' [of m "fst (dopr_puts m u (buf, n))"] by (metis puts_pair)
          finally show ?thesis
            by (simp add: option.map_comp comp_def case_prod_unfold dopr_puts_puts)
        qed
        then show ?thesis by blast
      qed
    qed
  qed
qed

section \<open>The text in the buffer\<close>

lemma puts_buffer:
  "m \<le> length str \<Longrightarrow> dopr_puts m cs (str, 0) =
     (take (min m (length cs)) cs @ drop (min m (length cs)) str, length cs)"
proof (induction cs rule: rev_induct)
  case (snoc c cs)
  have "dopr_puts m (cs @ [c]) (str, 0) = dopr_outch m c (dopr_puts m cs (str, 0))"
    by (simp add: dopr_puts_def)
  moreover have "min m (Suc (length cs)) = Suc (length cs)" if "length cs < m" using that by simp
  ultimately show ?case using snoc
    by (cases "length cs < m")
      (simp_all add: dopr_outch_def min_absorb2 min_absorb1 list_update_append
        Cons_nth_drop_Suc [symmetric] not_less)
qed simp

text \<open>What a call with room for \<open>count\<close> characters leaves in the buffer.\<close>

definition cut_text :: "nat \<Rightarrow> char list \<Rightarrow> char list \<Rightarrow> char list" where
  "cut_text count out str =
     (if count = 0 then str
      else let k = min (count - 1) (length out) in take k out @ NUL # drop (k + 1) str)"

text \<open>The end of \<^verbatim>\<open>dopr\<close>, where the NUL is stored.\<close>

lemma dopr_end:
  assumes "count \<le> length str" "dopr_init fmt args (str, 0) = Some v"
    "dopr_loop count v = Some (w\<lparr>dp_out := dopr_puts count out (str, 0)\<rparr>)"
  shows "snprintf str count fmt args = Some (length out, cut_text count out str, dp_stores w)"
proof -
  let ?b = "take (min count (length out)) out @ drop (min count (length out)) str"
  have "(if count \<noteq> 0
         then if length out < count - 1 then ?b[length out := NUL]
              else if 0 < count then ?b[count - 1 := NUL] else ?b
         else ?b) = cut_text count out str"
  proof (cases "length out < count")
    case True
    then show ?thesis using assms(1)
      by (auto simp: cut_text_def Let_def min_def list_update_append Cons_nth_drop_Suc [symmetric])
  next
    case False
    then have "out \<noteq> [] \<or> count = 0" by auto
    then show ?thesis using assms(1) False
      by (auto simp: cut_text_def Let_def min_def take_Suc_conv_app_nth list_update_append
          upd_conv_take_nth_drop Suc_diff_Suc intro!: nth_equalityI)
  qed
  then show ?thesis
    by (simp add: snprintf_def vsnprintf_def dopr_def assms(2,3) puts_buffer [OF assms(1)] Let_def)
qed

lemma snprintf_text:
  "\<exists>T. \<forall>count str. count \<le> length str \<longrightarrow>
     snprintf str count fmt args = map_option (\<lambda>(out, stores). (length out, cut_text count out str, stores)) T"
proof -
  obtain v where v: "\<And>b. dopr_init fmt args b = Some (v\<lparr>dp_out := b\<rparr>)"
  proof -
    have "dopr_init fmt args b = Some (the (dopr_init fmt args ([], 0))\<lparr>dp_out := b\<rparr>)" for b
      by (cases fmt) (simp_all add: dopr_init_def next_ch_def)
    then show ?thesis by (rule that)
  qed
  obtain T where T: "\<And>m buf. dopr_loop m (v\<lparr>dp_out := (buf, 0)\<rparr>) =
      map_option (\<lambda>(u, v'). v'\<lparr>dp_out := dopr_puts m u (buf, 0)\<rparr>) T"
    by (rule uniformE [OF uniform_dopr_loop]) blast
  have "snprintf str count fmt args =
      map_option (\<lambda>(out, stores). (length out, cut_text count out str, stores))
        (map_option (\<lambda>(u, v'). (u, dp_stores v')) T)"
    if "count \<le> length str" for count str
  proof (cases T)
    case None
    then show ?thesis by (simp add: snprintf_def vsnprintf_def dopr_def v T)
  next
    case (Some uv)
    then show ?thesis using dopr_end [OF that v] T by (cases uv) simp
  qed
  then show ?thesis by blast
qed

section \<open>Property\<close>

text \<open>C21: For a format and arguments, \<^verbatim>\<open>snprintf\<close> either is undefined for every buffer or has one text
  for all of them: it returns the length of this text, stores what fits, always ends it with a NUL
  and writes nothing behind it.\<close>

theorem snprintf_cuts:
  "\<exists>T. \<forall>count str. count \<le> length str \<longrightarrow>
     snprintf str count fmt args =
       map_option (\<lambda>(out, stores). (length out, cut_text count out str, stores)) T"
  by (rule snprintf_text)

lemma snprintf_cuts_witness:
  "snprintf (replicate 9 (CHR ''x'')) 9 ''%s=%d'' [AStr (Some ''n''), AInt (- 42)] =
     Some (5, ''n=-42'' @ NUL # ''xxx'', []) \<and>
   snprintf (replicate 4 (CHR ''y'')) 3 ''%s=%d'' [AStr (Some ''n''), AInt (- 42)] =
     Some (5, ''n='' @ NUL # ''y'', [])"
proof -
  obtain T where T: "\<forall>count str. count \<le> length str \<longrightarrow>
      snprintf str count ''%s=%d'' [AStr (Some ''n''), AInt (- 42)] =
        map_option (\<lambda>(out, stores). (length out, cut_text count out str, stores)) T"
    using snprintf_cuts by blast
  have big: "snprintf (replicate 9 (CHR ''x'')) 9 ''%s=%d'' [AStr (Some ''n''), AInt (- 42)] =
      Some (5, ''n=-42'' @ NUL # ''xxx'', [])"
    by code_simp
  then obtain out where "T = Some (out, [])" "cut_text 9 out (replicate 9 (CHR ''x'')) = ''n=-42'' @ NUL # ''xxx''"
    "length out = 5"
    using T [rule_format, of 9 "replicate 9 (CHR ''x'')"] by (cases T) auto
  moreover have "take (length out) (cut_text 9 out (replicate 9 (CHR ''x''))) = out" if "length out = 5"
    using that by (simp add: cut_text_def Let_def)
  ultimately have "T = Some (out, [])" "out = ''n=-42''" by simp_all
  then show ?thesis
    using big T [rule_format, of 3 "replicate 4 (CHR ''y'')"] by (simp add: cut_text_def numeral_eq_Suc)
qed

end
