(* ===== verification/DoublePrint.thy ===== *)
theory DoublePrint
  imports SnprintfProps
begin

text \<open>
  A double whose integer part fits a \<^verbatim>\<open>long\<close> is printed as a decimal with six digits behind the point
  that is at most 0.501 millionths away from it; an integer is printed exactly.  The digit loop, which
  works with \<^verbatim>\<open>0.1\<close>, \<^verbatim>\<open>0.05\<close> and rounding at every step, is shown to give the digits of the numeral.
\<close>

section \<open>Constants\<close>

lemma tenth: "double_of (1 / 10) = Fin (3602879701896397 / 36028797018963968)"
  by code_simp

lemma twentieth: "double_of (1 / 20) = Fin (3602879701896397 / 72057594037927936)"
  by code_simp

lemma dmul_int: "\<bar>a * b\<bar> < 2 ^ 53 \<Longrightarrow> dmul (Fin (of_int a)) (Fin (of_int b)) = Fin (of_int (a * b))"
  using double_of_int [of "a * b"] by simp

lemma POW10_6: "POW10 6 = Fin 1000000"
  using dmul_int [of 1 10] dmul_int [of 10 10] dmul_int [of 100 10] dmul_int [of 1000 10]
    dmul_int [of 10000 10] dmul_int [of 100000 10]
  by (simp add: numeral_eq_Suc del: dmul.simps)

lemma near_small: "near x y \<Longrightarrow> \<bar>x\<bar> \<le> 2 ^ 32 \<Longrightarrow> \<bar>y - x\<bar> \<le> 1 / 10 ^ 6"
proof -
  assume "near x y" "\<bar>x\<bar> \<le> 2 ^ 32"
  then have "\<bar>y - x\<bar> \<le> \<bar>x\<bar> / 2 ^ 53 + 1 / 2 ^ 60" "\<bar>x\<bar> / 2 ^ 53 \<le> 2 ^ 32 / (2 ^ 53 :: rat)"
    by (simp_all add: near_def divide_right_mono)
  then show ?thesis by simp
qed

section \<open>The integer part\<close>

lemma dsub_Fin: "dsub (Fin x) (Fin y) = double_of (x - y)"
  by (simp add: dsub_def)

lemma my_modf_small:
  assumes "0 \<le> x" "x < 2 ^ 31"
  shows "\<exists>r. my_modf (Fin x) = Some (r, Fin (of_int \<lfloor>x\<rfloor>))"
proof -
  have l: "double_to_long (Fin x) = Some \<lfloor>x\<rfloor>"
    using assms by (simp add: double_to_long_def rat_trunc_nonneg Let_def floor_le_iff le_floor_iff)
  obtain y where y: "double_of (x + 1) = Fin y" "near (x + 1) y"
    by (rule double_of_small [of "x + 1"]) (use assms in simp)
  obtain z where z: "double_of (x - 1) = Fin z" "near (x - 1) z"
    by (rule double_of_small [of "x - 1"]) (use assms in \<open>simp add: abs_less_iff\<close>)
  have "of_int \<lfloor>x\<rfloor> \<le> x + 1" "x - 1 \<le> of_int \<lfloor>x\<rfloor>" by linarith+
  then have "of_int \<lfloor>x\<rfloor> \<le> y" "z \<le> of_int \<lfloor>x\<rfloor>" using y z by (simp_all add: near_def)
  then have "modf_loop 100 0 (Fin x) (Fin 1) = Some (\<lfloor>x\<rfloor>, 0, Fin x, Fin 1)"
    by (simp add: numeral_eq_Suc l y z dsub_Fin)
  then show ?thesis by (subst my_modf.simps) simp
qed

section \<open>The digits\<close>

text \<open>A rounding that is off by at most a millionth, as two linear inequalities.\<close>

lemma rounded:
  assumes "- 1 \<le> x" "x \<le> 2 ^ 32"
  obtains y where "double_of x = Fin y" "near x y" "x - 1 / 10 ^ 6 \<le> y" "y \<le> x + 1 / 10 ^ 6"
proof -
  have xa: "\<bar>x\<bar> \<le> 2 ^ 32" using assms by (intro abs_leI) simp_all
  also have "(2::rat) ^ 32 < 2 ^ 53" by simp
  finally obtain y where y: "double_of x = Fin y" "near x y" by (rule double_of_small)
  have "\<bar>y - x\<bar> \<le> 1 / 10 ^ 6" by (rule near_small [OF y(2) xa])
  then have "x - 1 / 10 ^ 6 \<le> y" "y \<le> x + 1 / 10 ^ 6" by linarith+
  with y show ?thesis by (rule that)
qed

lemma digit_step:
  assumes "0 \<le> n" "n < 2 ^ 32"
  shows "\<exists>r. my_modf (dmul (Fin (of_int n)) (double_of (1 / 10))) = Some (r, Fin (of_int (n div 10)))"
    and "double_to_long (dmul (dadd (dsub (dmul (Fin (of_int n)) (double_of (1 / 10)))
           (Fin (of_int (n div 10)))) (double_of (1 / 20))) (Fin 10)) = Some (n mod 10)"
proof -
  define q where "q = n div 10"
  define r where "r = n mod 10"
  have n: "n = 10 * q + r" "0 \<le> r" "r \<le> 9" "0 \<le> q" using assms by (auto simp: q_def r_def)
  have N: "rat_of_int n = 10 * of_int q + of_int r" "0 \<le> rat_of_int r" "rat_of_int r \<le> 9" "0 \<le> rat_of_int q"
    using n by (auto simp flip: of_int_mult of_int_add)
  have "rat_of_int n \<le> of_int (2 ^ 32)" using assms(2) by (subst of_int_le_iff) simp
  then have n32: "rat_of_int n \<le> 4294967296" by simp
  define x :: rat where "x = of_int n * (3602879701896397 / 36028797018963968)"
  define d :: rat where "d = 3602879701896397 / 72057594037927936"
  have x: "of_int q + of_int r / 10 \<le> x" "x \<le> of_int q + of_int r / 10 + 1 / 10 ^ 6"
    using N n32 by (simp_all add: x_def)
  have q31: "rat_of_int q \<le> 429496730" using N n32 by linarith
  obtain t where t: "double_of x = Fin t" "near x t" "x - 1 / 10 ^ 6 \<le> t" "t \<le> x + 1 / 10 ^ 6"
    by (rule rounded [of x]) (use x N q31 in simp_all)
  have tq: "of_int q \<le> t" using t(2) x N by (simp add: near_def)
  have t2: "t < of_int q + 1" using t(4) x N by simp
  have m: "dmul (Fin (of_int n)) (double_of (1 / 10)) = Fin t"
    using t by (simp add: tenth x_def)
  have fl: "\<lfloor>t\<rfloor> = q" using tq t2 by (simp add: floor_eq_iff)
  show "\<exists>r. my_modf (dmul (Fin (of_int n)) (double_of (1 / 10))) = Some (r, Fin (of_int (n div 10)))"
    unfolding m q_def [symmetric] fl [symmetric]
    by (rule my_modf_small) (use tq t2 N q31 in simp_all)
  obtain a where a: "double_of (t - of_int q) = Fin a" "near (t - of_int q) a"
    "t - of_int q - 1 / 10 ^ 6 \<le> a" "a \<le> t - of_int q + 1 / 10 ^ 6"
    by (rule rounded [of "t - of_int q"]) (use tq t2 in simp_all)
  obtain b where b: "double_of (a + d) = Fin b" "a + d - 1 / 10 ^ 6 \<le> b" "b \<le> a + d + 1 / 10 ^ 6"
    by (rule rounded [of "a + d"]) (use a tq t2 in \<open>simp_all add: d_def\<close>)
  obtain e where e: "double_of (b * 10) = Fin e" "b * 10 - 1 / 10 ^ 6 \<le> e" "e \<le> b * 10 + 1 / 10 ^ 6"
    by (rule rounded [of "b * 10"]) (use a b tq t2 in \<open>simp_all add: d_def\<close>)
  have "of_int r \<le> e" "e < of_int r + 1" using e b a t x by (simp_all add: d_def)
  then have "\<lfloor>e\<rfloor> = r" "0 \<le> e" using N by (simp_all add: floor_eq_iff)
  moreover have "dmul (dadd (dsub (dmul (Fin (of_int n)) (double_of (1 / 10)))
      (Fin (of_int (n div 10)))) (double_of (1 / 20))) (Fin 10) = Fin e"
    unfolding m twentieth q_def [symmetric] d_def [symmetric] by (simp add: dsub_Fin a b e)
  ultimately show "double_to_long (dmul (dadd (dsub (dmul (Fin (of_int n)) (double_of (1 / 10)))
           (Fin (of_int (n div 10)))) (double_of (1 / 20))) (Fin 10)) = Some (n mod 10)"
    using n by (simp add: double_to_long_def rat_trunc_nonneg Let_def flip: r_def)
qed

lemma format_digit: "0 \<le> r \<Longrightarrow> r < 10 \<Longrightarrow> rdz (format_digits False) r = Some (dchar (nat r))"
proof -
  assume "0 \<le> r" "r < 10"
  then have "r = 0 \<or> r = 1 \<or> r = 2 \<or> r = 3 \<or> r = 4 \<or> r = 5 \<or> r = 6 \<or> r = 7 \<or> r = 8 \<or> r = 9"
    by presburger
  then show ?thesis
    by (auto simp: rdz_def format_digits_def dchar_def digit_chars_def)
qed

lemma fp_digits_num:
  "0 \<le> n \<Longrightarrow> n < 2 ^ 32 \<Longrightarrow> place + length (num_text 10 (nat n)) \<le> 310 \<Longrightarrow>
     fp_digits (Fin (of_int n)) place = Some (rev (num_text 10 (nat n)))"
proof (induction "nat n" arbitrary: n place rule: less_induct)
  case less
  note step = digit_step [OF less.prems(1,2)]
  obtain r where r: "my_modf (dmul (Fin (of_int n)) (double_of (1 / 10))) = Some (r, Fin (of_int (n div 10)))"
    using step(1) by blast
  have digit: "rdz (format_digits False) (n mod 10) = Some (dchar (nat (n mod 10)))"
    by (rule format_digit) simp_all
  have eq: "fp_digits (Fin (of_int n)) place =
      (if n div 10 \<noteq> 0 \<and> place + 1 < 311
       then map_option (Cons (dchar (nat (n mod 10)))) (fp_digits (Fin (of_int (n div 10))) (place + 1))
       else Some [dchar (nat (n mod 10))])"
    by (subst fp_digits.simps)
      (simp add: r step(2) digit Let_def map_conv_bind_option comp_def del: dmul.simps)
  show ?case
  proof (cases "n < 10")
    case True
    then have "nat n < 10" by linarith
    then have "num_text 10 (nat n) = [dchar (nat n)]" by (simp add: num_text.simps [of 10 "nat n"])
    then show ?thesis using True less.prems by (simp add: eq)
  next
    case False
    then have "\<not> nat n < 10" by linarith
    then have t: "num_text 10 (nat n) = num_text 10 (nat (n div 10)) @ [dchar (nat (n mod 10))]"
      by (simp add: num_text.simps [of 10 "nat n"] nat_div_distrib nat_mod_distrib)
    have "fp_digits (Fin (of_int (n div 10))) (place + 1) = Some (rev (num_text 10 (nat (n div 10))))"
      by (rule less.hyps) (use False less.prems t in simp_all)
    moreover have "n div 10 \<noteq> 0" using False by (simp add: div_eq_0_iff)
    ultimately show ?thesis using less.prems t by (simp add: eq)
  qed
qed

section \<open>Integer part and fraction\<close>

definition fixed_value :: "int \<Rightarrow> int \<Rightarrow> rat" where
  "fixed_value i f = of_int i + of_int f / 10 ^ 6"

lemma fp_parts_fixed:
  assumes "0 \<le> x" "x < 2 ^ 31"
  shows "\<exists>i f. fp_parts (Fin x) 6 = Some (Fin (of_int i), Fin (of_int f)) \<and>
    0 \<le> i \<and> i \<le> 2 ^ 31 \<and> 0 \<le> f \<and> f < 10 ^ 6 \<and> \<bar>fixed_value i f - x\<bar> \<le> 501 / 10 ^ 9"
proof -
  define k where "k = \<lfloor>x\<rfloor>"
  have k: "of_int k \<le> x" "x < of_int k + 1" unfolding k_def by linarith+
  have K: "0 \<le> k" "k < 2 ^ 31"
    using assms by (simp_all add: k_def floor_less_iff)
  obtain r where modf: "my_modf (Fin x) = Some (r, Fin (of_int k))"
    using my_modf_small [OF assms] by (auto simp: k_def)
  obtain a where a: "double_of (x - of_int k) = Fin a" "near (x - of_int k) a"
    by (rule rounded [of "x - of_int k"]) (use k in simp_all)
  have a01: "0 \<le> a" "a \<le> 1"
    using a(2) k by (auto simp: near_def dest: spec [of _ 0] spec [of _ 1])
  have ax: "\<bar>a - (x - of_int k)\<bar> \<le> 1 / 10 ^ 12" 
  proof -
    have "\<bar>a - (x - of_int k)\<bar> \<le> \<bar>x - of_int k\<bar> / 2 ^ 53 + 1 / 2 ^ 60" "\<bar>x - of_int k\<bar> / 2 ^ 53 \<le> 1 / (2 ^ 53 :: rat)"
      using a(2) k by (simp_all add: near_def divide_right_mono)
    then show ?thesis by simp
  qed
  obtain m where m: "double_of (1000000 * a) = Fin m" "near (1000000 * a) m"
    "1000000 * a - 1 / 10 ^ 6 \<le> m" "m \<le> 1000000 * a + 1 / 10 ^ 6"
    by (rule rounded [of "1000000 * a"]) (use a01 in simp_all)
  have m01: "0 \<le> m" "m \<le> 1000000"
    using m(2) a01 by (auto simp: near_def dest: spec [of _ 0] spec [of _ 1000000])
  define l where "l = \<lfloor>m\<rfloor>"
  have l: "of_int l \<le> m" "m < of_int l + 1" unfolding l_def by linarith+
  have L: "0 \<le> l" "l \<le> 1000000"
    using m01 by (simp_all add: l_def floor_le_iff)
  obtain d where d: "double_of (m - of_int l) = Fin d" "m - of_int l - 1 / 10 ^ 6 \<le> d" "d \<le> m - of_int l + 1 / 10 ^ 6"
    by (rule rounded [of "m - of_int l"]) (use l in simp_all)
  define n where "n = (if 1 / 2 \<le> d then l + 1 else l)"
  have toL: "double_to_long (Fin m) = Some l"
    using m01 L by (simp add: double_to_long_def rat_trunc_nonneg Let_def l_def)
  have R: "ROUND (Fin m) = Some n"
    using L by (simp add: ROUND_def toL dsub_Fin d n_def)
  have n: "0 \<le> n" "n \<le> 1000000"
  proof -
    have "\<not> 1 / 2 \<le> d" if "l = 1000000" using that m01 d by simp
    moreover have "l < 1000000 \<or> l = 1000000" using L by linarith
    ultimately show "0 \<le> n" "n \<le> 1000000" using L by (auto simp: n_def)
  qed
  have near_m: "of_int n - m \<le> 1 / 2 + 1 / 10 ^ 6" "m - of_int n \<le> 1 / 2 + 1 / 10 ^ 6"
    using d(2,3) l by (auto simp: n_def)
  have "1000000 * a - 1000000 * (x - of_int k) \<le> 1 / 10 ^ 6" "1000000 * (x - of_int k) - 1000000 * a \<le> 1 / 10 ^ 6"
    using ax unfolding abs_le_iff by simp_all
  with near_m m(3,4) have "\<bar>1000000 * of_int k + of_int n - 1000000 * x\<bar> \<le> 501 / 1000"
    by (intro abs_leI) simp_all
  then have close: "\<bar>fixed_value k n - x\<bar> \<le> 501 / 10 ^ 9"
    by (simp add: fixed_value_def abs_le_iff field_simps)
  have toD: "double_of (of_int j) = Fin (of_int j)" if "0 \<le> j" "j \<le> 2 ^ 31" for j
    by (rule double_of_int) (use that in simp)
  have parts: "fp_parts (Fin x) 6 =
      Some (if 1000000 \<le> n then (Fin (of_int (k + 1)), Fin (of_int (n - 1000000)))
            else (Fin (of_int k), Fin (of_int n)))"
    using toD [of 1000000] toD [of 0] toD [of n] toD [of "k + 1"] toD [of "n - 1000000"] n K
    by (simp add: fp_parts_def modf dsub_Fin a POW10_6 m R Let_def)
  show ?thesis
  proof (cases "n = 1000000")
    case True
    moreover have "fixed_value (k + 1) 0 = fixed_value k n" using True by (simp add: fixed_value_def)
    ultimately show ?thesis using parts close K by (intro exI [of _ "k + 1"] exI [of _ 0]) simp
  next
    case False
    then show ?thesis using parts close K n by (intro exI [of _ k] exI [of _ n]) simp
  qed
qed

section \<open>The text\<close>

lemma pad_text_zeros:
  assumes "2 \<le> b"
  shows "n < b ^ Suc k \<Longrightarrow> pad_text b k n = replicate (Suc k - length (num_text b n)) (dchar 0) @ num_text b n"
proof (induction k arbitrary: n)
  case 0
  then show ?case by (simp add: num_text.simps [of b n])
next
  case (Suc k)
  show ?case
  proof (cases "n < b ^ Suc k")
    case True
    have "length (num_text b n) \<le> Suc k" by (rule num_text_length [OF assms True])
    then show ?thesis using Suc.IH [OF True] True by (simp add: Suc_diff_le)
  next
    case False
    have len: "length (pad_text b j m) = Suc j" for j m by (induction j arbitrary: m) simp_all
    have "pad_text b (Suc k) n = num_text b n"
      by (rule pad_text_num [OF assms]) (use False Suc.prems in simp_all)
    then show ?thesis by (metis append_Nil diff_self_eq_0 len replicate_0)
  qed
qed

text \<open>A decimal with six digits behind the point.\<close>

definition fixed_text :: "bool \<Rightarrow> int \<Rightarrow> int \<Rightarrow> char list" where
  "fixed_text neg i f =
     (if neg then ''-'' else []) @ num_text 10 (nat i) @ CHR ''.'' # pad_text 10 5 (nat f)"

lemma fp_converts_fixed:
  assumes "0 \<le> i" "i \<le> 2 ^ 31" "0 \<le> f" "f < 10 ^ 6"
    "fp_parts (Fin x) 6 = Some (Fin (of_int i), Fin (of_int f))"
  shows "fp_converts (Fin x) 6 =
    Some (rev (num_text 10 (nat i)), if f = 0 then [] else rev (num_text 10 (nat f)))"
proof -
  have li: "length (num_text 10 (nat i)) \<le> Suc 9"
    by (rule num_text_length) (use assms in \<open>simp_all add: nat_less_iff\<close>)
  have lf: "length (num_text 10 (nat f)) \<le> Suc 9"
    by (rule num_text_length) (use assms in \<open>simp_all add: nat_less_iff\<close>)
  show ?thesis
    using fp_digits_num [of i 0] fp_digits_num [of f 0] assms li lf
    by (simp add: fp_converts_def fp_cut_def)
qed

lemma fp_out_fixed:
  assumes "0 \<le> i" "0 \<le> f" "f < 10 ^ 6"
  shows "fp_out m (if neg then ''-'' else []) 0 6 0
      (rev (num_text 10 (nat i)), if f = 0 then [] else rev (num_text 10 (nat f))) b =
    dopr_puts m (fixed_text neg i f) b"
proof -
  have f: "nat f < 10 ^ Suc 5" using assms by (simp add: nat_less_iff)
  have len6: "length (num_text 10 (nat f)) \<le> 6" using num_text_length [OF _ f] by simp
  have d0: "dchar 0 = CHR ''0''" by (simp add: dchar_def digit_chars_def)
  have "pad_text 10 k 0 = replicate (Suc k) (CHR ''0'')" for k
    by (induction k) (simp_all add: d0)
  from this [of 5] have "pad_text 10 5 0 = replicate 6 (CHR ''0'')" by (simp del: replicate_Suc)
  moreover have "pad_text 10 5 (nat f) =
      replicate (6 - length (num_text 10 (nat f))) (CHR ''0'') @ num_text 10 (nat f)"
    using pad_text_zeros [OF _ f] d0 by simp
  ultimately show ?thesis
    using len6
    by (cases "f = 0")
      (simp_all add: fp_out_def flag_def Let_def fixed_text_def zeros_def spaces_def dopr_puts_puts
        nat_diff_distrib)
qed

lemma fmtfp_fixed:
  assumes "\<bar>x\<bar> < 2 ^ 31"
  obtains i f where "0 \<le> i" "0 \<le> f" "f < 10 ^ 6" "\<bar>fixed_value i f - \<bar>x\<bar>\<bar> \<le> 501 / 10 ^ 9"
    "\<And>m b. fmtfp m (Fin x) 0 (- 1) 0 b = Some (dopr_puts m (fixed_text (x < 0) i f) b)"
proof -
  obtain i f where if': "fp_parts (Fin \<bar>x\<bar>) 6 = Some (Fin (of_int i), Fin (of_int f))"
    "0 \<le> i" "i \<le> 2 ^ 31" "0 \<le> f" "f < 10 ^ 6" "\<bar>fixed_value i f - \<bar>x\<bar>\<bar> \<le> 501 / 10 ^ 9"
    using fp_parts_fixed [of "\<bar>x\<bar>"] assms by auto
  have "abs_val (Fin x) = Fin \<bar>x\<bar>" by simp
  then have "fmtfp m (Fin x) 0 (- 1) 0 b = Some (dopr_puts m (fixed_text (x < 0) i f) b)" for m b
    using fp_out_fixed [OF if'(2,4,5), of m "x < 0" b] fp_converts_fixed [OF if'(2-5) if'(1)]
    by (simp add: fmtfp_def flag_def Let_def cong: if_cong)
  with if' show ?thesis by (intro that)
qed

lemma DoubleToStr_text:
  assumes "\<bar>x\<bar> < 2 ^ 31"
  obtains i f where "0 \<le> i" "0 \<le> f" "f < 10 ^ 6" "\<bar>fixed_value i f - \<bar>x\<bar>\<bar> \<le> 501 / 10 ^ 9"
    "\<And>len str. len \<le> length str \<Longrightarrow> SCPI_DoubleToStr (Fin x) str len =
       Some (length (fixed_text (x < 0) i f), cut_text len (fixed_text (x < 0) i f) str)"
proof -
  obtain i f where if': "0 \<le> i" "0 \<le> f" "f < 10 ^ 6" "\<bar>fixed_value i f - \<bar>x\<bar>\<bar> \<le> 501 / 10 ^ 9"
    "\<And>m b. fmtfp m (Fin x) 0 (- 1) 0 b = Some (dopr_puts m (fixed_text (x < 0) i f) b)"
    by (rule fmtfp_fixed [OF assms]) blast
  have "SCPI_DoubleToStr (Fin x) str len =
      Some (length (fixed_text (x < 0) i f), cut_text len (fixed_text (x < 0) i f) str)"
    if "len \<le> length str" for len str
  proof -
    define V where "V = (\<lambda>s c fmt cf args b. \<lparr>dp_state = s, dp_ch = c, dp_format = fmt, dp_min = 0,
      dp_max = - 1, dp_flags = 0, dp_cflags = cf, dp_args = args, dp_stores = [], dp_out = b\<rparr>)"
    have step: "dopr_loop len v = dopr_loop len v'" if "dopr_step len v = Some v'" "dp_state v \<noteq> DP_S_DONE" for v v'
      using that by (subst dopr_loop.simps) simp
    note run = V_def dopr_step_def dopr_switch_def Let_def next_ch_def dopr_flag_def isdigit_def
    let ?a = "[ADouble (Fin x)]" and ?b = "(str, 0 :: nat)"
    let ?c = "dopr_puts len (fixed_text (x < 0) i f) ?b"
    have "dopr_loop len (V DP_S_DEFAULT (CHR ''%'') (''lg'' @ [NUL]) DP_C_NONE ?a ?b) =
        dopr_loop len (V DP_S_FLAGS (CHR ''l'') (''g'' @ [NUL]) DP_C_NONE ?a ?b)"
      by (rule step) (simp_all add: run)
    also have "\<dots> = dopr_loop len (V DP_S_MIN (CHR ''l'') (''g'' @ [NUL]) DP_C_NONE ?a ?b)"
      by (rule step) (simp_all add: run)
    also have "\<dots> = dopr_loop len (V DP_S_DOT (CHR ''l'') (''g'' @ [NUL]) DP_C_NONE ?a ?b)"
      by (rule step) (simp_all add: run)
    also have "\<dots> = dopr_loop len (V DP_S_MOD (CHR ''l'') (''g'' @ [NUL]) DP_C_NONE ?a ?b)"
      by (rule step) (simp_all add: run)
    also have "\<dots> = dopr_loop len (V DP_S_CONV (CHR ''g'') [NUL] DP_C_LONG ?a ?b)"
      by (rule step) (simp_all add: run)
    also have "\<dots> = dopr_loop len (V DP_S_DEFAULT NUL [] DP_C_NONE [] ?c)"
      by (rule step) (simp_all add: run dopr_conv_def conv_fp_def arg_double_def if'(5))
    also have "\<dots> = dopr_loop len (V DP_S_DONE NUL [] DP_C_NONE [] ?c)"
      by (subst (1 2) dopr_loop.simps) (simp add: run dopr_loop.simps)
    also have "\<dots> = Some ((V DP_S_DONE NUL [] DP_C_NONE [] ?b)\<lparr>dp_out := ?c\<rparr>)"
      by (subst dopr_loop.simps) (simp add: V_def)
    finally have loop: "dopr_loop len (V DP_S_DEFAULT (CHR ''%'') (''lg'' @ [NUL]) DP_C_NONE ?a ?b) =
      Some ((V DP_S_DONE NUL [] DP_C_NONE [] ?b)\<lparr>dp_out := ?c\<rparr>)" .
    have "dopr_init ''%lg'' ?a ?b = Some (V DP_S_DEFAULT (CHR ''%'') (''lg'' @ [NUL]) DP_C_NONE ?a ?b)"
      by (simp add: dopr_init_def next_ch_def V_def)
    from dopr_end [OF that this loop] show ?thesis
      by (simp add: SCPI_DoubleToStr_def)
  qed
  with if' show ?thesis by (intro that)
qed

section \<open>Reading the text back\<close>

lemma isdigit_base: "isdigit c \<longleftrightarrow> base_digit 10 c"
  by (auto simp: isdigit_def base_digit_def digit_val_def isupper_def islower_def)

lemma digits_value_append:
  "digits_value b (xs @ ys) = digits_value b xs * b ^ length ys + digits_value b ys"
proof (induction ys rule: rev_induct)
  case (snoc y ys)
  then show ?case
    by (simp add: digits_value_snoc algebra_simps flip: append_assoc)
qed (simp add: digits_value_def)

lemma pad_text_facts:
  "f < 10 ^ 6 \<Longrightarrow> (\<forall>c\<in>set (pad_text 10 5 f). isdigit c) \<and> digits_value 10 (pad_text 10 5 f) = f \<and>
     length (pad_text 10 5 f) = 6"
proof -
  assume f: "f < 10 ^ 6"
  have p: "pad_text 10 5 f = replicate (6 - length (num_text 10 f)) (dchar 0) @ num_text 10 f"
    using pad_text_zeros [of 10 f 5] f by simp
  have z: "digits_value 10 (replicate n (dchar 0)) = 0" for n
    by (induction n) (simp_all add: digits_value_def digit_val_dchar)
  have "length (num_text 10 f) \<le> 6" using num_text_length [of 10 f 5] f by simp
  then show ?thesis
    using num_text_digits [of 10 f] base_digit_dchar [of 0 10]
    by (auto simp: p z digits_value_append isdigit_base)
qed

lemma fixed_text_read:
  assumes "0 \<le> i" "0 \<le> f" "f < 10 ^ 6" "number_ends ys"
  shows "strtod_subject (fixed_text neg i f @ ys) =
    (if neg then - fixed_value i f else fixed_value i f, length (fixed_text neg i f))"
proof -
  define a where "a = num_text 10 (nat i)"
  define b where "b = pad_text 10 5 (nat f)"
  define s where "s = (if neg then ''-'' else [])"
  have a: "a \<noteq> []" "\<forall>c\<in>set a. isdigit c" "digits_value 10 a = nat i"
    using num_text_digits [of 10 "nat i"] by (auto simp: a_def isdigit_base)
  have "nat f < 10 ^ 6" using assms by (simp add: nat_less_iff)
  note b = pad_text_facts [OF this, folded b_def]
  have t: "fixed_text neg i f @ ys = s @ a @ CHR ''.'' # b @ ys"
    by (simp add: fixed_text_def a_def b_def s_def)
  have hd_a: "isdigit (hd0 (a @ zs))" "\<not> isspace (hd0 (a @ zs))" "hd0 (a @ zs) \<noteq> CHR ''-''"
    "hd0 (a @ zs) \<noteq> CHR ''+''" for zs
  proof -
    show "isdigit (hd0 (a @ zs))" using a by (cases a) auto
    then show "\<not> isspace (hd0 (a @ zs))" "hd0 (a @ zs) \<noteq> CHR ''-''" "hd0 (a @ zs) \<noteq> CHR ''+''"
      using isalnum_facts by (auto simp: isalnum_def)
  qed
  have space: "takeWhile isspace (s @ a @ zs) = []" for zs
    using hd_a(2) [of zs] a(1) by (cases a) (auto simp: s_def isspace_def)
  have end_digits: "takeWhile isdigit (b @ ys) = b"
    by (rule takeWhile_append_stop)
      (use b assms(4) in \<open>auto simp: number_ends_def isalnum_def\<close>)
  have dot: "takeWhile isdigit (a @ CHR ''.'' # zs) = a" for zs
    by (rule takeWhile_append_stop) (use a in \<open>auto simp: isdigit_def\<close>)
  have ex: "strtod_exponent ys = (0, 0)"
    using assms(4)
    by (cases ys) (auto simp: strtod_exponent_def number_ends_def isalnum_def isalpha_def islower_def isupper_def)
  have fixed: "rat_of_nat (digits_value 10 (a @ b)) * 10 powi (0 - int (length b)) = fixed_value i f"
    using assms a b by (simp add: digits_value_append fixed_value_def power_int_minus field_simps)
  define zs where "zs = a @ CHR ''.'' # b @ ys"
  have bs: "drop (length a) zs = CHR ''.'' # b @ ys" by (simp add: zs_def)
  have tail: "drop (length a + 1 + length b) zs = ys" by (simp add: zs_def)
  have sign: "hd0 (s @ zs) = CHR ''-'' \<longleftrightarrow> neg" "neg \<or> hd0 (s @ zs) = CHR ''+'' \<longleftrightarrow> neg"
    "drop (if neg then 1 else 0) (s @ zs) = zs" "length s = (if neg then 1 else 0)"
    using hd_a(3,4) by (simp_all add: s_def zs_def)
  have "strtod_subject (s @ zs) =
      (if neg then - fixed_value i f else fixed_value i f,
       0 + (if neg then 1 else 0) + (length a + 1 + length b) + 0)"
    unfolding strtod_subject_def Let_def space [of "CHR ''.'' # b @ ys", folded zs_def] list.size(3) drop_0
      sign dot [of "b @ ys", folded zs_def] bs hd0_simps(2) list.sel(3) end_digits simp_thms if_True tail
      ex prod.case
    unfolding fixed using a(1) by simp
  moreover have "length (fixed_text neg i f) = (if neg then 1 else 0) + (length a + 1 + length b)"
    by (simp add: fixed_text_def a_def b_def)
  ultimately show ?thesis by (simp add: t zs_def)
qed

section \<open>Properties\<close>

text \<open>C20: A double whose integer part fits a \<^verbatim>\<open>long\<close> is printed as a decimal with six digits behind the
  point, at most 0.501 millionths away from it; the printed text is read back as the double next to
  this decimal, whatever follows it but a letter or a digit.\<close>

theorem DoubleToStr_fixed:
  assumes "\<bar>x\<bar> < 2 ^ 31"
  shows "\<exists>i f. 0 \<le> i \<and> 0 \<le> f \<and> f < 10 ^ 6 \<and> \<bar>fixed_value i f - \<bar>x\<bar>\<bar> \<le> 501 / 10 ^ 9 \<and>
    (let t = fixed_text (x < 0) i f
     in (\<forall>str len. len \<le> length str \<longrightarrow> SCPI_DoubleToStr (Fin x) str len = Some (length t, cut_text len t str)) \<and>
        (\<forall>ys. number_ends ys \<longrightarrow> strToDouble (t @ ys) =
           (length t, double_of (if x < 0 then - fixed_value i f else fixed_value i f))))"
proof -
  obtain i f where if': "0 \<le> i" "0 \<le> f" "f < 10 ^ 6" "\<bar>fixed_value i f - \<bar>x\<bar>\<bar> \<le> 501 / 10 ^ 9"
    "\<And>len str. len \<le> length str \<Longrightarrow> SCPI_DoubleToStr (Fin x) str len =
       Some (length (fixed_text (x < 0) i f), cut_text len (fixed_text (x < 0) i f) str)"
    by (rule DoubleToStr_text [OF assms]) blast
  then show ?thesis
    using fixed_text_read [OF if'(1-3)]
    by (intro exI [of _ i] exI [of _ f]) (simp add: Let_def strToDouble_def strtod_def)
qed

lemma DoubleToStr_fixed_witness:
  "\<exists>i f. 0 \<le> i \<and> 0 \<le> f \<and> f < 10 ^ 6 \<and> \<bar>fixed_value i f - \<bar>- 5 / 2\<bar>\<bar> \<le> 501 / 10 ^ 9 \<and>
    (let t = fixed_text True i f
     in SCPI_DoubleToStr (Fin (- 5 / 2)) (replicate 15 NUL) 15 = Some (length t, cut_text 15 t (replicate 15 NUL)) \<and>
        strToDouble (t @ '', 1'') = (length t, double_of (- fixed_value i f)))"
proof -
  have "number_ends '', 1''"
    by (simp add: number_ends_def isalnum_def isalpha_def isupper_def islower_def isdigit_def)
  moreover obtain i f where "0 \<le> i \<and> 0 \<le> f \<and> f < 10 ^ 6 \<and> \<bar>fixed_value i f - \<bar>- 5 / 2\<bar>\<bar> \<le> 501 / 10 ^ 9 \<and>
    (let t = fixed_text (- 5 / 2 < (0::rat)) i f
     in (\<forall>str len. len \<le> length str \<longrightarrow> SCPI_DoubleToStr (Fin (- 5 / 2)) str len = Some (length t, cut_text len t str)) \<and>
        (\<forall>ys. number_ends ys \<longrightarrow> strToDouble (t @ ys) =
           (length t, double_of (if - 5 / 2 < (0::rat) then - fixed_value i f else fixed_value i f))))"
    using DoubleToStr_fixed [of "- 5 / 2"] by auto
  ultimately show ?thesis
    by (intro exI [of _ i] exI [of _ f]) (simp add: Let_def)
qed

text \<open>For an integer the decimal is the number itself.\<close>

lemma fixed_value_int:
  assumes "\<bar>fixed_value i f - of_int n\<bar> \<le> 501 / 10 ^ 9" "0 \<le> f" "f < 10 ^ 6"
  shows "i = n \<and> f = 0"
proof -
  define k where "k = 1000000 * i + f - 1000000 * n"
  have "\<bar>rat_of_int k\<bar> < 1"
    using assms(1) [unfolded abs_le_iff fixed_value_def] by (simp add: k_def abs_less_iff)
  then have "rat_of_int \<bar>k\<bar> < of_int 1" by simp
  then have "\<bar>k\<bar> < 1" by (simp only: of_int_less_iff)
  then have "1000000 * i + f - 1000000 * n = 0" by (simp add: k_def)
  then show ?thesis using assms(2,3) by (cases i n rule: linorder_cases) simp_all
qed

lemma DoubleToStr_int_text:
  assumes "\<bar>n\<bar> < 2 ^ 31" "len \<le> length str"
  shows "SCPI_DoubleToStr (Fin (of_int n)) str len =
    Some (length (fixed_text (n < 0) \<bar>n\<bar> 0), cut_text len (fixed_text (n < 0) \<bar>n\<bar> 0) str)"
proof -
  have n: "\<bar>rat_of_int n\<bar> < 2 ^ 31"
    using assms(1) by (metis of_int_abs of_int_less_iff of_int_numeral of_int_power)
  obtain i f where "0 \<le> i" "0 \<le> f" "f < 10 ^ 6" "\<bar>fixed_value i f - \<bar>of_int n\<bar>\<bar> \<le> 501 / 10 ^ 9"
    "\<And>len str. len \<le> length str \<Longrightarrow> SCPI_DoubleToStr (Fin (of_int n)) str len =
       Some (length (fixed_text (of_int n < (0::rat)) i f), cut_text len (fixed_text (of_int n < (0::rat)) i f) str)"
    by (rule DoubleToStr_text [OF n]) blast
  moreover from this have "i = \<bar>n\<bar> \<and> f = 0" by (intro fixed_value_int) simp_all
  ultimately show ?thesis using assms(2) by simp
qed

end
