(* ===== verification/Units.thy ===== *)
theory Units
  imports Snprintf Params Output Expression
begin

text \<open>
  Floating point numbers as parameters and results, and numbers with units: \<^verbatim>\<open>parser.c\<close>, lines 439 to
  468 and 726 to 851, \<^verbatim>\<open>expression.c\<close>, lines 152 to 181, and \<^verbatim>\<open>units.c\<close>.

  As in \<open>Params\<close>, a function returns whether it succeeded, what it stored and the context, and
  \<open>value\<close> says whether the caller's pointer is not NULL.  The list of units, \<^verbatim>\<open>context->units\<close>, is an
  argument (\<open>None\<close> for NULL).  A write outside the caller's buffer, a string without its NUL and a read
  of a member of the union that was not stored are \<open>None\<close>.
\<close>

section \<open>Parameters\<close>

text \<open>The first three types of the two \<^verbatim>\<open>switch\<close>es.\<close>

definition based_number :: "scpi_token_type \<Rightarrow> bool" where
  "based_number ty \<longleftrightarrow> ty = SCPI_TOKEN_HEXNUM \<or> ty = SCPI_TOKEN_OCTNUM \<or> ty = SCPI_TOKEN_BINNUM"

definition decimal_number :: "scpi_token_type \<Rightarrow> bool" where
  "decimal_number ty \<longleftrightarrow> ty = SCPI_TOKEN_DECIMAL_NUMERIC_PROGRAM_DATA \<or>
     ty = SCPI_TOKEN_DECIMAL_NUMERIC_PROGRAM_DATA_WITH_SUFFIX"

definition SCPI_ParamToFloat ::
  "'u scpi_interface \<Rightarrow> 'u scpi_t \<Rightarrow> scpi_token \<Rightarrow> bool \<Rightarrow> bool \<times> double option \<times> 'u scpi_t" where
  "SCPI_ParamToFloat ifc ctx parameter value =
     (if \<not> value then (False, None, SCPI_ErrorPush ifc ctx SCPI_ERROR_SYSTEM_ERROR)
      else if based_number (tk_type parameter) then
        let (result, valint, ctx) = SCPI_ParamToUInt32 ifc ctx parameter True
        in (result, map_option (\<lambda>n. float_of (of_int n)) valint, ctx)
      else if decimal_number (tk_type parameter) then
        let (n, v) = strToFloat (token_ptr ctx parameter) in (0 < n, Some v, ctx)
      else (False, None, ctx))"

definition SCPI_ParamToDouble ::
  "'u scpi_interface \<Rightarrow> 'u scpi_t \<Rightarrow> scpi_token \<Rightarrow> bool \<Rightarrow> bool \<times> double option \<times> 'u scpi_t" where
  "SCPI_ParamToDouble ifc ctx parameter value =
     (if \<not> value then (False, None, SCPI_ErrorPush ifc ctx SCPI_ERROR_SYSTEM_ERROR)
      else if based_number (tk_type parameter) then
        let (result, valint, ctx) = SCPI_ParamToUInt64 ifc ctx parameter True
        in (result, map_option (\<lambda>n. double_of (of_int n)) valint, ctx)
      else if decimal_number (tk_type parameter) then
        let (n, v) = strToDouble (token_ptr ctx parameter) in (0 < n, Some v, ctx)
      else (False, None, ctx))"

definition SCPI_ParamFloat ::
  "'u scpi_interface \<Rightarrow> 'u scpi_t \<Rightarrow> bool \<Rightarrow> bool \<Rightarrow> (bool \<times> double option \<times> 'u scpi_t) option" where
  "SCPI_ParamFloat ifc ctx value mandatory =
     (if \<not> value then Some (False, None, SCPI_ErrorPush ifc ctx SCPI_ERROR_SYSTEM_ERROR)
      else do {
        (result, param, ctx) \<leftarrow> SCPI_Parameter ifc ctx (Some zero_token) mandatory;
        if result then
          if SCPI_ParamIsNumber param False then
            let (_, v, ctx) = SCPI_ParamToFloat ifc ctx param value in Some (True, v, ctx)
          else if SCPI_ParamIsNumber param True then
            Some (False, None, SCPI_ErrorPush ifc ctx SCPI_ERROR_SUFFIX_NOT_ALLOWED)
          else Some (False, None, SCPI_ErrorPush ifc ctx SCPI_ERROR_DATA_TYPE_ERROR)
        else Some (result, None, ctx)
      })"

definition SCPI_ParamDouble ::
  "'u scpi_interface \<Rightarrow> 'u scpi_t \<Rightarrow> bool \<Rightarrow> bool \<Rightarrow> (bool \<times> double option \<times> 'u scpi_t) option" where
  "SCPI_ParamDouble ifc ctx value mandatory =
     (if \<not> value then Some (False, None, SCPI_ErrorPush ifc ctx SCPI_ERROR_SYSTEM_ERROR)
      else do {
        (result, param, ctx) \<leftarrow> SCPI_Parameter ifc ctx (Some zero_token) mandatory;
        if result then
          if SCPI_ParamIsNumber param False then
            let (_, v, ctx) = SCPI_ParamToDouble ifc ctx param value in Some (True, v, ctx)
          else if SCPI_ParamIsNumber param True then
            Some (False, None, SCPI_ErrorPush ifc ctx SCPI_ERROR_SUFFIX_NOT_ALLOWED)
          else Some (False, None, SCPI_ErrorPush ifc ctx SCPI_ERROR_DATA_TYPE_ERROR)
        else Some (result, None, ctx)
      })"

section \<open>Results\<close>

text \<open>The numeral is printed into \<^verbatim>\<open>char buffer[32]\<close>; \<^verbatim>\<open>snprintf\<close> may return more than was stored.\<close>

definition result_printed ::
  "'u scpi_interface \<Rightarrow> 'u scpi_t \<Rightarrow> nat \<times> char list \<Rightarrow> (nat \<times> 'u scpi_t) option" where
  "result_printed ifc ctx = (\<lambda>(len, buffer). do {
     (d, ctx) \<leftarrow> writeDelimiter ifc ctx;
     if length buffer < len then None
     else do {
       (n, ctx) \<leftarrow> writeData ifc ctx (take len buffer);
       Some (d + n, count_output ctx)
     }
   })"

definition SCPI_ResultFloat ::
  "'u scpi_interface \<Rightarrow> 'u scpi_t \<Rightarrow> double \<Rightarrow> (nat \<times> 'u scpi_t) option" where
  "SCPI_ResultFloat ifc ctx val = do {
     r \<leftarrow> SCPI_FloatToStr val (replicate 32 NUL) 32;
     result_printed ifc ctx r
   }"

definition SCPI_ResultDouble ::
  "'u scpi_interface \<Rightarrow> 'u scpi_t \<Rightarrow> double \<Rightarrow> (nat \<times> 'u scpi_t) option" where
  "SCPI_ResultDouble ifc ctx val = do {
     r \<leftarrow> SCPI_DoubleToStr val (replicate 32 NUL) 32;
     result_printed ifc ctx r
   }"

section \<open>Numeric lists of doubles\<close>

definition SCPI_ExprNumericListEntryDouble ::
  "'u scpi_interface \<Rightarrow> 'u scpi_t \<Rightarrow> scpi_token option \<Rightarrow> int \<Rightarrow> bool \<Rightarrow> bool \<Rightarrow>
     scpi_expr_result \<times> (bool \<times> double option \<times> double option) option \<times> 'u scpi_t" where
  "SCPI_ExprNumericListEntryDouble ifc ctx param index valueFrom valueTo =
     (let (res, e, ctx) =
            SCPI_ExprNumericListEntry ifc ctx param index (Some (False, zero_token, zero_token));
          (range, paramFrom, paramTo) = the e
      in if res = SCPI_EXPR_OK then
           let (_, from, ctx) = SCPI_ParamToDouble ifc ctx paramFrom valueFrom;
               (_, upto, ctx) =
                 (if range then SCPI_ParamToDouble ifc ctx paramTo valueTo else (True, None, ctx))
           in (res, Some (range, from, upto), ctx)
         else (res, None, ctx))"

section \<open>Units\<close>

record scpi_unit_def =
  unit_name :: "char list"
  unit_unit :: scpi_unit
  unit_mult :: double

definition scpi_units_def :: "scpi_unit_def list" where
  "scpi_units_def =
     map (\<lambda>(name, unit, mult). \<lparr>unit_name = name, unit_unit = unit, unit_mult = double_of mult\<rparr>)
       [(''UV'', SCPI_UNIT_VOLT, 1 / 10 ^ 6), (''MV'', SCPI_UNIT_VOLT, 1 / 10 ^ 3),
        (''V'', SCPI_UNIT_VOLT, 1), (''KV'', SCPI_UNIT_VOLT, 10 ^ 3),
        (''UA'', SCPI_UNIT_AMPER, 1 / 10 ^ 6), (''MA'', SCPI_UNIT_AMPER, 1 / 10 ^ 3),
        (''A'', SCPI_UNIT_AMPER, 1), (''KA'', SCPI_UNIT_AMPER, 10 ^ 3),
        (''OHM'', SCPI_UNIT_OHM, 1), (''KOHM'', SCPI_UNIT_OHM, 10 ^ 3),
        (''MOHM'', SCPI_UNIT_OHM, 10 ^ 6),
        (''HZ'', SCPI_UNIT_HERTZ, 1), (''KHZ'', SCPI_UNIT_HERTZ, 10 ^ 3),
        (''MHZ'', SCPI_UNIT_HERTZ, 10 ^ 6), (''GHZ'', SCPI_UNIT_HERTZ, 10 ^ 9),
        (''CEL'', SCPI_UNIT_CELSIUS, 1),
        (''PS'', SCPI_UNIT_SECONDS, 1 / 10 ^ 12), (''NS'', SCPI_UNIT_SECONDS, 1 / 10 ^ 9),
        (''US'', SCPI_UNIT_SECONDS, 1 / 10 ^ 6), (''MS'', SCPI_UNIT_SECONDS, 1 / 10 ^ 3),
        (''S'', SCPI_UNIT_SECONDS, 1), (''MIN'', SCPI_UNIT_SECONDS, 60),
        (''HR'', SCPI_UNIT_SECONDS, 3600)]"

text \<open>The values of the enumeration \<open>scpi_special_number\<close> as tags.\<close>

definition scpi_special_numbers_def :: "scpi_choice_def list" where
  "scpi_special_numbers_def =
     [(''MINimum'', 1), (''MAXimum'', 2), (''DEFault'', 3), (''UP'', 4), (''DOWN'', 5), (''NAN'', 6),
      (''INFinity'', 7), (''NINF'', 8), (''AUTO'', 9)]"

fun find_unit :: "scpi_unit_def list \<Rightarrow> char list \<Rightarrow> nat \<Rightarrow> scpi_unit_def option" where
  "find_unit [] unit len = None"
| "find_unit (u # units) unit len =
     (if compareStr unit len (unit_name u) (length (unit_name u)) then Some u
      else find_unit units unit len)"

definition translateUnit :: "scpi_unit_def list option \<Rightarrow> char list \<Rightarrow> nat \<Rightarrow> scpi_unit_def option" where
  "translateUnit units unit len =
     (case units of None \<Rightarrow> None | Some units \<Rightarrow> find_unit units unit len)"

fun base_unit_name :: "scpi_unit_def list \<Rightarrow> scpi_unit \<Rightarrow> char list option" where
  "base_unit_name [] unit = None"
| "base_unit_name (u # units) unit =
     (if unit_unit u = unit \<and> unit_mult u = Fin 1 then Some (unit_name u) else base_unit_name units unit)"

definition translateUnitInverse :: "scpi_unit_def list option \<Rightarrow> scpi_unit \<Rightarrow> char list option" where
  "translateUnitInverse units unit =
     (case units of None \<Rightarrow> None | Some units \<Rightarrow> base_unit_name units unit)"

section \<open>Numbers\<close>

text \<open>\<^verbatim>\<open>scpi_number_t\<close>; the union of value and tag is what was stored last, \<open>Unset\<close> for a tag copied
  from the local variable when no choice was found.\<close>

datatype number_content = Value double | Tag int | Unset

record scpi_number =
  num_special :: bool
  num_content :: number_content
  num_unit :: scpi_unit
  num_base :: int

definition transformNumber ::
  "'u scpi_interface \<Rightarrow> scpi_unit_def list option \<Rightarrow> 'u scpi_t \<Rightarrow> char list \<Rightarrow> nat \<Rightarrow> double \<Rightarrow>
     scpi_number \<Rightarrow> bool \<times> scpi_number \<times> 'u scpi_t" where
  "transformNumber ifc units ctx unit len v value =
     (let s = skipWhitespace unit len
      in if s = len then (True, value\<lparr>num_unit := SCPI_UNIT_NONE\<rparr>, ctx)
         else case translateUnit units (drop s unit) (len - s) of
                None \<Rightarrow> (False, value, SCPI_ErrorPush ifc ctx SCPI_ERROR_INVALID_SUFFIX)
              | Some unitDef \<Rightarrow>
                  (True, value\<lparr>num_content := Value (dmul v (unit_mult unitDef)),
                               num_unit := unit_unit unitDef\<rparr>, ctx))"

text \<open>The second \<^verbatim>\<open>switch\<close> of \<^verbatim>\<open>SCPI_ParamNumber\<close>.\<close>

definition number_base :: "scpi_token_type \<Rightarrow> int" where
  "number_base ty =
     (if ty = SCPI_TOKEN_BINNUM then 2 else if ty = SCPI_TOKEN_HEXNUM then 16
      else if ty = SCPI_TOKEN_OCTNUM then 8 else 10)"

definition stored_number :: "scpi_token_type \<Rightarrow> double option \<Rightarrow> scpi_number" where
  "stored_number ty v = \<lparr>num_special = False,
     num_content = (case v of Some v \<Rightarrow> Value v | None \<Rightarrow> Unset),
     num_unit = SCPI_UNIT_NONE, num_base = number_base ty\<rparr>"

definition SCPI_ParamNumber ::
  "'u scpi_interface \<Rightarrow> scpi_unit_def list option \<Rightarrow> 'u scpi_t \<Rightarrow> scpi_choice_def list option \<Rightarrow> bool \<Rightarrow>
     bool \<Rightarrow> (bool \<times> scpi_number option \<times> 'u scpi_t) option" where
  "SCPI_ParamNumber ifc units ctx special value mandatory =
     (if \<not> value then Some (False, None, SCPI_ErrorPush ifc ctx SCPI_ERROR_SYSTEM_ERROR)
      else do {
        (result, param, ctx) \<leftarrow> SCPI_Parameter ifc ctx (Some zero_token) mandatory;
        if \<not> result then Some (result, None, ctx)
        else
          let m = buf_data ctx;
              state = \<lparr>lx_buffer = addr (tk_ptr param), lx_pos = addr (tk_ptr param), lx_len = tk_len param\<rparr>
          in if based_number (tk_type param) \<or> tk_type param = SCPI_TOKEN_DECIMAL_NUMERIC_PROGRAM_DATA then
               let (_, v, ctx) = SCPI_ParamToDouble ifc ctx param True
               in Some (True, Some (stored_number (tk_type param) v), ctx)
             else if tk_type param = SCPI_TOKEN_DECIMAL_NUMERIC_PROGRAM_DATA_WITH_SUFFIX then
               let (_, state, token) = scpiLex_DecimalNumericProgramData m state zero_token;
                   (_, state, token) = scpiLex_WhiteSpace m state token;
                   (_, state, token) = scpiLex_SuffixProgramData m state token;
                   (_, v, ctx) = SCPI_ParamToDouble ifc ctx param True
               in (case v of
                     None \<Rightarrow> None
                   | Some v \<Rightarrow>
                       let (result, number, ctx) =
                             transformNumber ifc units ctx (token_ptr ctx token) (nat (tk_len token)) v
                               (stored_number (tk_type param) (Some v))
                       in Some (result, Some number, ctx))
             else if tk_type param = SCPI_TOKEN_PROGRAM_MNEMONIC then
               let (_, state, token) = scpiLex_WhiteSpace m state zero_token;
                   (_, state, token) = scpiLex_CharacterProgramData m state token;
                   (result, tag, ctx) = SCPI_ParamToChoice ifc ctx token special True
               in Some (result,
                        Some ((stored_number (tk_type param) None)\<lparr>num_special := True,
                          num_content := (case tag of Some tag \<Rightarrow> Tag tag | None \<Rightarrow> Unset)\<rparr>), ctx)
             else Some (False, None, ctx)
      })"

section \<open>Numbers to text\<close>

text \<open>\<^verbatim>\<open>strncpy\<close> and \<^verbatim>\<open>strncat\<close> into a buffer.\<close>

definition strncpy :: "char list \<Rightarrow> char list \<Rightarrow> nat \<Rightarrow> char list option" where
  "strncpy dest src n =
     (if n \<le> length dest then Some (take n (src @ replicate n NUL) @ drop n dest) else None)"

definition strncat :: "char list \<Rightarrow> char list \<Rightarrow> nat \<Rightarrow> char list option" where
  "strncat dest src n = do {
     p \<leftarrow> strlen_in dest;
     let t = take n src @ [NUL];
     if p + length t \<le> length dest then Some (take p dest @ t @ drop (p + length t) dest) else None
   }"

text \<open>The arguments \<open>value\<close> and \<open>str\<close> are \<open>None\<close> for NULL.\<close>

definition SCPI_NumberToStr ::
  "scpi_unit_def list option \<Rightarrow> scpi_choice_def list \<Rightarrow> scpi_number option \<Rightarrow> char list option \<Rightarrow> nat \<Rightarrow>
     (nat \<times> char list option) option" where
  "SCPI_NumberToStr units special value str len =
     (case (value, str) of
        (Some value, Some str) \<Rightarrow>
          if num_special value then
            (case num_content value of
               Tag tag \<Rightarrow>
                 (case SCPI_ChoiceToName special tag of
                    Some type \<Rightarrow> do {
                      str \<leftarrow> strncpy str type len;
                      Some (min (length type) len, Some str)
                    }
                  | None \<Rightarrow> if str = [] then None else Some (0, Some (str[0 := NUL])))
             | _ \<Rightarrow> None)
          else
            (case num_content value of
               Value v \<Rightarrow> do {
                 (result, str) \<leftarrow> SCPI_DoubleToStr v str len;
                 case translateUnitInverse units (num_unit value) of
                   Some unit \<Rightarrow> do {
                     str \<leftarrow> strncat str '' '' len;
                     str \<leftarrow> strncat str unit len;
                     Some (result + length unit + 1, Some str)
                   }
                 | None \<Rightarrow> Some (result, Some str)
               }
             | _ \<Rightarrow> None)
      | _ \<Rightarrow> Some (0, str))"

end
