(* ===== verification/Instrument.thy ===== *)
theory Instrument
  imports Firmware Units
begin

text \<open>
  The commands of the instrument that handle doubles (\<^verbatim>\<open>Src/Src/scpi-def.c\<close>, lines 42, 79 to 153 and
  382 to 452) and the whole command list, lines 454 to 514.

  The matrix \<^verbatim>\<open>gMatrix\<close> is part of the device; an access outside it, a read of a variable nobody has
  written, a cast that does not fit and a write outside a local buffer make a callback return \<open>None\<close>.
\<close>

section \<open>The device\<close>

type_synonym matrix = "double list list list"

record matrix_device = device +
  gMatrix :: matrix

definition zero_matrix :: matrix where
  "zero_matrix = replicate 5 (replicate 5 (replicate 5 (Fin 0)))"

definition matrix_ok :: "matrix \<Rightarrow> bool" where
  "matrix_ok m \<longleftrightarrow> length m = 5 \<and> (\<forall>p\<in>set m. length p = 5 \<and> (\<forall>r\<in>set p. length r = 5))"

definition in_matrix :: "nat \<Rightarrow> nat \<Rightarrow> nat \<Rightarrow> bool" where
  "in_matrix i j k \<longleftrightarrow> i < 5 \<and> j < 5 \<and> k < 5"

definition matrix_get :: "matrix \<Rightarrow> nat \<Rightarrow> nat \<Rightarrow> nat \<Rightarrow> double option" where
  "matrix_get m i j k = (if in_matrix i j k then Some (m ! i ! j ! k) else None)"

definition matrix_put :: "matrix \<Rightarrow> nat \<Rightarrow> nat \<Rightarrow> nat \<Rightarrow> double \<Rightarrow> matrix option" where
  "matrix_put m i j k v =
     (if in_matrix i j k then Some (m[i := (m ! i)[j := (m ! i ! j)[k := v]]]) else None)"

definition put_matrix :: "matrix \<Rightarrow> 'r matrix_device_scheme scpi_t \<Rightarrow> 'r matrix_device_scheme scpi_t" where
  "put_matrix m ctx = ctx\<lparr>user_context := (user_context ctx)\<lparr>gMatrix := m\<rparr>\<rparr>"

section \<open>Matrix commands\<close>

text \<open>\<^verbatim>\<open>if (SCPI_ParamNumber(...)) i = (UINT8)param.value; else return SCPI_RES_ERR;\<close> \<open>Inl\<close> is the
  return, and \<open>conv\<close> the cast.\<close>

definition number_value :: "scpi_number \<Rightarrow> double option" where
  "number_value n = (case num_content n of Value v \<Rightarrow> Some v | _ \<Rightarrow> None)"

definition read_number_as ::
  "(double \<Rightarrow> 'a option) \<Rightarrow> 'r matrix_device_scheme scpi_t \<Rightarrow>
     ((scpi_result + 'a) \<times> 'r matrix_device_scheme scpi_t) option" where
  "read_number_as conv ctx = do {
     (ok, param, ctx) \<leftarrow>
       SCPI_ParamNumber scpi_ifc (Some scpi_units_def) ctx (Some scpi_special_numbers_def) True False;
     if \<not> ok then Some (Inl SCPI_RES_ERR, ctx)
     else do {
       param \<leftarrow> param;
       v \<leftarrow> number_value param;
       a \<leftarrow> conv v;
       Some (Inr a, ctx)
     }
   }"

text \<open>The three indices that both commands read.\<close>

definition read_u8 ::
  "'r matrix_device_scheme scpi_t \<Rightarrow> ((scpi_result + nat) \<times> 'r matrix_device_scheme scpi_t) option" where
  "read_u8 = read_number_as (\<lambda>v. map_option nat (double_to_u8 v))"

definition read_indices ::
  "'r matrix_device_scheme scpi_t \<Rightarrow>
     ((scpi_result + nat \<times> nat \<times> nat) \<times> 'r matrix_device_scheme scpi_t) option" where
  "read_indices ctx = do {
     (i, ctx) \<leftarrow> read_u8 ctx;
     case i of Inl e \<Rightarrow> Some (Inl e, ctx)
     | Inr i \<Rightarrow> do {
         (j, ctx) \<leftarrow> read_u8 ctx;
         case j of Inl e \<Rightarrow> Some (Inl e, ctx)
         | Inr j \<Rightarrow> do {
             (k, ctx) \<leftarrow> read_u8 ctx;
             case k of Inl e \<Rightarrow> Some (Inl e, ctx)
             | Inr k \<Rightarrow> Some (Inr (i, j, k), ctx)
           }
       }
   }"

definition CFG_MatrixQ :: "'r matrix_device_scheme scpi_callback" where
  "CFG_MatrixQ ctx = do {
     (r, ctx) \<leftarrow> read_indices ctx;
     case r of Inl e \<Rightarrow> Some (e, ctx)
     | Inr (i, j, k) \<Rightarrow> do {
         v \<leftarrow> matrix_get (gMatrix (user_context ctx)) i j k;
         (_, ctx) \<leftarrow> SCPI_ResultDouble scpi_ifc ctx v;
         Some (SCPI_RES_OK, ctx)
       }
   }"

definition CFG_Matrix :: "'r matrix_device_scheme scpi_callback" where
  "CFG_Matrix ctx = do {
     (r, ctx) \<leftarrow> read_indices ctx;
     case r of Inl e \<Rightarrow> Some (e, ctx)
     | Inr (i, j, k) \<Rightarrow> do {
         (v, ctx) \<leftarrow> read_number_as (\<lambda>v. Some (double_to_float v)) ctx;
         case v of Inl e \<Rightarrow> Some (e, ctx)
         | Inr value \<Rightarrow> do {
             m \<leftarrow> matrix_put (gMatrix (user_context ctx)) i j k value;
             Some (SCPI_RES_OK,
               emit (Printf (''%s:%d --->[%d][%d][%d]=%f'' @ CRLF)
                      [Str ''CFG_Matrix'', Num 450, Num (int i), Num (int j), Num (int k), Dbl value])
                 (put_matrix m ctx))
           }
       }
   }"

section \<open>Voltage commands\<close>

text \<open>A number printed into \<^verbatim>\<open>bf\<close>, 15 characters, and from there to the standard output.\<close>

definition print_number ::
  "char list \<Rightarrow> scpi_number option \<Rightarrow> char list \<Rightarrow> 'r device_scheme scpi_t \<Rightarrow>
     (char list \<times> 'r device_scheme scpi_t) option" where
  "print_number fmt param bf ctx = do {
     param \<leftarrow> param;
     (_, bf) \<leftarrow> SCPI_NumberToStr (Some scpi_units_def) scpi_special_numbers_def (Some param) (Some bf) 15;
     bf \<leftarrow> bf;
     _ \<leftarrow> strlen_in bf;
     Some (bf, emit (Printf fmt [Str (takeWhile (\<lambda>c. c \<noteq> NUL) bf)]) ctx)
   }"

text \<open>\<^verbatim>\<open>DMM_MeasureVoltageDcQ\<close> and \<^verbatim>\<open>DMM_MeasureVoltageAcQ\<close> differ in the text they print first.\<close>

definition DMM_MeasureVoltageQ :: "char list \<Rightarrow> char list \<Rightarrow> 'r device_scheme scpi_callback" where
  "DMM_MeasureVoltageQ name garbage ctx = do {
     let ctx = emit (Printf (name @ CRLF) []) ctx;
     (_, param1, ctx) \<leftarrow>
       SCPI_ParamNumber scpi_ifc (Some scpi_units_def) ctx (Some scpi_special_numbers_def) True False;
     (_, param2, ctx) \<leftarrow>
       SCPI_ParamNumber scpi_ifc (Some scpi_units_def) ctx (Some scpi_special_numbers_def) True False;
     (bf, ctx) \<leftarrow> print_number (CHR 0x09 # ''P1=%s'' @ CRLF) param1 garbage ctx;
     (_, ctx) \<leftarrow> print_number (CHR 0x09 # ''P2=%s'' @ CRLF) param2 bf ctx;
     (_, ctx) \<leftarrow> SCPI_ResultDouble scpi_ifc ctx (Fin 0);
     Some (SCPI_RES_OK, ctx)
   }"

definition DMM_MeasureVoltageDcQ :: "char list \<Rightarrow> 'r device_scheme scpi_callback" where
  "DMM_MeasureVoltageDcQ = DMM_MeasureVoltageQ ''meas:volt:dc''"

definition DMM_MeasureVoltageAcQ :: "char list \<Rightarrow> 'r device_scheme scpi_callback" where
  "DMM_MeasureVoltageAcQ = DMM_MeasureVoltageQ ''meas:volt:ac''"

definition DMM_ConfigureVoltageDc :: "'r device_scheme scpi_callback" where
  "DMM_ConfigureVoltageDc ctx = do {
     let ctx = emit (Printf (''conf:volt:dc'' @ CRLF) []) ctx;
     (ok, param1, ctx) \<leftarrow> SCPI_ParamDouble scpi_ifc ctx True True;
     if \<not> ok then Some (SCPI_RES_ERR, ctx)
     else do {
       (_, param2, ctx) \<leftarrow> SCPI_ParamDouble scpi_ifc ctx True False;
       param1 \<leftarrow> param1;
       param2 \<leftarrow> param2;
       let ctx = emit (Printf (CHR 0x09 # ''P1=%lf'' @ CRLF) [Dbl param1]) ctx;
       Some (SCPI_RES_OK, emit (Printf (CHR 0x09 # ''P2=%lf'' @ CRLF) [Dbl param2]) ctx)
     }
   }"

section \<open>The command list\<close>

text \<open>What the local arrays of the test commands hold before they are written.\<close>

record stack_garbage =
  numbers_garbage :: "int list"
  text_garbage :: "char list"
  channel_garbage :: channel_array
  values_garbage :: "int list"
  bf_garbage :: "char list"

definition stack_ok :: "stack_garbage \<Rightarrow> bool" where
  "stack_ok g \<longleftrightarrow> length (numbers_garbage g) = 2 \<and> length (text_garbage g) = 100 \<and>
     length (channel_garbage g) = maxrow * maxcol \<and> length (values_garbage g) = maxdim \<and>
     length (bf_garbage g) = 15"

definition instrument_patterns :: "char list list" where
  "instrument_patterns = [
     ''CONFigure:MATrix'', ''CONFigure:MATrix?'', ''CONFigure:VOLTage:DC'',
     ''MEASure:VOLTage:DC?'', ''MEASure:VOLTage:DC:RATio?'', ''MEASure:VOLTage:AC?'',
     ''MEASure:CURRent:DC?'', ''MEASure:CURRent:AC?'', ''MEASure:RESistance?'',
     ''MEASure:FRESistance?'', ''MEASure:FREQuency?'', ''MEASure:PERiod?'',
     ''SYSTem:COMMunication:TCPIP:CONTROL?'', ''TEST:BOOL'', ''TEST:CHOice?'', ''TEST#:NUMbers#'',
     ''TEST:TEXT'', ''TEST:ARBitrary?'', ''TEST:CHANnellist'']"

definition scpi_patterns :: "char list list" where
  "scpi_patterns = map cmd_pattern (required_commands :: device scpi_command list) @ instrument_patterns"

definition instrument_callbacks :: "stack_garbage \<Rightarrow> 'r matrix_device_scheme scpi_callback list" where
  "instrument_callbacks g = [
     CFG_Matrix, CFG_MatrixQ, DMM_ConfigureVoltageDc,
     DMM_MeasureVoltageDcQ (bf_garbage g), SCPI_StubQ scpi_ifc, DMM_MeasureVoltageAcQ (bf_garbage g),
     SCPI_StubQ scpi_ifc, SCPI_StubQ scpi_ifc, SCPI_StubQ scpi_ifc,
     SCPI_StubQ scpi_ifc, SCPI_StubQ scpi_ifc, SCPI_StubQ scpi_ifc,
     SCPI_SystemCommTcpipControlQ, TEST_Bool, TEST_ChoiceQ,
     TEST_Numbers scpi_patterns (numbers_garbage g),
     TEST_Text (text_garbage g), TEST_ArbQ, TEST_Chanlst (channel_garbage g) (values_garbage g)]"

definition scpi_commands :: "stack_garbage \<Rightarrow> 'r matrix_device_scheme scpi_command list" where
  "scpi_commands g = required_commands @ map2 cmd instrument_patterns (instrument_callbacks g)"

end
