(* ===== verification/Mainloop.thy ===== *)
theory Mainloop
  imports CommandProps Instrument
begin

text \<open>
  The main loop, \<^verbatim>\<open>Src/Src/main.c\<close> with \<^verbatim>\<open>msg_buffer_t\<close> of \<^verbatim>\<open>datatype.h\<close>, and the line editor
  \<^verbatim>\<open>Src/Src/getstr.c\<close>.

  What \<^verbatim>\<open>main\<close> sets up before its loop is hardware (\<^verbatim>\<open>Init...\<close>, \<^verbatim>\<open>USB_Init\<close>); it does not call
  \<^verbatim>\<open>SCPI_Init\<close>, so the loop starts from the static \<open>scpi_context\<close> of \<^verbatim>\<open>scpi-def.c\<close>, whose error queue is NULL.
\<close>

section \<open>The main loop\<close>









section \<open>The queue that nobody set up\<close>

text \<open>The error queue of the static context is NULL; \<^verbatim>\<open>SCPI_ErrorInit\<close> sets it, and only \<^verbatim>\<open>SCPI_Init\<close> calls that.\<close>

context scpi_port begin

lemma ErrorPush_null:
  assumes "error_queue c = None"
  shows "null_used (SCPI_ErrorPush ifc c err)"
  using assms
  by (simp add: SCPI_ErrorPush_def SCPI_ErrorEmit_def SCPI_ErrorAddInternal_def push_bits_eq SCPI_RegSetBits.simps Let_def)

end




section \<open>The line editor\<close>

text \<open>
  \<^verbatim>\<open>getstr\<close> reads characters until a carriage return or until the buffer is full; a backspace takes the
  last one back.  The characters still to come are a list, and waiting for one more than there are is
  \<open>None\<close>, as is an access outside the buffer.  The echo is appended to the output.

  After a character has been stored the loop's condition looks at \<^verbatim>\<open>buf[index]\<close> behind it, which holds
  what the caller left there.
\<close>

abbreviation (input) BS :: char where "BS \<equiv> CHR 0x08"
abbreviation (input) CR :: char where "CR \<equiv> CHR 0x0D"

definition getstr_switch :: "char list \<Rightarrow> u8 \<Rightarrow> out_event list \<Rightarrow> char list \<times> u8 \<times> out_event list" where
  "getstr_switch buf index out =
     (let c = buf ! unat index
      in if c = BS then
           let (index, out) = (if index > 0 then (index - 1, out @ [Printf (CHR 0x1B # ''[1D'' @ CHR 0x1B # ''[K'') []])
                               else (index, out))
           in (buf[unat index := NUL], index, out)
         else if c = CR then (buf, index, out @ [Printf [CR, CHR 0x0A] []])
         else (buf, index + 1, out @ [Printf ''%c'' [Num (of_char c)]]))"

fun getstr_loop ::
  "u8 \<Rightarrow> char list \<Rightarrow> char list \<Rightarrow> u8 \<Rightarrow> out_event list \<Rightarrow> (u8 \<times> char list \<times> out_event list \<times> char list) option" where
  "getstr_loop maxlen [] buf index out = None"
| "getstr_loop maxlen (c # input) buf index out =
     (if unat index < length buf then
        let buf = buf[unat index := NUL];
            buf = buf[unat index := c];
            (buf, index, out) = getstr_switch buf index out
        in if unat index < length buf then
             if buf ! unat index \<noteq> CR \<and> unat index + 1 < unat maxlen
             then getstr_loop maxlen input buf index out
             else Some (index, buf[unat index := NUL], out, input)
           else None
      else None)"

definition getstr ::
  "char list option \<Rightarrow> u8 \<Rightarrow> char list \<Rightarrow> (u8 \<times> char list option \<times> out_event list \<times> char list) option" where
  "getstr buf maxlen input =
     (case buf of
        None \<Rightarrow> (case input of [] \<Rightarrow> None | _ # input \<Rightarrow> Some (0, buf, [], input))
      | Some b \<Rightarrow>
          if maxlen = 0 then (case input of [] \<Rightarrow> None | _ # input \<Rightarrow> Some (0, buf, [], input))
          else map_option (\<lambda>(index, b, out, input). (index, Some b, out, input)) (getstr_loop maxlen input b 0 []))"

text \<open>The line that is typed: what stands before the carriage return with the backspaces applied, cut at
  \<open>n\<close> characters; and the characters behind it.\<close>

fun typed_line :: "nat \<Rightarrow> char list \<Rightarrow> char list \<Rightarrow> (char list \<times> char list) option" where
  "typed_line n l [] = None"
| "typed_line n l (c # cs) =
     (if c = CR then Some (l, cs)
      else let l = (if c = BS then butlast l else l @ [c])
           in if length l < n then typed_line n l cs else Some (l, cs))"

lemma u8_add1: "n < 255 \<Longrightarrow> of_nat n + (1 :: u8) = of_nat (Suc n)"
  by (simp add: add.commute)

lemma unat_u8: "n < 256 \<Longrightarrow> unat (of_nat n :: u8) = n"
  by (simp add: unat_of_nat)

lemma getstr_switch_BS:
  assumes "length l < 256"
  shows "getstr_switch (l @ BS # r) (of_nat (length l)) out =
      (butlast l @ NUL # (if l = [] then r else BS # r), of_nat (length l - 1),
       out @ (if l = [] then [] else [Printf (CHR 0x1B # ''[1D'' @ CHR 0x1B # ''[K'') []]))"
proof (cases l rule: rev_cases)
  case (snoc l' x)
  have a: "of_nat (length l) - 1 = (of_nat (length l') :: u8)" using snoc by simp
  have b: "(of_nat (length l) :: u8) > 0" "unat (of_nat (length l') :: u8) = length l'"
    using assms snoc by (simp_all add: word_less_nat_alt unat_u8 del: of_nat_Suc)
  have c: "(l @ BS # r)[length l' := NUL] = l' @ NUL # BS # r" "(l @ BS # r) ! length l = BS"
    using snoc by (simp_all add: list_update_append nth_append del: append_assoc)
  show ?thesis
    unfolding getstr_switch_def unat_u8 [OF assms] c(2) Let_def using a b c(1) snoc by simp
qed (simp add: getstr_switch_def)

lemma getstr_loop_edits:
  assumes "length l + 1 < unat m" "length l + length r = unat m" "CR \<notin> set l" "CR \<notin> set r"
  shows "case typed_line (unat m - 1) l input of
      None \<Rightarrow> getstr_loop m input (l @ r) (of_nat (length l)) out = None
    | Some (l', rem) \<Rightarrow> \<exists>buf out'. getstr_loop m input (l @ r) (of_nat (length l)) out = Some (of_nat (length l'), buf, out', rem) \<and>
        length buf = unat m \<and> length l' < unat m \<and> take (length l' + 1) buf = l' @ [NUL]"
  using assms
proof (induction input arbitrary: l r out)
  case (Cons c input)
  have m: "unat m < 256" using unsigned_less [of m] by simp
  obtain x r' where r: "r = x # r'" using Cons.prems by (cases r) auto
  have u: "unat (of_nat (length l) :: u8) = length l" using Cons.prems m by (simp add: unat_u8)
  consider "c = CR" | "c = BS" | "c \<noteq> CR" "c \<noteq> BS" by blast
  then show ?case
  proof cases
    case 1
    then show ?thesis using Cons.prems u r by (simp add: getstr_switch_def list_update_append Let_def)
  next
    case 2
    define r2 where "r2 = NUL # (if l = [] then r' else BS # r')"
    have p: "length (butlast l) + 1 < unat m" "length (butlast l) + length r2 = unat m" "CR \<notin> set (butlast l)"
      "CR \<notin> set r2"
      using Cons.prems r by (cases l rule: rev_cases; auto simp: r2_def)+
    have u2: "unat (of_nat (length l - 1) :: u8) = length l - 1" using Cons.prems m by (simp add: unat_u8)
    have "getstr_loop m (c # input) (l @ r) (of_nat (length l)) out =
        getstr_loop m input (butlast l @ r2) (of_nat (length (butlast l)))
          (out @ (if l = [] then [] else [Printf (CHR 0x1B # ''[1D'' @ CHR 0x1B # ''[K'') []]))"
      using 2 Cons.prems m u u2 r p
      by (simp add: list_update_append getstr_switch_BS nth_append flip: r2_def) (simp add: r2_def)
    moreover have "typed_line (unat m - 1) l (c # input) = typed_line (unat m - 1) (butlast l) input"
    proof -
      have "length (butlast l) < unat m - 1" using p(1) by linarith
      then show ?thesis using 2 by (simp add: Let_def)
    qed
    ultimately show ?thesis using Cons.IH [OF p] by (simp only:)
  next
    case 3
    have s: "getstr_switch (l @ c # r') (of_nat (length l)) out =
        (l @ c # r', of_nat (Suc (length l)), out @ [Printf ''%c'' [Num (of_char c)]])"
      using 3 Cons.prems m u by (simp add: getstr_switch_def u8_add1 del: of_nat_Suc)
    obtain y r'' where r': "r' = y # r''" using Cons.prems r by (cases r') auto
    have u2: "unat (of_nat (Suc (length l)) :: u8) = Suc (length l)"
      using Cons.prems m by (simp add: unat_u8 del: of_nat_Suc)
    have y: "(l @ c # r') ! Suc (length l) = y" "y \<noteq> CR" using Cons.prems r r' by (auto simp: nth_append)
    show ?thesis
    proof (cases "Suc (length l) + 1 < unat m")
      case True
      let ?out = "out @ [Printf ''%c'' [Num (of_char c)]]"
      have "getstr_loop m (c # input) (l @ r) (of_nat (length l)) out =
          getstr_loop m input ((l @ [c]) @ r') (of_nat (length (l @ [c]))) ?out"
        using True 3 u u2 s r r' y by (simp add: list_update_append del: of_nat_Suc)
      moreover have "typed_line (unat m - 1) l (c # input) = typed_line (unat m - 1) (l @ [c]) input"
      proof -
        have "length (l @ [c]) < unat m - 1" using True by simp
        then show ?thesis using 3 by (simp add: Let_def)
      qed
      moreover have "length (l @ [c]) + 1 < unat m" "length (l @ [c]) + length r' = unat m"
        "CR \<notin> set (l @ [c])" "CR \<notin> set r'"
        using True Cons.prems 3 r by auto
      note Cons.IH [OF this, of ?out]
      ultimately show ?thesis by (simp only:)
    next
      case False
      have e: "length l + 2 + length r'' = unat m" using Cons.prems r r' by simp
      then have "length r'' = 0" using False by linarith
      then have n: "\<not> length (l @ [c]) < unat m - 1" "r'' = []" using False by simp_all
      have "getstr_loop m (c # input) (l @ r) (of_nat (length l)) out =
          Some (of_nat (length (l @ [c])), l @ [c] @ [NUL], out @ [Printf ''%c'' [Num (of_char c)]], input)"
        using False 3 u u2 s r r' y n(2) by (simp add: list_update_append del: of_nat_Suc)
      moreover have "typed_line (unat m - 1) l (c # input) = Some (l @ [c], input)"
        using 3 n(1) by (simp add: Let_def)
      moreover have "length l + 2 = unat m" using e n(2) by simp
      ultimately show ?thesis by (simp only:) simp
    qed
  qed
qed simp

text \<open>C38: Over a buffer of its length with no carriage return in it, \<^verbatim>\<open>getstr\<close> returns the line that is
  typed, terminated and inside the buffer, and waits on when the line has no end; a buffer of a single
  byte is left by the first character.\<close>

theorem getstr_reads_line:
  assumes "CR \<notin> set buf" "length buf = unat m" "0 < m"
  shows "if m = 1 then \<forall>c cs. c \<noteq> CR \<and> c \<noteq> BS \<longrightarrow> getstr (Some buf) m (c # cs) = None
    else case typed_line (unat m - 1) [] input of
      None \<Rightarrow> getstr (Some buf) m input = None
    | Some (l, rem) \<Rightarrow> \<exists>b out. getstr (Some buf) m input = Some (of_nat (length l), Some b, out, rem) \<and>
        length b = unat m \<and> length l < unat m \<and> take (length l + 1) b = l @ [NUL]"
proof (cases "m = 1")
  case True
  then show ?thesis using assms by (auto simp: getstr_def getstr_switch_def length_Suc_conv Let_def)
next
  case False
  then have "unat m \<noteq> unat (1 :: u8)" by (metis word_unat_eq_iff)
  then have "1 < unat m" using assms(3) by (simp add: word_less_nat_alt)
  then show ?thesis
    using False getstr_loop_edits [of "[]" m buf input "[]"] assms
    by (auto simp: getstr_def split: option.splits prod.splits) 
qed

lemma getstr_reads_line_witness:
  "\<exists>b out. getstr (Some (replicate 8 NUL)) 8 (''*IDX'' @ [BS] @ ''N?'' @ [CR] @ ''x'') =
     Some (5, Some b, out, ''x'') \<and> take 6 b = ''*IDN?'' @ [NUL]"
proof -
  have six: "6 = Suc (Suc (Suc (Suc (Suc (Suc 0)))))" by simp
  show ?thesis
    using getstr_reads_line [of "replicate 8 NUL" 8 "''*IDX'' @ [BS] @ ''N?'' @ [CR] @ ''x''"]
    unfolding six by auto
qed

end
