(* ===== verification/UsbHw.thy ===== *)
theory UsbHw
  imports Prelude
begin

unbundle bit_operations_syntax

text \<open>
  The USB peripheral as its driver sees it: \<^verbatim>\<open>Utilities/Usb/Inc/usb_regs.h\<close> (registers) and
  \<^verbatim>\<open>Utilities/Usb/Src/usb_mem.c\<close> (packet memory).

  The packet memory holds 16-bit words, each at a CPU address divisible by four: \<open>pma i\<close> is the word at
  \<^verbatim>\<open>PMAAddr + 4 * i\<close>, which holds the bytes \<open>2 * i\<close> and \<open>2 * i + 1\<close> of the peripheral's own numbering.
  The buffer table with the address and the count of every buffer lies in it, too.

  What a write to an endpoint register does depends on the bit, and is the peripheral's business: the
  content after a write is a parameter \<open>epr old written\<close> of the operations, of which the locale
  \<open>endpoint_register\<close> states what the comments of \<^verbatim>\<open>usb_regs.h\<close> and the reference manual say.
\<close>

record usb_hw =
  ep_reg :: "nat \<Rightarrow> u16"
  pma :: "nat \<Rightarrow> u16"
  btable :: u16
  daddr :: u16

named_theorems usb_bits \<open>the bits of the endpoint registers\<close>

section \<open>Endpoint registers\<close>

definition EP_CTR_RX :: u16 where [usb_bits]: "EP_CTR_RX = 0x8000"
definition EP_DTOG_RX :: u16 where [usb_bits]: "EP_DTOG_RX = 0x4000"
definition EPRX_STAT :: u16 where [usb_bits]: "EPRX_STAT = 0x3000"
definition EP_SETUP :: u16 where [usb_bits]: "EP_SETUP = 0x0800"
definition EP_T_FIELD :: u16 where [usb_bits]: "EP_T_FIELD = 0x0600"
definition EP_KIND :: u16 where [usb_bits]: "EP_KIND = 0x0100"
definition EP_CTR_TX :: u16 where [usb_bits]: "EP_CTR_TX = 0x0080"
definition EP_DTOG_TX :: u16 where [usb_bits]: "EP_DTOG_TX = 0x0040"
definition EPTX_STAT :: u16 where [usb_bits]: "EPTX_STAT = 0x0030"
definition EPADDR_FIELD :: u16 where [usb_bits]: "EPADDR_FIELD = 0x000F"

definition EPREG_MASK :: u16 where [usb_bits]:
  "EPREG_MASK = EP_CTR_RX OR EP_SETUP OR EP_T_FIELD OR EP_KIND OR EP_CTR_TX OR EPADDR_FIELD"

definition EP_BULK :: u16 where [usb_bits]: "EP_BULK = 0x0000"
definition EP_CONTROL :: u16 where [usb_bits]: "EP_CONTROL = 0x0200"
definition EP_T_MASK :: u16 where [usb_bits]: "EP_T_MASK = NOT EP_T_FIELD AND EPREG_MASK"
definition EPKIND_MASK :: u16 where [usb_bits]: "EPKIND_MASK = NOT EP_KIND AND EPREG_MASK"

definition EP_TX_STALL :: u16 where [usb_bits]: "EP_TX_STALL = 0x0010"
definition EP_TX_NAK :: u16 where [usb_bits]: "EP_TX_NAK = 0x0020"
definition EP_TX_VALID :: u16 where [usb_bits]: "EP_TX_VALID = 0x0030"
definition EPTX_DTOG1 :: u16 where [usb_bits]: "EPTX_DTOG1 = 0x0010"
definition EPTX_DTOG2 :: u16 where [usb_bits]: "EPTX_DTOG2 = 0x0020"
definition EPTX_DTOGMASK :: u16 where [usb_bits]: "EPTX_DTOGMASK = EPTX_STAT OR EPREG_MASK"

definition EP_RX_STALL :: u16 where [usb_bits]: "EP_RX_STALL = 0x1000"
definition EP_RX_NAK :: u16 where [usb_bits]: "EP_RX_NAK = 0x2000"
definition EP_RX_VALID :: u16 where [usb_bits]: "EP_RX_VALID = 0x3000"
definition EPRX_DTOG1 :: u16 where [usb_bits]: "EPRX_DTOG1 = 0x1000"
definition EPRX_DTOG2 :: u16 where [usb_bits]: "EPRX_DTOG2 = 0x2000"
definition EPRX_DTOGMASK :: u16 where [usb_bits]: "EPRX_DTOGMASK = EPRX_STAT OR EPREG_MASK"

type_synonym epr_write = "u16 \<Rightarrow> u16 \<Rightarrow> u16"

definition GetENDPOINT :: "nat \<Rightarrow> 'h usb_hw_scheme \<Rightarrow> u16" where
  "GetENDPOINT n hw = ep_reg hw n"

definition SetENDPOINT :: "epr_write \<Rightarrow> nat \<Rightarrow> u16 \<Rightarrow> 'h usb_hw_scheme \<Rightarrow> 'h usb_hw_scheme" where
  "SetENDPOINT epr n v hw = hw\<lparr>ep_reg := (ep_reg hw)(n := epr (ep_reg hw n) v)\<rparr>"

definition SetEPType :: "epr_write \<Rightarrow> nat \<Rightarrow> u16 \<Rightarrow> 'h usb_hw_scheme \<Rightarrow> 'h usb_hw_scheme" where
  "SetEPType epr n wType hw = SetENDPOINT epr n (GetENDPOINT n hw AND EP_T_MASK OR wType) hw"

definition SetEPTxStatus :: "epr_write \<Rightarrow> nat \<Rightarrow> u16 \<Rightarrow> 'h usb_hw_scheme \<Rightarrow> 'h usb_hw_scheme" where
  "SetEPTxStatus epr n wState hw =
     (let wRegVal = GetENDPOINT n hw AND EPTX_DTOGMASK;
          wRegVal = (if EPTX_DTOG1 AND wState \<noteq> 0 then wRegVal XOR EPTX_DTOG1 else wRegVal);
          wRegVal = (if EPTX_DTOG2 AND wState \<noteq> 0 then wRegVal XOR EPTX_DTOG2 else wRegVal)
      in SetENDPOINT epr n wRegVal hw)"

definition SetEPRxStatus :: "epr_write \<Rightarrow> nat \<Rightarrow> u16 \<Rightarrow> 'h usb_hw_scheme \<Rightarrow> 'h usb_hw_scheme" where
  "SetEPRxStatus epr n wState hw =
     (let wRegVal = GetENDPOINT n hw AND EPRX_DTOGMASK;
          wRegVal = (if EPRX_DTOG1 AND wState \<noteq> 0 then wRegVal XOR EPRX_DTOG1 else wRegVal);
          wRegVal = (if EPRX_DTOG2 AND wState \<noteq> 0 then wRegVal XOR EPRX_DTOG2 else wRegVal)
      in SetENDPOINT epr n wRegVal hw)"

definition GetEPTxStatus :: "nat \<Rightarrow> 'h usb_hw_scheme \<Rightarrow> u16" where
  "GetEPTxStatus n hw = GetENDPOINT n hw AND EPTX_STAT"

definition GetEPRxStatus :: "nat \<Rightarrow> 'h usb_hw_scheme \<Rightarrow> u16" where
  "GetEPRxStatus n hw = GetENDPOINT n hw AND EPRX_STAT"

definition SetEPTxValid :: "epr_write \<Rightarrow> nat \<Rightarrow> 'h usb_hw_scheme \<Rightarrow> 'h usb_hw_scheme" where
  "SetEPTxValid epr n = SetEPTxStatus epr n EP_TX_VALID"

definition SetEPRxValid :: "epr_write \<Rightarrow> nat \<Rightarrow> 'h usb_hw_scheme \<Rightarrow> 'h usb_hw_scheme" where
  "SetEPRxValid epr n = SetEPRxStatus epr n EP_RX_VALID"

definition GetTxStallStatus :: "nat \<Rightarrow> 'h usb_hw_scheme \<Rightarrow> bool" where
  "GetTxStallStatus n hw = (GetEPTxStatus n hw = EP_TX_STALL)"

definition GetRxStallStatus :: "nat \<Rightarrow> 'h usb_hw_scheme \<Rightarrow> bool" where
  "GetRxStallStatus n hw = (GetEPRxStatus n hw = EP_RX_STALL)"

definition Clear_Status_Out :: "epr_write \<Rightarrow> nat \<Rightarrow> 'h usb_hw_scheme \<Rightarrow> 'h usb_hw_scheme" where
  "Clear_Status_Out epr n hw = SetENDPOINT epr n (GetENDPOINT n hw AND EPKIND_MASK) hw"

definition ClearEP_CTR_RX :: "epr_write \<Rightarrow> nat \<Rightarrow> 'h usb_hw_scheme \<Rightarrow> 'h usb_hw_scheme" where
  "ClearEP_CTR_RX epr n hw = SetENDPOINT epr n (GetENDPOINT n hw AND 0x7FFF AND EPREG_MASK) hw"

definition ClearEP_CTR_TX :: "epr_write \<Rightarrow> nat \<Rightarrow> 'h usb_hw_scheme \<Rightarrow> 'h usb_hw_scheme" where
  "ClearEP_CTR_TX epr n hw = SetENDPOINT epr n (GetENDPOINT n hw AND 0xFF7F AND EPREG_MASK) hw"

definition ToggleDTOG_RX :: "epr_write \<Rightarrow> nat \<Rightarrow> 'h usb_hw_scheme \<Rightarrow> 'h usb_hw_scheme" where
  "ToggleDTOG_RX epr n hw = SetENDPOINT epr n (EP_DTOG_RX OR GetENDPOINT n hw AND EPREG_MASK) hw"

definition ToggleDTOG_TX :: "epr_write \<Rightarrow> nat \<Rightarrow> 'h usb_hw_scheme \<Rightarrow> 'h usb_hw_scheme" where
  "ToggleDTOG_TX epr n hw = SetENDPOINT epr n (EP_DTOG_TX OR GetENDPOINT n hw AND EPREG_MASK) hw"

definition ClearDTOG_RX :: "epr_write \<Rightarrow> nat \<Rightarrow> 'h usb_hw_scheme \<Rightarrow> 'h usb_hw_scheme" where
  "ClearDTOG_RX epr n hw = (if GetENDPOINT n hw AND EP_DTOG_RX \<noteq> 0 then ToggleDTOG_RX epr n hw else hw)"

definition ClearDTOG_TX :: "epr_write \<Rightarrow> nat \<Rightarrow> 'h usb_hw_scheme \<Rightarrow> 'h usb_hw_scheme" where
  "ClearDTOG_TX epr n hw = (if GetENDPOINT n hw AND EP_DTOG_TX \<noteq> 0 then ToggleDTOG_TX epr n hw else hw)"

definition SetEPAddress :: "epr_write \<Rightarrow> nat \<Rightarrow> u8 \<Rightarrow> 'h usb_hw_scheme \<Rightarrow> 'h usb_hw_scheme" where
  "SetEPAddress epr n bAddr hw =
     SetENDPOINT epr n (GetENDPOINT n hw AND EPREG_MASK OR ucast bAddr) hw"

definition SetDADDR :: "u16 \<Rightarrow> 'h usb_hw_scheme \<Rightarrow> 'h usb_hw_scheme" where
  "SetDADDR v hw = hw\<lparr>daddr := v\<rparr>"

definition SetBTABLE :: "u16 \<Rightarrow> 'h usb_hw_scheme \<Rightarrow> 'h usb_hw_scheme" where
  "SetBTABLE v hw = hw\<lparr>btable := v AND 0xFFF8\<rparr>"

section \<open>The buffer table\<close>

text \<open>
  Four words per endpoint: address and count of its transmit buffer, address and count of its receive
  buffer.  The C expressions \<^verbatim>\<open>_pEPTxAddr\<close> and so on compute their CPU addresses.
\<close>

definition pEPTxAddr :: "nat \<Rightarrow> 'h usb_hw_scheme \<Rightarrow> nat" where
  "pEPTxAddr n hw = (unat (btable hw) + n * 8) div 2"

definition pEPTxCount :: "nat \<Rightarrow> 'h usb_hw_scheme \<Rightarrow> nat" where
  "pEPTxCount n hw = (unat (btable hw) + n * 8 + 2) div 2"

definition pEPRxAddr :: "nat \<Rightarrow> 'h usb_hw_scheme \<Rightarrow> nat" where
  "pEPRxAddr n hw = (unat (btable hw) + n * 8 + 4) div 2"

definition pEPRxCount :: "nat \<Rightarrow> 'h usb_hw_scheme \<Rightarrow> nat" where
  "pEPRxCount n hw = (unat (btable hw) + n * 8 + 6) div 2"

definition pma_put :: "nat \<Rightarrow> u16 \<Rightarrow> 'h usb_hw_scheme \<Rightarrow> 'h usb_hw_scheme" where
  "pma_put i w hw = hw\<lparr>pma := (pma hw)(i := w)\<rparr>"

definition SetEPTxAddr :: "nat \<Rightarrow> u16 \<Rightarrow> 'h usb_hw_scheme \<Rightarrow> 'h usb_hw_scheme" where
  "SetEPTxAddr n wAddr hw = pma_put (pEPTxAddr n hw) (push_bit 1 (drop_bit 1 wAddr)) hw"

definition SetEPRxAddr :: "nat \<Rightarrow> u16 \<Rightarrow> 'h usb_hw_scheme \<Rightarrow> 'h usb_hw_scheme" where
  "SetEPRxAddr n wAddr hw = pma_put (pEPRxAddr n hw) (push_bit 1 (drop_bit 1 wAddr)) hw"

definition GetEPTxAddr :: "nat \<Rightarrow> 'h usb_hw_scheme \<Rightarrow> u16" where
  "GetEPTxAddr n hw = pma hw (pEPTxAddr n hw)"

definition GetEPRxAddr :: "nat \<Rightarrow> 'h usb_hw_scheme \<Rightarrow> u16" where
  "GetEPRxAddr n hw = pma hw (pEPRxAddr n hw)"

definition SetEPTxCount :: "nat \<Rightarrow> u16 \<Rightarrow> 'h usb_hw_scheme \<Rightarrow> 'h usb_hw_scheme" where
  "SetEPTxCount n wCount hw = pma_put (pEPTxCount n hw) wCount hw"

definition BlocksOf32 :: "u16 \<Rightarrow> u16" where
  "BlocksOf32 wCount =
     (let wNBlocks = drop_bit 5 wCount;
          wNBlocks = (if wCount AND 0x1F = 0 then wNBlocks - 1 else wNBlocks)
      in push_bit 10 wNBlocks OR 0x8000)"

definition BlocksOf2 :: "u16 \<Rightarrow> u16" where
  "BlocksOf2 wCount =
     (let wNBlocks = drop_bit 1 wCount;
          wNBlocks = (if wCount AND 0x1 \<noteq> 0 then wNBlocks + 1 else wNBlocks)
      in push_bit 10 wNBlocks)"

definition SetEPRxCount :: "nat \<Rightarrow> u16 \<Rightarrow> 'h usb_hw_scheme \<Rightarrow> 'h usb_hw_scheme" where
  "SetEPRxCount n wCount hw =
     pma_put (pEPRxCount n hw) (if 62 < wCount then BlocksOf32 wCount else BlocksOf2 wCount) hw"

definition GetEPTxCount :: "nat \<Rightarrow> 'h usb_hw_scheme \<Rightarrow> u16" where
  "GetEPTxCount n hw = pma hw (pEPTxCount n hw) AND 0x3FF"

definition GetEPRxCount :: "nat \<Rightarrow> 'h usb_hw_scheme \<Rightarrow> u16" where
  "GetEPRxCount n hw = pma hw (pEPRxCount n hw) AND 0x3FF"

section \<open>Copying to and from the packet memory\<close>

text \<open>
  A user buffer is a list of bytes; a copy that would leave it is \<open>None\<close>.  Both copies move whole
  words, so an odd count takes one byte more.
\<close>

fun copy_to_pma :: "u8 list \<Rightarrow> nat \<Rightarrow> nat \<Rightarrow> (nat \<Rightarrow> u16) \<Rightarrow> (nat \<Rightarrow> u16) option" where
  "copy_to_pma src w 0 m = Some m"
| "copy_to_pma (b0 # b1 # src) w (Suc i) m =
     copy_to_pma src (w + 1) i (m(w := ucast b0 OR push_bit 8 (ucast b1)))"
| "copy_to_pma src w (Suc i) m = None"

definition UserToPMABufferCopy ::
  "u8 list \<Rightarrow> nat \<Rightarrow> u16 \<Rightarrow> u16 \<Rightarrow> 'h usb_hw_scheme \<Rightarrow> (u16 \<times> 'h usb_hw_scheme) option" where
  "UserToPMABufferCopy usrBuf bEpNum wPMABufAddr wNBytes hw =
     (case copy_to_pma usrBuf (unat wPMABufAddr div 2) ((unat wNBytes + 1) div 2) (pma hw) of
        None \<Rightarrow> None
      | Some m \<Rightarrow> Some (wNBytes, SetEPTxCount bEpNum wNBytes (hw\<lparr>pma := m\<rparr>)))"

fun copy_from_pma :: "(nat \<Rightarrow> u16) \<Rightarrow> nat \<Rightarrow> u8 list \<Rightarrow> nat \<Rightarrow> nat \<Rightarrow> u8 list option" where
  "copy_from_pma m w buf p 0 = Some buf"
| "copy_from_pma m w buf p (Suc i) =
     (if p + 1 < length buf
      then copy_from_pma m (w + 1) (buf[p := ucast (m w), p + 1 := ucast (drop_bit 8 (m w))]) (p + 2) i
      else None)"

definition PMAToUserBufferCopy ::
  "u8 list \<Rightarrow> nat \<Rightarrow> u16 \<Rightarrow> u16 \<Rightarrow> 'h usb_hw_scheme \<Rightarrow> (u16 \<times> u8 list) option" where
  "PMAToUserBufferCopy usrBuf p wPMABufAddr wNBytes hw =
     (case copy_from_pma (pma hw) (unat wPMABufAddr div 2) usrBuf p ((unat wNBytes + 1) div 2) of
        None \<Rightarrow> None | Some buf \<Rightarrow> Some (wNBytes, buf))"

section \<open>What the copies do\<close>

definition pma_bytes :: "(nat \<Rightarrow> u16) \<Rightarrow> nat \<Rightarrow> nat \<Rightarrow> u8 list" where
  "pma_bytes m w n = concat (map (\<lambda>i. [ucast (m i), ucast (drop_bit 8 (m i))]) [w..<w + n])"

lemma length_pma_bytes [simp]: "length (pma_bytes m w n) = 2 * n"
  by (simp add: pma_bytes_def length_concat comp_def sum_list_triv)

lemma pma_bytes_0 [simp]: "pma_bytes m w 0 = []"
  by (simp add: pma_bytes_def)

lemma pma_bytes_Suc:
  "pma_bytes m w (Suc n) = [ucast (m w), ucast (drop_bit 8 (m w))] @ pma_bytes m (w + 1) n"
  by (simp add: pma_bytes_def upt_rec [of w])

lemma pma_bytes_cong:
  "(\<And>i. w \<le> i \<Longrightarrow> i < w + n \<Longrightarrow> m i = m' i) \<Longrightarrow> pma_bytes m w n = pma_bytes m' w n"
  unfolding pma_bytes_def by (intro arg_cong [where f = concat] map_cong) auto

lemma split_word:
  fixes b0 b1 :: u8
  shows "ucast (ucast b0 OR push_bit 8 (ucast b1) :: u16) = b0"
    and "ucast (drop_bit 8 (ucast b0 OR push_bit 8 (ucast b1) :: u16)) = b1"
  by (rule bit_word_eqI; auto simp: bit_simps dest: bit_imp_le_length)+

lemma copy_to_pma_bytes:
  assumes "2 * n \<le> length src"
  shows "\<exists>m'. copy_to_pma src w n m = Some m' \<and> pma_bytes m' w n = take (2 * n) src \<and>
           (\<forall>i. i < w \<or> w + n \<le> i \<longrightarrow> m' i = m i)"
  using assms
proof (induction n arbitrary: src w m)
  case (Suc n)
  then obtain b0 b1 src' where s: "src = b0 # b1 # src'"
    by (cases src; cases "tl src") auto
  define v :: u16 where "v = ucast b0 OR push_bit 8 (ucast b1)"
  obtain m' where m': "copy_to_pma src' (w + 1) n (m(w := v)) = Some m'"
    "pma_bytes m' (w + 1) n = take (2 * n) src'"
    "\<forall>i. i < w + 1 \<or> w + 1 + n \<le> i \<longrightarrow> m' i = (m(w := v)) i"
    using Suc.IH [of src' "w + 1" "m(w := v)"] Suc.prems s by (auto simp del: fun_upd_apply)
  then have "m' w = v" by simp
  then have "pma_bytes m' w (Suc n) = take (2 * Suc n) src"
    using m'(2) s by (simp add: pma_bytes_Suc) (simp add: v_def split_word del: drop_bit_or)
  then show ?case using m'(1,3) s by (auto simp: v_def)
qed simp

lemma copy_to_pma_reads: "copy_to_pma src w n m = Some m' \<Longrightarrow> 2 * n \<le> length src"
  by (induction src w n m rule: copy_to_pma.induct) simp_all

lemma copy_from_pma_bytes:
  "copy_from_pma m w buf p n =
     (if n = 0 \<or> p + 2 * n \<le> length buf
      then Some (take p buf @ pma_bytes m w n @ drop (p + 2 * n) buf) else None)"
proof (induction n arbitrary: w buf p)
  case (Suc n)
  show ?case
  proof (cases "p + 1 < length buf")
    case True
    have "take (p + 2) (buf[p := x, p + 1 := y]) = take p buf @ [x, y]" for x y
      using True by (simp add: take_Suc_conv_app_nth nth_list_update numeral_2_eq_2)
    moreover have "drop (p + 2 + 2 * n) (buf[p := x, p + 1 := y]) = drop (p + 2 + 2 * n) buf" for x y
      by simp
    ultimately show ?thesis using True by (simp add: Suc.IH pma_bytes_Suc)
  qed simp
qed simp

text \<open>The bytes a count stands for in packet memory.\<close>

definition whole_words :: "u16 \<Rightarrow> nat" where
  "whole_words n = 2 * ((unat n + 1) div 2)"

lemma whole_words: "unat n \<le> whole_words n" "whole_words n \<le> unat n + 1" "even (whole_words n)"
  by (auto simp: whole_words_def)

lemma pma_SetEPTxCount:
  "pma (SetEPTxCount n c hw) = (pma hw)(pEPTxCount n hw := c)"
  by (simp add: SetEPTxCount_def pma_put_def)

lemma pEPTxCount_pma [simp]: "pEPTxCount n (hw\<lparr>pma := m\<rparr>) = pEPTxCount n hw"
  by (simp add: pEPTxCount_def)

text \<open>C35: What is copied to packet memory is copied back unchanged, rounded up to whole words, as long
  as the buffer does not lie over the table entry that holds its count; a copy fails exactly when the
  whole words do not fit the user buffer.\<close>

theorem pma_roundtrip:
  assumes "unat a div 2 + (unat k + 1) div 2 \<le> pEPTxCount n hw \<or> pEPTxCount n hw < unat a div 2"
  shows "case UserToPMABufferCopy src n a k hw of
           None \<Rightarrow> length src < whole_words k
         | Some (r, hw') \<Rightarrow> whole_words k \<le> length src \<and> r = k \<and> GetEPTxCount n hw' = k AND 0x3FF \<and>
             PMAToUserBufferCopy buf p a k hw' =
               (if k = 0 \<or> p + whole_words k \<le> length buf
                then Some (k, take p buf @ take (whole_words k) src @ drop (p + whole_words k) buf)
                else None)"
proof (cases "whole_words k \<le> length src")
  case True
  define w where "w = unat a div 2"
  define c where "c = (unat k + 1) div 2"
  have l: "whole_words k = 2 * c" by (simp add: whole_words_def c_def)
  obtain m where m: "copy_to_pma src w c (pma hw) = Some m" "pma_bytes m w c = take (2 * c) src"
    using copy_to_pma_bytes [of c src w "pma hw"] True l by auto
  define hw' where "hw' = SetEPTxCount n k (hw\<lparr>pma := m\<rparr>)"
  have u: "UserToPMABufferCopy src n a k hw = Some (k, hw')"
    using m(1) by (simp add: UserToPMABufferCopy_def w_def c_def hw'_def)
  have "pma hw' = m(pEPTxCount n hw := k)" by (simp add: hw'_def pma_SetEPTxCount)
  moreover have "pma_bytes (m(pEPTxCount n hw := k)) w c = pma_bytes m w c"
    by (rule pma_bytes_cong) (use assms in \<open>auto simp: w_def c_def\<close>)
  ultimately have b: "pma_bytes (pma hw') w c = take (2 * c) src" using m(2) by simp
  have "pEPTxCount n hw' = pEPTxCount n hw"
    by (simp add: hw'_def SetEPTxCount_def pma_put_def pEPTxCount_def)
  then have g: "GetEPTxCount n hw' = k AND 0x3FF"
    by (simp add: GetEPTxCount_def hw'_def pma_SetEPTxCount)
  have z: "c = 0 \<longleftrightarrow> k = 0"
  proof -
    have "c = 0 \<longleftrightarrow> unat k = 0" unfolding c_def by linarith
    then show ?thesis by (simp add: unat_eq_0)
  qed
  have f: "PMAToUserBufferCopy buf p a k hw' =
      (if k = 0 \<or> p + 2 * c \<le> length buf
       then Some (k, take p buf @ take (2 * c) src @ drop (p + 2 * c) buf) else None)"
    unfolding PMAToUserBufferCopy_def w_def [symmetric] c_def [symmetric] copy_from_pma_bytes b z
    by simp
  show ?thesis using True by (simp add: u g f l)
next
  case False
  then have "copy_to_pma src (unat a div 2) ((unat k + 1) div 2) (pma hw) = None"
    using copy_to_pma_reads [of src "unat a div 2" "(unat k + 1) div 2" "pma hw"]
    by (cases "copy_to_pma src (unat a div 2) ((unat k + 1) div 2) (pma hw)")
      (auto simp: whole_words_def)
  then show ?thesis using False by (simp add: UserToPMABufferCopy_def)
qed

lemma pma_roundtrip_witness:
  fixes m :: "nat \<Rightarrow> u16"
  shows "case UserToPMABufferCopy [1, 2, 3, 4] 2 0x118 3
           \<lparr>ep_reg = (\<lambda>_. 0), pma = (\<lambda>_. 0), btable = 0, daddr = 0\<rparr> of
           None \<Rightarrow> False
         | Some (r, hw') \<Rightarrow> PMAToUserBufferCopy [0, 0, 0, 0, 0, 0] 1 0x118 3 hw' = Some (3, [0, 1, 2, 3, 4, 0])"
  using pma_roundtrip [of "0x118" 3 2 "\<lparr>ep_reg = (\<lambda>_. 0), pma = (\<lambda>_. 0), btable = 0, daddr = 0\<rparr>"
      "[1, 2, 3, 4]" "[0, 0, 0, 0, 0, 0]" 1]
  by (auto simp: pEPTxCount_def whole_words_def split: option.splits)

section \<open>What the register operations do\<close>

locale endpoint_register =
  fixes epr :: epr_write
  assumes toggled: "i \<in> {4, 5, 6, 12, 13, 14} \<Longrightarrow> bit (epr old v) i = (bit old i \<noteq> bit v i)"
    and cleared: "i \<in> {7, 15} \<Longrightarrow> bit (epr old v) i = (bit old i \<and> bit v i)"
    and written: "i \<in> {0, 1, 2, 3, 8, 9, 10} \<Longrightarrow> bit (epr old v) i = bit v i"
    and kept: "bit (epr old v) 11 = bit old 11"

definition rm0008_epr :: epr_write where
  "rm0008_epr old v = ((old XOR v) AND 0x7070) OR (old AND v AND 0x8080) OR (v AND 0x070F) OR
     (old AND 0x0800)"

lemma bits16: "i < 16 \<Longrightarrow> i \<in> {0, 1, 2, 3, 4, 5, 6, 7, 8, 9, 10, 11, 12, 13, 14, 15 :: nat}"
proof -
  assume "i < 16"
  then have "i \<in> set [0..<16]" by simp
  then show ?thesis by (simp add: upt_rec [of _ 16] numeral_eq_Suc)
qed

lemma test_bit16:
  fixes st :: u16
  shows "EPTX_DTOG1 AND st \<noteq> 0 \<longleftrightarrow> bit st 4" "EPTX_DTOG2 AND st \<noteq> 0 \<longleftrightarrow> bit st 5"
    "EPRX_DTOG1 AND st \<noteq> 0 \<longleftrightarrow> bit st 12" "EPRX_DTOG2 AND st \<noteq> 0 \<longleftrightarrow> bit st 13"
    "st AND EP_DTOG_TX \<noteq> 0 \<longleftrightarrow> bit st 6" "st AND EP_DTOG_RX \<noteq> 0 \<longleftrightarrow> bit st 14"
  using and_exp_eq_0_iff_not_bit [of st 4] and_exp_eq_0_iff_not_bit [of st 5]
    and_exp_eq_0_iff_not_bit [of st 12] and_exp_eq_0_iff_not_bit [of st 13]
    and_exp_eq_0_iff_not_bit [of st 6] and_exp_eq_0_iff_not_bit [of st 14]
  by (simp_all add: usb_bits and.commute)

lemma word16_eqI:
  fixes a b :: u16
  assumes "bit a 0 = bit b 0" "bit a 1 = bit b 1" "bit a 2 = bit b 2" "bit a 3 = bit b 3"
    "bit a 4 = bit b 4" "bit a 5 = bit b 5" "bit a 6 = bit b 6" "bit a 7 = bit b 7"
    "bit a 8 = bit b 8" "bit a 9 = bit b 9" "bit a 10 = bit b 10" "bit a 11 = bit b 11"
    "bit a 12 = bit b 12" "bit a 13 = bit b 13" "bit a 14 = bit b 14" "bit a 15 = bit b 15"
  shows "a = b"
proof (rule bit_word_eqI)
  fix i assume "i < LENGTH(16)"
  then have "i \<in> {0, 1, 2, 3, 4, 5, 6, 7, 8, 9, 10, 11, 12, 13, 14, 15}" by (intro bits16) simp
  then show "bit a i = bit b i"
    by (elim insertE emptyE) (simp_all only: assms)
qed

interpretation rm0008: endpoint_register rm0008_epr
  by (unfold_locales; (elim insertE emptyE)?; simp add: rm0008_epr_def bit_simps; blast)

context endpoint_register begin

lemma reg_SetENDPOINT [simp]:
  "ep_reg (SetENDPOINT epr n v hw) = (ep_reg hw)(n := epr (ep_reg hw n) v)"
  by (simp add: SetENDPOINT_def)

lemma tx_status:
  "epr old (if bit st 5
            then (if bit st 4 then old AND EPTX_DTOGMASK XOR EPTX_DTOG1
                  else old AND EPTX_DTOGMASK) XOR EPTX_DTOG2
            else (if bit st 4 then old AND EPTX_DTOGMASK XOR EPTX_DTOG1
                  else old AND EPTX_DTOGMASK)) =
   old AND NOT EPTX_STAT OR st AND EPTX_STAT"
  by (rule word16_eqI) (simp_all add: toggled cleared written kept usb_bits bit_simps)

lemma rx_status:
  "epr old (if bit st 13
            then (if bit st 12 then old AND EPRX_DTOGMASK XOR EPRX_DTOG1
                  else old AND EPRX_DTOGMASK) XOR EPRX_DTOG2
            else (if bit st 12 then old AND EPRX_DTOGMASK XOR EPRX_DTOG1
                  else old AND EPRX_DTOGMASK)) =
   old AND NOT EPRX_STAT OR st AND EPRX_STAT"
  by (rule word16_eqI) (simp_all add: toggled cleared written kept usb_bits bit_simps)

lemma clear_flags:
  "epr old (old AND 0x7FFF AND EPREG_MASK) = old AND NOT EP_CTR_RX"
  "epr old (old AND 0xFF7F AND EPREG_MASK) = old AND NOT EP_CTR_TX"
  "epr old (old AND EPKIND_MASK) = old AND NOT EP_KIND"
  by (rule word16_eqI; simp add: toggled cleared written kept usb_bits bit_simps)+

lemma clear_toggles:
  "bit old 14 \<Longrightarrow> epr old (EP_DTOG_RX OR old AND EPREG_MASK) = old AND NOT EP_DTOG_RX"
  "bit old 6 \<Longrightarrow> epr old (EP_DTOG_TX OR old AND EPREG_MASK) = old AND NOT EP_DTOG_TX"
  by (rule word16_eqI; simp add: toggled cleared written kept usb_bits bit_simps)+

lemma set_type:
  "epr old (old AND EP_T_MASK OR EP_BULK) = old AND NOT EP_T_FIELD OR EP_BULK"
  "epr old (old AND EP_T_MASK OR EP_CONTROL) = old AND NOT EP_T_FIELD OR EP_CONTROL"
  by (rule word16_eqI; simp add: toggled cleared written kept usb_bits bit_simps)+

lemma GetENDPOINT_Set:
  "GetENDPOINT m (SetENDPOINT epr n v hw) =
     (if m = n then epr (GetENDPOINT n hw) v else GetENDPOINT m hw)"
  by (simp add: GetENDPOINT_def)

lemmas register_operation = SetEPTxStatus_def SetEPRxStatus_def ClearEP_CTR_RX_def ClearEP_CTR_TX_def
  Clear_Status_Out_def ClearDTOG_RX_def ClearDTOG_TX_def ToggleDTOG_RX_def ToggleDTOG_TX_def
  SetEPType_def GetENDPOINT_Set test_bit16

lemma Set_status:
  "GetENDPOINT m (SetEPTxStatus epr n st hw) =
     (if m = n then GetENDPOINT n hw AND NOT EPTX_STAT OR st AND EPTX_STAT else GetENDPOINT m hw)"
  "GetENDPOINT m (SetEPRxStatus epr n st hw) =
     (if m = n then GetENDPOINT n hw AND NOT EPRX_STAT OR st AND EPRX_STAT else GetENDPOINT m hw)"
  unfolding register_operation Let_def by (simp_all only: tx_status rx_status)

end

definition sets_field ::
  "(nat \<Rightarrow> 'h usb_hw_scheme \<Rightarrow> 'h usb_hw_scheme) \<Rightarrow> u16 \<Rightarrow> u16 \<Rightarrow> bool" where
  "sets_field op field v = (\<forall>n m hw. GetENDPOINT m (op n hw) =
     (if m = n then GetENDPOINT n hw AND NOT field OR v else GetENDPOINT m hw))"

text \<open>For every peripheral whose endpoint registers toggle, clear and keep their bits as documented,
  each register operation replaces exactly its own field of its own endpoint's register.\<close>

theorem register_fields:
  assumes "endpoint_register epr"
  shows "sets_field (\<lambda>n. SetEPTxStatus epr n st) EPTX_STAT (st AND EPTX_STAT) \<and>
         sets_field (\<lambda>n. SetEPRxStatus epr n st) EPRX_STAT (st AND EPRX_STAT) \<and>
         sets_field (ClearEP_CTR_RX epr) EP_CTR_RX 0 \<and> sets_field (ClearEP_CTR_TX epr) EP_CTR_TX 0 \<and>
         sets_field (ClearDTOG_RX epr) EP_DTOG_RX 0 \<and> sets_field (ClearDTOG_TX epr) EP_DTOG_TX 0 \<and>
         sets_field (Clear_Status_Out epr) EP_KIND 0 \<and>
         sets_field (\<lambda>n. SetEPType epr n EP_BULK) EP_T_FIELD EP_BULK \<and>
         sets_field (\<lambda>n. SetEPType epr n EP_CONTROL) EP_T_FIELD EP_CONTROL"
proof -
  note ops = endpoint_register.register_operation [OF assms(1)]
  note eqs = endpoint_register.Set_status [OF assms(1)] endpoint_register.clear_flags [OF assms(1)]
    endpoint_register.clear_toggles [OF assms(1)] endpoint_register.set_type [OF assms(1)]
  have nt: "\<not> bit (GetENDPOINT n hw) 14 \<Longrightarrow> GetENDPOINT n hw AND NOT EP_DTOG_RX = GetENDPOINT n hw"
    "\<not> bit (GetENDPOINT n hw) 6 \<Longrightarrow> GetENDPOINT n hw AND NOT EP_DTOG_TX = GetENDPOINT n hw"
    for n :: nat and hw
    by (rule word16_eqI; simp add: usb_bits bit_simps)+
  show ?thesis unfolding sets_field_def
    by (intro conjI allI) (simp_all add: eqs, simp_all add: ops eqs nt)
qed

lemma register_fields_witness:
  "GetENDPOINT 1 (SetEPTxStatus rm0008_epr 1 EP_TX_NAK
     \<lparr>ep_reg = (\<lambda>_. 0x3031), pma = (\<lambda>_. 0), btable = 0, daddr = 0\<rparr>) = 0x3021"
proof -
  have "sets_field (\<lambda>n. SetEPTxStatus rm0008_epr n EP_TX_NAK) EPTX_STAT (EP_TX_NAK AND EPTX_STAT)"
    using register_fields [OF rm0008.endpoint_register_axioms, of EP_TX_NAK] by blast
  from this [unfolded sets_field_def, rule_format, of 1 1
      "\<lparr>ep_reg = (\<lambda>_. 0x3031), pma = (\<lambda>_. 0), btable = 0, daddr = 0\<rparr>"]
  show ?thesis by (simp add: usb_bits GetENDPOINT_def)
qed

end
