(* ===== verification/Timer.thy ===== *)
theory Timer
  imports Prelude
begin

text \<open>
  Waiting by a free running timer: \<^verbatim>\<open>Src/Src/bsp.c\<close>, lines 250 to 300, with \<^verbatim>\<open>tagCounter\<close> of
  \<^verbatim>\<open>datatype.h\<close>.  A timer counts modulo 65536; what the code sees of it are the values it reads, in
  order, so a function that reads it takes the values to come.  A loop that runs out of them has not
  come back yet, and is \<open>None\<close>.  An \<^verbatim>\<open>INT32\<close> is a 32-bit word read with \<open>sint\<close>, since the code mixes
  it with \<^verbatim>\<open>UINT32\<close>.

  The theorems compare the readings with the time that passes: a waiting loop never comes back early
  and a counter is late without end when the timer overflows while it runs.
\<close>

section \<open>The code\<close>

record tagCounter =
  tc_ms :: u32
  tc_t0 :: u32
  tc_t1 :: u32

fun wait_loop :: "u32 \<Rightarrow> u32 \<Rightarrow> u16 list \<Rightarrow> u16 list option" where
  "wait_loop n t0 ts =
     (if 0 <s n
      then (case ts of [] \<Rightarrow> None
            | t # ts \<Rightarrow>
                let t1 = ucast t
                in wait_loop (n - (if t1 < t0 then t1 + 0xFFFF - t0 else t1 - t0)) t1 ts)
      else Some ts)"

declare wait_loop.simps [simp del]

fun WaitUs :: "u32 \<Rightarrow> u16 list \<Rightarrow> u16 list option" where
  "WaitUs us [] = None"
| "WaitUs us (t0 # tim2) = wait_loop us (ucast t0) tim2"

fun WaitMs :: "u32 \<Rightarrow> u16 list \<Rightarrow> u16 list option" where
  "WaitMs ms [] = None"
| "WaitMs ms (t0 # tim3) = wait_loop ms (ucast t0) tim3"

definition StartCounter :: "u32 \<Rightarrow> u16 \<Rightarrow> tagCounter \<Rightarrow> tagCounter" where
  "StartCounter ms tim3 counter = counter\<lparr>tc_t0 := ucast tim3, tc_ms := ms\<rparr>"

definition CounterArrived :: "u16 \<Rightarrow> tagCounter \<Rightarrow> bool \<times> tagCounter" where
  "CounterArrived tim3 counter =
     (let counter =
        (if 0 <s tc_ms counter
         then let t1 = ucast tim3
              in counter\<lparr>tc_t1 := t1,
                         tc_ms := tc_ms counter -
                           (if t1 < tc_t0 counter then t1 + 0xFFFFFFFF - tc_t0 counter
                            else t1 - tc_t0 counter),
                         tc_t0 := t1\<rparr>
         else counter)
      in (\<not> 0 <s tc_ms counter, counter))"

section \<open>Time\<close>

text \<open>Readings at the times of a list, and times that a reading can tell apart.\<close>

definition reading :: "nat \<Rightarrow> u16" where
  "reading T = of_nat T"

fun close_times :: "nat \<Rightarrow> nat list \<Rightarrow> bool" where
  "close_times T [] = True"
| "close_times T (T' # Ts) = (T \<le> T' \<and> T' < T + 65536 \<and> close_times T' Ts)"

lemma unat_reading [simp]: "unat (ucast (reading T) :: u32) = T mod 65536"
  by (simp add: reading_def unsigned_ucast_eq take_bit_eq_mod unat_of_nat)

lemma ucast_reading: "(ucast (reading T) :: u32) = of_nat (T mod 65536)"
  by (metis unat_reading of_nat_unat ucast_id)

lemma reading_less: "(ucast (reading T) :: u32) < ucast (reading S) \<longleftrightarrow> T mod 65536 < S mod 65536"
  by (simp add: word_less_nat_alt)

lemma close_times_ge: "close_times T Ts \<Longrightarrow> S \<in> set Ts \<Longrightarrow> T \<le> S"
  by (induction Ts arbitrary: T) (auto, fastforce)

text \<open>Between two close readings the timer has overflowed once or not at all.\<close>

lemma close_mod:
  fixes S T :: nat
  assumes "T \<le> S" "S < T + 65536"
  shows "S mod 65536 < T mod 65536 \<longleftrightarrow> S div 65536 = T div 65536 + 1"
    and "\<not> S mod 65536 < T mod 65536 \<longleftrightarrow> S div 65536 = T div 65536"
proof -
  have s: "S = S div 65536 * 65536 + S mod 65536" and t: "T = T div 65536 * 65536 + T mod 65536"
    by simp_all
  have b: "S mod 65536 < 65536" "T mod 65536 < 65536" by simp_all
  define q r q' r' where "q = S div 65536" and "r = S mod 65536" and "q' = T div 65536"
    and "r' = T mod 65536"
  have e: "S = q * 65536 + r" "T = q' * 65536 + r'" "r < 65536" "r' < 65536"
    using s t b by (simp_all add: q_def r_def q'_def r'_def)
  show "S mod 65536 < T mod 65536 \<longleftrightarrow> S div 65536 = T div 65536 + 1"
    unfolding q_def [symmetric] r_def [symmetric] q'_def [symmetric] r'_def [symmetric]
    using e assms by linarith
  show "\<not> S mod 65536 < T mod 65536 \<longleftrightarrow> S div 65536 = T div 65536"
    unfolding q_def [symmetric] r_def [symmetric] q'_def [symmetric] r'_def [symmetric]
    using e assms by linarith
qed

lemma sint_small_int:
  "- (2 ^ 31) \<le> k \<Longrightarrow> k < 2 ^ 31 \<Longrightarrow> sint (word_of_int k :: u32) = k"
  by (simp only: sint_sbintrunc') (rule signed_take_bit_int_eq_self, simp_all)

lemma positive_of_int:
  "- (2 ^ 31) \<le> k \<Longrightarrow> k < 2 ^ 31 \<Longrightarrow> (0 <s (word_of_int k :: u32)) = (0 < k)"
  by (simp add: word_sless_alt sint_small_int del: sint_word_ariths)

section \<open>Waiting loops\<close>

text \<open>What a loop counts: every overflow of the timer costs it a tick.\<close>

definition ticks :: "nat \<Rightarrow> int" where
  "ticks T = int T - int (T div 65536)"

lemma ticks_mod: "ticks T = int (T mod 65536) + 65535 * int (T div 65536)"
proof -
  have "int T = 65536 * int (T div 65536) + int (T mod 65536)"
    by (metis mult_div_mod_eq of_nat_add of_nat_mult of_nat_numeral)
  then show ?thesis by (simp add: ticks_def)
qed

lemma ticks_step:
  assumes "T \<le> S" "S < T + 65536"
  shows "(if (ucast (reading S) :: u32) < ucast (reading T)
          then ucast (reading S) + 0xFFFF - ucast (reading T)
          else ucast (reading S) - ucast (reading T)) = (word_of_int (ticks S - ticks T) :: u32)"
proof (cases "S mod 65536 < T mod 65536")
  case True
  then have "S div 65536 = T div 65536 + 1" using close_mod(1) [OF assms] by simp
  then have "ticks S - ticks T = int (S mod 65536) + 65535 - int (T mod 65536)"
    by (simp add: ticks_mod)
  then show ?thesis using True by (simp add: reading_less) (simp add: ucast_reading)
next
  case False
  then have "S div 65536 = T div 65536" using close_mod(2) [OF assms] by simp
  then have "ticks S - ticks T = int (S mod 65536) - int (T mod 65536)"
    by (simp add: ticks_mod)
  then show ?thesis using False by (simp add: reading_less) (simp add: ucast_reading)
qed

lemma ticks_mono: "T \<le> S \<Longrightarrow> S < T + 65536 \<Longrightarrow> ticks T \<le> ticks S \<and> ticks S - ticks T < 65536"
proof -
  assume a: "T \<le> S" "S < T + 65536"
  have "T div 65536 \<le> S div 65536" using a(1) by (rule div_le_mono)
  moreover have "S div 65536 \<le> T div 65536 + 1" using close_mod [OF a] by linarith
  moreover have "S div 65536 = T div 65536 \<or> T < S"
    using a by (cases "T = S") auto
  ultimately show ?thesis using a unfolding ticks_def by linarith
qed

lemma wait_loop_ticks:
  assumes "close_times T Ts" "- 65536 \<le> k" "k < 2 ^ 31"
  shows "wait_loop (word_of_int k) (ucast (reading T)) (map reading Ts) =
           (if k \<le> 0 then Some (map reading Ts)
            else case dropWhile (\<lambda>S. ticks S - ticks T < k) Ts of [] \<Rightarrow> None
                 | _ # Rs \<Rightarrow> Some (map reading Rs))"
  using assms
proof (induction Ts arbitrary: T k)
  case Nil
  then show ?case by (simp add: wait_loop.simps [of _ _ "[]"] positive_of_int)
next
  case (Cons S Ts)
  then have a: "T \<le> S" "S < T + 65536" "close_times S Ts" by simp_all
  define d where "d = ticks S - ticks T"
  have d: "0 \<le> d" "d < 65536" using ticks_mono [OF a(1,2)] by (simp_all add: d_def)
  have e: "wait_loop (word_of_int k) (ucast (reading T)) (map reading (S # Ts)) =
      (if k \<le> 0 then Some (map reading (S # Ts))
       else wait_loop (word_of_int (k - d)) (ucast (reading S)) (map reading Ts))"
    using Cons.prems unfolding wait_loop.simps [of _ _ "map reading (S # Ts)"]
    by (simp add: positive_of_int Let_def ticks_step [OF a(1,2)] d_def del: of_int_diff)
       (simp add: of_int_diff)
  have s: "(\<lambda>R. ticks R - ticks T < k) = (\<lambda>R. ticks R - ticks S < k - d)"
    by (rule ext) (simp add: d_def, linarith)
  show ?case
  proof (cases "k \<le> 0")
    case False
    then have ih: "wait_loop (word_of_int (k - d)) (ucast (reading S)) (map reading Ts) =
           (if k - d \<le> 0 then Some (map reading Ts)
            else case dropWhile (\<lambda>R. ticks R - ticks S < k - d) Ts of [] \<Rightarrow> None
                 | _ # Rs \<Rightarrow> Some (map reading Rs))"
      using a d Cons.prems by (intro Cons.IH) auto
    show ?thesis using False unfolding e ih s by (auto simp: d_def)
  qed (use e in simp)
qed

lemma takeWhile_split: "Ts = takeWhile P Ts @ dropWhile P Ts"
  by simp

lemma waits_enough:
  assumes "close_times T Ts" "S \<in> set Ts" "int n \<le> ticks S - ticks T"
  shows "n \<le> S - T"
proof -
  have "T \<le> S" using close_times_ge [OF assms(1,2)] .
  then have "T div 65536 \<le> S div 65536" by (rule div_le_mono)
  then show ?thesis using assms(3) \<open>T \<le> S\<close> by (simp add: ticks_def)
qed

text \<open>A wait of \<open>n\<close> ticks, by either timer, comes back exactly when a reading shows enough ticks,
  each overflow of the timer not counted.  So it never comes back before \<open>n\<close> ticks have passed, and it
  reads on as long as fewer than \<open>n\<close> plus the number of overflows have.\<close>

theorem Wait_ends:
  assumes "close_times T Ts" "0 < n" "n < 2 ^ 31" "wait = WaitUs \<or> wait = WaitMs"
  shows "(wait (of_nat n) (map reading (T # Ts)) = None \<longleftrightarrow>
            (\<forall>S\<in>set Ts. S - T < n + (S div 65536 - T div 65536))) \<and>
         (\<forall>r. wait (of_nat n) (map reading (T # Ts)) = Some r \<longrightarrow>
            (\<exists>Qs S Rs. Ts = Qs @ S # Rs \<and> r = map reading Rs \<and> n \<le> S - T \<and>
               (\<forall>Q\<in>set Qs. Q - T < n + (Q div 65536 - T div 65536))))"
proof -
  have w: "wait (of_nat n) (map reading (T # Ts)) =
      (case dropWhile (\<lambda>S. ticks S - ticks T < int n) Ts of [] \<Rightarrow> None
       | _ # Rs \<Rightarrow> Some (map reading Rs))"
    using wait_loop_ticks [OF assms(1), of "int n"] assms(2-4) by auto
  have l: "(ticks S - ticks T < int n) = (S - T < n + (S div 65536 - T div 65536))"
    if "S \<in> set Ts" for S
  proof -
    have "T \<le> S" using close_times_ge [OF assms(1) that] .
    moreover from this have "T div 65536 \<le> S div 65536" by (rule div_le_mono)
    ultimately show ?thesis by (simp add: ticks_def) linarith
  qed
  have "wait (of_nat n) (map reading (T # Ts)) = None \<longleftrightarrow>
          (\<forall>S\<in>set Ts. ticks S - ticks T < int n)"
    unfolding w by (auto split: list.splits simp: dropWhile_eq_Nil_conv) 
      (metis (no_types, lifting) dropWhile_eq_Nil_conv list.discI)
  moreover have "\<exists>Qs S Rs. Ts = Qs @ S # Rs \<and> r = map reading Rs \<and> int n \<le> ticks S - ticks T \<and>
               (\<forall>Q\<in>set Qs. ticks Q - ticks T < int n)"
    if r: "wait (of_nat n) (map reading (T # Ts)) = Some r" for r
  proof -
    obtain S Rs where d: "dropWhile (\<lambda>S. ticks S - ticks T < int n) Ts = S # Rs" "r = map reading Rs"
      using r unfolding w by (auto split: list.splits)
    moreover have "\<not> ticks S - ticks T < int n"
      using d(1) by (metis hd_dropWhile list.discI list.sel(1))
    ultimately show ?thesis
      using takeWhile_split [of Ts "\<lambda>S. ticks S - ticks T < int n"] set_takeWhileD
      by (intro exI [of _ "takeWhile (\<lambda>S. ticks S - ticks T < int n) Ts"] exI [of _ S] exI [of _ Rs])
        (fastforce simp: not_less dest: set_takeWhileD)
  qed
  ultimately show ?thesis using l waits_enough [OF assms(1)]
    by (auto, (metis (no_types, lifting) in_set_conv_decomp Un_iff set_append)+)
qed

lemma Wait_ends_witness:
  "WaitUs (of_nat 10) (map reading [65530, 65537, 65545]) \<noteq> None \<and>
   WaitMs (of_nat 10) (map reading [65530, 65537, 65540]) = None"
  using Wait_ends [of 65530 "[65537, 65545]" 10 WaitUs] Wait_ends [of 65530 "[65537, 65540]" 10 WaitMs]
  by simp

section \<open>Counters\<close>

text \<open>
  What a counter counts: the formula for an overflow of a 32-bit timer is applied to one of 16 bits,
  and an overflow takes 65537 ticks back.
\<close>

definition counted :: "nat \<Rightarrow> int" where
  "counted T = int (T mod 65536) - int (T div 65536)"

fun counter_polls :: "tagCounter \<Rightarrow> u16 list \<Rightarrow> bool list" where
  "counter_polls c [] = []"
| "counter_polls c (t # ts) = (let (b, c) = CounterArrived t c in b # counter_polls c ts)"

lemma counted_step:
  assumes "T \<le> S" "S < T + 65536"
  shows "(if (ucast (reading S) :: u32) < ucast (reading T)
          then ucast (reading S) + 0xFFFFFFFF - ucast (reading T)
          else ucast (reading S) - ucast (reading T)) = (word_of_int (counted S - counted T) :: u32)"
proof (cases "S mod 65536 < T mod 65536")
  case True
  then have "S div 65536 = T div 65536 + 1" using close_mod(1) [OF assms] by simp
  then have "counted S - counted T = int (S mod 65536) - 1 - int (T mod 65536)"
    by (simp add: counted_def)
  then show ?thesis using True by (simp add: reading_less) (simp add: ucast_reading)
next
  case False
  then have "S div 65536 = T div 65536" using close_mod(2) [OF assms] by simp
  then have "counted S - counted T = int (S mod 65536) - int (T mod 65536)"
    by (simp add: counted_def)
  then show ?thesis using False by (simp add: reading_less) (simp add: ucast_reading)
qed

lemma CounterArrived_step:
  assumes "T \<le> S" "S < T + 65536" "tc_ms c = word_of_int k" "tc_t0 c = ucast (reading T)"
    "0 < k" "k < 2 ^ 31" "k - (counted S - counted T) < 2 ^ 31"
  shows "fst (CounterArrived (reading S) c) = (k \<le> counted S - counted T)"
    and "tc_ms (snd (CounterArrived (reading S) c)) = word_of_int (k - (counted S - counted T))"
    and "tc_t0 (snd (CounterArrived (reading S) c)) = ucast (reading S)"
proof -
  have p: "0 <s (word_of_int k :: u32)" using assms(5,6) by (simp add: positive_of_int)
  have "counted S - counted T < 65536"
    using div_le_mono [OF assms(1), of 65536] mod_less_divisor [of 65536 S]
    unfolding counted_def by linarith
  then have q: "0 <s (word_of_int (k - (counted S - counted T)) :: u32) \<longleftrightarrow>
                  0 < k - (counted S - counted T)"
    using assms by (intro positive_of_int) auto
  have e: "CounterArrived (reading S) c =
      (\<not> 0 <s (word_of_int (k - (counted S - counted T)) :: u32),
       c\<lparr>tc_t1 := ucast (reading S), tc_ms := word_of_int (k - (counted S - counted T)),
         tc_t0 := ucast (reading S)\<rparr>)"
    unfolding CounterArrived_def Let_def assms(3,4) if_P [OF p] counted_step [OF assms(1,2)]
    by simp
  show "fst (CounterArrived (reading S) c) = (k \<le> counted S - counted T)"
    unfolding e using q by auto
  show "tc_ms (snd (CounterArrived (reading S) c)) = word_of_int (k - (counted S - counted T))"
    and "tc_t0 (snd (CounterArrived (reading S) c)) = ucast (reading S)"
    unfolding e by simp_all
qed

lemma counter_polls_counted:
  assumes "close_times T Ts" "tc_ms c = word_of_int k" "tc_t0 c = ucast (reading T)" "0 < k"
    "k < 2 ^ 31" "\<forall>S\<in>set Ts. k - (counted S - counted T) < 2 ^ 31"
  shows "True \<in> set (counter_polls c (map reading Ts)) \<longleftrightarrow>
         (\<exists>S\<in>set Ts. k \<le> counted S - counted T)"
  using assms
proof (induction Ts arbitrary: T k c)
  case (Cons S Ts)
  then have a: "T \<le> S" "S < T + 65536" "close_times S Ts" by simp_all
  obtain b c' where b: "CounterArrived (reading S) c = (b, c')" by fastforce
  note st = CounterArrived_step [OF a(1,2) Cons.prems(2-5)]
  have b': "b = (k \<le> counted S - counted T)"
    "tc_ms c' = word_of_int (k - (counted S - counted T))" "tc_t0 c' = ucast (reading S)"
    using st Cons.prems(6) b by simp_all
  show ?case
  proof (cases b)
    case True
    then show ?thesis using b b' by auto
  next
    case False
    have "True \<in> set (counter_polls c' (map reading Ts)) \<longleftrightarrow>
        (\<exists>R\<in>set Ts. k - (counted S - counted T) \<le> counted R - counted S)"
      using False b' Cons.prems(6) a(3) by (intro Cons.IH) auto
    moreover have "(k - (counted S - counted T) \<le> counted R - counted S) =
        (k \<le> counted R - counted T)" for R
      by linarith
    ultimately show ?thesis using False b b' by auto
  qed
qed simp

text \<open>C39: A counter started for \<open>n\<close> milliseconds is seen to have arrived at exactly those readings, of
  any run of readings closer than an overflow, that are \<open>n\<close> plus 65537 for every overflow in
  between later than the start: an overflow puts the end off.  If the timer overflows within the \<open>n\<close>
  milliseconds, the counter never arrives (in the next \<open>2 ^ 40\<close> milliseconds).\<close>

theorem counter_overflow:
  fixes c :: tagCounter
  assumes "close_times T Ts" "0 < n" "n < 2 ^ 30" "\<forall>S\<in>set Ts. S < T + 2 ^ 40"
  defines "polls \<equiv> counter_polls (StartCounter (of_nat n) (reading T) c) (map reading Ts)"
  shows "(True \<in> set polls \<longleftrightarrow>
            (\<exists>S\<in>set Ts. n + 65537 * (S div 65536 - T div 65536) \<le> S - T)) \<and>
         (65536 \<le> T mod 65536 + n \<longrightarrow> True \<notin> set polls)"
proof -
  have m: "int T = 65536 * int (T div 65536) + int (T mod 65536)" for T :: nat
    by (metis mult_div_mod_eq of_nat_add of_nat_mult of_nat_numeral)
  have ge: "T \<le> S \<and> T div 65536 \<le> S div 65536" if "S \<in> set Ts" for S
    using close_times_ge [OF assms(1) that] by (simp add: div_le_mono)
  have d: "int (S div 65536) - int (T div 65536) \<le> 2 ^ 24 + 1" if "S \<in> set Ts" for S
    using m [of S] m [of T] assms(4) that mod_less_divisor [of 65536 S] mod_less_divisor [of 65536 T]
    by (auto simp: zless_iff_Suc_zadd)
  have "int n - (counted S - counted T) < 2 ^ 31" if "S \<in> set Ts" for S
  proof -
    have "int n < 2 ^ 30" "T mod 65536 < 65536" using assms(3) by simp_all
    then show ?thesis using d [OF that] unfolding counted_def by simp
  qed
  then have "True \<in> set polls \<longleftrightarrow> (\<exists>S\<in>set Ts. int n \<le> counted S - counted T)"
    using assms(2,3) unfolding polls_def
    by (intro counter_polls_counted [OF assms(1)]) (auto simp: StartCounter_def)
  moreover have "int n \<le> counted S - counted T \<longleftrightarrow>
      n + 65537 * (S div 65536 - T div 65536) \<le> S - T" if "S \<in> set Ts" for S
    using m [of S] m [of T] ge [OF that] unfolding counted_def by linarith
  moreover have "\<not> int n \<le> counted S - counted T" if "S \<in> set Ts" "65536 \<le> T mod 65536 + n" for S
    using ge [OF that(1)] that(2) mod_less_divisor [of 65536 S] unfolding counted_def by linarith
  ultimately show ?thesis by blast
qed

lemma counter_overflow_witness:
  "True \<notin> set (counter_polls (StartCounter (of_nat 50) (reading 65500) \<lparr>tc_ms = 0, tc_t0 = 0, tc_t1 = 0\<rparr>)
           (map reading [65520, 65540, 65600, 131000]))"
proof -
  have "close_times 65500 [65520, 65540, 65600, 131000]" by simp
  then show ?thesis
    using counter_overflow [of 65500 "[65520, 65540, 65600, 131000]" 50
        "\<lparr>tc_ms = 0, tc_t0 = 0, tc_t1 = 0\<rparr>"] by (simp del: counter_polls.simps list.map)
qed

end
