(* ===== verification/Tmc.thy ===== *)
theory Tmc
  imports UsbHw Timer Port
begin

text \<open>
  The USB test and measurement class (USBTMC) layer of the firmware: \<^verbatim>\<open>Utilities/Usb/Src/usb_endp.c\<close> and
  \<^verbatim>\<open>usb_tmc.c\<close> with the types of \<^verbatim>\<open>usb_tmc.h\<close>.  A message of the host arrives in packets of the bulk-out
  endpoint 1, each handled by an interrupt (\<open>EP1_OUT_Callback\<close>); an answer leaves in packets of the
  bulk-in endpoint 2 (\<open>tmcSendDat\<close>).

  The statics of the two files are the fields of \<open>usb_dev\<close>, which extends the peripheral.  The field
  \<open>bulk_in\<close> is not one of the code's: it collects the packets handed to the peripheral, as they lie in
  packet memory when their endpoint becomes valid.

  While \<open>tmcSendDat\<close> waits for the last packet to leave, the timer runs and the interrupt of endpoint 2
  may come.  What it observes is a list: each reading of the timer, with whether \<open>EP2_IN_Callback\<close>
  runs before the next look at \<^verbatim>\<open>gTxFinished\<close>.
\<close>

unbundle bit_operations_syntax

section \<open>Types and statics\<close>

abbreviation (input) EP_MAXPKGSIZE :: nat where "EP_MAXPKGSIZE \<equiv> 64"
abbreviation (input) TMC_HEADER_SIZE :: nat where "TMC_HEADER_SIZE \<equiv> 12"
abbreviation (input) MAXHRADERDATASIZE :: nat where "MAXHRADERDATASIZE \<equiv> 52"
abbreviation (input) USB_BUF_SIZE :: nat where "USB_BUF_SIZE \<equiv> 1024"
abbreviation (input) ENDP1_RXADDR :: u16 where "ENDP1_RXADDR \<equiv> 0x98"
abbreviation (input) ENDP2_TXADDR :: u16 where "ENDP2_TXADDR \<equiv> 0x118"

datatype tmc_status = TMC_IDLE | TMC_RUN

datatype tmc_error =
  TERR_NONE | TERR_MSGID | TERR_TAG | TERR_TAGINV | TERR_LACKDAT | TERR_EMPTYPKG | TERR_MSGOVERFLOW

text \<open>The headers of both directions have one layout; the last four bytes are a union.\<close>

record tmc_header =
  h_msgId :: u8
  h_bTag :: u8
  h_bTagInverse :: u8
  h_reserved :: u8
  h_transferSize :: u32
  h_transferAttr :: u8
  h_reserved1 :: "u8 list"

record tmc_layer =
  lastTmcBulkOutHeader :: tmc_header
  lastTmcBulkInHeader :: tmc_header
  rxState :: tmc_status
  txState :: tmc_status
  tmcLastError :: tmc_error
  rxFinished :: bool
  rxCount :: u32
  txFinished :: bool
  txCount :: u32
  hostRead :: bool
  hostWrite :: bool

record usb_dev = usb_hw +
  gTmc :: tmc_layer
  gTxFinished :: bool
  tmcLayerTxBuffer :: "u8 list"
  tmcLayerRxBuffer :: "u8 list"
  bulk_in :: "u8 list list"
  usb_stdout :: "out_event list"

definition zero_header :: tmc_header where
  "zero_header = \<lparr>h_msgId = 0, h_bTag = 0, h_bTagInverse = 0, h_reserved = 0, h_transferSize = 0,
     h_transferAttr = 0, h_reserved1 = [0, 0, 0]\<rparr>"

definition gTmcLayerInfo :: tmc_layer where
  "gTmcLayerInfo = \<lparr>lastTmcBulkOutHeader = zero_header, lastTmcBulkInHeader = zero_header,
     rxState = TMC_IDLE, txState = TMC_IDLE, tmcLastError = TERR_NONE, rxFinished = True, rxCount = 0,
     txFinished = False, txCount = 0, hostRead = False, hostWrite = False\<rparr>"

abbreviation tmc :: "(tmc_layer \<Rightarrow> tmc_layer) \<Rightarrow> 'r usb_dev_scheme \<Rightarrow> 'r usb_dev_scheme" where
  "tmc \<equiv> gTmc_update"

text \<open>The bytes of a word, least significant first, and of a header.\<close>

definition word_of_bytes :: "u8 list \<Rightarrow> u32" where
  "word_of_bytes bs = ucast (bs ! 0) OR push_bit 8 (ucast (bs ! 1)) OR push_bit 16 (ucast (bs ! 2)) OR
     push_bit 24 (ucast (bs ! 3))"

definition bytes_of_word :: "u32 \<Rightarrow> u8 list" where
  "bytes_of_word w = [ucast w, ucast (drop_bit 8 w), ucast (drop_bit 16 w), ucast (drop_bit 24 w)]"

definition header_of_bytes :: "u8 list \<Rightarrow> tmc_header" where
  "header_of_bytes bs = \<lparr>h_msgId = bs ! 0, h_bTag = bs ! 1, h_bTagInverse = bs ! 2, h_reserved = bs ! 3,
     h_transferSize = word_of_bytes (drop 4 bs), h_transferAttr = bs ! 8,
     h_reserved1 = [bs ! 9, bs ! 10, bs ! 11]\<rparr>"

definition bytes_of_header :: "tmc_header \<Rightarrow> u8 list" where
  "bytes_of_header h = [h_msgId h, h_bTag h, h_bTagInverse h, h_reserved h] @
     bytes_of_word (h_transferSize h) @ [h_transferAttr h] @ h_reserved1 h"

section \<open>Commands\<close>

definition tmcCmdAnalize :: "'r usb_dev_scheme \<Rightarrow> 'r usb_dev_scheme" where
  "tmcCmdAnalize d =
     (if rxFinished (gTmc d)
      then let msgId = h_msgId (lastTmcBulkOutHeader (gTmc d))
           in if msgId = 1
              then tmc (\<lambda>t. t\<lparr>hostRead := False, hostWrite := True, txCount := 0\<rparr>) d
              else if msgId = 2
              then tmc (\<lambda>t. t\<lparr>hostRead := True, hostWrite := False,
                              lastTmcBulkInHeader := lastTmcBulkOutHeader t\<rparr>) d
              else if msgId = 126 then d
              else tmc (\<lambda>t. t\<lparr>tmcLastError := TERR_MSGID\<rparr>) d
      else d)"

definition tmcHostReadClear :: "'r usb_dev_scheme \<Rightarrow> 'r usb_dev_scheme" where
  "tmcHostReadClear d = tmc (\<lambda>t. t\<lparr>hostRead := False\<rparr>) d"

definition tmcHostWriteClear :: "'r usb_dev_scheme \<Rightarrow> 'r usb_dev_scheme" where
  "tmcHostWriteClear d = tmc (\<lambda>t. t\<lparr>hostWrite := False\<rparr>) d"

definition tmcHostReqSize :: "'r usb_dev_scheme \<Rightarrow> u32" where
  "tmcHostReqSize d = h_transferSize (lastTmcBulkInHeader (gTmc d))"

section \<open>Receiving\<close>

text \<open>
  The two states of the receiver.  The Boolean tells whether the handler goes on to its check for a
  complete message, or jumps to its end (\<^verbatim>\<open>goto TMC_ERROR\<close>).
\<close>

definition receive_first :: "'r usb_dev_scheme \<Rightarrow> (bool \<times> 'r usb_dev_scheme) option" where
  "receive_first d =
     (let d = tmc (\<lambda>t. t\<lparr>rxFinished := False\<rparr>) d
      in case PMAToUserBufferCopy (tmcLayerRxBuffer d) 0 ENDP1_RXADDR (GetEPRxCount 1 d) d of
           None \<Rightarrow> None
         | Some (n, buf) \<Rightarrow>
             let d = tmc (\<lambda>t. t\<lparr>rxCount := ucast n - 12\<rparr>) (d\<lparr>tmcLayerRxBuffer := buf\<rparr>);
                 h = header_of_bytes buf
             in if h_bTag h = h_bTag (lastTmcBulkOutHeader (gTmc d))
                then Some (False, tmc (\<lambda>t. t\<lparr>tmcLastError := TERR_TAG\<rparr>) d)
                else if h_bTag h AND h_bTagInverse h \<noteq> 0
                then Some (False, tmc (\<lambda>t. t\<lparr>tmcLastError := TERR_TAGINV\<rparr>) d)
                else
                  let d = tmc (\<lambda>t. t\<lparr>tmcLastError := TERR_NONE, lastTmcBulkOutHeader := h\<rparr>) d
                  in Some (True,
                       if rxCount (gTmc d) < 52 then tmc (\<lambda>t. t\<lparr>rxFinished := True\<rparr>) d
                       else if h_transferSize h \<le> 52 then tmc (\<lambda>t. t\<lparr>rxFinished := True\<rparr>) d
                       else tmc (\<lambda>t. t\<lparr>rxState := TMC_RUN\<rparr>) d))"

definition receive_more :: "'r usb_dev_scheme \<Rightarrow> (bool \<times> 'r usb_dev_scheme) option" where
  "receive_more d =
     (if 1024 \<le> 12 + rxCount (gTmc d) + ucast (GetEPRxCount 1 d)
      then Some (True, tmc (\<lambda>t. t\<lparr>tmcLastError := TERR_MSGOVERFLOW, rxState := TMC_IDLE\<rparr>) d)
      else case PMAToUserBufferCopy (tmcLayerRxBuffer d) (unat (12 + rxCount (gTmc d))) ENDP1_RXADDR
                  (GetEPRxCount 1 d) d of
             None \<Rightarrow> None
           | Some (n, buf) \<Rightarrow>
               let d = tmc (\<lambda>t. t\<lparr>rxCount := rxCount t + ucast n\<rparr>) (d\<lparr>tmcLayerRxBuffer := buf\<rparr>)
               in Some (True,
                    if h_transferSize (lastTmcBulkOutHeader (gTmc d)) \<le> rxCount (gTmc d)
                    then tmc (\<lambda>t. t\<lparr>rxFinished := True, rxState := TMC_IDLE, tmcLastError := TERR_NONE\<rparr>) d
                    else d))"

definition EP1_OUT_Callback ::
  "epr_write \<Rightarrow> 'r usb_dev_scheme \<Rightarrow> 'r usb_dev_scheme option" where
  "EP1_OUT_Callback epr d =
     (case (case rxState (gTmc d) of TMC_IDLE \<Rightarrow> receive_first d | TMC_RUN \<Rightarrow> receive_more d) of
        None \<Rightarrow> None
      | Some (check, d) \<Rightarrow>
          Some (SetEPRxStatus epr 1 EP_RX_VALID
                  (if check \<and> rxFinished (gTmc d) then tmcCmdAnalize d else d)))"

definition tmcRxFinishedClear :: "'r usb_dev_scheme \<Rightarrow> 'r usb_dev_scheme" where
  "tmcRxFinishedClear d = tmc (\<lambda>t. t\<lparr>rxFinished := False, rxCount := 0\<rparr>) d"

text \<open>\<^verbatim>\<open>memcpy\<close> from the receive buffer, \<open>None\<close> when it leaves one of the two.\<close>

definition tmcGetDat ::
  "u8 list \<Rightarrow> u32 \<Rightarrow> 'r usb_dev_scheme \<Rightarrow> (u32 \<times> u8 list \<times> 'r usb_dev_scheme) option" where
  "tmcGetDat buffer bufSize d =
     (if \<not> rxFinished (gTmc d) then Some (0, buffer, tmcRxFinishedClear d)
      else let datSize = h_transferSize (lastTmcBulkOutHeader (gTmc d))
           in if bufSize < datSize then Some (datSize, buffer, tmcRxFinishedClear d)
              else if TMC_HEADER_SIZE + unat datSize \<le> length (tmcLayerRxBuffer d) \<and>
                      unat datSize \<le> length buffer
              then Some (datSize,
                     take (unat datSize) (drop TMC_HEADER_SIZE (tmcLayerRxBuffer d)) @
                       drop (unat datSize) buffer,
                     tmcRxFinishedClear d)
              else None)"

section \<open>Sending\<close>

definition EP2_IN_Callback :: "'r usb_dev_scheme \<Rightarrow> 'r usb_dev_scheme" where
  "EP2_IN_Callback d = d\<lparr>gTxFinished := True\<rparr>"

definition RESET_Callback :: "'r usb_dev_scheme \<Rightarrow> 'r usb_dev_scheme" where
  "RESET_Callback d = tmc (\<lambda>t. t\<lparr>txState := TMC_IDLE\<rparr>) (d\<lparr>gTxFinished := True\<rparr>)"

type_synonym observations = "(u16 \<times> bool) list"

fun wait_tx_loop ::
  "observations \<Rightarrow> tagCounter \<Rightarrow> 'r usb_dev_scheme \<Rightarrow>
     (bool \<times> observations \<times> 'r usb_dev_scheme) option" where
  "wait_tx_loop obs counter d =
     (if gTxFinished d then Some (True, obs, d)
      else case obs of [] \<Rightarrow> None
           | (tim3, irq) # obs \<Rightarrow>
               let (arrived, counter) = CounterArrived tim3 counter;
                   d = (if irq then EP2_IN_Callback d else d)
               in if arrived then Some (False, obs, d) else wait_tx_loop obs counter d)"

declare wait_tx_loop.simps [simp del]

fun wait_tx ::
  "observations \<Rightarrow> 'r usb_dev_scheme \<Rightarrow> (bool \<times> observations \<times> 'r usb_dev_scheme) option" where
  "wait_tx [] d = None"
| "wait_tx ((tim3, irq) # obs) d =
     wait_tx_loop obs (StartCounter 50 tim3 \<lparr>tc_ms = 0, tc_t0 = 0, tc_t1 = 0\<rparr>)
       (if irq then EP2_IN_Callback d else d)"

definition tx_packet :: "nat \<Rightarrow> 'h usb_hw_scheme \<Rightarrow> u8 list" where
  "tx_packet n hw = take (unat (GetEPTxCount n hw))
     (pma_bytes (pma hw) (unat (GetEPTxAddr n hw) div 2) ((unat (GetEPTxCount n hw) + 1) div 2))"

definition hand_over :: "epr_write \<Rightarrow> 'r usb_dev_scheme \<Rightarrow> 'r usb_dev_scheme" where
  "hand_over epr d = (let d = SetEPTxValid epr 2 d in d\<lparr>bulk_in := bulk_in d @ [tx_packet 2 d]\<rparr>)"

text \<open>One packet: the user's bytes from \<open>cpyIndex\<close> on, behind what the transmit buffer keeps.\<close>

definition send_packet ::
  "epr_write \<Rightarrow> u8 list \<Rightarrow> nat \<Rightarrow> nat \<Rightarrow> nat \<Rightarrow> 'r usb_dev_scheme \<Rightarrow> 'r usb_dev_scheme option" where
  "send_packet epr pSrc off cpyIndex index d =
     (if cpyIndex + index \<le> length pSrc \<and> off + index \<le> length (tmcLayerTxBuffer d)
      then let d = d\<lparr>tmcLayerTxBuffer :=
                       take off (tmcLayerTxBuffer d) @ take index (drop cpyIndex pSrc) @
                         drop (off + index) (tmcLayerTxBuffer d),
                     gTxFinished := False\<rparr>
           in case UserToPMABufferCopy (tmcLayerTxBuffer d) 2 ENDP2_TXADDR (of_nat (off + index)) d of
                None \<Rightarrow> None
              | Some (n, d) \<Rightarrow>
                  Some (hand_over epr (tmc (\<lambda>t. t\<lparr>txCount := txCount t + of_nat index\<rparr>) d))
      else None)"

text \<open>The loop over the full packets; the number is that of the timeout, 0 when there is none.\<close>

fun send_full ::
  "epr_write \<Rightarrow> u8 list \<Rightarrow> nat \<Rightarrow> nat \<Rightarrow> observations \<Rightarrow> 'r usb_dev_scheme \<Rightarrow>
     (nat \<times> nat \<times> observations \<times> 'r usb_dev_scheme) option" where
  "send_full epr pSrc 0 cpyIndex obs d = Some (0, cpyIndex, obs, d)"
| "send_full epr pSrc (Suc pkgCnt) cpyIndex obs d =
     (case wait_tx obs d of None \<Rightarrow> None
      | Some (ok, obs, d) \<Rightarrow>
          if \<not> ok then Some (2, cpyIndex, obs, d)
          else case send_packet epr pSrc 0 cpyIndex EP_MAXPKGSIZE d of None \<Rightarrow> None
               | Some d \<Rightarrow> send_full epr pSrc pkgCnt (cpyIndex + EP_MAXPKGSIZE) obs d)"

definition send_rest ::
  "epr_write \<Rightarrow> u8 list \<Rightarrow> nat \<Rightarrow> nat \<Rightarrow> nat \<Rightarrow> observations \<Rightarrow> 'r usb_dev_scheme \<Rightarrow>
     (nat \<times> observations \<times> 'r usb_dev_scheme) option" where
  "send_rest epr pSrc xmitLen index cpyIndex obs d =
     (let pkgCnt = (xmitLen - index) div EP_MAXPKGSIZE mod 65536;
          remainCnt = (xmitLen - index) mod EP_MAXPKGSIZE
      in case send_full epr pSrc pkgCnt cpyIndex obs d of None \<Rightarrow> None
         | Some (errId, cpyIndex, obs, d) \<Rightarrow>
             if errId \<noteq> 0 then Some (errId, obs, d)
             else if remainCnt = 0
             then Some (0, obs, tmc (\<lambda>t. t\<lparr>txFinished := False, txState := TMC_IDLE\<rparr>) d)
             else case wait_tx obs d of None \<Rightarrow> None
                  | Some (ok, obs, d) \<Rightarrow>
                      if \<not> ok then Some (3, obs, d)
                      else case send_packet epr pSrc 0 cpyIndex remainCnt d of None \<Rightarrow> None
                           | Some d \<Rightarrow>
                               Some (0, obs, tmc (\<lambda>t. t\<lparr>txFinished := False, txState := TMC_IDLE\<rparr>) d))"

definition send_first ::
  "epr_write \<Rightarrow> u8 list \<Rightarrow> nat \<Rightarrow> observations \<Rightarrow> 'r usb_dev_scheme \<Rightarrow>
     (nat \<times> observations \<times> 'r usb_dev_scheme) option" where
  "send_first epr pSrc bufLen obs d =
     (let d = tmc (\<lambda>t. t\<lparr>txFinished := False,
                         lastTmcBulkInHeader := (lastTmcBulkInHeader t)\<lparr>h_transferAttr := 1,
                           h_reserved1 := [0, 0, 0]\<rparr>\<rparr>) d
      in case wait_tx obs d of None \<Rightarrow> None
         | Some (ok, obs, d) \<Rightarrow>
             if \<not> ok then Some (1, obs, d)
             else
               let d = d\<lparr>tmcLayerTxBuffer := bytes_of_header (lastTmcBulkInHeader (gTmc d)) @
                           drop TMC_HEADER_SIZE (tmcLayerTxBuffer d)\<rparr>;
                   xmitLen = unat (h_transferSize (lastTmcBulkOutHeader (gTmc d)));
                   xmitLen = (if bufLen < xmitLen then bufLen else xmitLen);
                   index = min xmitLen MAXHRADERDATASIZE
               in case send_packet epr pSrc TMC_HEADER_SIZE 0 index d of None \<Rightarrow> None
                  | Some d \<Rightarrow> send_rest epr pSrc xmitLen index index obs d)"

definition tmcSendDat ::
  "epr_write \<Rightarrow> u8 list \<Rightarrow> nat \<Rightarrow> observations \<Rightarrow> 'r usb_dev_scheme \<Rightarrow>
     (u32 \<times> observations \<times> 'r usb_dev_scheme) option" where
  "tmcSendDat epr pBuffer bufLen obs d =
     (if bufLen = 0 then Some (txCount (gTmc d), obs, d)
      else case (case txState (gTmc d) of
                   TMC_IDLE \<Rightarrow> send_first epr pBuffer bufLen obs d
                 | TMC_RUN \<Rightarrow> send_rest epr pBuffer 0 0 0 obs d) of
             None \<Rightarrow> None
           | Some (errId, obs, d) \<Rightarrow>
               Some (txCount (gTmc d), obs,
                 if errId = 0 then d
                 else d\<lparr>usb_stdout := usb_stdout d @
                        [Printf (''%s:%d --> Timeout ID=%d'' @ [CHR 0x0A])
                           [Str ''tmcSendDat'', Num 280, Num (int errId)]]\<rparr>))"

end
