(* ===== verification/TmcProps.thy ===== *)
theory TmcProps
  imports Tmc
begin

unbundle bit_operations_syntax

text \<open>
  Properties of the USBTMC layer: the receive buffer is never overrun, a message that arrives in packets
  is put together and handed to the program, what a dishonest length in its header does, and an answer
  leaves in packets that make up header and data.
\<close>

section \<open>The receive buffer\<close>

text \<open>
  What the layer keeps: the sizes of its buffers, and the count of received bytes, header included,
  within the buffer.  The count is taken modulo \<open>2 ^ 32\<close>, so that a first packet shorter than a header
  fits, too.
\<close>

definition tmc_inv :: "'r usb_dev_scheme \<Rightarrow> bool" where
  "tmc_inv d = (length (tmcLayerRxBuffer d) = 1024 \<and> length (tmcLayerTxBuffer d) = 64 \<and>
     length (h_reserved1 (lastTmcBulkInHeader (gTmc d))) = 3 \<and>
     length (h_reserved1 (lastTmcBulkOutHeader (gTmc d))) = 3 \<and>
     12 + rxCount (gTmc d) < 1024)"

lemma count_bound: "unat (GetEPRxCount n hw) < 1024"
proof -
  have "GetEPRxCount n hw \<le> 0x3FF"
    unfolding GetEPRxCount_def by (rule word_and_le1)
  then show ?thesis by (simp add: word_le_nat_alt)
qed

lemma unat_ucast_16_32: "unat (ucast (c :: u16) :: u32) = unat c"
proof -
  have "unat c < 2 ^ 16" using unsigned_less [of c] by simp
  then show ?thesis by (simp add: unsigned_ucast_eq take_bit_eq_mod)
qed

lemma PMAToUserBufferCopy_eq:
  "PMAToUserBufferCopy buf p a k hw =
     (if k = 0 \<or> p + whole_words k \<le> length buf
      then Some (k, take p buf @ pma_bytes (pma hw) (unat a div 2) ((unat k + 1) div 2) @
                    drop (p + whole_words k) buf)
      else None)"
proof -
  have "(unat k + 1) div 2 = 0 \<longleftrightarrow> unat k = 0" by linarith
  then have "(unat k + 1) div 2 = 0 \<longleftrightarrow> k = 0" by (simp add: unat_eq_0)
  then show ?thesis
    by (simp add: PMAToUserBufferCopy_def copy_from_pma_bytes whole_words_def)
qed

lemma hw_tmc [simp]:
  "GetEPRxCount n (gTmc_update f d) = GetEPRxCount n d"
  "GetEPRxCount n (tmcLayerRxBuffer_update g d) = GetEPRxCount n d"
  "PMAToUserBufferCopy buf p a k (gTmc_update f d) = PMAToUserBufferCopy buf p a k d"
  by (simp_all add: GetEPRxCount_def pEPRxCount_def PMAToUserBufferCopy_def)

lemma tmc_inv_frame [simp]:
  "tmc_inv (d\<lparr>pma := m\<rparr>) = tmc_inv d" "tmc_inv (d\<lparr>ep_reg := r\<rparr>) = tmc_inv d"
  "tmc_inv (d\<lparr>gTxFinished := b\<rparr>) = tmc_inv d" "tmc_inv (d\<lparr>bulk_in := l\<rparr>) = tmc_inv d"
  "tmc_inv (d\<lparr>usb_stdout := e\<rparr>) = tmc_inv d"
  by (simp_all add: tmc_inv_def)

lemma tmc_inv_status [simp]: "tmc_inv (SetEPRxStatus epr n st d) = tmc_inv d"
  "tmc_inv (SetEPTxStatus epr n st d) = tmc_inv d"
  by (simp_all add: SetEPRxStatus_def SetEPTxStatus_def SetENDPOINT_def Let_def)

lemma tmc_inv_cmd: "tmc_inv d \<Longrightarrow> tmc_inv (tmcCmdAnalize d)"
  by (auto simp: tmcCmdAnalize_def tmc_inv_def Let_def)

lemma first_count: "12 + (ucast (GetEPRxCount n hw) - 12 :: u32) < 1024"
  using count_bound [of n hw] by (simp add: word_less_nat_alt unat_ucast_16_32)

lemma receive_first_inv:
  assumes "tmc_inv d"
  shows "\<exists>check d'. receive_first d = Some (check, d') \<and> tmc_inv d'"
proof -
  define c where "c = GetEPRxCount 1 d"
  have "whole_words c \<le> 1024"
    using whole_words(2,3) [of c] count_bound [of 1 d] by (auto simp: c_def elim!: evenE)
  then have "PMAToUserBufferCopy (tmcLayerRxBuffer d) 0 ENDP1_RXADDR c d \<noteq> None"
    using assms by (simp add: PMAToUserBufferCopy_eq tmc_inv_def)
  then obtain buf where b: "PMAToUserBufferCopy (tmcLayerRxBuffer d) 0 ENDP1_RXADDR c d = Some (c, buf)"
    "length buf = 1024"
    using assms by (fastforce simp: PMAToUserBufferCopy_eq tmc_inv_def whole_words_def split: if_splits)
  show ?thesis
    using assms b first_count [of 1 d]
    by (auto simp: receive_first_def Let_def tmc_inv_def c_def header_of_bytes_def)
qed

lemma receive_more_inv:
  assumes "tmc_inv d"
  shows "\<exists>check d'. receive_more d = Some (check, d') \<and> tmc_inv d'"
proof (cases "1024 \<le> 12 + rxCount (gTmc d) + ucast (GetEPRxCount 1 d)")
  case True
  then show ?thesis using assms by (auto simp: receive_more_def tmc_inv_def)
next
  case False
  define c where "c = GetEPRxCount 1 d"
  define x where "x = 12 + rxCount (gTmc d)"
  have x: "unat x < 1024" using assms by (simp add: tmc_inv_def x_def word_less_nat_alt)
  have "unat (x + ucast c) = unat x + unat c"
    using x count_bound [of 1 d] by (simp add: unat_word_ariths unat_ucast_16_32 c_def)
  then have s: "unat x + unat c < 1024" using False by (simp add: word_le_nat_alt x_def c_def)
  then have "unat x + whole_words c \<le> 1024" using whole_words(2) [of c] by linarith
  then obtain buf where b: "PMAToUserBufferCopy (tmcLayerRxBuffer d) (unat x) ENDP1_RXADDR c d = Some (c, buf)"
    "length buf = 1024"
    using assms by (fastforce simp: PMAToUserBufferCopy_eq tmc_inv_def whole_words_def)
  have "12 + (rxCount (gTmc d) + ucast c) < 1024"
    using False by (simp add: c_def add.assoc [symmetric] not_le)
  then show ?thesis
    using assms b False by (auto simp: receive_more_def Let_def tmc_inv_def c_def x_def)
qed

lemma EP1_OUT_inv:
  assumes "tmc_inv d"
  shows "\<exists>d'. EP1_OUT_Callback epr d = Some d' \<and> tmc_inv d'"
  using receive_first_inv [OF assms] receive_more_inv [OF assms]
  by (cases "rxState (gTmc d)") (auto simp: EP1_OUT_Callback_def tmc_inv_cmd)

lemma wait_tx_loop_obs:
  "wait_tx_loop [] c d = (if gTxFinished d then Some (True, [], d) else None)"
  "wait_tx_loop ((t, irq) # obs) c d =
     (if gTxFinished d then Some (True, (t, irq) # obs, d)
      else if fst (CounterArrived t c) then Some (False, obs, if irq then EP2_IN_Callback d else d)
      else wait_tx_loop obs (snd (CounterArrived t c)) (if irq then EP2_IN_Callback d else d))"
  by (simp_all add: wait_tx_loop.simps [of "[]"] wait_tx_loop.simps [of "_ # _"] case_prod_beta Let_def)

lemma wait_tx_loop_sets:
  "wait_tx_loop obs c d = Some (ok, obs', d') \<Longrightarrow>
     (d' = d \<or> d' = EP2_IN_Callback d) \<and> (ok \<longrightarrow> gTxFinished d')"
proof (induction obs arbitrary: c d)
  case (Cons o1 obs)
  obtain t irq where o: "o1 = (t, irq)" by fastforce
  have e: "EP2_IN_Callback (EP2_IN_Callback d) = EP2_IN_Callback d" by (simp add: EP2_IN_Callback_def)
  show ?case
    using Cons.prems Cons.IH [of "snd (CounterArrived t c)" "if irq then EP2_IN_Callback d else d"] e
    by (auto simp: o wait_tx_loop_obs split: if_splits)
qed (auto simp: wait_tx_loop_obs split: if_splits)

lemma wait_tx_sets:
  "wait_tx obs d = Some (ok, obs', d') \<Longrightarrow>
     (d' = d \<or> d' = EP2_IN_Callback d) \<and> (ok \<longrightarrow> gTxFinished d')"
proof (cases obs)
  case (Cons o1 obs1)
  assume a: "wait_tx obs d = Some (ok, obs', d')"
  obtain t irq where o: "o1 = (t, irq)" by fastforce
  have e: "EP2_IN_Callback (EP2_IN_Callback d) = EP2_IN_Callback d" by (simp add: EP2_IN_Callback_def)
  have "wait_tx_loop obs1 (StartCounter 50 t \<lparr>tc_ms = 0, tc_t0 = 0, tc_t1 = 0\<rparr>)
      (if irq then EP2_IN_Callback d else d) = Some (ok, obs', d')"
    using a by (simp add: Cons o)
  from wait_tx_loop_sets [OF this] e show ?thesis by (auto split: if_splits)
qed simp

lemma wait_tx_inv: "wait_tx obs d = Some (ok, obs', d') \<Longrightarrow> tmc_inv d \<Longrightarrow> tmc_inv d'"
  using wait_tx_sets [of obs d ok obs' d'] by (auto simp: EP2_IN_Callback_def)

lemma send_packet_inv: "send_packet epr src off i n d = Some d' \<Longrightarrow> tmc_inv d \<Longrightarrow> tmc_inv d'"
  by (auto simp: send_packet_def hand_over_def SetEPTxValid_def UserToPMABufferCopy_def Let_def
      SetEPTxCount_def pma_put_def tmc_inv_def SetEPTxStatus_def SetENDPOINT_def
      split: if_splits option.splits)

lemma send_full_inv:
  "send_full epr src n i obs d = Some (e, i', obs', d') \<Longrightarrow> tmc_inv d \<Longrightarrow> tmc_inv d'"
proof (induction epr src n i obs d arbitrary: e i' obs' d' rule: send_full.induct)
  case (2 epr src n i obs d)
  then show ?case
    by (auto split: option.splits if_splits dest!: wait_tx_inv send_packet_inv)
qed simp

lemma send_rest_inv: "send_rest epr src x n i obs d = Some (e, obs', d') \<Longrightarrow> tmc_inv d \<Longrightarrow> tmc_inv d'"
  by (auto simp: send_rest_def Let_def split: option.splits if_splits
      dest!: send_full_inv wait_tx_inv send_packet_inv) (auto simp: tmc_inv_def)

lemma send_first_inv: "send_first epr src n obs d = Some (e, obs', d') \<Longrightarrow> tmc_inv d \<Longrightarrow> tmc_inv d'"
proof -
  define d1 where "d1 = tmc (\<lambda>t. t\<lparr>txFinished := False,
      lastTmcBulkInHeader := (lastTmcBulkInHeader t)\<lparr>h_transferAttr := 1, h_reserved1 := [0, 0, 0]\<rparr>\<rparr>) d"
  assume a: "send_first epr src n obs d = Some (e, obs', d')" "tmc_inv d"
  have d1: "tmc_inv d1" using a(2) by (simp add: d1_def tmc_inv_def)
  obtain ok obs2 d2 where w: "wait_tx obs d1 = Some (ok, obs2, d2)"
    using a(1) by (auto simp: send_first_def d1_def Let_def split: option.splits)
  have d2: "tmc_inv d2" using wait_tx_inv [OF w d1] .
  moreover have "tmc_inv (d2\<lparr>tmcLayerTxBuffer := bytes_of_header (lastTmcBulkInHeader (gTmc d2)) @
      drop TMC_HEADER_SIZE (tmcLayerTxBuffer d2)\<rparr>)"
    using d2 by (simp add: tmc_inv_def bytes_of_header_def bytes_of_word_def)
  ultimately show ?thesis
    using a(1) w unfolding send_first_def d1_def [symmetric] Let_def
    by (auto split: option.splits if_splits dest!: send_packet_inv send_rest_inv)
qed

lemma tmcSendDat_inv: "tmcSendDat epr src n obs d = Some (r, obs', d') \<Longrightarrow> tmc_inv d \<Longrightarrow> tmc_inv d'"
  by (auto simp: tmcSendDat_def split: option.splits if_splits tmc_status.splits
      dest!: send_first_inv send_rest_inv)

section \<open>Runs\<close>

text \<open>
  Everything that may happen to the layer, in any order: a packet of any content and count arrives, the
  program takes or sends data or clears a flag, a packet has left, the bus is reset, a transfer is
  aborted.
\<close>

inductive tmc_reach :: "epr_write \<Rightarrow> usb_dev \<Rightarrow> bool" for epr where
  start: "gTmc d = gTmcLayerInfo \<Longrightarrow> tmcLayerRxBuffer d = replicate USB_BUF_SIZE 0 \<Longrightarrow>
    tmcLayerTxBuffer d = replicate EP_MAXPKGSIZE 0 \<Longrightarrow> tmc_reach epr d"
| packet: "tmc_reach epr d \<Longrightarrow> EP1_OUT_Callback epr (d\<lparr>pma := m\<rparr>) = Some d' \<Longrightarrow> tmc_reach epr d'"
| taken: "tmc_reach epr d \<Longrightarrow> tmcGetDat buf n d = Some (r, buf', d') \<Longrightarrow> tmc_reach epr d'"
| sent: "tmc_reach epr d \<Longrightarrow> tmcSendDat epr buf k obs d = Some (r, obs', d') \<Longrightarrow> tmc_reach epr d'"
| left: "tmc_reach epr d \<Longrightarrow> tmc_reach epr (EP2_IN_Callback d)"
| reset: "tmc_reach epr d \<Longrightarrow> tmc_reach epr (RESET_Callback d)"
| cleared: "tmc_reach epr d \<Longrightarrow> tmc_reach epr (tmcRxFinishedClear d)"
| read_cleared: "tmc_reach epr d \<Longrightarrow> tmc_reach epr (tmcHostReadClear d)"
| write_cleared: "tmc_reach epr d \<Longrightarrow> tmc_reach epr (tmcHostWriteClear d)"
| aborted: "tmc_reach epr d \<Longrightarrow> tmc_reach epr (tmc (\<lambda>t. t\<lparr>rxState := TMC_IDLE\<rparr>) d)"

lemma tmc_reach_inv: "tmc_reach epr d \<Longrightarrow> tmc_inv d"
proof (induction rule: tmc_reach.induct)
  case (packet d m d')
  then show ?case using EP1_OUT_inv [of "d\<lparr>pma := m\<rparr>" epr] by auto
next
  case (sent d buf k obs r obs' d')
  then show ?case using tmcSendDat_inv by blast
qed (auto simp: tmc_inv_def gTmcLayerInfo_def zero_header_def tmcGetDat_def tmcRxFinishedClear_def Let_def
    EP2_IN_Callback_def RESET_Callback_def tmcHostReadClear_def tmcHostWriteClear_def split: if_splits)

text \<open>C14: Whatever happened before, a packet of any content and any count is received without leaving
  the receive buffer, which keeps its size; the count of received bytes with the header stays below it.\<close>

theorem receive_inside:
  assumes "tmc_reach epr d"
  shows "\<exists>d'. EP1_OUT_Callback epr (d\<lparr>pma := m\<rparr>) = Some d' \<and> length (tmcLayerRxBuffer d') = 1024 \<and>
           12 + rxCount (gTmc d') < 1024"
  using EP1_OUT_inv [of "d\<lparr>pma := m\<rparr>" epr] tmc_reach_inv [OF assms] by (auto simp: tmc_inv_def)

definition usb_dev0 :: usb_dev where
  "usb_dev0 = \<lparr>ep_reg = (\<lambda>_. 0), pma = (\<lambda>_. 0), btable = 0, daddr = 0, gTmc = gTmcLayerInfo,
     gTxFinished = True, tmcLayerTxBuffer = replicate EP_MAXPKGSIZE 0,
     tmcLayerRxBuffer = replicate USB_BUF_SIZE 0, bulk_in = [], usb_stdout = []\<rparr>"

lemma reach_usb_dev0: "tmc_reach epr usb_dev0"
  by (rule tmc_reach.start) (simp_all add: usb_dev0_def)

lemma receive_inside_witness:
  "\<exists>d'. EP1_OUT_Callback rm0008_epr (usb_dev0\<lparr>pma := (\<lambda>_. 0xFFFF)\<rparr>) = Some d' \<and>
     length (tmcLayerRxBuffer d') = 1024 \<and> 12 + rxCount (gTmc d') < 1024"
  by (rule receive_inside [OF reach_usb_dev0])

section \<open>A message in packets\<close>

lemma word_bytes: "word_of_bytes (bytes_of_word w @ bs) = w"
proof (rule bit_word_eqI)
  fix n assume "n < LENGTH(32)"
  then have "n < 8 \<or> 8 \<le> n \<and> n < 16 \<or> 16 \<le> n \<and> n < 24 \<or> 24 \<le> n \<and> n < 32" by auto
  then show "bit (word_of_bytes (bytes_of_word w @ bs)) n = bit w n"
    by (auto simp: word_of_bytes_def bytes_of_word_def bit_simps nth_append)
qed

lemma header_bytes:
  assumes "length (h_reserved1 h) = 3"
  shows "header_of_bytes (bytes_of_header h @ bs) = h"
proof -
  obtain x y z where r: "h_reserved1 h = [x, y, z]"
    using assms by (auto simp: numeral_3_eq_3 length_Suc_conv)
  have "drop 4 (bytes_of_header h @ bs) = bytes_of_word (h_transferSize h) @ [h_transferAttr h] @ [x, y, z] @ bs"
    by (simp add: bytes_of_header_def r)
  then show ?thesis
    by (simp add: header_of_bytes_def word_bytes)
      (simp add: bytes_of_header_def r bytes_of_word_def)
qed

lemma length_header [simp]: "length (h_reserved1 h) = 3 \<Longrightarrow> length (bytes_of_header h) = 12"
  by (simp add: bytes_of_header_def bytes_of_word_def)

lemma length_reserved1 [simp]: "length (h_reserved1 (header_of_bytes bs)) = 3"
  by (simp add: header_of_bytes_def)

lemma header_of_bytes_take:
  assumes "12 \<le> n" "take n bs = p" "n \<le> length bs"
  shows "header_of_bytes bs = header_of_bytes p"
proof -
  have e: "bs ! i = p ! i" if "i < 12" for i using assms that by auto
  have "word_of_bytes (drop 4 bs) = word_of_bytes (drop 4 p)"
    using assms(1,3) e assms(2) [symmetric] by (simp add: word_of_bytes_def min_def)
  then show ?thesis by (simp add: header_of_bytes_def e)
qed

text \<open>A packet lies in packet memory, and a run of packets.\<close>

definition packet_at :: "u16 \<Rightarrow> u8 list \<Rightarrow> (nat \<Rightarrow> u16) \<Rightarrow> bool" where
  "packet_at table p m = (unat (m ((unat table + 14) div 2) AND 0x3FF) = length p \<and>
     take (length p) (pma_bytes m 76 ((length p + 1) div 2)) = p)"

fun handle_packets ::
  "epr_write \<Rightarrow> (nat \<Rightarrow> u16) list \<Rightarrow> 'r usb_dev_scheme \<Rightarrow> 'r usb_dev_scheme option" where
  "handle_packets epr [] d = Some d"
| "handle_packets epr (m # ms) d =
     (case EP1_OUT_Callback epr (d\<lparr>pma := m\<rparr>) of None \<Rightarrow> None | Some d \<Rightarrow> handle_packets epr ms d)"

lemma packet_copied:
  assumes "packet_at (btable d) p m" "off + length p < length buf" "length buf = 1024"
  defines "c \<equiv> GetEPRxCount 1 (d\<lparr>pma := m\<rparr>)"
  shows "\<exists>buf'. PMAToUserBufferCopy buf off ENDP1_RXADDR c (d\<lparr>pma := m\<rparr>) = Some (c, buf') \<and>
           length buf' = length buf \<and> take (off + length p) buf' = take off buf @ p"
    and "unat c = length p"
proof -
  show c: "unat c = length p"
    using assms(1) by (simp add: packet_at_def c_def GetEPRxCount_def pEPRxCount_def add.commute)
  then have w: "whole_words c = 2 * ((length p + 1) div 2)" by (simp add: whole_words_def)
  have "whole_words c \<le> length p + 1" using whole_words(2) [of c] c by simp
  then have le: "off + whole_words c \<le> length buf" using assms(2) by linarith
  define b where "b = pma_bytes m 76 ((length p + 1) div 2)"
  have b: "take (length p) b = p" "length b = whole_words c"
    using assms(1) by (simp_all add: packet_at_def b_def w)
  have "PMAToUserBufferCopy buf off ENDP1_RXADDR c (d\<lparr>pma := m\<rparr>) =
      Some (c, take off buf @ b @ drop (off + whole_words c) buf)"
    using le by (simp add: PMAToUserBufferCopy_eq c b_def)
  moreover have "take (off + length p) (take off buf @ b @ drop (off + whole_words c) buf) = take off buf @ p"
    using b assms(2) whole_words(1) [of c] c by (simp add: min_def)
  ultimately show "\<exists>buf'. PMAToUserBufferCopy buf off ENDP1_RXADDR c (d\<lparr>pma := m\<rparr>) = Some (c, buf') \<and>
           length buf' = length buf \<and> take (off + length p) buf' = take off buf @ p"
    using le b(2) by auto
qed

text \<open>The layer with the bytes \<open>bs\<close> of a message received, and more of it to come or all of it there.\<close>

definition received :: "u8 list \<Rightarrow> 'r usb_dev_scheme \<Rightarrow> bool" where
  "received bs d = (tmc_inv d \<and> 12 \<le> length bs \<and> length bs < 1024 \<and>
     take (length bs) (tmcLayerRxBuffer d) = bs \<and>
     lastTmcBulkOutHeader (gTmc d) = header_of_bytes bs \<and>
     rxCount (gTmc d) = of_nat (length bs - 12) \<and> tmcLastError (gTmc d) = TERR_NONE)"

definition partial_msg :: "u8 list \<Rightarrow> 'r usb_dev_scheme \<Rightarrow> bool" where
  "partial_msg bs d = (received bs d \<and> rxState (gTmc d) = TMC_RUN \<and> \<not> rxFinished (gTmc d))"

definition complete_msg :: "u8 list \<Rightarrow> 'r usb_dev_scheme \<Rightarrow> bool" where
  "complete_msg bs d = (received bs d \<and> rxState (gTmc d) = TMC_IDLE \<and> rxFinished (gTmc d) \<and>
     hostWrite (gTmc d) \<and> \<not> hostRead (gTmc d) \<and> txCount (gTmc d) = 0)"

lemma tmc_status [simp]:
  "gTmc (SetEPRxStatus epr n st d) = gTmc d" "gTmc (SetEPTxStatus epr n st d) = gTmc d"
  "tmcLayerRxBuffer (SetEPRxStatus epr n st d) = tmcLayerRxBuffer d"
  "tmcLayerTxBuffer (SetEPTxStatus epr n st d) = tmcLayerTxBuffer d"
  "tmcLayerRxBuffer (SetEPTxStatus epr n st d) = tmcLayerRxBuffer d"
  "bulk_in (SetEPTxStatus epr n st d) = bulk_in d"
  "gTxFinished (SetEPTxStatus epr n st d) = gTxFinished d"
  "usb_stdout (SetEPTxStatus epr n st d) = usb_stdout d"
  "pma (SetEPTxStatus epr n st d) = pma d" "btable (SetEPTxStatus epr n st d) = btable d"
  by (simp_all add: SetEPRxStatus_def SetEPTxStatus_def SetENDPOINT_def Let_def)

lemma received_status [simp]:
  "received bs (SetEPRxStatus epr n st d) = received bs d"
  "partial_msg bs (SetEPRxStatus epr n st d) = partial_msg bs d"
  "complete_msg bs (SetEPRxStatus epr n st d) = complete_msg bs d"
  by (simp_all add: received_def partial_msg_def complete_msg_def)

lemma analyse_write:
  assumes "received bs d" "rxState (gTmc d) = TMC_IDLE" "rxFinished (gTmc d)"
    "h_msgId (header_of_bytes bs) = 1"
  shows "complete_msg bs (tmcCmdAnalize d)"
proof -
  have "tmcCmdAnalize d = tmc (\<lambda>t. t\<lparr>hostRead := False, hostWrite := True, txCount := 0\<rparr>) d"
    using assms by (simp add: tmcCmdAnalize_def received_def)
  moreover have "tmc_inv (tmcCmdAnalize d)" using assms(1) by (simp add: received_def tmc_inv_cmd)
  ultimately show ?thesis using assms by (simp add: complete_msg_def received_def)
qed

lemma btable_frame [simp]: "btable (SetEPRxStatus epr n st d) = btable d" "btable (tmcCmdAnalize d) = btable d"
  by (simp_all add: SetEPRxStatus_def SetENDPOINT_def tmcCmdAnalize_def Let_def)

lemma unat_of_nat_32: "n < 2 ^ 32 \<Longrightarrow> unat (of_nat n :: u32) = n"
  by (simp add: unat_of_nat take_bit_eq_mod)

lemma receive_header:
  fixes d :: "'r usb_dev_scheme"
  assumes "tmc_inv d" "rxState (gTmc d) = TMC_IDLE" "packet_at (btable d) p m" "12 \<le> length p"
    "length p \<le> 64" "h_bTag (header_of_bytes p) \<noteq> h_bTag (lastTmcBulkOutHeader (gTmc d))"
    "h_bTag (header_of_bytes p) AND h_bTagInverse (header_of_bytes p) = 0"
    "h_msgId (header_of_bytes p) = 1"
  defines "fin \<equiv> length p < 64 \<or> h_transferSize (header_of_bytes p) \<le> 52"
  shows "\<exists>d'. EP1_OUT_Callback epr (d\<lparr>pma := m\<rparr>) = Some d' \<and> btable d' = btable d \<and>
           (if fin then complete_msg p d' else partial_msg p d')"
proof -
  define e where "e = d\<lparr>pma := m\<rparr>"
  define c where "c = GetEPRxCount 1 e"
  have c: "unat c = length p" using packet_copied(2) [OF assms(3), of 0 "replicate 1024 0"] assms(5)
    by (simp add: c_def e_def)
  obtain buf where buf: "PMAToUserBufferCopy (tmcLayerRxBuffer d) 0 ENDP1_RXADDR c e = Some (c, buf)"
    "length buf = 1024" "take (length p) buf = p"
    using packet_copied(1) [OF assms(3), of 0 "tmcLayerRxBuffer d"] assms(1,5)
    by (auto simp: c_def e_def tmc_inv_def)
  have h: "header_of_bytes buf = header_of_bytes p"
    using buf assms(4,5) by (intro header_of_bytes_take [of "length p"]) auto
  have u: "unat (ucast c - 12 :: u32) = length p - 12"
    using assms(4,5) c by (simp add: unat_sub word_le_nat_alt unat_ucast_16_32)
  then have rc: "(ucast c - 12 :: u32) = of_nat (length p - 12)"
    by (metis of_nat_unat ucast_id)
  have lt: "(ucast c - 12 :: u32) < 52 \<longleftrightarrow> length p < 64"
    using u assms(4,5) by (simp add: word_less_nat_alt) linarith
  define d1 where "d1 = (tmc (\<lambda>t. t\<lparr>rxFinished := fin, rxCount := ucast c - 12,
      tmcLastError := TERR_NONE, lastTmcBulkOutHeader := header_of_bytes p,
      rxState := (if fin then TMC_IDLE else TMC_RUN)\<rparr>) (e\<lparr>tmcLayerRxBuffer := buf\<rparr>))"
  have "receive_first e = Some (True, d1)"
    using buf(1) h lt assms(2,6,7)
    by (auto simp: receive_first_def Let_def d1_def fin_def e_def c_def)
  then have cb: "EP1_OUT_Callback epr e =
      Some (SetEPRxStatus epr 1 EP_RX_VALID (if fin then tmcCmdAnalize d1 else d1))"
    using assms(2) by (simp add: EP1_OUT_Callback_def e_def) (simp add: d1_def)
  have "12 + (ucast c - 12 :: u32) < 1024" using first_count [of 1 e] by (simp add: c_def)
  then have r: "received p d1"
    using assms(1,4,5) buf rc
    by (simp add: received_def d1_def e_def tmc_inv_def header_of_bytes_def)
  show ?thesis
  proof (cases fin)
    case True
    then have "complete_msg p (tmcCmdAnalize d1)"
      using r assms(8) by (intro analyse_write) (simp_all add: d1_def)
    then show ?thesis using cb True unfolding e_def [symmetric] by (simp add: d1_def e_def)
  next
    case False
    then have "partial_msg p d1" using r by (simp add: partial_msg_def d1_def)
    then show ?thesis using cb False unfolding e_def [symmetric] by (simp add: d1_def e_def)
  qed
qed

lemma receive_data:
  fixes d :: "'r usb_dev_scheme"
  assumes "partial_msg bs d" "packet_at (btable d) p m" "length bs + length p < 1024"
    "h_msgId (header_of_bytes bs) = 1"
  defines "fin \<equiv> unat (h_transferSize (header_of_bytes bs)) \<le> length bs + length p - 12"
  shows "\<exists>d'. EP1_OUT_Callback epr (d\<lparr>pma := m\<rparr>) = Some d' \<and> btable d' = btable d \<and>
           (if fin then complete_msg (bs @ p) d' else partial_msg (bs @ p) d')"
proof -
  define e where "e = d\<lparr>pma := m\<rparr>"
  define c where "c = GetEPRxCount 1 e"
  have bs: "12 \<le> length bs" "take (length bs) (tmcLayerRxBuffer d) = bs"
    "length (tmcLayerRxBuffer d) = 1024" "rxCount (gTmc d) = of_nat (length bs - 12)" "tmc_inv d"
    using assms(1) by (auto simp: partial_msg_def received_def) (simp add: tmc_inv_def)
  have o: "12 + rxCount (gTmc d) = of_nat (length bs)" using bs by (simp add: of_nat_diff)
  have u: "unat (of_nat (length bs) :: u32) = length bs" using assms(3) by (intro unat_of_nat_32) simp
  have c: "unat c = length p" using packet_copied(2) [OF assms(2), of 0 "replicate 1024 0"] assms(3)
    by (simp add: c_def e_def)
  obtain buf where buf: "PMAToUserBufferCopy (tmcLayerRxBuffer d) (length bs) ENDP1_RXADDR c e = Some (c, buf)"
    "length buf = 1024" "take (length bs + length p) buf = bs @ p"
    using packet_copied(1) [OF assms(2), of "length bs" "tmcLayerRxBuffer d"] assms(3) bs
    by (auto simp: c_def e_def)
  have cc: "(ucast c :: u32) = of_nat (length p)"
    using c by (metis of_nat_unat ucast_id unat_ucast_16_32)
  have n: "\<not> 1024 \<le> (of_nat (length bs) + ucast c :: u32)"
    using assms(3) unat_of_nat_32 [of "length bs + length p"] by (simp add: word_le_nat_alt cc)
  have h: "header_of_bytes (bs @ p) = header_of_bytes bs"
    using bs(1) by (intro header_of_bytes_take [of "length bs"]) auto
  have rc: "rxCount (gTmc d) + ucast c = of_nat (length bs + length p - 12)"
    using bs by (simp add: cc of_nat_diff)
  have fin: "h_transferSize (header_of_bytes bs) \<le> of_nat (length bs + length p - 12) \<longleftrightarrow> fin"
    using assms(3) unat_of_nat_32 [of "length bs + length p - 12"] by (simp add: word_le_nat_alt fin_def)
  define d0 where "d0 = tmc (\<lambda>t. t\<lparr>rxCount := rxCount t + ucast c\<rparr>) (e\<lparr>tmcLayerRxBuffer := buf\<rparr>)"
  define d1 where "d1 = (if fin then tmc (\<lambda>t. t\<lparr>rxFinished := True, rxState := TMC_IDLE,
      tmcLastError := TERR_NONE\<rparr>) d0 else d0)"
  have hd: "lastTmcBulkOutHeader (gTmc d) = header_of_bytes bs"
    using assms(1) by (simp add: partial_msg_def received_def)
  have d0: "rxCount (gTmc d0) = of_nat (length bs + length p - 12)"
    "lastTmcBulkOutHeader (gTmc d0) = header_of_bytes bs"
    using rc hd by (simp_all add: d0_def e_def)
  have ee: "12 + rxCount (gTmc e) = of_nat (length bs)" "tmcLayerRxBuffer e = tmcLayerRxBuffer d"
    using o by (simp_all add: e_def)
  have "receive_more e = Some (True, if h_transferSize (lastTmcBulkOutHeader (gTmc d0)) \<le> rxCount (gTmc d0)
      then tmc (\<lambda>t. t\<lparr>rxFinished := True, rxState := TMC_IDLE, tmcLastError := TERR_NONE\<rparr>) d0 else d0)"
    unfolding receive_more_def Let_def c_def [symmetric] ee u if_not_P [OF n] buf(1) d0_def by simp
  then have "receive_more e = Some (True, d1)" by (simp add: d0 fin d1_def)
  then have cb: "EP1_OUT_Callback epr e =
      Some (SetEPRxStatus epr 1 EP_RX_VALID (if fin then tmcCmdAnalize d1 else d1))"
    using assms(1) by (simp add: EP1_OUT_Callback_def partial_msg_def e_def) (simp add: d1_def d0_def e_def)
  have "(of_nat (length bs + length p) :: u32) < 1024"
    using assms(3) unat_of_nat_32 [of "length bs + length p"] by (simp add: word_less_nat_alt)
  then have r: "received (bs @ p) d1"
    using assms(1,3) bs buf rc
    by (simp add: received_def d1_def d0_def e_def tmc_inv_def partial_msg_def h)
  show ?thesis
  proof (cases fin)
    case True
    then have "complete_msg (bs @ p) (tmcCmdAnalize d1)"
      using r assms(4) h by (intro analyse_write) (simp_all add: d1_def)
    then show ?thesis using cb True unfolding e_def [symmetric] by (simp add: d1_def d0_def e_def)
  next
    case False
    then have "partial_msg (bs @ p) d1"
      using r assms(1) by (simp add: partial_msg_def d1_def d0_def e_def)
    then show ?thesis using cb False unfolding e_def [symmetric] by (simp add: d1_def d0_def e_def)
  qed
qed

lemma header_prefix: "12 \<le> length bs \<Longrightarrow> header_of_bytes (bs @ x) = header_of_bytes bs"
  by (rule header_of_bytes_take [of "length bs"]) auto

lemma receive_all:
  assumes "partial_msg bs d" "list_all2 (packet_at (btable d)) ps ms" "ps \<noteq> []"
    "length (bs @ concat ps) < 1024" "h_msgId (header_of_bytes bs) = 1"
    "length (bs @ concat (butlast ps)) < 12 + unat (h_transferSize (header_of_bytes bs))"
    "12 + unat (h_transferSize (header_of_bytes bs)) \<le> length (bs @ concat ps)"
  shows "\<exists>d'. handle_packets epr ms d = Some d' \<and> complete_msg (bs @ concat ps) d'"
  using assms
proof (induction ps arbitrary: bs d ms)
  case (Cons p ps)
  obtain m ms' where ms: "ms = m # ms'" "packet_at (btable d) p m" "list_all2 (packet_at (btable d)) ps ms'"
    using Cons.prems(2) by (auto simp: list_all2_Cons1)
  have bs: "12 \<le> length bs" using Cons.prems(1) by (simp add: partial_msg_def received_def)
  define fin where "fin = (unat (h_transferSize (header_of_bytes bs)) \<le> length bs + length p - 12)"
  obtain d1 where d1: "EP1_OUT_Callback epr (d\<lparr>pma := m\<rparr>) = Some d1" "btable d1 = btable d"
    "if fin then complete_msg (bs @ p) d1 else partial_msg (bs @ p) d1"
    using receive_data [OF Cons.prems(1) ms(2) _ Cons.prems(5), of epr] Cons.prems(4)
    unfolding fin_def by auto
  show ?case
  proof (cases "ps = []")
    case True
    then have "fin" using Cons.prems(7) bs by (simp add: fin_def)
    then show ?thesis using d1 ms True by simp
  next
    case False
    then have "\<not> fin" using Cons.prems(6) bs by (simp add: fin_def)
    then have "partial_msg (bs @ p) d1" using d1(3) by simp
    then show ?thesis
      using Cons.IH [of "bs @ p" d1 ms'] Cons.prems ms d1 False bs by (simp add: header_prefix)
  qed
qed simp

text \<open>C9: A message of the host - its header with the length of the data, the data, and bytes that pad the
  last packet - that arrives in packets, each but the last full as far as the first and no packet coming
  after the end of the data, is put together: the layer says that the host has written, and
  \<open>tmcGetDat\<close> hands over exactly the data.\<close>

theorem message_received:
  assumes "tmc_reach epr d" "rxState (gTmc d) = TMC_IDLE"
    and packets: "list_all2 (packet_at (btable d)) ps ms" "ps \<noteq> []" "length (concat ps) < 1024"
    and first: "12 \<le> length (hd ps)" "length (hd ps) \<le> 64" "tl ps \<noteq> [] \<longrightarrow> length (hd ps) = 64"
    and message: "concat ps = bytes_of_header h @ data @ padding"
      "length (concat (butlast ps)) < 12 + length data"
    and header: "length (h_reserved1 h) = 3" "unat (h_transferSize h) = length data" "h_msgId h = 1"
      "h_bTag h \<noteq> h_bTag (lastTmcBulkOutHeader (gTmc d))" "h_bTag h AND h_bTagInverse h = 0"
  shows "\<exists>d'. handle_packets epr ms d = Some d' \<and> rxFinished (gTmc d') \<and> hostWrite (gTmc d') \<and>
           tmcLastError (gTmc d') = TERR_NONE \<and>
           (\<forall>buffer bufSize. length data \<le> length buffer \<and> length data \<le> unat bufSize \<longrightarrow>
              tmcGetDat buffer bufSize d' =
                Some (h_transferSize h, data @ drop (length data) buffer, tmcRxFinishedClear d'))"
proof -
  obtain p ps' where ps: "ps = p # ps'" using packets(2) by (cases ps) auto
  obtain m ms' where ms: "ms = m # ms'" "packet_at (btable d) p m" "list_all2 (packet_at (btable d)) ps' ms'"
    using packets(1) ps by (auto simp: list_all2_Cons1)
  have h: "header_of_bytes (concat ps) = h" using message(1) header(1) by (simp add: header_bytes)
  then have hp: "header_of_bytes p = h"
    using header_prefix [of p "concat ps'"] first(1) ps by simp
  have tot: "12 + length data \<le> length (concat ps)" using message(1) header(1) by simp
  define fin where "fin = (length p < 64 \<or> h_transferSize h \<le> 52)"
  obtain d1 where d1: "EP1_OUT_Callback epr (d\<lparr>pma := m\<rparr>) = Some d1" "btable d1 = btable d"
    "if fin then complete_msg p d1 else partial_msg p d1"
    using receive_header [OF tmc_reach_inv [OF assms(1)] assms(2) ms(2), of epr] first header hp ps
    unfolding fin_def by auto
  have sz: "h_transferSize h \<le> 52 \<longleftrightarrow> length data \<le> 52"
    using header(2) by (simp add: word_le_nat_alt)
  obtain d' where d': "handle_packets epr ms d = Some d'" "complete_msg (concat ps) d'"
  proof (cases "ps' = []")
    case True
    then have "fin" using tot first(2) ps sz by (auto simp: fin_def)
    then show ?thesis using d1 ms True ps that by auto
  next
    case False
    then have "\<not> fin" using message(2) first(3) ps sz by (simp add: fin_def)
    then have "partial_msg p d1" using d1(3) by simp
    then show ?thesis
      using receive_all [of p d1 ps' ms' epr] d1 ms False ps message(2) header hp packets(3) tot that
      by auto
  qed
  have r: "take (length (concat ps)) (tmcLayerRxBuffer d') = concat ps"
    "length (tmcLayerRxBuffer d') = 1024" "lastTmcBulkOutHeader (gTmc d') = h"
    using d'(2) h by (auto simp: complete_msg_def received_def tmc_inv_def)
  have "take (length data) (drop 12 (tmcLayerRxBuffer d')) = data"
  proof -
    have "tmcLayerRxBuffer d' = concat ps @ drop (length (concat ps)) (tmcLayerRxBuffer d')"
      by (metis append_take_drop_id r(1))
    then have "tmcLayerRxBuffer d' = bytes_of_header h @ data @ padding @
        drop (length (concat ps)) (tmcLayerRxBuffer d')"
      using message(1) by (metis append.assoc)
    then have "drop 12 (tmcLayerRxBuffer d') = data @ padding @ drop (length (concat ps)) (tmcLayerRxBuffer d')"
      using header(1) by (metis append_eq_conv_conj length_header)
    then show ?thesis by simp
  qed
  then have "tmcGetDat buffer bufSize d' =
      Some (h_transferSize h, data @ drop (length data) buffer, tmcRxFinishedClear d')"
    if "length data \<le> length buffer" "length data \<le> unat bufSize" for buffer bufSize
    using that d'(2) r header(2) tot packets(3)
    by (simp add: tmcGetDat_def complete_msg_def word_less_nat_alt Let_def)
  then show ?thesis using d' by (auto simp: complete_msg_def received_def)
qed

text \<open>Packet memory that holds a packet for endpoint 1, with the buffer table at 0.\<close>

definition packet_memory :: "u8 list \<Rightarrow> nat \<Rightarrow> u16" where
  "packet_memory p = (\<lambda>i. if i = 7 then of_nat (length p)
     else if 76 \<le> i \<and> i < 76 + (length p + 1) div 2
     then ucast (p ! (2 * (i - 76))) OR push_bit 8 (ucast ((p @ [0]) ! (2 * (i - 76) + 1)))
     else 0)"

definition example_header :: tmc_header where
  "example_header = \<lparr>h_msgId = 1, h_bTag = 1, h_bTagInverse = 0xFE, h_reserved = 0, h_transferSize = 53,
     h_transferAttr = 1, h_reserved1 = [0, 0, 0]\<rparr>"

definition example_packets :: "u8 list list" where
  "example_packets = [bytes_of_header example_header @ replicate 52 42, [10, 0]]"

lemma message_received_witness:
  "\<exists>d'. handle_packets rm0008_epr (map packet_memory example_packets) usb_dev0 = Some d' \<and>
     tmcGetDat (replicate 60 0) 60 d' =
       Some (53, replicate 52 42 @ [10] @ replicate 7 0, tmcRxFinishedClear d')"
proof -
  have p: "list_all2 (packet_at 0) example_packets (map packet_memory example_packets)"
    by code_simp
  have "\<exists>d'. handle_packets rm0008_epr (map packet_memory example_packets) usb_dev0 = Some d' \<and>
      rxFinished (gTmc d') \<and> hostWrite (gTmc d') \<and> tmcLastError (gTmc d') = TERR_NONE \<and>
           (\<forall>buffer bufSize. length (replicate 52 42 @ [10 :: u8]) \<le> length buffer \<and>
              length (replicate 52 42 @ [10 :: u8]) \<le> unat bufSize \<longrightarrow>
              tmcGetDat buffer bufSize d' =
                Some (h_transferSize example_header, (replicate 52 42 @ [10]) @
                  drop (length (replicate 52 42 @ [10 :: u8])) buffer, tmcRxFinishedClear d'))"
    using p by (intro message_received [OF reach_usb_dev0, where ps = example_packets and padding = "[0]"])
      (simp_all add: usb_dev0_def gTmcLayerInfo_def zero_header_def example_packets_def example_header_def
        bytes_of_header_def bytes_of_word_def)
  then obtain d' where d: "handle_packets rm0008_epr (map packet_memory example_packets) usb_dev0 = Some d'"
    "\<forall>buffer bufSize. 53 \<le> length buffer \<and> 53 \<le> unat bufSize \<longrightarrow>
       tmcGetDat buffer bufSize d' = Some (53, replicate 52 42 @ [10] @ drop 53 buffer, tmcRxFinishedClear d')"
    by (auto simp: example_header_def)
  have "drop 53 (replicate 60 0 :: u8 list) = replicate 7 0" by simp
  then show ?thesis using d by simp
qed

section \<open>A length that is not true\<close>

text \<open>C15: A packet shorter than a full one completes a message whatever length its header claims, and
  \<open>tmcGetDat\<close> copies as many bytes as claimed: it reads behind the receive buffer exactly when the claim
  exceeds the 1012 bytes behind the header and the program's buffer is large enough for it.\<close>

theorem length_trusted:
  assumes "tmc_reach epr d" "rxState (gTmc d) = TMC_IDLE" "packet_at (btable d) p m"
    and "12 \<le> length p" "length p < 64"
    and "h_bTag (header_of_bytes p) \<noteq> h_bTag (lastTmcBulkOutHeader (gTmc d))"
      "h_bTag (header_of_bytes p) AND h_bTagInverse (header_of_bytes p) = 0"
      "h_msgId (header_of_bytes p) = 1"
    and "length buffer = unat bufSize"
  defines "n \<equiv> h_transferSize (header_of_bytes p)"
  shows "\<exists>d'. EP1_OUT_Callback epr (d\<lparr>pma := m\<rparr>) = Some d' \<and> rxFinished (gTmc d') \<and>
           (tmcGetDat buffer bufSize d' = None \<longleftrightarrow> 1012 < n \<and> n \<le> bufSize) \<and>
           (n \<le> 1012 \<and> n \<le> bufSize \<longrightarrow> tmcGetDat buffer bufSize d' =
              Some (n, take (unat n) (drop 12 (tmcLayerRxBuffer d')) @ drop (unat n) buffer,
                    tmcRxFinishedClear d'))"
proof -
  obtain d' where d': "EP1_OUT_Callback epr (d\<lparr>pma := m\<rparr>) = Some d'" "complete_msg p d'"
    using receive_header [OF tmc_reach_inv [OF assms(1)] assms(2-4) _ assms(6-8), of epr] assms(5) by auto
  then have c: "rxFinished (gTmc d')" "lastTmcBulkOutHeader (gTmc d') = header_of_bytes p"
    "length (tmcLayerRxBuffer d') = 1024"
    by (simp_all add: complete_msg_def received_def tmc_inv_def)
  have g: "tmcGetDat buffer bufSize d' =
      (if bufSize < n then Some (n, buffer, tmcRxFinishedClear d')
       else if unat n \<le> 1012
       then Some (n, take (unat n) (drop 12 (tmcLayerRxBuffer d')) @ drop (unat n) buffer,
                  tmcRxFinishedClear d')
       else None)"
    using c assms(9) by (simp add: tmcGetDat_def n_def Let_def word_less_nat_alt not_less)
  have "unat n \<le> 1012 \<longleftrightarrow> n \<le> 1012" by (simp add: word_le_nat_alt)
  then show ?thesis using d'(1) c(1) g by (auto simp: not_less not_le)
qed

lemma length_trusted_witness:
  "\<exists>d'. EP1_OUT_Callback rm0008_epr
      (usb_dev0\<lparr>pma := packet_memory [1, 1, 0xFE, 0, 0xF5, 3, 0, 0, 1, 0, 0, 0]\<rparr>) = Some d' \<and>
     tmcGetDat (replicate 1024 0) 1024 d' = None"
proof -
  have p: "packet_at (btable usb_dev0) [1, 1, 0xFE, 0, 0xF5, 3, 0, 0, 1, 0, 0, 0]
      (packet_memory [1, 1, 0xFE, 0, 0xF5, 3, 0, 0, 1, 0, 0, 0])"
    by code_simp
  have h: "header_of_bytes [1, 1, 0xFE, 0, 0xF5, 3, 0, 0, 1, 0, 0, 0] =
     \<lparr>h_msgId = 1, h_bTag = 1, h_bTagInverse = 0xFE, h_reserved = 0, h_transferSize = 0x3F5,
     h_transferAttr = 1, h_reserved1 = [0, 0, 0]\<rparr>"
    by code_simp
  show ?thesis
    using length_trusted [OF reach_usb_dev0 _ p, of "replicate 1024 0" 1024 rm0008_epr]
    by (auto simp: h usb_dev0_def gTmcLayerInfo_def zero_header_def)
qed

section \<open>Sending\<close>

fun chunks :: "nat \<Rightarrow> 'a list \<Rightarrow> 'a list list" where
  "chunks n xs = (if xs = [] \<or> n = 0 then [] else take n xs # chunks n (drop n xs))"

declare chunks.simps [simp del]

lemma chunks_Nil [simp]: "chunks n [] = []"
  by (simp add: chunks.simps [of n "[]"])

lemma concat_chunks: "0 < n \<Longrightarrow> concat (chunks n xs) = xs"
  by (induction n xs rule: chunks.induct) (simp add: chunks.simps [of n xs for n xs])

text \<open>What the peripheral is set up to for endpoint 2 by \<open>TMC_Reset\<close>, and what a packet does.\<close>

definition tx_ready :: "'r usb_dev_scheme \<Rightarrow> bool" where
  "tx_ready d = (tmc_inv d \<and> btable d = 0 \<and> pma d 8 = ENDP2_TXADDR)"

lemma tx_ready_EP2_IN [simp]: "tx_ready (EP2_IN_Callback d) = tx_ready d"
  by (simp add: tx_ready_def EP2_IN_Callback_def)

lemma send_packet_sends:
  assumes "tx_ready d" "i + n \<le> length src" "off + n \<le> 64"
  shows "\<exists>d'. send_packet epr src off i n d = Some d' \<and> tx_ready d' \<and>
           bulk_in d' = bulk_in d @ [take off (tmcLayerTxBuffer d) @ take n (drop i src)] \<and>
           gTmc d' = (gTmc d)\<lparr>txCount := txCount (gTmc d) + of_nat n\<rparr> \<and>
           usb_stdout d' = usb_stdout d \<and> \<not> gTxFinished d'"
proof -
  define tx where "tx = take off (tmcLayerTxBuffer d) @ take n (drop i src) @
    drop (off + n) (tmcLayerTxBuffer d)"
  define e where "e = d\<lparr>tmcLayerTxBuffer := tx, gTxFinished := False\<rparr>"
  define k where "k = off + n"
  have l: "length tx = 64" "take k tx = take off (tmcLayerTxBuffer d) @ take n (drop i src)"
    using assms by (simp_all add: tx_def k_def tx_ready_def tmc_inv_def)
  have "k \<le> 64" using assms(3) by (simp add: k_def)
  then have k: "unat (of_nat k :: u16) = k" "k \<le> 64"
    by (simp_all add: unat_of_nat take_bit_eq_mod)
  have "(k + 1) div 2 < 33" using k(2) by (simp add: less_mult_imp_div_less)
  then have "2 * ((k + 1) div 2) \<le> 64" by linarith
  then have "2 * ((k + 1) div 2) \<le> length tx" using l(1) by simp
  then obtain m where m: "copy_to_pma tx 140 ((k + 1) div 2) (pma e) = Some m"
    "pma_bytes m 140 ((k + 1) div 2) = take (2 * ((k + 1) div 2)) tx"
    "\<forall>j. j < 140 \<or> 140 + (k + 1) div 2 \<le> j \<longrightarrow> m j = pma e j"
    using copy_to_pma_bytes [of "(k + 1) div 2" tx 140 "pma e"] by blast
  define f where "f = SetEPTxCount 2 (of_nat k) (e\<lparr>pma := m\<rparr>)"
  have u: "UserToPMABufferCopy tx 2 ENDP2_TXADDR (of_nat k) e = Some (of_nat k, f)"
    using m(1) k(1) by (simp add: UserToPMABufferCopy_def f_def)
  have f: "pma f = m(9 := of_nat k)" "btable f = 0"
    using assms(1) by (simp_all add: f_def SetEPTxCount_def pma_put_def pEPTxCount_def e_def tx_ready_def)
  define g where "g = SetEPTxValid epr 2 (tmc (\<lambda>t. t\<lparr>txCount := txCount t + of_nat n\<rparr>) f)"
  have g: "pma g = m(9 := of_nat k)" "btable g = 0"
    using f by (simp_all add: g_def SetEPTxValid_def)
  have "(of_nat k :: u16) AND 0x3FF = of_nat k"
  proof -
    have "(of_nat k :: u16) AND mask 10 = take_bit 10 (of_nat k)" by (simp add: take_bit_eq_mask)
    also have "\<dots> = of_nat k"
      using k by (intro word_unat_eq_iff [THEN iffD2]) (simp add: take_bit_eq_mod unat_mod)
    finally show ?thesis by (simp add: mask_eq_exp_minus_1)
  qed
  then have c: "unat (GetEPTxCount 2 g) = k"
    using g k by (simp add: GetEPTxCount_def pEPTxCount_def)
  have a: "GetEPTxAddr 2 g = ENDP2_TXADDR"
    using g m(3) assms(1) by (simp add: GetEPTxAddr_def pEPTxAddr_def e_def tx_ready_def)
  have "pma_bytes (pma g) 140 ((k + 1) div 2) = take (2 * ((k + 1) div 2)) tx"
    using m(2) pma_bytes_cong [of 140 "(k + 1) div 2" "pma g" m] g(1) by simp
  moreover have "k \<le> 2 * ((k + 1) div 2)" by presburger
  ultimately have t: "tx_packet 2 g = take k tx"
    using c a by (simp add: tx_packet_def min_def)
  have s: "send_packet epr src off i n d = Some (g\<lparr>bulk_in := bulk_in g @ [tx_packet 2 g]\<rparr>)"
    using assms u unfolding send_packet_def hand_over_def Let_def g_def e_def tx_def k_def
    by (simp add: tx_ready_def tmc_inv_def)
  have fe: "gTmc f = gTmc d" "bulk_in f = bulk_in d" "usb_stdout f = usb_stdout d"
    "tmcLayerTxBuffer f = tx" "tmcLayerRxBuffer f = tmcLayerRxBuffer d" "\<not> gTxFinished f"
    by (simp_all add: f_def SetEPTxCount_def pma_put_def e_def)
  have "tmc_inv g" using assms(1) l(1) fe by (simp add: g_def SetEPTxValid_def tx_ready_def tmc_inv_def)
  moreover have "pma g 8 = ENDP2_TXADDR" using g m(3) assms(1) by (simp add: e_def tx_ready_def)
  ultimately show ?thesis
    using s t l(2) g(2) fe by (simp add: tx_ready_def g_def SetEPTxValid_def)
qed

lemma chunks_pieces:
  assumes "length xs = 64 * n + r" "r < 64"
  shows "chunks 64 xs = map (\<lambda>j. take 64 (drop (64 * j) xs)) [0..<n] @
           (if r = 0 then [] else [take r (drop (64 * n) xs)])"
  using assms
proof (induction n arbitrary: xs)
  case 0
  then show ?case by (cases "xs = []") (auto simp: chunks.simps [of 64 xs])
next
  case (Suc n)
  then have "xs \<noteq> []" by auto
  then have "chunks 64 xs = take 64 xs # chunks 64 (drop 64 xs)" by (simp add: chunks.simps [of 64 xs])
  moreover have "chunks 64 (drop 64 xs) = map (\<lambda>j. take 64 (drop (64 * j) (drop 64 xs))) [0..<n] @
      (if r = 0 then [] else [take r (drop (64 * n) (drop 64 xs))])"
    using Suc.prems by (intro Suc.IH) simp_all
  moreover have "[0..<Suc n] = 0 # map Suc [0..<n]" by (simp only: upt_conv_Cons map_Suc_upt zero_less_Suc)
  ultimately show ?case by (simp add: add.commute)
qed

definition sends :: "u8 list list \<Rightarrow> 'r usb_dev_scheme \<Rightarrow> 'r usb_dev_scheme \<Rightarrow> bool" where
  "sends ps d d' = (tx_ready d' \<and> bulk_in d' = bulk_in d @ ps \<and> usb_stdout d' = usb_stdout d \<and>
     txState (gTmc d') = txState (gTmc d) \<and> lastTmcBulkOutHeader (gTmc d') = lastTmcBulkOutHeader (gTmc d) \<and>
     lastTmcBulkInHeader (gTmc d') = lastTmcBulkInHeader (gTmc d))"

lemma tmc_inv_tx_state [simp]:
  "tmc_inv (tmc (\<lambda>t. t\<lparr>txFinished := b, txState := st\<rparr>) d) = tmc_inv d"
  by (simp add: tmc_inv_def)

lemma tmc_inv_tx:
  "tmc_inv d \<Longrightarrow> length (tmcLayerTxBuffer d) = 64"
  "tmc_inv d \<Longrightarrow> length b = 64 \<Longrightarrow> tmc_inv (d\<lparr>tmcLayerTxBuffer := b\<rparr>)"
  by (simp_all add: tmc_inv_def)

lemma sends_trans: "sends ps d d' \<Longrightarrow> sends qs d' d'' \<Longrightarrow> sends (ps @ qs) d d''"
  by (simp add: sends_def)

lemma sends_wait: "wait_tx obs d = Some (ok, obs', d') \<Longrightarrow> tx_ready d \<Longrightarrow> sends [] d d'"
  using wait_tx_sets [of obs d ok obs' d'] by (auto simp: sends_def EP2_IN_Callback_def tx_ready_def)

lemma sends_packet:
  assumes "tx_ready d" "i + n \<le> length src" "n \<le> 64"
  shows "\<exists>d'. send_packet epr src 0 i n d = Some d' \<and> sends [take n (drop i src)] d d'"
  using send_packet_sends [OF assms(1,2), of 0 epr] assms(3) by (auto simp: sends_def)

lemma wait_prompt: "wait_tx ((t, True) # obs) d = Some (True, obs, EP2_IN_Callback d)"
  by (cases obs) (simp_all add: wait_tx_loop_obs EP2_IN_Callback_def wait_tx_loop.simps)

lemma send_full_sends:
  assumes "tx_ready d" "i + 64 * n \<le> length src"
  shows "send_full epr src n i obs d = Some (e, i', obs', d') \<Longrightarrow>
           (\<exists>k\<le>n. sends (map (\<lambda>j. take 64 (drop (i + 64 * j) src)) [0..<k]) d d' \<and>
              (e = 0 \<longleftrightarrow> k = n) \<and> (e = 0 \<longrightarrow> i' = i + 64 * n))"
    and "list_all snd obs \<Longrightarrow> n \<le> length obs \<Longrightarrow>
           \<exists>i' d'. send_full epr src n i obs d = Some (0, i', drop n obs, d')"
  using assms
proof (induction n arbitrary: i obs d)
  case (Suc n)
  have sh: "map (\<lambda>j. take 64 (drop (i + 64 * j) src)) [0..<Suc k] =
      take 64 (drop i src) # map (\<lambda>j. take 64 (drop ((i + 64) + 64 * j) src)) [0..<k]" for i k
    by (simp only: upt_conv_Cons [OF zero_less_Suc] map_Suc_upt [symmetric] list.map list.map_comp)
      (simp add: comp_def add.assoc)
  {
    case 1
    obtain ok obs1 d1 where w: "wait_tx obs d = Some (ok, obs1, d1)"
      using 1 by (auto split: option.splits)
    have s1: "sends [] d d1" by (rule sends_wait [OF w 1(2)])
    show ?case
    proof (cases ok)
      case False
      then show ?thesis using 1 w s1 by (intro exI [of _ 0]) auto
    next
      case True
      have "tx_ready d1" using s1 by (simp add: sends_def)
      then obtain d2 where d2: "send_packet epr src 0 i 64 d1 = Some d2" "sends [take 64 (drop i src)] d1 d2"
        using sends_packet [of d1 i 64 src epr] 1(3) by auto
      then obtain k where k: "k \<le> n"
        "sends (map (\<lambda>j. take 64 (drop ((i + 64) + 64 * j) src)) [0..<k]) d2 d'"
        "e = 0 \<longleftrightarrow> k = n" "e = 0 \<longrightarrow> i' = (i + 64) + 64 * n"
        using Suc.IH(1) [of "i + 64" obs1 d2] 1 w True by (auto simp: sends_def)
      have "sends (map (\<lambda>j. take 64 (drop (i + 64 * j) src)) [0..<Suc k]) d d'"
        by (subst sh) (use sends_trans [OF s1 sends_trans [OF d2(2) k(2)]] in simp)
      then show ?thesis using k by (intro exI [of _ "Suc k"]) (simp del: upt_Suc)
    qed
  next
    case 2
    then obtain t obs1 where o: "obs = (t, True) # obs1" by (cases obs) auto
    have "sends [] d (EP2_IN_Callback d)" by (rule sends_wait [OF wait_prompt 2(3)])
    then obtain d2 where "send_packet epr src 0 i 64 (EP2_IN_Callback d) = Some d2" "tx_ready d2"
      using sends_packet [of "EP2_IN_Callback d" i 64 src epr] 2(3,4) by (auto simp: sends_def)
    then show ?case
      using Suc.IH(2) [of obs1 d2 "i + 64"] 2 by (simp add: o wait_prompt del: wait_tx.simps)
  }
qed (auto simp: sends_def)

lemma send_rest_sends:
  fixes d :: "'r usb_dev_scheme"
  assumes "tx_ready d" "i \<le> x" "x \<le> length src" "x < 64 * 65536" "txState (gTmc d) = TMC_IDLE"
  defines "cs \<equiv> chunks 64 (take (x - i) (drop i src))"
  shows "send_rest epr src x i i obs d = Some (e, obs', d') \<Longrightarrow>
           \<exists>k\<le>length cs. sends (take k cs) d d' \<and> (e = 0 \<longleftrightarrow> k = length cs)"
    and "list_all snd obs \<Longrightarrow> length cs \<le> length obs \<Longrightarrow>
           \<exists>obs' d'. send_rest epr src x i i obs d = Some (0, obs', d')"
proof -
  define n where "n = (x - i) div 64"
  define r where "r = (x - i) mod 64"
  have nr: "x - i = 64 * n + r" "r < 64" by (simp_all add: n_def r_def)
  have nm: "(x - i) div 64 mod 65536 = n" using assms(4) by (simp add: n_def div_less_iff_less_mult less_mult_imp_div_less)
  have le: "i + 64 * n \<le> length src" "i + 64 * n + r \<le> length src" using nr assms(2,3) by linarith+
  have cs: "cs = map (\<lambda>j. take 64 (drop (i + 64 * j) src)) [0..<n] @
      (if r = 0 then [] else [take r (drop (i + 64 * n) src)])"
  proof -
    have "take 64 (drop (64 * j) (take (x - i) (drop i src))) = take 64 (drop (i + 64 * j) src)" if "j < n" for j
    proof -
      have "64 * j + 64 \<le> x - i" using that nr(1) by linarith
      then show ?thesis by (simp add: drop_take min_def add.commute)
    qed
    moreover have "take r (drop (64 * n) (take (x - i) (drop i src))) = take r (drop (i + 64 * n) src)"
      using nr(1) by (simp add: drop_take add.commute)
    ultimately show ?thesis
      using chunks_pieces [of "take (x - i) (drop i src)" n r] nr le assms(2,3)
      by (simp add: cs_def cong: map_cong)
  qed
  have idle: "sends ps a b \<Longrightarrow> txState (gTmc a) = TMC_IDLE \<Longrightarrow>
      sends ps a (tmc (\<lambda>t. t\<lparr>txFinished := False, txState := TMC_IDLE\<rparr>) b)"
    for ps and a b :: "'r usb_dev_scheme"
    by (simp add: sends_def tx_ready_def)
  {
    assume a: "send_rest epr src x i i obs d = Some (e, obs', d')"
    obtain e1 i1 o1 d1 where f: "send_full epr src n i obs d = Some (e1, i1, o1, d1)"
      using a nm by (auto simp: send_rest_def Let_def split: option.splits)
    then obtain k where k: "k \<le> n" "sends (map (\<lambda>j. take 64 (drop (i + 64 * j) src)) [0..<k]) d d1"
      "e1 = 0 \<longleftrightarrow> k = n" "e1 = 0 \<longrightarrow> i1 = i + 64 * n"
      using send_full_sends(1) [OF assms(1) le(1), of epr obs] by auto
    have tk: "take k cs = map (\<lambda>j. take 64 (drop (i + 64 * j) src)) [0..<k]"
      using k(1) by (simp add: cs take_map min_def)
    show "\<exists>k\<le>length cs. sends (take k cs) d d' \<and> (e = 0 \<longleftrightarrow> k = length cs)"
    proof (cases "e1 = 0")
      case False
      then have "e = e1" "d' = d1" using a f nm by (simp_all add: send_rest_def Let_def)
      then show ?thesis using k False tk by (intro exI [of _ k]) (simp add: cs)
    next
      case e1: True
      then have k': "sends (map (\<lambda>j. take 64 (drop (i + 64 * j) src)) [0..<n]) d d1" "i1 = i + 64 * n"
        using k by simp_all
      show ?thesis
      proof (cases "r = 0")
        case True
        then have "e = 0" "d' = tmc (\<lambda>t. t\<lparr>txFinished := False, txState := TMC_IDLE\<rparr>) d1"
          using a f e1 nm by (simp_all add: send_rest_def Let_def r_def)
        then show ?thesis using idle [OF k'(1) assms(5)] True by (intro exI [of _ "length cs"]) (simp add: cs)
      next
        case False
        obtain ok o2 d2 where w: "wait_tx o1 d1 = Some (ok, o2, d2)"
          using a f e1 nm False by (auto simp: send_rest_def Let_def r_def split: option.splits)
        have s2: "sends [] d1 d2" using sends_wait [OF w] k'(1) by (simp add: sends_def)
        show ?thesis
        proof (cases ok)
          case False': False
          then have "e = 3" "d' = d2" using a f e1 nm w False by (simp_all add: send_rest_def Let_def r_def)
          then show ?thesis using sends_trans [OF k'(1) s2] False by (intro exI [of _ n]) (simp add: cs)
        next
          case True
          have "tx_ready d2" using s2 by (simp add: sends_def)
          then obtain d3 where d3: "send_packet epr src 0 (i + 64 * n) r d2 = Some d3"
            "sends [take r (drop (i + 64 * n) src)] d2 d3"
            using sends_packet [of d2 "i + 64 * n" r src epr] le nr(2) by auto
          then have "e = 0" "d' = tmc (\<lambda>t. t\<lparr>txFinished := False, txState := TMC_IDLE\<rparr>) d3"
            using a f e1 nm w False True k'(2) by (simp_all add: send_rest_def Let_def flip: r_def)
          then show ?thesis
            using idle [OF sends_trans [OF k'(1) sends_trans [OF s2 d3(2)]] assms(5)] False
            by (intro exI [of _ "length cs"]) (simp add: cs)
        qed
      qed
    qed
  }
  assume o: "list_all snd obs" "length cs \<le> length obs"
  then have "n \<le> length obs" by (simp add: cs split: if_splits)
  then obtain i1 d1 where f: "send_full epr src n i obs d = Some (0, i1, drop n obs, d1)"
    using send_full_sends(2) [OF assms(1) le(1) o(1)] by blast
  then have i1: "i1 = i + 64 * n" "tx_ready d1"
    using send_full_sends(1) [OF assms(1) le(1) f] by (auto simp: sends_def)
  show "\<exists>obs' d'. send_rest epr src x i i obs d = Some (0, obs', d')"
  proof (cases "r = 0")
    case True
    then show ?thesis using f nm by (simp add: send_rest_def Let_def r_def)
  next
    case False
    then have "n < length obs" using o(2) by (simp add: cs)
    then obtain t where t: "drop n obs = (t, True) # drop (Suc n) obs"
      using o(1) by (cases "obs ! n") (auto simp: Cons_nth_drop_Suc [symmetric] list_all_length)
    have "tx_ready (EP2_IN_Callback d1)" using i1(2) by simp
    then obtain d3 where "send_packet epr src 0 (i + 64 * n) r (EP2_IN_Callback d1) = Some d3"
      using sends_packet [of _ "i + 64 * n" r src epr] le nr(2) by fastforce
    then show ?thesis using f nm i1(1) t False wait_prompt [of t "drop (Suc n) obs" d1]
      by (simp add: send_rest_def Let_def del: wait_tx.simps flip: r_def)
  qed
qed

definition answer_header :: "'r usb_dev_scheme \<Rightarrow> tmc_header" where
  "answer_header d = (lastTmcBulkInHeader (gTmc d))\<lparr>h_transferAttr := 1, h_reserved1 := [0, 0, 0]\<rparr>"

lemma send_first_eq:
  assumes "wait_tx obs (tmc (\<lambda>t. t\<lparr>txFinished := False, lastTmcBulkInHeader :=
      (lastTmcBulkInHeader t)\<lparr>h_transferAttr := 1, h_reserved1 := [0, 0, 0]\<rparr>\<rparr>) d) = Some (True, o2, d2)"
    "x = min bufLen (unat (h_transferSize (lastTmcBulkOutHeader (gTmc d2))))" "i = min x 52"
    "send_packet epr src 12 0 i (d2\<lparr>tmcLayerTxBuffer :=
        bytes_of_header (lastTmcBulkInHeader (gTmc d2)) @ drop 12 (tmcLayerTxBuffer d2)\<rparr>) = Some d3"
  shows "send_first epr src bufLen obs d = send_rest epr src x i i o2 d3"
proof -
  have x: "(if bufLen < unat (h_transferSize (lastTmcBulkOutHeader (gTmc d2))) then bufLen
        else unat (h_transferSize (lastTmcBulkOutHeader (gTmc d2)))) = x"
    using assms(2) by simp
  have g: "gTmc (d2\<lparr>tmcLayerTxBuffer := b\<rparr>) = gTmc d2" for b by simp
  show ?thesis
    unfolding send_first_def Let_def assms(1) option.case prod.case not_True_eq_False if_False
      g x assms(3) [symmetric] assms(4) ..
qed

lemma send_first_sends:
  fixes d :: "'r usb_dev_scheme"
  assumes "tx_ready d" "txState (gTmc d) = TMC_IDLE" "bufLen \<le> length src" "bufLen < 64 * 65536"
  defines "x \<equiv> min bufLen (unat (h_transferSize (lastTmcBulkOutHeader (gTmc d))))"
  defines "cs \<equiv> chunks 64 (bytes_of_header (answer_header d) @ take x src)"
  shows "send_first epr src bufLen obs d = Some (e, obs', d') \<Longrightarrow>
           \<exists>k\<le>length cs. bulk_in d' = bulk_in d @ take k cs \<and> usb_stdout d' = usb_stdout d \<and>
              (e = 0 \<longleftrightarrow> k = length cs)"
    and "list_all snd obs \<Longrightarrow> length cs \<le> length obs \<Longrightarrow>
           \<exists>obs' d'. send_first epr src bufLen obs d = Some (0, obs', d')"
proof -
  define d1 where "d1 = tmc (\<lambda>t. t\<lparr>txFinished := False,
      lastTmcBulkInHeader := (lastTmcBulkInHeader t)\<lparr>h_transferAttr := 1, h_reserved1 := [0, 0, 0]\<rparr>\<rparr>) d"
  define hdr where "hdr = bytes_of_header (answer_header d)"
  define i where "i = min x 52"
  have hdr: "length hdr = 12" by (simp add: hdr_def answer_header_def)
  have d1: "tx_ready d1" "txState (gTmc d1) = TMC_IDLE" "bulk_in d1 = bulk_in d"
    "usb_stdout d1 = usb_stdout d" "bytes_of_header (lastTmcBulkInHeader (gTmc d1)) = hdr"
    "lastTmcBulkOutHeader (gTmc d1) = lastTmcBulkOutHeader (gTmc d)"
    using assms(1,2) by (simp_all add: d1_def tx_ready_def tmc_inv_def hdr_def answer_header_def)
  have xi: "i \<le> x" "x \<le> length src" "x < 64 * 65536" "i \<le> 52"
    using assms(3,4) by (auto simp: i_def x_def)
  have cs: "cs = (hdr @ take i src) # chunks 64 (take (x - i) (drop i src))"
  proof -
    have "take 64 (hdr @ take x src) = hdr @ take i src" "drop 64 (hdr @ take x src) = take (x - i) (drop i src)"
      using hdr xi by (auto simp: i_def drop_take min_def)
    moreover have "hdr @ take x src \<noteq> []" using hdr by auto
    ultimately show ?thesis by (simp add: cs_def chunks.simps [of 64 "hdr @ _"] flip: hdr_def)
  qed
  have first: "\<exists>d3. send_packet epr src 12 0 i (d2\<lparr>tmcLayerTxBuffer :=
        bytes_of_header (lastTmcBulkInHeader (gTmc d2)) @ drop 12 (tmcLayerTxBuffer d2)\<rparr>) = Some d3 \<and>
      sends [hdr @ take i src] d1 d3" if "sends [] d1 d2" for d2
  proof -
    define e where "e = d2\<lparr>tmcLayerTxBuffer :=
        bytes_of_header (lastTmcBulkInHeader (gTmc d2)) @ drop 12 (tmcLayerTxBuffer d2)\<rparr>"
    have h: "bytes_of_header (lastTmcBulkInHeader (gTmc d2)) = hdr"
      using that d1 by (simp add: sends_def)
    have "tx_ready e" using that hdr h by (simp add: e_def sends_def tx_ready_def tmc_inv_tx)
    then obtain d3 where d3: "send_packet epr src 12 0 i e = Some d3" "tx_ready d3"
      "bulk_in d3 = bulk_in e @ [take 12 (tmcLayerTxBuffer e) @ take i src]"
      "gTmc d3 = (gTmc e)\<lparr>txCount := txCount (gTmc e) + of_nat i\<rparr>" "usb_stdout d3 = usb_stdout e"
      using send_packet_sends [of e 0 i src 12 epr] xi by auto
    then have "sends [hdr @ take i src] d1 d3"
      using that hdr h by (simp add: sends_def e_def)
    then show ?thesis using d3(1) by (auto simp: e_def)
  qed
  {
    assume a: "send_first epr src bufLen obs d = Some (e, obs', d')"
    obtain ok o2 d2 where w: "wait_tx obs d1 = Some (ok, o2, d2)"
      using a by (auto simp: send_first_def Let_def d1_def split: option.splits)
    have s2: "sends [] d1 d2" by (rule sends_wait [OF w d1(1)])
    have lo: "lastTmcBulkOutHeader (gTmc d2) = lastTmcBulkOutHeader (gTmc d)"
      using s2 d1 by (simp add: sends_def)
    obtain d3 where d3: "send_packet epr src 12 0 i (d2\<lparr>tmcLayerTxBuffer :=
        bytes_of_header (lastTmcBulkInHeader (gTmc d2)) @ drop 12 (tmcLayerTxBuffer d2)\<rparr>) = Some d3"
      "sends [hdr @ take i src] d1 d3"
      using first [OF s2] by blast
    have r3: "tx_ready d3" "txState (gTmc d3) = TMC_IDLE" using d3(2) d1 by (simp_all add: sends_def)
    show "\<exists>k\<le>length cs. bulk_in d' = bulk_in d @ take k cs \<and> usb_stdout d' = usb_stdout d \<and>
              (e = 0 \<longleftrightarrow> k = length cs)"
    proof (cases ok)
      case False
      then have "e = 1" "d' = d2" using a w by (simp_all add: send_first_def Let_def flip: d1_def)
      then show ?thesis using s2 d1 by (intro exI [of _ 0]) (simp add: sends_def cs)
    next
      case True
      then have "send_rest epr src x i i o2 d3 = Some (e, obs', d')"
        using a w send_first_eq [of obs d o2 d2 x bufLen i epr src d3, folded d1_def] lo d3(1)
        by (simp add: x_def i_def)
      then obtain k where k: "k \<le> length (chunks 64 (take (x - i) (drop i src)))"
        "sends (take k (chunks 64 (take (x - i) (drop i src)))) d3 d'"
        "e = 0 \<longleftrightarrow> k = length (chunks 64 (take (x - i) (drop i src)))"
        using send_rest_sends(1) [OF r3(1) xi(1-3) r3(2)] by blast
      then show ?thesis
        using sends_trans [OF d3(2) k(2)] d1 by (intro exI [of _ "Suc k"]) (simp add: cs sends_def)
    qed
  }
  assume o: "list_all snd obs" "length cs \<le> length obs"
  then obtain t obs1 where t: "obs = (t, True) # obs1" "list_all snd obs1"
    "length (chunks 64 (take (x - i) (drop i src))) \<le> length obs1"
    by (cases obs) (auto simp: cs)
  have w: "wait_tx obs d1 = Some (True, obs1, EP2_IN_Callback d1)" unfolding t(1) by (rule wait_prompt)
  have s2: "sends [] d1 (EP2_IN_Callback d1)" by (rule sends_wait [OF w d1(1)])
  obtain d3 where d3: "send_packet epr src 12 0 i ((EP2_IN_Callback d1)\<lparr>tmcLayerTxBuffer :=
        bytes_of_header (lastTmcBulkInHeader (gTmc (EP2_IN_Callback d1))) @
        drop 12 (tmcLayerTxBuffer (EP2_IN_Callback d1))\<rparr>) = Some d3"
      "sends [hdr @ take i src] d1 d3"
      using first [OF s2] by blast
  have r3: "tx_ready d3" "txState (gTmc d3) = TMC_IDLE" using d3(2) d1 by (simp_all add: sends_def)
  have lo: "lastTmcBulkOutHeader (gTmc (EP2_IN_Callback d1)) = lastTmcBulkOutHeader (gTmc d)"
    using s2 d1 by (simp add: sends_def)
  obtain o3 d4 where "send_rest epr src x i i obs1 d3 = Some (0, o3, d4)"
    using send_rest_sends(2) [OF r3(1) xi(1-3) r3(2) t(2,3)] by blast
  then show "\<exists>obs' d'. send_first epr src bufLen obs d = Some (0, obs', d')"
    using w send_first_eq [of obs d obs1 "EP2_IN_Callback d1" x bufLen i epr src d3, folded d1_def] lo d3(1)
    by (simp add: x_def i_def)
qed

text \<open>C10: What \<open>tmcSendDat\<close> hands to the peripheral are packets of 64 bytes, the last one shorter, that
  together are the header of the answer and the user's data, as far as the host asked for it.  When the
  host does not take a packet in time, these are the first packets, and the timeout is reported; when
  each packet is taken in time, they are all.\<close>

theorem answer_sent:
  fixes d :: "'r usb_dev_scheme"
  assumes "tx_ready d" "txState (gTmc d) = TMC_IDLE" "0 < bufLen" "bufLen \<le> length src"
    "bufLen < 64 * 65536"
  defines "packets \<equiv> chunks 64 (bytes_of_header (answer_header d) @
      take (min bufLen (unat (h_transferSize (lastTmcBulkOutHeader (gTmc d))))) src)"
  shows "(\<forall>r obs' d'. tmcSendDat epr src bufLen obs d = Some (r, obs', d') \<longrightarrow>
            (\<exists>k\<le>length packets. bulk_in d' = bulk_in d @ take k packets \<and>
               (if k = length packets then usb_stdout d' = usb_stdout d
                else \<exists>e. usb_stdout d' = usb_stdout d @ [Printf (''%s:%d --> Timeout ID=%d'' @ [CHR 0x0A])
                           [Str ''tmcSendDat'', Num 280, Num e]]))) \<and>
         (list_all snd obs \<and> length packets \<le> length obs \<longrightarrow>
            (\<exists>r obs' d'. tmcSendDat epr src bufLen obs d = Some (r, obs', d') \<and>
               bulk_in d' = bulk_in d @ packets \<and> usb_stdout d' = usb_stdout d))"
proof -
  note s = send_first_sends [OF assms(1,2,4,5), folded packets_def]
  have t: "tmcSendDat epr src bufLen obs d =
      (case send_first epr src bufLen obs d of None \<Rightarrow> None
       | Some (errId, obs, d) \<Rightarrow> Some (txCount (gTmc d), obs,
                 if errId = 0 then d
                 else d\<lparr>usb_stdout := usb_stdout d @
                        [Printf (''%s:%d --> Timeout ID=%d'' @ [CHR 0x0A])
                           [Str ''tmcSendDat'', Num 280, Num (int errId)]]\<rparr>))" for obs
    using assms(2,3) by (simp add: tmcSendDat_def)
  show ?thesis
  proof (intro conjI allI impI)
    fix r obs' d' assume "tmcSendDat epr src bufLen obs d = Some (r, obs', d')"
    then obtain e d1 where e: "send_first epr src bufLen obs d = Some (e, obs', d1)"
      "d' = (if e = 0 then d1
             else d1\<lparr>usb_stdout := usb_stdout d1 @
                        [Printf (''%s:%d --> Timeout ID=%d'' @ [CHR 0x0A])
                           [Str ''tmcSendDat'', Num 280, Num (int e)]]\<rparr>)"
      by (auto simp: t split: option.splits)
    from s(1) [OF e(1)] e(2)
    show "\<exists>k\<le>length packets. bulk_in d' = bulk_in d @ take k packets \<and>
               (if k = length packets then usb_stdout d' = usb_stdout d
                else \<exists>e. usb_stdout d' = usb_stdout d @ [Printf (''%s:%d --> Timeout ID=%d'' @ [CHR 0x0A])
                           [Str ''tmcSendDat'', Num 280, Num e]])"
      by fastforce
  next
    assume "list_all snd obs \<and> length packets \<le> length obs"
    then obtain obs' d' where e: "send_first epr src bufLen obs d = Some (0, obs', d')" using s(2) by blast
    from s(1) [OF e] e
    show "\<exists>r obs' d'. tmcSendDat epr src bufLen obs d = Some (r, obs', d') \<and>
               bulk_in d' = bulk_in d @ packets \<and> usb_stdout d' = usb_stdout d"
      by (auto simp: t)
  qed
qed

lemma answer_sent_witness:
  "\<exists>r obs' d'. tmcSendDat rm0008_epr [53, 46, 49, 10] 4 [(7, True)]
     (tmc (\<lambda>t. t\<lparr>lastTmcBulkOutHeader := zero_header\<lparr>h_transferSize := 100\<rparr>\<rparr>)
       (usb_dev0\<lparr>pma := (\<lambda>i. if i = 8 then ENDP2_TXADDR else 0)\<rparr>)) = Some (r, obs', d') \<and>
     bulk_in d' = [[0, 0, 0, 0, 0, 0, 0, 0, 1, 0, 0, 0, 53, 46, 49, 10]]"
proof -
  define d where "d = tmc (\<lambda>t. t\<lparr>lastTmcBulkOutHeader := zero_header\<lparr>h_transferSize := 100\<rparr>\<rparr>)
       (usb_dev0\<lparr>pma := (\<lambda>i. if i = 8 then ENDP2_TXADDR else 0)\<rparr>)"
  have d: "tx_ready d" "txState (gTmc d) = TMC_IDLE" "bulk_in d = []"
    "h_transferSize (lastTmcBulkOutHeader (gTmc d)) = 100"
    "bytes_of_header (answer_header d) = [0, 0, 0, 0, 0, 0, 0, 0, 1, 0, 0, 0]"
    by (simp_all add: d_def usb_dev0_def gTmcLayerInfo_def tx_ready_def tmc_inv_def zero_header_def
        answer_header_def bytes_of_header_def bytes_of_word_def)
  show ?thesis
    using answer_sent [OF d(1,2), of 4 "[53, 46, 49, 10]" rm0008_epr "[(7, True)]"]
    unfolding d_def [symmetric] by (auto simp: d chunks.simps)
qed

end
