(* ===== verification/UsbCore.thy ===== *)
theory UsbCore
  imports Tmc
begin

text \<open>
  The control endpoint: the state machine of \<^verbatim>\<open>Utilities/Usb/Src/usb_core.c\<close> with its types in
  \<^verbatim>\<open>usb_core.h\<close>, the class part \<^verbatim>\<open>usb_prop.c\<close>, the descriptors \<^verbatim>\<open>usb_desc.c\<close> and the interrupt
  dispatcher \<^verbatim>\<open>CTR_LP\<close> of \<^verbatim>\<open>usb_int.c\<close>.

  A transfer is a SETUP, data packets and a status packet; each of them raises an interrupt, which
  \<^verbatim>\<open>Setup0_Process\<close>, \<^verbatim>\<open>In0_Process\<close> or \<^verbatim>\<open>Out0_Process\<close> answers.  Between them the state is kept in
  \<^verbatim>\<open>Device_Info\<close>.  The data of a transfer is at an address that the function behind \<^verbatim>\<open>CopyData\<close> returns.

  A function pointer is a value of \<open>copy_routine\<close>; an address is one of \<open>usb_ptr\<close>.  A call of the null
  pointer, a read through one, a read or write that leaves the object pointed to and a store into a
  constant object are \<open>None\<close>.
\<close>

unbundle bit_operations_syntax

section \<open>Types and constants\<close>

datatype control_state = WAIT_SETUP | SETTING_UP | IN_DATA | OUT_DATA | LAST_IN_DATA | LAST_OUT_DATA
  | WAIT_STATUS_IN | WAIT_STATUS_OUT | STALLED | PAUSE

datatype usb_result = USB_SUCCESS | USB_ERROR | USB_UNSUPPORT | USB_NOT_READY

datatype device_state = UNCONNECTED | ATTACHED | POWERED | SUSPENDED | ADDRESSED | CONFIGURED

datatype copy_routine = GetConfiguration | GetInterface | GetStatus | DeviceDescriptor | ConfigDescriptor
  | StringDescriptor | ProtocolValue_routine | initiate_abort_bulk_out | check_abort_bulk_out_status
  | initiate_abort_bulk_in | check_abort_bulk_in_status | initiate_clear | check_clear_status
  | get_capabilities

record endpoint_info =
  Usb_wLength :: u16
  Usb_wOffset :: u16
  PacketSize :: u16
  CopyData :: "copy_routine option"

record device_info =
  USBbmRequestType :: u8
  USBbRequest :: u8
  USBwValue :: u16
  USBwIndex :: u16
  USBwLength :: u16
  ControlState :: control_state
  Current_Feature :: u8
  Current_Configuration :: u8
  Current_Interface :: u8
  Current_AlternateSetting :: u8
  Ctrl_Info :: endpoint_info

record usb_core = usb_dev +
  pInformation :: device_info
  SaveRState :: u16
  SaveTState :: u16
  StatusInfo :: u16
  Data_Mul_MaxPacketSize :: bool
  gCtrlCmdBuffer :: "u8 list"
  TMC_StringSerial :: "u8 list"
  ProtocolValue :: u32
  bDeviceState :: device_state

abbreviation info :: "(device_info \<Rightarrow> device_info) \<Rightarrow> 'r usb_core_scheme \<Rightarrow> 'r usb_core_scheme" where
  "info \<equiv> pInformation_update"

abbreviation ctrl :: "(endpoint_info \<Rightarrow> endpoint_info) \<Rightarrow> 'r usb_core_scheme \<Rightarrow> 'r usb_core_scheme" where
  "ctrl f \<equiv> info (Ctrl_Info_update f)"

abbreviation ep0 :: "'r usb_core_scheme \<Rightarrow> endpoint_info" where
  "ep0 d \<equiv> Ctrl_Info (pInformation d)"

text \<open>The union \<^verbatim>\<open>u16_u8\<close> on a little-endian machine: \<^verbatim>\<open>bb1\<close> is the low byte.\<close>

definition bb1 :: "u16 \<Rightarrow> u8" where "bb1 w = ucast w"
definition bb0 :: "u16 \<Rightarrow> u8" where "bb0 w = ucast (drop_bit 8 w)"

abbreviation "USBwValue0 i \<equiv> bb0 (USBwValue i)"
abbreviation "USBwValue1 i \<equiv> bb1 (USBwValue i)"
abbreviation "USBwIndex0 i \<equiv> bb0 (USBwIndex i)"
abbreviation "USBwIndex1 i \<equiv> bb1 (USBwIndex i)"

definition ByteSwap :: "u16 \<Rightarrow> u16" where
  "ByteSwap wSwW = (let bTemp = ucast (wSwW AND 0xFF) :: u8 in drop_bit 8 wSwW OR push_bit 8 (ucast bTemp))"

abbreviation (input) GET_STATUS :: u8 where "GET_STATUS \<equiv> 0"
abbreviation (input) CLEAR_FEATURE :: u8 where "CLEAR_FEATURE \<equiv> 1"
abbreviation (input) SET_FEATURE :: u8 where "SET_FEATURE \<equiv> 3"
abbreviation (input) SET_ADDRESS :: u8 where "SET_ADDRESS \<equiv> 5"
abbreviation (input) GET_DESCRIPTOR :: u8 where "GET_DESCRIPTOR \<equiv> 6"
abbreviation (input) GET_CONFIGURATION :: u8 where "GET_CONFIGURATION \<equiv> 8"
abbreviation (input) SET_CONFIGURATION :: u8 where "SET_CONFIGURATION \<equiv> 9"
abbreviation (input) GET_INTERFACE :: u8 where "GET_INTERFACE \<equiv> 10"
abbreviation (input) SET_INTERFACE :: u8 where "SET_INTERFACE \<equiv> 11"
abbreviation (input) SET_PROTOCOL :: u8 where "SET_PROTOCOL \<equiv> 11"
abbreviation (input) DEVICE_DESCRIPTOR :: u8 where "DEVICE_DESCRIPTOR \<equiv> 1"
abbreviation (input) CONFIG_DESCRIPTOR :: u8 where "CONFIG_DESCRIPTOR \<equiv> 2"
abbreviation (input) STRING_DESCRIPTOR :: u8 where "STRING_DESCRIPTOR \<equiv> 3"
abbreviation (input) ENDPOINT_STALL :: u16 where "ENDPOINT_STALL \<equiv> 0"
abbreviation (input) DEVICE_REMOTE_WAKEUP :: u8 where "DEVICE_REMOTE_WAKEUP \<equiv> 1"
abbreviation (input) STATUS_SUCCESS :: u8 where "STATUS_SUCCESS \<equiv> 1"
abbreviation (input) DADDR_EF :: u16 where "DADDR_EF \<equiv> 0x80"

text \<open>The type of a request: the type bits and the recipient bits of its first byte.\<close>

abbreviation (input) STANDARD_DEVICE :: u8 where "STANDARD_DEVICE \<equiv> 0x00"
abbreviation (input) STANDARD_INTERFACE :: u8 where "STANDARD_INTERFACE \<equiv> 0x01"
abbreviation (input) STANDARD_ENDPOINT :: u8 where "STANDARD_ENDPOINT \<equiv> 0x02"
abbreviation (input) CLASS_INTERFACE :: u8 where "CLASS_INTERFACE \<equiv> 0x21"

definition Type_Recipient :: "'r usb_core_scheme \<Rightarrow> u8" where
  "Type_Recipient d = USBbmRequestType (pInformation d) AND (0x60 OR 0x1F)"

text \<open>\<^verbatim>\<open>Device_Table\<close> and \<^verbatim>\<open>Device_Property\<close>.\<close>

abbreviation (input) Total_Endpoint :: nat where "Total_Endpoint \<equiv> 3"
abbreviation (input) Total_Configuration :: u8 where "Total_Configuration \<equiv> 1"
abbreviation (input) MaxPacketSize :: u16 where "MaxPacketSize \<equiv> 0xFF"

section \<open>Descriptors\<close>

definition TMC_DeviceDescriptor :: "u8 list" where
  "TMC_DeviceDescriptor = [0x12, 0x01, 0x00, 0x02, 0x00, 0x00, 0x00, 0x40, 0x83, 0x04, 0x50, 0x57,
     0x00, 0x02, 0x01, 0x02, 0x03, 0x01]"

definition TMC_ConfigDescriptor :: "u8 list" where
  "TMC_ConfigDescriptor = [0x09, 0x02, 0x20, 0x00, 0x01, 0x01, 0x04, 0x80, 0x32,
     0x09, 0x04, 0x00, 0x00, 0x02, 0xFE, 0x03, 0x00, 0x05,
     0x07, 0x05, 0x82, 0x02, 64 AND 0xFF, drop_bit 8 64 AND 0x07, 0x00,
     0x07, 0x05, 0x01, 0x02, 64 AND 0xFF, drop_bit 8 64 AND 0x07, 0x10]"

definition string_descriptor :: "u8 \<Rightarrow> char list \<Rightarrow> u8 list" where
  "string_descriptor sz cs = sz # 0x03 # concat (map (\<lambda>c. [of_char c, 0]) cs)"

definition TMC_StringLangID :: "u8 list" where
  "TMC_StringLangID = [4, 0x03, 0x09, 0x04]"

definition TMC_StringVendor :: "u8 list" where
  "TMC_StringVendor = string_descriptor 20 ''LYS&CCZY ''"

definition TMC_StringProduct :: "u8 list" where
  "TMC_StringProduct = string_descriptor 18 ''AMEC--SH''"

definition TMC_StringSerial_initial :: "u8 list" where
  "TMC_StringSerial_initial = string_descriptor 26 ''123456789ABC''"

definition TMC_StringConfiguration :: "u8 list" where
  "TMC_StringConfiguration = string_descriptor 16 ''AMEC-HS''"

definition TMC_StrintInterface :: "u8 list" where
  "TMC_StrintInterface = string_descriptor 16 ''USBTMC ''"

section \<open>Addresses\<close>

text \<open>
  What a copy routine can return.  The selected configuration is followed in its structure by the
  interface and the alternate setting, and this one by three bytes of padding, which nothing else uses.
\<close>

datatype usb_ptr = Null | Flash "u8 list" nat | Serial nat | At_Configuration | At_AlternateSetting
  | At_StatusInfo | At_CtrlCmdBuffer | At_ProtocolValue

fun readable :: "usb_ptr \<Rightarrow> 'r usb_core_scheme \<Rightarrow> u8 list" where
  "readable Null d = []"
| "readable (Flash bs n) d = drop n bs"
| "readable (Serial n) d = drop n (TMC_StringSerial d)"
| "readable At_Configuration d = [Current_Configuration (pInformation d), Current_Interface (pInformation d),
     Current_AlternateSetting (pInformation d), 0, 0, 0]"
| "readable At_AlternateSetting d = [Current_AlternateSetting (pInformation d), 0, 0, 0]"
| "readable At_StatusInfo d = [bb1 (StatusInfo d), bb0 (StatusInfo d)]"
| "readable At_CtrlCmdBuffer d = gCtrlCmdBuffer d"
| "readable At_ProtocolValue d = bytes_of_word (ProtocolValue d)"

fun store :: "usb_ptr \<Rightarrow> u8 list \<Rightarrow> 'r usb_core_scheme \<Rightarrow> 'r usb_core_scheme option" where
  "store Null bs d = None"
| "store (Flash _ _) bs d = None"
| "store (Serial n) bs d = Some (d\<lparr>TMC_StringSerial := take n (TMC_StringSerial d) @ bs\<rparr>)"
| "store At_Configuration bs d = Some (info (\<lambda>i. i\<lparr>Current_Configuration := bs ! 0, Current_Interface := bs ! 1,
     Current_AlternateSetting := bs ! 2\<rparr>) d)"
| "store At_AlternateSetting bs d = Some (info (\<lambda>i. i\<lparr>Current_AlternateSetting := bs ! 0\<rparr>) d)"
| "store At_StatusInfo bs d = Some (d\<lparr>StatusInfo := ucast (bs ! 0) OR push_bit 8 (ucast (bs ! 1))\<rparr>)"
| "store At_CtrlCmdBuffer bs d = Some (d\<lparr>gCtrlCmdBuffer := bs\<rparr>)"
| "store At_ProtocolValue bs d = Some (d\<lparr>ProtocolValue := word_of_bytes bs\<rparr>)"

section \<open>Copy routines\<close>

definition set_wLength :: "u16 \<Rightarrow> 'r usb_core_scheme \<Rightarrow> 'r usb_core_scheme" where
  "set_wLength n = ctrl (Usb_wLength_update (\<lambda>_. n))"

definition Standard_GetConfiguration ::
  "u16 \<Rightarrow> 'r usb_core_scheme \<Rightarrow> usb_ptr \<times> 'r usb_core_scheme" where
  "Standard_GetConfiguration Length d =
     (if Length = 0 then (Null, set_wLength 1 d) else (At_Configuration, d))"

definition Standard_GetInterface ::
  "u16 \<Rightarrow> 'r usb_core_scheme \<Rightarrow> usb_ptr \<times> 'r usb_core_scheme" where
  "Standard_GetInterface Length d =
     (if Length = 0 then (Null, set_wLength 1 d) else (At_AlternateSetting, d))"

text \<open>\<^verbatim>\<open>StatusInfo0\<close> is the low byte.\<close>

definition Standard_GetStatus ::
  "u16 \<Rightarrow> 'r usb_core_scheme \<Rightarrow> usb_ptr \<times> 'r usb_core_scheme" where
  "Standard_GetStatus Length d =
     (if Length = 0 then (Null, set_wLength 2 d)
      else
        let d = d\<lparr>StatusInfo := 0\<rparr>
        in if Type_Recipient d = STANDARD_DEVICE then
             let Feature = Current_Feature (pInformation d);
                 d = (if bit Feature 5 then d\<lparr>StatusInfo := StatusInfo d OR 0x02\<rparr> else d);
                 d = (if bit Feature 6 then d\<lparr>StatusInfo := StatusInfo d AND (0xFF00 OR (0x01 XOR 255))\<rparr>
                      else d\<lparr>StatusInfo := StatusInfo d OR 0x01\<rparr>)
             in (At_StatusInfo, d)
           else if Type_Recipient d = STANDARD_INTERFACE then (At_StatusInfo, d)
           else if Type_Recipient d = STANDARD_ENDPOINT then
             let wIndex0 = USBwIndex0 (pInformation d);
                 Related_Endpoint = unat (wIndex0 AND 0x0F)
             in (At_StatusInfo,
                 if bit wIndex0 7
                 then (if GetTxStallStatus Related_Endpoint d then d\<lparr>StatusInfo := StatusInfo d OR 0x01\<rparr> else d)
                 else (if GetRxStallStatus Related_Endpoint d then d\<lparr>StatusInfo := StatusInfo d OR 0x01\<rparr> else d))
           else (Null, d))"

definition Standard_GetDescriptorData ::
  "u16 \<Rightarrow> (nat \<Rightarrow> usb_ptr) \<Rightarrow> u16 \<Rightarrow> 'r usb_core_scheme \<Rightarrow> usb_ptr \<times> 'r usb_core_scheme" where
  "Standard_GetDescriptorData Length Descriptor Descriptor_Size d =
     (let wOffset = Usb_wOffset (ep0 d)
      in if Length = 0 then (Null, set_wLength (Descriptor_Size - wOffset) d)
         else (Descriptor (unat wOffset), d))"

definition TMC_GetDeviceDescriptor :: "u16 \<Rightarrow> 'r usb_core_scheme \<Rightarrow> usb_ptr \<times> 'r usb_core_scheme" where
  "TMC_GetDeviceDescriptor Length = Standard_GetDescriptorData Length (Flash TMC_DeviceDescriptor) 18"

definition TMC_GetConfigDescriptor :: "u16 \<Rightarrow> 'r usb_core_scheme \<Rightarrow> usb_ptr \<times> 'r usb_core_scheme" where
  "TMC_GetConfigDescriptor Length = Standard_GetDescriptorData Length (Flash TMC_ConfigDescriptor) 32"

definition String_Descriptor :: "((nat \<Rightarrow> usb_ptr) \<times> u16) list" where
  "String_Descriptor = [(Flash TMC_StringLangID, 4), (Flash TMC_StringVendor, 20),
     (Flash TMC_StringProduct, 18), (Serial, 26), (Flash TMC_StringConfiguration, 16),
     (Flash TMC_StrintInterface, 16)]"

definition TMC_GetStringDescriptor :: "u16 \<Rightarrow> 'r usb_core_scheme \<Rightarrow> usb_ptr \<times> 'r usb_core_scheme" where
  "TMC_GetStringDescriptor Length d =
     (let wValue0 = USBwValue0 (pInformation d)
      in if 5 < wValue0 then (Null, d)
         else let (Descriptor, Descriptor_Size) = String_Descriptor ! unat wValue0
              in Standard_GetDescriptorData Length Descriptor Descriptor_Size d)"

definition TMC_GetProtocolValue :: "u16 \<Rightarrow> 'r usb_core_scheme \<Rightarrow> usb_ptr \<times> 'r usb_core_scheme" where
  "TMC_GetProtocolValue Length d =
     (if Length = 0 then (Null, set_wLength 1 d) else (At_ProtocolValue, d))"

text \<open>The class requests write their answer into a buffer and set its length in every call.\<close>

definition answer_buffer :: "u8 list \<Rightarrow> u16 \<Rightarrow> 'r usb_core_scheme \<Rightarrow> usb_ptr \<times> 'r usb_core_scheme" where
  "answer_buffer bs n d =
     (At_CtrlCmdBuffer, set_wLength n (d\<lparr>gCtrlCmdBuffer := bs @ drop (length bs) (gCtrlCmdBuffer d)\<rparr>))"

definition TMC_initiate_abort_bulk_out :: "u16 \<Rightarrow> 'r usb_core_scheme \<Rightarrow> usb_ptr \<times> 'r usb_core_scheme" where
  "TMC_initiate_abort_bulk_out Length d =
     (let d = tmc (\<lambda>t. t\<lparr>rxState := TMC_IDLE\<rparr>) d
      in answer_buffer [STATUS_SUCCESS, h_bTag (lastTmcBulkOutHeader (gTmc d))] 2 d)"

definition TMC_check_abort_bulk_out_status :: "u16 \<Rightarrow> 'r usb_core_scheme \<Rightarrow> usb_ptr \<times> 'r usb_core_scheme" where
  "TMC_check_abort_bulk_out_status Length d =
     answer_buffer ([STATUS_SUCCESS, 0, 0, 0] @ bytes_of_word (rxCount (gTmc d))) 8 d"

definition TMC_initiate_abort_bulk_in :: "u16 \<Rightarrow> 'r usb_core_scheme \<Rightarrow> usb_ptr \<times> 'r usb_core_scheme" where
  "TMC_initiate_abort_bulk_in Length d =
     answer_buffer [STATUS_SUCCESS, h_bTag (lastTmcBulkInHeader (gTmc d))] 2 d"

definition TMC_check_abort_bulk_in_status :: "u16 \<Rightarrow> 'r usb_core_scheme \<Rightarrow> usb_ptr \<times> 'r usb_core_scheme" where
  "TMC_check_abort_bulk_in_status Length d = answer_buffer [STATUS_SUCCESS, 0, 0, 0, 0, 0, 0, 0] 8 d"

definition TMC_initiate_clear :: "u16 \<Rightarrow> 'r usb_core_scheme \<Rightarrow> usb_ptr \<times> 'r usb_core_scheme" where
  "TMC_initiate_clear Length d = answer_buffer [STATUS_SUCCESS] 1 (tmc (\<lambda>t. t\<lparr>rxState := TMC_IDLE\<rparr>) d)"

definition TMC_check_clear_status :: "u16 \<Rightarrow> 'r usb_core_scheme \<Rightarrow> usb_ptr \<times> 'r usb_core_scheme" where
  "TMC_check_clear_status Length d = answer_buffer [STATUS_SUCCESS, 0] 2 d"

definition TMC_get_capabilities :: "u16 \<Rightarrow> 'r usb_core_scheme \<Rightarrow> usb_ptr \<times> 'r usb_core_scheme" where
  "TMC_get_capabilities Length d =
     (let bs = replicate 24 0;
          bs = bs[0 := STATUS_SUCCESS];
          bs = bs[2 := TMC_DeviceDescriptor ! 2];
          bs = bs[3 := TMC_DeviceDescriptor ! 3];
          bs = bs[4 := 0]
      in answer_buffer bs 0x18 d)"

fun call_routine :: "copy_routine \<Rightarrow> u16 \<Rightarrow> 'r usb_core_scheme \<Rightarrow> usb_ptr \<times> 'r usb_core_scheme" where
  "call_routine GetConfiguration = Standard_GetConfiguration"
| "call_routine GetInterface = Standard_GetInterface"
| "call_routine GetStatus = Standard_GetStatus"
| "call_routine DeviceDescriptor = TMC_GetDeviceDescriptor"
| "call_routine ConfigDescriptor = TMC_GetConfigDescriptor"
| "call_routine StringDescriptor = TMC_GetStringDescriptor"
| "call_routine ProtocolValue_routine = TMC_GetProtocolValue"
| "call_routine initiate_abort_bulk_out = TMC_initiate_abort_bulk_out"
| "call_routine check_abort_bulk_out_status = TMC_check_abort_bulk_out_status"
| "call_routine initiate_abort_bulk_in = TMC_initiate_abort_bulk_in"
| "call_routine check_abort_bulk_in_status = TMC_check_abort_bulk_in_status"
| "call_routine initiate_clear = TMC_initiate_clear"
| "call_routine check_clear_status = TMC_check_clear_status"
| "call_routine get_capabilities = TMC_get_capabilities"

section \<open>Standard requests without data\<close>

definition TMC_Get_Interface_Setting :: "u8 \<Rightarrow> u8 \<Rightarrow> usb_result" where
  "TMC_Get_Interface_Setting Interface AlternateSetting =
     (if 0 < AlternateSetting then USB_UNSUPPORT
      else if 0 < Interface then USB_UNSUPPORT
      else USB_SUCCESS)"

definition TMC_SetConfiguration :: "'r usb_core_scheme \<Rightarrow> 'r usb_core_scheme" where
  "TMC_SetConfiguration d =
     (if Current_Configuration (pInformation d) \<noteq> 0 then d\<lparr>bDeviceState := CONFIGURED\<rparr> else d)"

definition Standard_SetConfiguration :: "'r usb_core_scheme \<Rightarrow> usb_result \<times> 'r usb_core_scheme" where
  "Standard_SetConfiguration d =
     (let i = pInformation d
      in if USBwValue0 i \<le> Total_Configuration \<and> USBwValue1 i = 0 \<and> USBwIndex i = 0
         then (USB_SUCCESS, TMC_SetConfiguration (info (\<lambda>i. i\<lparr>Current_Configuration := USBwValue0 i\<rparr>) d))
         else (USB_UNSUPPORT, d))"

definition Standard_SetInterface :: "'r usb_core_scheme \<Rightarrow> usb_result \<times> 'r usb_core_scheme" where
  "Standard_SetInterface d =
     (let i = pInformation d;
          Re = TMC_Get_Interface_Setting (USBwIndex0 i) (USBwValue0 i)
      in if Current_Configuration i \<noteq> 0 then
           if Re \<noteq> USB_SUCCESS \<or> USBwIndex1 i \<noteq> 0 \<or> USBwValue1 i \<noteq> 0 then (USB_UNSUPPORT, d)
           else (USB_SUCCESS, info (\<lambda>i. i\<lparr>Current_Interface := USBwIndex0 i,
                                           Current_AlternateSetting := USBwValue0 i\<rparr>) d)
         else (USB_UNSUPPORT, d))"

definition Standard_ClearFeature ::
  "epr_write \<Rightarrow> 'r usb_core_scheme \<Rightarrow> usb_result \<times> 'r usb_core_scheme" where
  "Standard_ClearFeature epr d =
     (let i = pInformation d
      in if Type_Recipient d = STANDARD_DEVICE then
           (USB_SUCCESS, info (\<lambda>i. i\<lparr>Current_Feature := Current_Feature i AND (0x20 XOR 255)\<rparr>) d)
         else if Type_Recipient d = STANDARD_ENDPOINT then
           if USBwValue i \<noteq> ENDPOINT_STALL \<or> USBwIndex1 i \<noteq> 0 then (USB_UNSUPPORT, d)
           else
             let wIndex0 = USBwIndex0 i;
                 rEP = unat (wIndex0 AND NOT 0x80);
                 Status = (if bit wIndex0 7 then GetEPTxStatus rEP d else GetEPRxStatus rEP d)
             in if rEP \<ge> Total_Endpoint \<or> Status = 0 \<or> Current_Configuration i = 0 then (USB_UNSUPPORT, d)
                else (USB_SUCCESS,
                  if bit wIndex0 7 then
                    if GetTxStallStatus rEP d
                    then SetEPTxStatus epr rEP EP_TX_VALID (ClearDTOG_TX epr rEP d)
                    else d
                  else if GetRxStallStatus rEP d then
                    if rEP = 0
                    then SetEPRxStatus epr rEP EP_RX_VALID (SetEPRxCount rEP MaxPacketSize d)
                    else SetEPRxStatus epr rEP EP_RX_VALID (ClearDTOG_RX epr rEP d)
                  else d)
         else (USB_UNSUPPORT, d))"

definition Standard_SetEndPointFeature ::
  "epr_write \<Rightarrow> 'r usb_core_scheme \<Rightarrow> usb_result \<times> 'r usb_core_scheme" where
  "Standard_SetEndPointFeature epr d =
     (let i = pInformation d;
          wIndex0 = USBwIndex0 i;
          rEP = unat (wIndex0 AND NOT 0x80);
          Status = (if bit wIndex0 7 then GetEPTxStatus rEP d else GetEPRxStatus rEP d)
      in if rEP \<ge> Total_Endpoint \<or> USBwValue i \<noteq> 0 \<or> Status = 0 \<or> Current_Configuration i = 0
         then (USB_UNSUPPORT, d)
         else (USB_SUCCESS,
               if bit wIndex0 7 then SetEPTxStatus epr rEP EP_TX_STALL d
               else SetEPRxStatus epr rEP EP_RX_STALL d))"

definition Standard_SetDeviceFeature :: "'r usb_core_scheme \<Rightarrow> usb_result \<times> 'r usb_core_scheme" where
  "Standard_SetDeviceFeature d =
     (USB_SUCCESS, info (\<lambda>i. i\<lparr>Current_Feature := Current_Feature i OR 0x20\<rparr>) d)"

section \<open>Data stages\<close>

definition USB_StatusIn :: "'r usb_core_scheme \<Rightarrow> 'r usb_core_scheme" where
  "USB_StatusIn d = (SetEPTxCount 0 0 d)\<lparr>SaveTState := EP_TX_VALID\<rparr>"

definition USB_StatusOut :: "'r usb_core_scheme \<Rightarrow> 'r usb_core_scheme" where
  "USB_StatusOut d = d\<lparr>SaveRState := EP_RX_VALID\<rparr>"

definition set_state :: "control_state \<Rightarrow> 'r usb_core_scheme \<Rightarrow> 'r usb_core_scheme" where
  "set_state s = info (ControlState_update (\<lambda>_. s))"

definition DataStageOut :: "'r usb_core_scheme \<Rightarrow> 'r usb_core_scheme option" where
  "DataStageOut d =
     do {
       let save_rLength = Usb_wLength (ep0 d);
       d \<leftarrow> (case CopyData (ep0 d) of
               Some f \<Rightarrow>
                 if save_rLength \<noteq> 0 then
                   (let Length = PacketSize (ep0 d);
                        Length = (if Length > save_rLength then save_rLength else Length);
                        (Buffer, d) = call_routine f Length d;
                        d = ctrl (\<lambda>e. e\<lparr>Usb_wLength := Usb_wLength e - Length, Usb_wOffset := Usb_wOffset e + Length\<rparr>) d
                    in if Length = 0 then Some d
                       else do {
                         (_, bs) \<leftarrow> PMAToUserBufferCopy (readable Buffer d) 0 (GetEPRxAddr 0 d) Length d;
                         store Buffer bs d
                       })
                 else Some d
             | None \<Rightarrow> Some d);
       let rLength = Usb_wLength (ep0 d);
       let d = (if rLength \<noteq> 0
                then (SetEPTxCount 0 0 (d\<lparr>SaveRState := EP_RX_VALID\<rparr>))\<lparr>SaveTState := EP_TX_VALID\<rparr>
                else d);
       Some (if rLength \<ge> PacketSize (ep0 d) then set_state OUT_DATA d
             else if rLength > 0 then set_state LAST_OUT_DATA d
             else USB_StatusIn (set_state WAIT_STATUS_IN d))
     }"

definition DataStageIn :: "'r usb_core_scheme \<Rightarrow> 'r usb_core_scheme option" where
  "DataStageIn d =
     (let save_wLength = Usb_wLength (ep0 d);
          state = ControlState (pInformation d)
      in if save_wLength = 0 \<and> state = LAST_IN_DATA then
           Some (if Data_Mul_MaxPacketSize d
                 then set_state LAST_IN_DATA ((USB_StatusIn d)\<lparr>Data_Mul_MaxPacketSize := False\<rparr>)
                 else set_state WAIT_STATUS_OUT (d\<lparr>SaveTState := EP_TX_STALL\<rparr>))
         else
           let Length = PacketSize (ep0 d);
               state = (if save_wLength \<le> Length then LAST_IN_DATA else IN_DATA);
               Length = (if Length > save_wLength then save_wLength else Length)
           in case CopyData (ep0 d) of
                None \<Rightarrow> None
              | Some f \<Rightarrow>
                  let (DataBuffer, d) = call_routine f Length d
                  in do {
                       (_, d) \<leftarrow> UserToPMABufferCopy (readable DataBuffer d) 0 (GetEPTxAddr 0 d) Length d;
                       let d = SetEPTxCount 0 Length d;
                       let d = ctrl (\<lambda>e. e\<lparr>Usb_wLength := Usb_wLength e - Length,
                                            Usb_wOffset := Usb_wOffset e + Length\<rparr>) d;
                       Some (set_state state (USB_StatusOut (d\<lparr>SaveTState := EP_TX_VALID\<rparr>)))
                     })"

section \<open>Setup\<close>

definition TMC_SetProtocol :: "'r usb_core_scheme \<Rightarrow> usb_result \<times> 'r usb_core_scheme" where
  "TMC_SetProtocol d = (USB_SUCCESS, d\<lparr>ProtocolValue := ucast (USBwValue0 (pInformation d))\<rparr>)"

definition TMC_NoData_Setup :: "u8 \<Rightarrow> 'r usb_core_scheme \<Rightarrow> usb_result \<times> 'r usb_core_scheme" where
  "TMC_NoData_Setup RequestNo d =
     (if Type_Recipient d = CLASS_INTERFACE \<and> RequestNo = SET_PROTOCOL then TMC_SetProtocol d
      else (USB_UNSUPPORT, d))"

text \<open>The choice of \<^verbatim>\<open>NoData_Setup0\<close>; without a result the function ends in the state \<^verbatim>\<open>STALLED\<close>.\<close>

definition NoData_request ::
  "epr_write \<Rightarrow> 'r usb_core_scheme \<Rightarrow> usb_result option \<times> 'r usb_core_scheme" where
  "NoData_request epr d =
     (let i = pInformation d;
          RequestNo = USBbRequest i;
          wakeup = (USBwValue0 i = DEVICE_REMOTE_WAKEUP \<and> USBwIndex i = 0 \<and> bit (Current_Feature i) 5)
      in if Type_Recipient d = STANDARD_DEVICE then
           if RequestNo = SET_CONFIGURATION then apfst Some (Standard_SetConfiguration d)
           else if RequestNo = SET_ADDRESS then
             if USBwValue0 i > 127 \<or> USBwValue1 i \<noteq> 0 \<or> USBwIndex i \<noteq> 0 \<or> Current_Configuration i \<noteq> 0
             then (None, d) else (Some USB_SUCCESS, d)
           else if RequestNo = SET_FEATURE then
             if wakeup then apfst Some (Standard_SetDeviceFeature d) else (Some USB_UNSUPPORT, d)
           else if RequestNo = CLEAR_FEATURE then
             if wakeup then apfst Some (Standard_ClearFeature epr d) else (Some USB_UNSUPPORT, d)
           else (Some USB_UNSUPPORT, d)
         else if Type_Recipient d = STANDARD_INTERFACE then
           if RequestNo = SET_INTERFACE then apfst Some (Standard_SetInterface d) else (Some USB_UNSUPPORT, d)
         else if Type_Recipient d = STANDARD_ENDPOINT then
           if RequestNo = CLEAR_FEATURE then apfst Some (Standard_ClearFeature epr d)
           else if RequestNo = SET_FEATURE then apfst Some (Standard_SetEndPointFeature epr d)
           else (Some USB_UNSUPPORT, d)
         else (Some USB_UNSUPPORT, d))"

definition NoData_Setup0 :: "epr_write \<Rightarrow> 'r usb_core_scheme \<Rightarrow> 'r usb_core_scheme" where
  "NoData_Setup0 epr d =
     (case NoData_request epr d of
        (None, d) \<Rightarrow> set_state STALLED d
      | (Some Result, d) \<Rightarrow>
          let (Result, d) = (if Result \<noteq> USB_SUCCESS then TMC_NoData_Setup (USBbRequest (pInformation d)) d
                             else (Result, d))
          in if Result = USB_NOT_READY then set_state PAUSE d
             else if Result \<noteq> USB_SUCCESS then set_state STALLED d
             else set_state WAIT_STATUS_IN (USB_StatusIn d))"

definition TMC_Data_Setup :: "u8 \<Rightarrow> 'r usb_core_scheme \<Rightarrow> usb_result \<times> 'r usb_core_scheme" where
  "TMC_Data_Setup RequestNo d =
     (let CopyRoutine =
        (if USBbmRequestType (pInformation d) = 0xA2 then
           if RequestNo = 1 then Some initiate_abort_bulk_out
           else if RequestNo = 2 then Some check_abort_bulk_out_status
           else if RequestNo = 3 then Some initiate_abort_bulk_in
           else if RequestNo = 4 then Some check_abort_bulk_in_status
           else None
         else if USBbmRequestType (pInformation d) = 0xA1 then
           if RequestNo = 5 then Some initiate_clear
           else if RequestNo = 6 then Some check_clear_status
           else if RequestNo = 7 then Some get_capabilities
           else None
         else None)
      in case CopyRoutine of
           None \<Rightarrow> (USB_UNSUPPORT, d)
         | Some f \<Rightarrow> (USB_SUCCESS, snd (call_routine f 0 (ctrl (\<lambda>e. e\<lparr>CopyData := Some f, Usb_wOffset := 0\<rparr>) d))))"

definition Data_request :: "'r usb_core_scheme \<Rightarrow> copy_routine option" where
  "Data_request d =
     (let i = pInformation d;
          Request_No = USBbRequest i
      in if Request_No = GET_DESCRIPTOR then
           if Type_Recipient d = STANDARD_DEVICE then
             if USBwValue1 i = DEVICE_DESCRIPTOR then Some DeviceDescriptor
             else if USBwValue1 i = CONFIG_DESCRIPTOR then Some ConfigDescriptor
             else if USBwValue1 i = STRING_DESCRIPTOR then Some StringDescriptor
             else None
           else None
         else if Request_No = GET_STATUS \<and> USBwValue i = 0 \<and> USBwLength i = 2 \<and> USBwIndex1 i = 0 then
           if Type_Recipient d = STANDARD_DEVICE \<and> USBwIndex i = 0 then Some GetStatus
           else if Type_Recipient d = STANDARD_INTERFACE then
             if TMC_Get_Interface_Setting (USBwIndex0 i) 0 = USB_SUCCESS \<and> Current_Configuration i \<noteq> 0
             then Some GetStatus else None
           else if Type_Recipient d = STANDARD_ENDPOINT then
             let Related_Endpoint = unat (USBwIndex0 i AND 0x0F);
                 Reserved = USBwIndex0 i AND 0x70;
                 Status = (if bit (USBwIndex0 i) 7 then GetEPTxStatus Related_Endpoint d
                           else GetEPRxStatus Related_Endpoint d)
             in if Related_Endpoint < Total_Endpoint \<and> Reserved = 0 \<and> Status \<noteq> 0 then Some GetStatus else None
           else None
         else if Request_No = GET_CONFIGURATION then
           if Type_Recipient d = STANDARD_DEVICE then Some GetConfiguration else None
         else if Request_No = GET_INTERFACE then
           if Type_Recipient d = STANDARD_INTERFACE \<and> Current_Configuration i \<noteq> 0 \<and> USBwValue i = 0 \<and>
              USBwIndex1 i = 0 \<and> USBwLength i = 1 \<and> TMC_Get_Interface_Setting (USBwIndex0 i) 0 = USB_SUCCESS
           then Some GetInterface else None
         else None)"

definition limit_length :: "'r usb_core_scheme \<Rightarrow> 'r usb_core_scheme" where
  "limit_length d =
     (let wLength = USBwLength (pInformation d)
      in if Usb_wLength (ep0 d) > wLength then set_wLength wLength d
         else if Usb_wLength (ep0 d) < USBwLength (pInformation d) then
           if Usb_wLength (ep0 d) < MaxPacketSize then d\<lparr>Data_Mul_MaxPacketSize := False\<rparr>
           else if Usb_wLength (ep0 d) mod MaxPacketSize = 0 then d\<lparr>Data_Mul_MaxPacketSize := True\<rparr>
           else d
         else d)"

definition Data_Setup0 :: "'r usb_core_scheme \<Rightarrow> 'r usb_core_scheme option" where
  "Data_Setup0 d =
     (let (Result, d) =
        (case Data_request d of
           Some f \<Rightarrow> (USB_SUCCESS, snd (call_routine f 0 (ctrl (\<lambda>e. e\<lparr>Usb_wOffset := 0, CopyData := Some f\<rparr>) d)))
         | None \<Rightarrow> TMC_Data_Setup (USBbRequest (pInformation d)) d)
      in if Result = USB_NOT_READY then Some (set_state PAUSE d)
         else if Usb_wLength (ep0 d) = 0xFFFF then Some (set_state PAUSE d)
         else if Result = USB_UNSUPPORT \<or> Usb_wLength (ep0 d) = 0 then Some (set_state STALLED d)
         else if bit (USBbmRequestType (pInformation d)) 7 then
           DataStageIn (ctrl (PacketSize_update (\<lambda>_. MaxPacketSize)) (limit_length d))
         else Some ((set_state OUT_DATA d)\<lparr>SaveRState := EP_RX_VALID\<rparr>))"

section \<open>The three processes\<close>

definition Post0_Process :: "'r usb_core_scheme \<Rightarrow> bool \<times> 'r usb_core_scheme" where
  "Post0_Process d =
     (let d = SetEPRxCount 0 MaxPacketSize d;
          d = (if ControlState (pInformation d) = STALLED
               then d\<lparr>SaveRState := EP_RX_STALL, SaveTState := EP_TX_STALL\<rparr> else d)
      in (ControlState (pInformation d) = PAUSE, d))"

definition read_setup :: "'r usb_core_scheme \<Rightarrow> 'r usb_core_scheme" where
  "read_setup d =
     (let w = unat (GetEPRxAddr 0 d) div 2
      in info (\<lambda>i. i\<lparr>USBbmRequestType := ucast (pma d w), USBbRequest := ucast (drop_bit 8 (pma d w)),
                     USBwValue := ByteSwap (pma d (w + 1)), USBwIndex := ByteSwap (pma d (w + 2)),
                     USBwLength := pma d (w + 3)\<rparr>) d)"

definition Setup0_Process :: "epr_write \<Rightarrow> 'r usb_core_scheme \<Rightarrow> (bool \<times> 'r usb_core_scheme) option" where
  "Setup0_Process epr d =
     (let d = (if ControlState (pInformation d) \<noteq> PAUSE then read_setup d else d);
          d = set_state SETTING_UP d
      in map_option Post0_Process
           (if USBwLength (pInformation d) = 0 then Some (NoData_Setup0 epr d) else Data_Setup0 d))"

definition SetDeviceAddress :: "epr_write \<Rightarrow> u8 \<Rightarrow> 'r usb_core_scheme \<Rightarrow> 'r usb_core_scheme" where
  "SetDeviceAddress epr Val d =
     SetDADDR (ucast Val OR DADDR_EF) (fold (\<lambda>i. SetEPAddress epr i (of_nat i)) [0..<Total_Endpoint] d)"

definition TMC_SetDeviceAddress :: "'r usb_core_scheme \<Rightarrow> 'r usb_core_scheme" where
  "TMC_SetDeviceAddress d = d\<lparr>bDeviceState := ADDRESSED\<rparr>"

definition In0_Process :: "epr_write \<Rightarrow> 'r usb_core_scheme \<Rightarrow> (bool \<times> 'r usb_core_scheme) option" where
  "In0_Process epr d =
     map_option Post0_Process
       (let state = ControlState (pInformation d)
        in if state = IN_DATA \<or> state = LAST_IN_DATA then DataStageIn d
           else if state = WAIT_STATUS_IN then
             Some (set_state STALLED
               (if USBbRequest (pInformation d) = SET_ADDRESS \<and> Type_Recipient d = STANDARD_DEVICE
                then TMC_SetDeviceAddress (SetDeviceAddress epr (USBwValue0 (pInformation d)) d) else d))
           else Some (set_state STALLED d))"

definition Out0_Process :: "'r usb_core_scheme \<Rightarrow> (bool \<times> 'r usb_core_scheme) option" where
  "Out0_Process d =
     map_option Post0_Process
       (let state = ControlState (pInformation d)
        in if state = OUT_DATA \<or> state = LAST_OUT_DATA then DataStageOut d
           else Some (set_state STALLED d))"

section \<open>Reset\<close>

definition TMC_Reset :: "epr_write \<Rightarrow> 'r usb_core_scheme \<Rightarrow> 'r usb_core_scheme" where
  "TMC_Reset epr d =
     (let d = info (\<lambda>i. i\<lparr>Current_Configuration := 0, Current_Interface := 0,
                          Current_Feature := TMC_ConfigDescriptor ! 7\<rparr>) d;
          d = SetBTABLE 0 d;
          d = SetEPType epr 0 EP_CONTROL d;
          d = SetEPTxStatus epr 0 EP_TX_STALL d;
          d = SetEPRxAddr 0 0x18 d;
          d = SetEPTxAddr 0 0x58 d;
          d = Clear_Status_Out epr 0 d;
          d = SetEPRxCount 0 MaxPacketSize d;
          d = SetEPRxValid epr 0 d;
          d = SetEPType epr 1 EP_BULK d;
          d = SetEPRxAddr 1 ENDP1_RXADDR d;
          d = SetEPRxCount 1 (of_nat EP_MAXPKGSIZE) d;
          d = SetEPRxStatus epr 1 EP_RX_VALID d;
          d = SetEPType epr 2 EP_BULK d;
          d = SetEPTxAddr 2 ENDP2_TXADDR d;
          d = SetEPTxCount 2 (of_nat EP_MAXPKGSIZE) d;
          d = SetEPTxStatus epr 2 EP_TX_NAK d;
          d = d\<lparr>bDeviceState := ATTACHED\<rparr>
      in SetDeviceAddress epr 0 d)"

section \<open>The interrupt of a correct transfer\<close>

text \<open>
  Each turn of the loop sees the interrupt register, the endpoint registers and the packet memory as
  the peripheral shows them at that time; a loop that waits for more turns than there are is \<open>None\<close>.
\<close>

type_synonym usb_event = "u16 \<times> (nat \<Rightarrow> u16) \<times> (nat \<Rightarrow> u16)"

abbreviation (input) ISTR_CTR :: u16 where "ISTR_CTR \<equiv> 0x8000"
abbreviation (input) ISTR_DIR :: u16 where "ISTR_DIR \<equiv> 0x0010"
abbreviation (input) ISTR_EP_ID :: u16 where "ISTR_EP_ID \<equiv> 0x000F"

definition pEpInt_OUT ::
  "epr_write \<Rightarrow> nat \<Rightarrow> 'r usb_core_scheme \<Rightarrow> 'r usb_core_scheme option" where
  "pEpInt_OUT epr k d = (if k = 0 then EP1_OUT_Callback epr d else if k < 7 then Some d else None)"

definition pEpInt_IN :: "nat \<Rightarrow> 'r usb_core_scheme \<Rightarrow> 'r usb_core_scheme option" where
  "pEpInt_IN k d = (if k = 1 then Some (EP2_IN_Callback d) else if k < 7 then Some d else None)"

definition save_nak :: "epr_write \<Rightarrow> 'r usb_core_scheme \<Rightarrow> 'r usb_core_scheme" where
  "save_nak epr d =
     (let d = d\<lparr>SaveRState := GetEPRxStatus 0 d\<rparr>;
          d = d\<lparr>SaveTState := GetEPTxStatus 0 d\<rparr>
      in SetEPTxStatus epr 0 EP_TX_NAK (SetEPRxStatus epr 0 EP_RX_NAK d))"

definition restore_status ::
  "epr_write \<Rightarrow> (bool \<times> 'r usb_core_scheme) option \<Rightarrow> 'r usb_core_scheme option" where
  "restore_status epr =
     map_option (\<lambda>(_, d). let d = SetEPRxStatus epr 0 (SaveRState d) d in SetEPTxStatus epr 0 (SaveTState d) d)"

text \<open>What the branch for endpoint 0 does; \<open>None\<close> inside when it serves nothing and the loop goes on.\<close>

definition serve_ep0 ::
  "epr_write \<Rightarrow> u16 \<Rightarrow> 'r usb_core_scheme \<Rightarrow> 'r usb_core_scheme option option" where
  "serve_ep0 epr wIstr d =
     (let wEPVal = GetENDPOINT 0 d
      in if wIstr AND ISTR_DIR = 0 \<or> wEPVal AND EP_CTR_TX \<noteq> 0
         then Some (restore_status epr (In0_Process epr (ClearEP_CTR_TX epr 0 d)))
         else if wEPVal AND EP_SETUP \<noteq> 0
         then Some (restore_status epr (Setup0_Process epr (ClearEP_CTR_RX epr 0 d)))
         else if wEPVal AND EP_CTR_RX \<noteq> 0
         then Some (restore_status epr (Out0_Process (ClearEP_CTR_RX epr 0 d)))
         else None)"

definition serve_other ::
  "epr_write \<Rightarrow> nat \<Rightarrow> 'r usb_core_scheme \<Rightarrow> 'r usb_core_scheme option" where
  "serve_other epr EPindex d =
     (let wEPVal = GetENDPOINT EPindex d
      in do {
           d \<leftarrow> (if wEPVal AND EP_CTR_RX \<noteq> 0 then pEpInt_OUT epr (EPindex - 1) (ClearEP_CTR_RX epr EPindex d)
                 else Some d);
           if wEPVal AND EP_CTR_TX \<noteq> 0 then pEpInt_IN (EPindex - 1) (ClearEP_CTR_TX epr EPindex d)
           else Some d
         })"

fun CTR_LP :: "epr_write \<Rightarrow> usb_event list \<Rightarrow> 'r usb_core_scheme \<Rightarrow> 'r usb_core_scheme option" where
  "CTR_LP epr [] d = None"
| "CTR_LP epr ((wIstr, regs, mem) # es) d =
     (let d = d\<lparr>ep_reg := regs, pma := mem\<rparr>
      in if wIstr AND ISTR_CTR = 0 then Some d
         else
           let EPindex = unat (wIstr AND ISTR_EP_ID)
           in if EPindex = 0 then
                let d = save_nak epr d
                in case serve_ep0 epr wIstr d of
                     Some res \<Rightarrow> res
                   | None \<Rightarrow> CTR_LP epr es d
              else Option.bind (serve_other epr EPindex d) (CTR_LP epr es))"

end
