(* ===== verification/UsbCoreProps.thy ===== *)
theory UsbCoreProps
  imports UsbCore
begin

text \<open>
  Properties of the control endpoint: what the host gets for a request with data, when a new address
  takes effect, and the requests that go wrong.
\<close>

unbundle bit_operations_syntax

section \<open>The endpoint between two transfers\<close>

text \<open>The layout of the packet memory after a reset, and the sizes of the buffers.\<close>

definition ep0_ready :: "'r usb_core_scheme \<Rightarrow> bool" where
  "ep0_ready d = (btable d = 0 \<and> pma d 0 = 0x58 \<and> pma d 2 = 0x18 \<and> length (gCtrlCmdBuffer d) = 24 \<and>
     length (TMC_StringSerial d) = 26 \<and> \<not> Data_Mul_MaxPacketSize d)"

text \<open>The eight bytes of a SETUP packet in the receive buffer.\<close>

definition setup_at :: "u8 \<Rightarrow> u8 \<Rightarrow> u16 \<Rightarrow> u16 \<Rightarrow> u16 \<Rightarrow> (nat \<Rightarrow> u16) \<Rightarrow> bool" where
  "setup_at bmRequestType bRequest wValue wIndex wLength m =
     (m 12 = ucast bmRequestType OR push_bit 8 (ucast bRequest) \<and> m 13 = wValue \<and> m 14 = wIndex \<and> m 15 = wLength)"

lemma bit_255: "bit (0xFF :: u16) n \<longleftrightarrow> n < 8"
proof -
  have "(0xFF :: u16) = mask 8" by (simp add: mask_eq_exp_minus_1)
  then show ?thesis by (simp only: bit_mask_iff) auto
qed

lemma bit_255_8: "bit (0xFF :: u8) n \<longleftrightarrow> n < 8"
proof -
  have "(0xFF :: u8) = mask 8" by (simp add: mask_eq_exp_minus_1)
  then show ?thesis by (simp only: bit_mask_iff) auto
qed

lemma bit_byte: "bit (a :: u8) n \<Longrightarrow> n < 8"
  using bit_imp_le_length [of a n] by simp

lemma ByteSwap_eq: "ByteSwap v = drop_bit 8 v OR push_bit 8 (ucast (ucast v :: u8))"
proof -
  have "(ucast (v AND 0xFF) :: u8) = ucast v"
    by (rule bit_word_eqI) (simp only: bit_ucast_iff bit_and_iff bit_255, simp)
  then show ?thesis by (simp only: ByteSwap_def Let_def)
qed

lemma bb_ByteSwap: "bb0 (ByteSwap v) = ucast v" "bb1 (ByteSwap v) = ucast (drop_bit 8 v)"
  by (rule bit_word_eqI; auto simp: bb0_def bb1_def ByteSwap_eq bit_simps dest: bit_byte)+

lemma bytes_split:
  fixes a b :: u8
  shows "ucast (ucast a OR push_bit 8 (ucast b) :: u16) = a"
    and "ucast (drop_bit 8 (ucast a OR push_bit 8 (ucast b) :: u16)) = b"
  by (rule bit_word_eqI; auto simp: bit_simps dest: bit_byte)+

lemma bytes_join: "ucast (bb1 w) OR push_bit 8 (ucast (bb0 w)) = (w :: u16)"
  by (rule bit_word_eqI) (auto simp: bb0_def bb1_def bit_simps)

lemma swapped_zero: "ByteSwap v = 0 \<longleftrightarrow> v = 0"
proof
  assume "ByteSwap v = 0"
  then have "bb0 (ByteSwap v) = 0" "bb1 (ByteSwap v) = 0" by (simp_all add: bb0_def bb1_def)
  then have "bb1 v = 0" "bb0 v = 0" by (simp_all add: bb_ByteSwap) (simp_all add: bb0_def bb1_def)
  then show "v = 0" using bytes_join [of v] by simp
qed (simp add: ByteSwap_def)

section \<open>Frames\<close>

lemma frame_pma_put [simp]:
  "pInformation (pma_put i w d) = pInformation d" "SaveRState (pma_put i w d) = SaveRState d"
  "SaveTState (pma_put i w d) = SaveTState d" "gTmc (pma_put i w d) = gTmc d"
  "StatusInfo (pma_put i w d) = StatusInfo d" "btable (pma_put i w d) = btable d"
  "daddr (pma_put i w d) = daddr d"
  "ep_reg (pma_put i w d) = ep_reg d" "gCtrlCmdBuffer (pma_put i w d) = gCtrlCmdBuffer d"
  "TMC_StringSerial (pma_put i w d) = TMC_StringSerial d" "bDeviceState (pma_put i w d) = bDeviceState d"
  "Data_Mul_MaxPacketSize (pma_put i w d) = Data_Mul_MaxPacketSize d"
  "pma (pma_put i w d) = (pma d)(i := w)"
  by (simp_all add: pma_put_def)

text \<open>What a copy routine may change.\<close>

definition forget_length :: "device_info \<Rightarrow> device_info" where
  "forget_length i = i\<lparr>Ctrl_Info := (Ctrl_Info i)\<lparr>Usb_wLength := 0\<rparr>\<rparr>"

lemma forget_length_update [simp]:
  "forget_length (Ctrl_Info_update (Usb_wLength_update f) i) = forget_length i"
  by (simp add: forget_length_def)

lemma forget_length_eq:
  assumes "forget_length a = forget_length b"
  shows "a = b\<lparr>Ctrl_Info := (Ctrl_Info b)\<lparr>Usb_wLength := Usb_wLength (Ctrl_Info a)\<rparr>\<rparr>"
proof -
  have "a = (forget_length a)\<lparr>Ctrl_Info := (Ctrl_Info (forget_length a))\<lparr>Usb_wLength := Usb_wLength (Ctrl_Info a)\<rparr>\<rparr>"
    by (simp add: forget_length_def)
  then show ?thesis unfolding assms by (simp add: forget_length_def)
qed

definition same_pipe :: "'r usb_core_scheme \<Rightarrow> 'r usb_core_scheme \<Rightarrow> bool" where
  "same_pipe d d' = (pma d' = pma d \<and> btable d' = btable d \<and> ep_reg d' = ep_reg d \<and> daddr d' = daddr d \<and>
     forget_length (pInformation d') = forget_length (pInformation d) \<and>
     length (gCtrlCmdBuffer d') = length (gCtrlCmdBuffer d) \<and> TMC_StringSerial d' = TMC_StringSerial d \<and>
     Data_Mul_MaxPacketSize d' = Data_Mul_MaxPacketSize d \<and> SaveRState d' = SaveRState d \<and>
     bDeviceState d' = bDeviceState d \<and> lastTmcBulkOutHeader (gTmc d') = lastTmcBulkOutHeader (gTmc d) \<and>
     lastTmcBulkInHeader (gTmc d') = lastTmcBulkInHeader (gTmc d) \<and> rxCount (gTmc d') = rxCount (gTmc d) \<and> ProtocolValue d' = ProtocolValue d)"

section \<open>Answers\<close>

text \<open>The status word of an endpoint, of the interface and of the device.\<close>

definition endpoint_halted :: "u8 \<Rightarrow> 'r usb_core_scheme \<Rightarrow> bool" where
  "endpoint_halted e d =
     (if bit e 7 then GetTxStallStatus (unat (e AND 0x0F)) d else GetRxStallStatus (unat (e AND 0x0F)) d)"

definition device_status :: "'r usb_core_scheme \<Rightarrow> u8" where
  "device_status d = (if bit (Current_Feature (pInformation d)) 5 then 2 else 0) +
     (if bit (Current_Feature (pInformation d)) 6 then 0 else 1)"

fun answer_of :: "copy_routine \<Rightarrow> 'r usb_core_scheme \<Rightarrow> u8 list" where
  "answer_of GetConfiguration d = [Current_Configuration (pInformation d)]"
| "answer_of GetInterface d = [Current_AlternateSetting (pInformation d)]"
| "answer_of GetStatus d =
     [if Type_Recipient d = 0 then device_status d
      else if Type_Recipient d = 1 then 0
      else if endpoint_halted (USBwIndex0 (pInformation d)) d then 1 else 0, 0]"
| "answer_of DeviceDescriptor d = TMC_DeviceDescriptor"
| "answer_of ConfigDescriptor d = TMC_ConfigDescriptor"
| "answer_of StringDescriptor d = [TMC_StringLangID, TMC_StringVendor, TMC_StringProduct, TMC_StringSerial d,
     TMC_StringConfiguration, TMC_StrintInterface] ! unat (USBwValue0 (pInformation d))"
| "answer_of ProtocolValue_routine d = [ucast (ProtocolValue d)]"
| "answer_of initiate_abort_bulk_out d = [1, h_bTag (lastTmcBulkOutHeader (gTmc d))]"
| "answer_of check_abort_bulk_out_status d = [1, 0, 0, 0] @ bytes_of_word (rxCount (gTmc d))"
| "answer_of initiate_abort_bulk_in d = [1, h_bTag (lastTmcBulkInHeader (gTmc d))]"
| "answer_of check_abort_bulk_in_status d = [1, 0, 0, 0, 0, 0, 0, 0]"
| "answer_of initiate_clear d = [1]"
| "answer_of check_clear_status d = [1, 0]"
| "answer_of get_capabilities d = [1, 0, 0, 2] @ replicate 20 0"

definition class_routine :: "copy_routine \<Rightarrow> bool" where
  "class_routine f = (f \<in> {initiate_abort_bulk_out, check_abort_bulk_out_status, initiate_abort_bulk_in,
     check_abort_bulk_in_status, initiate_clear, check_clear_status, get_capabilities})"

definition answers :: "copy_routine \<Rightarrow> 'r usb_core_scheme \<Rightarrow> bool" where
  "answers f d = ((f = StringDescriptor \<longrightarrow> USBwValue0 (pInformation d) \<le> 5) \<and>
     (f = GetStatus \<longrightarrow> Type_Recipient d \<in> {0, 1, 2}) \<and>
     Usb_wOffset (ep0 d) = 0 \<and> length (gCtrlCmdBuffer d) = 24 \<and> length (TMC_StringSerial d) = 26)"

lemmas routine_defs = Standard_GetConfiguration_def Standard_GetInterface_def Standard_GetStatus_def
  TMC_GetDeviceDescriptor_def TMC_GetConfigDescriptor_def TMC_GetStringDescriptor_def
  Standard_GetDescriptorData_def TMC_GetProtocolValue_def answer_buffer_def
  TMC_initiate_abort_bulk_out_def TMC_check_abort_bulk_out_status_def TMC_initiate_abort_bulk_in_def
  TMC_check_abort_bulk_in_status_def TMC_initiate_clear_def TMC_check_clear_status_def
  TMC_get_capabilities_def set_wLength_def

lemmas descriptor_defs = TMC_DeviceDescriptor_def TMC_ConfigDescriptor_def TMC_StringLangID_def
  TMC_StringVendor_def TMC_StringProduct_def TMC_StringConfiguration_def TMC_StrintInterface_def
  string_descriptor_def

lemma string_index:
  assumes "w \<le> (5 :: u8)"
  obtains "w = 0" | "w = 1" | "w = 2" | "w = 3" | "w = 4" | "w = 5"
proof -
  have u: "unat w \<le> 5" using assms by (simp add: word_le_nat_alt)
  then have "unat w = 0 \<or> unat w = 1 \<or> unat w = 2 \<or> unat w = 3 \<or> unat w = 4 \<or> unat w = 5" by linarith
  moreover have k: "w = of_nat n" if "unat w = n" for n
    using that by (metis of_nat_unat ucast_id)
  ultimately have "w = of_nat 0 \<or> w = of_nat 1 \<or> w = of_nat 2 \<or> w = of_nat 3 \<or> w = of_nat 4 \<or> w = of_nat 5"
    by blast
  then show thesis using that by auto
qed

lemma length_bytes_of_word [simp]: "length (bytes_of_word w) = 4"
  by (simp add: bytes_of_word_def)

lemma length_descriptors [simp]:
  "length TMC_DeviceDescriptor = 18" "length TMC_ConfigDescriptor = 32" "length TMC_StringLangID = 4"
  "length TMC_StringVendor = 20" "length TMC_StringProduct = 18" "length TMC_StringConfiguration = 16"
  "length TMC_StrintInterface = 16"
  by (simp_all add: descriptor_defs)

lemma length_answer:
  assumes "answers f d"
  shows "0 < length (answer_of f d) \<and> length (answer_of f d) \<le> 32"
proof (cases "f = StringDescriptor")
  case True
  then have "USBwValue0 (pInformation d) \<le> 5" using assms by (simp add: answers_def)
  then show ?thesis using True assms by (elim string_index) (simp_all add: answers_def)
qed (cases f; simp)

lemma same_pipe_wLength: "same_pipe d (set_wLength n d)"
  by (simp add: same_pipe_def set_wLength_def)

lemma asked_string:
  assumes "USBwValue0 (pInformation d) \<le> 5" "Usb_wOffset (ep0 d) = 0" "length (TMC_StringSerial d) = 26"
  shows "snd (TMC_GetStringDescriptor 0 d) = set_wLength (of_nat (length (answer_of StringDescriptor d))) d"
  using assms(1)
  by (elim string_index)
    (simp_all add: TMC_GetStringDescriptor_def String_Descriptor_def Standard_GetDescriptorData_def Let_def assms)

lemma routine_asked:
  assumes "answers f d"
  shows "Usb_wLength (ep0 (snd (call_routine f 0 d))) = of_nat (length (answer_of f d)) \<and>
         same_pipe d (snd (call_routine f 0 d))"
proof (cases "f = StringDescriptor")
  case True
  then show ?thesis
    using assms asked_string [of d] same_pipe_wLength by (simp add: answers_def) (simp add: set_wLength_def)
next
  case False
  then show ?thesis
    using assms same_pipe_wLength
    by (cases f)
      (simp_all add: answers_def routine_defs same_pipe_def)
qed


text \<open>Asked for data, a routine returns the address of its answer, with a byte behind an odd one.\<close>

lemma status_word [simp]:
  "bb0 1 = 0" "bb1 1 = 1" "bb0 0 = 0" "bb1 0 = 0" "bb1 2 = 2" "bb0 2 = 0" "bb1 3 = 3" "bb0 3 = 0"
  by (simp_all add: bb0_def bb1_def)

definition data_at :: "usb_ptr \<Rightarrow> u8 list \<Rightarrow> 'r usb_core_scheme \<Rightarrow> bool" where
  "data_at p bs d = (take (length bs) (readable p d) = bs \<and>
     2 * ((length bs + 1) div 2) \<le> length (readable p d))"

lemma data_string:
  assumes "USBwValue0 (pInformation d) \<le> 5" "Usb_wOffset (ep0 d) = 0" "length (TMC_StringSerial d) = 26" "L \<noteq> 0"
  shows "snd (TMC_GetStringDescriptor L d) = d \<and>
         data_at (fst (TMC_GetStringDescriptor L d)) (answer_of StringDescriptor d) d"
  using assms(1)
  by (elim string_index)
    (simp_all add: TMC_GetStringDescriptor_def String_Descriptor_def Standard_GetDescriptorData_def Let_def assms data_at_def)

lemma data_status:
  assumes "Type_Recipient d \<in> {0, 1, 2}" "L \<noteq> 0"
  shows "same_pipe d (snd (Standard_GetStatus L d)) \<and>
         data_at (fst (Standard_GetStatus L d)) (answer_of GetStatus d) (snd (Standard_GetStatus L d))"
proof -
  have t: "Type_Recipient (d\<lparr>StatusInfo := x\<rparr>) = Type_Recipient d" for x by (simp add: Type_Recipient_def)
  consider "Type_Recipient d = 0" | "Type_Recipient d = 1" | "Type_Recipient d = 2" using assms(1) by blast
  then show ?thesis
    using assms(2) t
    by cases
      (auto simp: Standard_GetStatus_def Let_def same_pipe_def data_at_def device_status_def endpoint_halted_def
        GetTxStallStatus_def GetRxStallStatus_def GetEPTxStatus_def GetEPRxStatus_def GetENDPOINT_def)
qed

lemma status_wLength: "L \<noteq> 0 \<Longrightarrow> Usb_wLength (ep0 (snd (Standard_GetStatus L d))) = Usb_wLength (ep0 d)"
  by (simp add: Standard_GetStatus_def Let_def)

lemma routine_data:
  assumes "answers f d" "L \<noteq> 0"
  shows "same_pipe d (snd (call_routine f L d))"
    and "data_at (fst (call_routine f L d)) (answer_of f d) (snd (call_routine f L d))"
    and "Usb_wLength (ep0 (snd (call_routine f L d))) =
      (if class_routine f then of_nat (length (answer_of f d)) else Usb_wLength (ep0 d))"
proof -
  have r: "same_pipe d d" by (simp add: same_pipe_def)
  show "same_pipe d (snd (call_routine f L d))"
    using assms data_string [of d L] data_status [of d L] same_pipe_wLength r
    by (cases f; simp add: answers_def routine_defs same_pipe_def)
  show "data_at (fst (call_routine f L d)) (answer_of f d) (snd (call_routine f L d))"
  proof (cases "f = StringDescriptor \<or> f = GetStatus")
    case True
    then show ?thesis
      using assms data_string [of d L] data_status [of d L]
      by (auto simp: answers_def simp del: answer_of.simps)
  next
    case False
    then show ?thesis
      using assms
      by (cases f; simp add: answers_def routine_defs data_at_def bytes_of_word_def)
         (simp add: eval_nat_numeral TMC_DeviceDescriptor_def)
  qed
  show "Usb_wLength (ep0 (snd (call_routine f L d))) =
      (if class_routine f then of_nat (length (answer_of f d)) else Usb_wLength (ep0 d))"
  proof (cases "f = StringDescriptor \<or> f = GetStatus")
    case True
    then show ?thesis
      using assms data_string [of d L] status_wLength [of L d]
      by (auto simp: answers_def class_routine_def simp del: answer_of.simps)
  next
    case False
    then show ?thesis
      using assms by (cases f; simp add: answers_def routine_defs class_routine_def)
  qed
qed


section \<open>A packet to the host\<close>

lemma count_mask: "k \<le> 64 \<Longrightarrow> (of_nat k :: u16) AND 0x3FF = of_nat k"
proof -
  assume k: "k \<le> 64"
  have "(of_nat k :: u16) AND mask 10 = take_bit 10 (of_nat k)" by (simp add: take_bit_eq_mask)
  also have "\<dots> = of_nat k"
    using k by (intro word_unat_eq_iff [THEN iffD2]) (simp add: take_bit_eq_mod unat_mod unat_of_nat)
  finally show ?thesis by (simp add: mask_eq_exp_minus_1)
qed

lemma unat_u16: "k \<le> 64 \<Longrightarrow> unat (of_nat k :: u16) = k"
  by (simp add: unat_of_nat)

lemma tx_packet_loaded:
  assumes "btable g = 0" "pma g 0 = 0x58" "pma g 1 = of_nat k" "\<forall>i\<ge>44. pma g i = m i" "k \<le> 64"
  shows "tx_packet 0 g = take k (pma_bytes m 44 ((k + 1) div 2))"
proof -
  have "GetEPTxCount 0 g = of_nat k" "GetEPTxAddr 0 g = 0x58"
    using assms by (simp_all add: GetEPTxCount_def pEPTxCount_def GetEPTxAddr_def pEPTxAddr_def count_mask)
  moreover have "pma_bytes (pma g) 44 ((k + 1) div 2) = pma_bytes m 44 ((k + 1) div 2)"
    by (rule pma_bytes_cong) (simp add: assms(4))
  ultimately show ?thesis using assms(5) by (simp add: tx_packet_def unat_u16)
qed

lemma load_tx:
  assumes "2 * ((k + 1) div 2) \<le> length src" "k \<le> 64"
  shows "\<exists>m. UserToPMABufferCopy src 0 0x58 (of_nat k) d = Some (of_nat k, SetEPTxCount 0 (of_nat k) (d\<lparr>pma := m\<rparr>)) \<and>
           pma_bytes m 44 ((k + 1) div 2) = take (2 * ((k + 1) div 2)) src \<and> (\<forall>i<44. m i = pma d i)"
  using copy_to_pma_bytes [OF assms(1), of 44 "pma d"] assms(2)
  by (auto simp: UserToPMABufferCopy_def unat_u16)

lemma Post0_fields [simp]:
  "pInformation (snd (Post0_Process d)) = pInformation d"
  "fst (Post0_Process d) = (ControlState (pInformation d) = PAUSE)"
  "SaveRState (snd (Post0_Process d)) = (if ControlState (pInformation d) = STALLED then EP_RX_STALL else SaveRState d)"
  "SaveTState (snd (Post0_Process d)) = (if ControlState (pInformation d) = STALLED then EP_TX_STALL else SaveTState d)"
  "daddr (snd (Post0_Process d)) = daddr d" "ep_reg (snd (Post0_Process d)) = ep_reg d"
  "bDeviceState (snd (Post0_Process d)) = bDeviceState d"
  "Data_Mul_MaxPacketSize (snd (Post0_Process d)) = Data_Mul_MaxPacketSize d"
  "btable (snd (Post0_Process d)) = btable d" "gCtrlCmdBuffer (snd (Post0_Process d)) = gCtrlCmdBuffer d"
  "TMC_StringSerial (snd (Post0_Process d)) = TMC_StringSerial d"
  by (simp_all add: Post0_Process_def SetEPRxCount_def Let_def)

lemma pma_Post0:
  "btable d = 0 \<Longrightarrow> i \<noteq> 3 \<Longrightarrow> pma (snd (Post0_Process d)) i = pma d i"
  by (simp add: Post0_Process_def SetEPRxCount_def pEPRxCount_def Let_def)

lemma ep0_ready_Post0: "ep0_ready d \<Longrightarrow> ep0_ready (snd (Post0_Process d))"
  by (simp add: ep0_ready_def pma_Post0)

lemma tx_packet_Post0:
  assumes "btable d = 0" "pma d 0 = 0x58"
  shows "tx_packet 0 (snd (Post0_Process d)) = tx_packet 0 d"
proof -
  have "GetEPTxCount 0 (snd (Post0_Process d)) = GetEPTxCount 0 d"
    "GetEPTxAddr 0 (snd (Post0_Process d)) = GetEPTxAddr 0 d"
    using assms by (simp_all add: GetEPTxCount_def pEPTxCount_def GetEPTxAddr_def pEPTxAddr_def pma_Post0)
  moreover have "GetEPTxAddr 0 d = 0x58" using assms by (simp add: GetEPTxAddr_def pEPTxAddr_def)
  moreover have "pma_bytes (pma (snd (Post0_Process d))) 44 n = pma_bytes (pma d) 44 n" for n
    by (rule pma_bytes_cong) (simp add: assms pma_Post0)
  ultimately show ?thesis by (simp add: tx_packet_def)
qed

text \<open>The data stage with a routine that answers: all that is asked for goes into one packet.\<close>

lemma data_in:
  assumes r: "ep0_ready d" "answers f d" "CopyData (ep0 d) = Some f" "PacketSize (ep0 d) = 0xFF"
    and k: "Usb_wLength (ep0 d) = of_nat k" "0 < k" "k \<le> length (answer_of f d)"
  shows "\<exists>d'. DataStageIn d = Some d' \<and> ep0_ready d' \<and> tx_packet 0 d' = take k (answer_of f d) \<and>
           SaveTState d' = EP_TX_VALID \<and> SaveRState d' = EP_RX_VALID \<and>
           pInformation d' = (pInformation d)\<lparr>ControlState := LAST_IN_DATA, Ctrl_Info := (ep0 d)\<lparr>Usb_wOffset := of_nat k,
             Usb_wLength := if class_routine f then of_nat (length (answer_of f d)) - of_nat k else 0\<rparr>\<rparr> \<and>
           Data_Mul_MaxPacketSize d' = Data_Mul_MaxPacketSize d"
proof -
  have l: "k \<le> 32" using length_answer [OF r(2)] k(3) by simp
  then have u: "unat (of_nat k :: u16) = k" by (simp add: unat_u16)
  have z: "(of_nat k :: u16) \<noteq> 0"
  proof
    assume "(of_nat k :: u16) = 0"
    then have "unat (of_nat k :: u16) = 0" by simp
    then show False using u k(2) by simp
  qed
  have lt: "(of_nat k :: u16) < 0xFF" using u l by (simp add: word_less_nat_alt)
  define p d1 where "p = fst (call_routine f (of_nat k) d)" and "d1 = snd (call_routine f (of_nat k) d)"
  have c: "call_routine f (of_nat k) d = (p, d1)" by (simp add: p_def d1_def)
  have s: "same_pipe d d1" "data_at p (answer_of f d) d1"
    "Usb_wLength (ep0 d1) = (if class_routine f then of_nat (length (answer_of f d)) else of_nat k)"
    using routine_data [OF r(2) z] k(1) by (simp_all add: p_def d1_def)
  define e where "e = (k + 1) div 2"
  have e2: "2 * e \<le> length (readable p d1)" 
  proof -
    have "e \<le> (length (answer_of f d) + 1) div 2" unfolding e_def using k(3) by (intro div_le_mono) simp
    then show ?thesis using s(2) by (simp add: data_at_def)
  qed
  obtain m where m: "UserToPMABufferCopy (readable p d1) 0 0x58 (of_nat k) d1 =
      Some (of_nat k, SetEPTxCount 0 (of_nat k) (d1\<lparr>pma := m\<rparr>))"
    "pma_bytes m 44 e = take (2 * e) (readable p d1)" "\<forall>i<44. m i = pma d1 i"
    using load_tx [of k "readable p d1" d1] e2 l by (auto simp: e_def)
  define d2 where "d2 = SetEPTxCount 0 (of_nat k) (SetEPTxCount 0 (of_nat k) (d1\<lparr>pma := m\<rparr>))"
  have d2: "btable d2 = 0" "pma d2 = m(1 := of_nat k)" "pInformation d2 = pInformation d1"
    "gCtrlCmdBuffer d2 = gCtrlCmdBuffer d1" "TMC_StringSerial d2 = TMC_StringSerial d1"
    "Data_Mul_MaxPacketSize d2 = Data_Mul_MaxPacketSize d1"
    using s(1) r(1) by (simp_all add: d2_def SetEPTxCount_def pEPTxCount_def same_pipe_def ep0_ready_def)
  define d3 where "d3 = set_state LAST_IN_DATA (USB_StatusOut ((ctrl (\<lambda>e. e\<lparr>Usb_wLength := Usb_wLength e - of_nat k,
      Usb_wOffset := Usb_wOffset e + of_nat k\<rparr>) d2)\<lparr>SaveTState := EP_TX_VALID\<rparr>))"
  have d3: "btable d3 = 0" "pma d3 = m(1 := of_nat k)" by (simp_all add: d3_def d2 set_state_def USB_StatusOut_def)
  have a: "GetEPTxAddr 0 d1 = 0x58"
    using r(1) s(1) by (simp add: GetEPTxAddr_def pEPTxAddr_def same_pipe_def ep0_ready_def)
  have "DataStageIn d = Some d3"
    unfolding DataStageIn_def Let_def k(1) r(3,4)
    using z lt by (simp add: c a m(1) less_imp_le d3_def d2_def)
  moreover have "ep0_ready d3"
    using r(1) s(1) m(3) by (simp add: ep0_ready_def same_pipe_def d3) (simp add: d3_def d2 set_state_def USB_StatusOut_def)
  moreover have "tx_packet 0 d3 = take k (answer_of f d)"
  proof -
    have "tx_packet 0 d3 = take k (take (2 * e) (readable p d1))"
      using tx_packet_loaded [of d3 k m, folded e_def] m(2,3) r(1) s(1) l
      by (simp add: d3 same_pipe_def ep0_ready_def)
    also have "\<dots> = take k (take (length (answer_of f d)) (readable p d1))"
    proof -
      have "k \<le> 2 * e" unfolding e_def by linarith
      then show ?thesis using k(3) by (simp add: min_absorb1)
    qed
    finally show ?thesis using s(2) by (simp only: data_at_def)
  qed
  moreover have "pInformation d1 = (pInformation d)\<lparr>Ctrl_Info := (ep0 d)\<lparr>Usb_wLength := Usb_wLength (ep0 d1)\<rparr>\<rparr>"
    using s(1) by (intro forget_length_eq) (simp add: same_pipe_def)
  ultimately show ?thesis
    using s(1) r(2) by (simp add: d3_def d2 set_state_def USB_StatusOut_def s(3) answers_def) (simp add: same_pipe_def)
qed


section \<open>The setup stage\<close>

lemma same_pipe_trans: "same_pipe a b \<Longrightarrow> same_pipe b c \<Longrightarrow> same_pipe a c"
  by (simp add: same_pipe_def)

lemma same_pipe_ready: "same_pipe d d' \<Longrightarrow> ep0_ready d \<Longrightarrow> ep0_ready d'"
  by (simp add: same_pipe_def ep0_ready_def)

lemma same_pipe_fields:
  assumes "same_pipe d d'"
  obtains n where "pInformation d' = (pInformation d)\<lparr>Ctrl_Info := (ep0 d)\<lparr>Usb_wLength := n\<rparr>\<rparr>"
  using assms forget_length_eq [of "pInformation d'" "pInformation d"] by (auto simp: same_pipe_def)

lemma same_pipe_ep0:
  assumes "same_pipe d d'"
  shows "Usb_wOffset (ep0 d') = Usb_wOffset (ep0 d)" "CopyData (ep0 d') = CopyData (ep0 d)"
    "PacketSize (ep0 d') = PacketSize (ep0 d)" "USBwLength (pInformation d') = USBwLength (pInformation d)"
    "USBbmRequestType (pInformation d') = USBbmRequestType (pInformation d)"
  by (rule same_pipe_fields [OF assms]; simp)+

lemma same_pipe_answer:
  assumes "same_pipe d d'"
  shows "answer_of f d' = answer_of f d" "answers f d' = answers f d"
proof -
  obtain n where i: "pInformation d' = (pInformation d)\<lparr>Ctrl_Info := (ep0 d)\<lparr>Usb_wLength := n\<rparr>\<rparr>"
    using assms by (rule same_pipe_fields)
  have h: "endpoint_halted e d' = endpoint_halted e d" for e
    using assms by (simp add: same_pipe_def endpoint_halted_def GetTxStallStatus_def GetRxStallStatus_def
        GetEPTxStatus_def GetEPRxStatus_def GetENDPOINT_def)
  show "answer_of f d' = answer_of f d"
    using assms by (cases f; simp add: i h device_status_def Type_Recipient_def) (simp_all add: same_pipe_def)
  show "answers f d' = answers f d"
    using assms by (simp add: answers_def i Type_Recipient_def) (simp add: same_pipe_def)
qed

lemma answer_of_ctrl [simp]: "answer_of f (ctrl g d) = answer_of f d"
  by (cases f)
    (simp_all add: Type_Recipient_def device_status_def endpoint_halted_def GetTxStallStatus_def
      GetRxStallStatus_def GetEPTxStatus_def GetEPRxStatus_def GetENDPOINT_def)

lemma limit_length_short:
  assumes "Usb_wLength (ep0 d) = of_nat m" "m \<le> 32" "\<not> Data_Mul_MaxPacketSize d"
  shows "same_pipe d (limit_length d) \<and>
         Usb_wLength (ep0 (limit_length d)) = of_nat (min m (unat (USBwLength (pInformation d))))"
proof -
  have u: "unat (of_nat m :: u16) = m" using assms(2) by (simp add: unat_u16)
  have l: "(of_nat m :: u16) < 0xFF" using u assms(2) by (simp add: word_less_nat_alt)
  show ?thesis
    using assms u l same_pipe_wLength
    by (auto simp: limit_length_def Let_def word_less_nat_alt min_def) (simp_all add: same_pipe_def set_wLength_def)
qed

definition start_in :: "copy_routine \<Rightarrow> 'r usb_core_scheme \<Rightarrow> 'r usb_core_scheme" where
  "start_in f d = snd (call_routine f 0 (ctrl (\<lambda>e. e\<lparr>Usb_wOffset := 0, CopyData := Some f\<rparr>) d))"

lemma setup_in:
  assumes r: "ep0_ready d" "answers f (ctrl (Usb_wOffset_update (\<lambda>_. 0)) d)" and n: "USBwLength (pInformation d) \<noteq> 0"
  shows "Usb_wLength (ep0 (start_in f d)) \<noteq> 0 \<and> Usb_wLength (ep0 (start_in f d)) \<noteq> 0xFFFF \<and>
         USBbmRequestType (pInformation (start_in f d)) = USBbmRequestType (pInformation d) \<and>
    (\<exists>d'. DataStageIn (ctrl (PacketSize_update (\<lambda>_. 0xFF)) (limit_length (start_in f d))) = Some d' \<and> ep0_ready d' \<and>
       tx_packet 0 d' = take (unat (USBwLength (pInformation d))) (answer_of f d) \<and>
       SaveTState d' = EP_TX_VALID \<and> SaveRState d' = EP_RX_VALID \<and>
       ControlState (pInformation d') = LAST_IN_DATA \<and>
       (class_routine f \<and> unat (USBwLength (pInformation d)) < length (answer_of f d) \<or> Usb_wLength (ep0 d') = 0) \<and>
       (class_routine f \<longrightarrow> Usb_wLength (ep0 d') = of_nat (length (answer_of f d) - unat (USBwLength (pInformation d)))))"
proof -
  define d0 where "d0 = ctrl (\<lambda>e. e\<lparr>Usb_wOffset := 0, CopyData := Some f\<rparr>) d"
  have a0: "answers f d0" using r(2) by (simp add: d0_def answers_def Type_Recipient_def)
  have ans: "answer_of f d0 = answer_of f d" by (simp add: d0_def del: answer_of.simps)
  define m where "m = length (answer_of f d)"
  have m: "0 < m" "m \<le> 32" using length_answer [OF a0] by (simp_all add: m_def ans)
  define d1 where "d1 = start_in f d"
  have d1: "Usb_wLength (ep0 d1) = of_nat m" "same_pipe d0 d1"
    using routine_asked [OF a0] by (simp_all add: d1_def start_in_def d0_def [symmetric] m_def ans)
  have r0: "ep0_ready d0" using r(1) by (simp add: d0_def ep0_ready_def)
  have dm: "\<not> Data_Mul_MaxPacketSize d1" using same_pipe_ready [OF d1(2) r0] by (simp add: ep0_ready_def)
  define d2 where "d2 = limit_length d1"
  define k where "k = min m (unat (USBwLength (pInformation d)))"
  have n1: "USBwLength (pInformation d1) = USBwLength (pInformation d)"
    using same_pipe_ep0 [OF d1(2)] by (simp add: d0_def)
  have d2: "same_pipe d0 d2" "Usb_wLength (ep0 d2) = of_nat k"
    using limit_length_short [OF d1(1) m(2) dm] same_pipe_trans [OF d1(2)] by (simp_all add: d2_def k_def n1)
  have k: "0 < k" "k \<le> m" using m(1) n by (simp_all add: k_def unat_gt_0)
  define d3 where "d3 = ctrl (PacketSize_update (\<lambda>_. 0xFF)) d2"
  have d3: "ep0_ready d3" "answers f d3" "answer_of f d3 = answer_of f d" "CopyData (ep0 d3) = Some f"
    "PacketSize (ep0 d3) = 0xFF" "Usb_wLength (ep0 d3) = of_nat k"
    subgoal using same_pipe_ready [OF d2(1) r0] by (simp add: d3_def ep0_ready_def)
    subgoal using a0 same_pipe_answer(2) [OF d2(1), of f] by (simp add: d3_def answers_def Type_Recipient_def)
    subgoal using same_pipe_answer(1) [OF d2(1), of f] ans by (simp add: d3_def del: answer_of.simps)
    subgoal using same_pipe_ep0 [OF d2(1)] by (simp add: d3_def d0_def)
    subgoal by (simp add: d3_def)
    subgoal using d2(2) by (simp add: d3_def)
    done
  have u: "unat (of_nat m :: u16) = m" using m by (simp add: unat_u16)
  have z: "(of_nat m :: u16) \<noteq> 0" "(of_nat m :: u16) \<noteq> 0xFFFF"
  proof -
    have "unat (of_nat m :: u16) \<noteq> unat (0 :: u16)" "unat (of_nat m :: u16) \<noteq> unat (0xFFFF :: u16)"
      using u m by simp_all
    then show "(of_nat m :: u16) \<noteq> 0" "(of_nat m :: u16) \<noteq> 0xFFFF" by metis+
  qed
  have km: "k \<le> length (answer_of f d3)" using k(2) d3(3) by (simp add: m_def)
  obtain d' where d': "DataStageIn d3 = Some d'" "ep0_ready d'" "tx_packet 0 d' = take k (answer_of f d)"
    "SaveTState d' = EP_TX_VALID" "SaveRState d' = EP_RX_VALID"
    "pInformation d' = (pInformation d3)\<lparr>ControlState := LAST_IN_DATA, Ctrl_Info := (ep0 d3)\<lparr>Usb_wOffset := of_nat k,
       Usb_wLength := if class_routine f then of_nat m - of_nat k else 0\<rparr>\<rparr>"
    using data_in [OF d3(1,2,4,5,6) k(1) km] d3(3) by (auto simp: m_def)
  have "take k (answer_of f d) = take (unat (USBwLength (pInformation d))) (answer_of f d)"
    by (simp add: k_def m_def min_def)
  moreover have "(of_nat m :: u16) - of_nat k = of_nat (m - unat (USBwLength (pInformation d)))"
    using k(2) by (auto simp: k_def min_def of_nat_diff)
  ultimately show ?thesis
    using d' z d1 same_pipe_ep0 [OF d1(2)]
    by (auto simp: d1_def [symmetric] d2_def [symmetric] d3_def [symmetric] m_def d0_def k_def min_def split: if_splits)
qed


section \<open>What the host is answered\<close>

text \<open>
  The table of chapter 9.4 of the USB specification and of chapter 4.2 of the USBTMC specification, as far
  as the device supports it: request type, request, value, index and length to the bytes of the answer.
\<close>

definition endpoint_enabled :: "u8 \<Rightarrow> 'r usb_core_scheme \<Rightarrow> bool" where
  "endpoint_enabled e d = (e AND 0x70 = 0 \<and> unat (e AND 0x0F) < 3 \<and>
     (if bit e 7 then GetEPTxStatus (unat (e AND 0x0F)) d else GetEPRxStatus (unat (e AND 0x0F)) d) \<noteq> 0)"

definition reply ::
  "u8 \<Rightarrow> u8 \<Rightarrow> u16 \<Rightarrow> u16 \<Rightarrow> u16 \<Rightarrow> 'r usb_core_scheme \<Rightarrow> u8 list option" where
  "reply t r v i n d =
     (let configured = Current_Configuration (pInformation d) \<noteq> 0;
          kind = ucast (drop_bit 8 v) :: u8; idx = ucast v :: u8
      in if t = 0x80 then
           if r = 6 then
             if kind = 1 then Some TMC_DeviceDescriptor
             else if kind = 2 then Some TMC_ConfigDescriptor
             else if kind = 3 \<and> idx \<le> 5 then
               Some ([TMC_StringLangID, TMC_StringVendor, TMC_StringProduct, TMC_StringSerial d,
                      TMC_StringConfiguration, TMC_StrintInterface] ! unat idx)
             else None
           else if r = 0 \<and> v = 0 \<and> i = 0 \<and> n = 2 then Some [device_status d, 0]
           else if r = 8 then Some [Current_Configuration (pInformation d)]
           else None
         else if t = 0x81 then
           if r = 0 \<and> v = 0 \<and> i = 0 \<and> n = 2 \<and> configured then Some [0, 0]
           else if r = 10 \<and> v = 0 \<and> i = 0 \<and> n = 1 \<and> configured
           then Some [Current_AlternateSetting (pInformation d)]
           else None
         else if t = 0x82 then
           if r = 0 \<and> v = 0 \<and> ucast (drop_bit 8 i) = (0 :: u8) \<and> n = 2 \<and> endpoint_enabled (ucast i) d
           then Some [if endpoint_halted (ucast i) d then 1 else 0, 0]
           else None
         else if t = 0xA2 then
           if r = 1 then Some [1, h_bTag (lastTmcBulkOutHeader (gTmc d))]
           else if r = 2 then Some ([1, 0, 0, 0] @ bytes_of_word (rxCount (gTmc d)))
           else if r = 3 then Some [1, h_bTag (lastTmcBulkInHeader (gTmc d))]
           else if r = 4 then Some [1, 0, 0, 0, 0, 0, 0, 0]
           else None
         else if t = 0xA1 then
           if r = 5 then Some [1]
           else if r = 6 then Some [1, 0]
           else if r = 7 then Some ([1, 0, 0, 2] @ replicate 20 0)
           else None
         else None)"

text \<open>The routine that the code chooses.\<close>

definition class_request :: "u8 \<Rightarrow> u8 \<Rightarrow> copy_routine option" where
  "class_request t r =
     (if t = 0xA2 then
        if r = 1 then Some initiate_abort_bulk_out
        else if r = 2 then Some check_abort_bulk_out_status
        else if r = 3 then Some initiate_abort_bulk_in
        else if r = 4 then Some check_abort_bulk_in_status
        else None
      else if t = 0xA1 then
        if r = 5 then Some initiate_clear
        else if r = 6 then Some check_clear_status
        else if r = 7 then Some get_capabilities
        else None
      else None)"

definition chosen :: "'r usb_core_scheme \<Rightarrow> copy_routine option" where
  "chosen d = (case Data_request d of Some f \<Rightarrow> Some f
     | None \<Rightarrow> class_request (USBbmRequestType (pInformation d)) (USBbRequest (pInformation d)))"

lemma Data_Setup0_chosen:
  assumes "bit (USBbmRequestType (pInformation d)) 7" "Usb_wLength (ep0 d) \<noteq> 0xFFFF"
  shows "Data_Setup0 d =
     (case chosen d of
        None \<Rightarrow> Some (set_state STALLED d)
      | Some f \<Rightarrow>
          if Usb_wLength (ep0 (start_in f d)) = 0xFFFF then Some (set_state PAUSE (start_in f d))
          else if Usb_wLength (ep0 (start_in f d)) = 0 then Some (set_state STALLED (start_in f d))
          else if bit (USBbmRequestType (pInformation (start_in f d))) 7
          then DataStageIn (ctrl (PacketSize_update (\<lambda>_. 0xFF)) (limit_length (start_in f d)))
          else Some ((set_state OUT_DATA (start_in f d))\<lparr>SaveRState := EP_RX_VALID\<rparr>))"
proof (cases "Data_request d")
  case (Some f)
  then show ?thesis by (simp add: Data_Setup0_def chosen_def start_in_def Let_def)
next
  case None
  have order: "(\<lambda>e. e\<lparr>CopyData := a, Usb_wOffset := b\<rparr>) =
      (\<lambda>e. e\<lparr>Usb_wOffset := b, CopyData := a :: copy_routine option\<rparr> :: endpoint_info)" for a b
    by (rule ext) simp
  have t: "TMC_Data_Setup (USBbRequest (pInformation d)) d =
      (case class_request (USBbmRequestType (pInformation d)) (USBbRequest (pInformation d)) of
         None \<Rightarrow> (USB_UNSUPPORT, d) | Some f \<Rightarrow> (USB_SUCCESS, start_in f d))"
    unfolding TMC_Data_Setup_def class_request_def start_in_def Let_def order
    by (simp del: call_routine.simps split: option.splits)
  show ?thesis
    using None assms by (simp add: Data_Setup0_def t chosen_def Let_def split: option.splits)
qed

lemma request_type:
  fixes t :: u8
  assumes "bit t 7"
  shows "t AND 127 = 0 \<longleftrightarrow> t = 0x80" "t AND 127 = 1 \<longleftrightarrow> t = 0x81" "t AND 127 = 2 \<longleftrightarrow> t = 0x82"
proof -
  have eq: "t = (t AND 127) OR 0x80"
  proof (rule bit_word_eqI)
    fix n assume "n < LENGTH(8)"
    then have "n = 0 \<or> n = 1 \<or> n = 2 \<or> n = 3 \<or> n = 4 \<or> n = 5 \<or> n = 6 \<or> n = 7" by simp linarith
    then show "bit t n = bit ((t AND 127) OR 0x80) n"
      using assms by (elim disjE) (simp_all add: bit_simps)
  qed
  have e: "t = x OR 0x80" if "t AND 127 = x" for x using eq unfolding that .
  show "t AND 127 = 0 \<longleftrightarrow> t = 0x80" using e [of 0] by auto
  show "t AND 127 = 1 \<longleftrightarrow> t = 0x81" using e [of 1] by auto
  show "t AND 127 = 2 \<longleftrightarrow> t = 0x82" using e [of 2] by auto
qed


definition asked :: "u8 \<Rightarrow> u8 \<Rightarrow> u16 \<Rightarrow> u16 \<Rightarrow> u16 \<Rightarrow> 'r usb_core_scheme \<Rightarrow> 'r usb_core_scheme" where
  "asked t r v i n = info (\<lambda>j. j\<lparr>USBbmRequestType := t, USBbRequest := r, USBwValue := ByteSwap v,
     USBwIndex := ByteSwap i, USBwLength := n, ControlState := SETTING_UP\<rparr>)"

lemma setup_read:
  assumes "ep0_ready d" "setup_at t r v i n (pma d)"
  shows "set_state SETTING_UP (read_setup d) = asked t r v i n d"
  using assms
  by (simp add: read_setup_def GetEPRxAddr_def pEPRxAddr_def ep0_ready_def setup_at_def set_state_def asked_def
      Let_def bytes_split comp_def del: drop_bit_or)

lemma index_zero: "(i :: u16) = 0 \<longleftrightarrow> (ucast i :: u8) = 0 \<and> (ucast (drop_bit 8 i) :: u8) = 0"
  using bytes_join [of i] by (auto simp: bb0_def bb1_def)

lemma interface_zero: "TMC_Get_Interface_Setting k 0 = USB_SUCCESS \<longleftrightarrow> k = 0"
  by (simp add: TMC_Get_Interface_Setting_def word_gt_0)

lemma asked_fields [simp]:
  "pInformation (asked t r v i n d) = (pInformation d)\<lparr>USBbmRequestType := t, USBbRequest := r,
     USBwValue := ByteSwap v, USBwIndex := ByteSwap i, USBwLength := n, ControlState := SETTING_UP\<rparr>"
  "gTmc (asked t r v i n d) = gTmc d" "TMC_StringSerial (asked t r v i n d) = TMC_StringSerial d"
  "gCtrlCmdBuffer (asked t r v i n d) = gCtrlCmdBuffer d" "ep_reg (asked t r v i n d) = ep_reg d"
  "device_status (asked t r v i n d) = device_status d"
  "endpoint_halted e (asked t r v i n d) = endpoint_halted e d"
  "GetEPTxStatus k (asked t r v i n d) = GetEPTxStatus k d"
  "GetEPRxStatus k (asked t r v i n d) = GetEPRxStatus k d"
  "Type_Recipient (asked t r v i n d) = t AND 127"
  by (simp_all add: asked_def device_status_def endpoint_halted_def GetTxStallStatus_def GetRxStallStatus_def
      GetEPTxStatus_def GetEPRxStatus_def GetENDPOINT_def Type_Recipient_def)

lemma Type_Recipient_ctrl [simp]: "Type_Recipient (ctrl g d) = Type_Recipient d"
  by (simp add: Type_Recipient_def)

lemma asked_ready: "ep0_ready d \<Longrightarrow> ep0_ready (asked t r v i n d)"
  by (simp add: ep0_ready_def asked_def)

lemma not_less_5: "\<not> (5 :: u8) < w \<longleftrightarrow> w \<le> 5"
  by (rule not_less)

text \<open>A string index that does not exist is left out: see below.\<close>

definition bad_string :: "u8 \<Rightarrow> u8 \<Rightarrow> u16 \<Rightarrow> bool" where
  "bad_string t r v = (t = 0x80 \<and> r = 6 \<and> ucast (drop_bit 8 v) = (3 :: u8) \<and> 5 < (ucast v :: u8))"

lemma chosen_reply:
  assumes "ep0_ready d" "bit t 7" "\<not> bad_string t r v"
  shows "case chosen (asked t r v i n d) of
      None \<Rightarrow> reply t r v i n d = None
    | Some f \<Rightarrow> reply t r v i n d = Some (answer_of f (asked t r v i n d)) \<and>
        answers f (ctrl (Usb_wOffset_update (\<lambda>_. 0)) (asked t r v i n d)) \<and>
        (class_routine f \<longrightarrow> t = 0xA1 \<or> t = 0xA2)"
proof -
  note rt = request_type [OF assms(2)]
  have l: "length (gCtrlCmdBuffer d) = 24" "length (TMC_StringSerial d) = 26" using assms(1) by (simp_all add: ep0_ready_def)
  note simps = chosen_def Data_request_def class_request_def reply_def Let_def rt bb_ByteSwap swapped_zero
    interface_zero answers_def class_routine_def l
  consider "t = 0x80" | "t = 0x81" | "t = 0x82" | "t = 0xA1" | "t = 0xA2"
    | "t \<noteq> 0x80" "t \<noteq> 0x81" "t \<noteq> 0x82" "t \<noteq> 0xA1" "t \<noteq> 0xA2" by blast
  then show ?thesis
  proof cases
    case 1
    then show ?thesis using assms(3) by (auto simp: simps bad_string_def not_less)
  next
    case 2
    then show ?thesis using index_zero [of i] by (auto simp: simps)
  next
    case 3
    then show ?thesis by (auto simp: simps endpoint_enabled_def)
  next
    case 4
    then show ?thesis by (auto simp: simps)
  next
    case 5
    then show ?thesis by (auto simp: simps)
  next
    case 6
    then show ?thesis by (simp add: simps)
  qed
qed


lemma Setup0_asked:
  assumes "ep0_ready d" "ControlState (pInformation d) \<noteq> PAUSE" "setup_at t r v i n (pma d)" "n \<noteq> 0"
  shows "Setup0_Process epr d = map_option Post0_Process (Data_Setup0 (asked t r v i n d))"
  using assms setup_read [OF assms(1,3)] by (simp add: Setup0_Process_def Let_def)

lemma pInformation_set_state [simp]:
  "pInformation (set_state st d) = (pInformation d)\<lparr>ControlState := st\<rparr>"
  "SaveTState (set_state st d) = SaveTState d" "SaveRState (set_state st d) = SaveRState d"
  "daddr (set_state st d) = daddr d" "bDeviceState (set_state st d) = bDeviceState d"
  by (simp_all add: set_state_def)

lemma read_setup_in:
  assumes "ep0_ready d" "ControlState (pInformation d) \<noteq> PAUSE" "setup_at t r v i n (pma d)"
    and "bit t 7" "n \<noteq> 0" "Usb_wLength (ep0 d) \<noteq> 0xFFFF" "\<not> bad_string t r v"
  shows "case reply t r v i n d of
      None \<Rightarrow> \<exists>d'. Setup0_Process epr d = Some (False, d') \<and> ControlState (pInformation d') = STALLED \<and>
        SaveRState d' = EP_RX_STALL \<and> SaveTState d' = EP_TX_STALL
    | Some bs \<Rightarrow> \<exists>d'. Setup0_Process epr d = Some (False, d') \<and> ep0_ready d' \<and>
        tx_packet 0 d' = take (unat n) bs \<and> SaveTState d' = EP_TX_VALID \<and> SaveRState d' = EP_RX_VALID \<and>
        ControlState (pInformation d') = LAST_IN_DATA \<and>
        (t \<noteq> 0xA1 \<and> t \<noteq> 0xA2 \<or> length bs \<le> unat n \<longrightarrow> Usb_wLength (ep0 d') = 0) \<and>
        (class_request t r \<noteq> None \<longrightarrow> Usb_wLength (ep0 d') = of_nat (length bs - unat n))"
proof -
  let ?a = "asked t r v i n d"
  have b: "bit (USBbmRequestType (pInformation ?a)) 7" "Usb_wLength (ep0 ?a) \<noteq> 0xFFFF"
    using assms(4,6) by simp_all
  note S = Setup0_asked [OF assms(1,2,3,5), of epr] Data_Setup0_chosen [OF b]
  note C = chosen_reply [OF assms(1,4,7), of i n]
  show ?thesis
  proof (cases "chosen ?a")
    case None
    then show ?thesis
      using C S by (simp add: prod_eq_iff)
  next
    case (Some f)
    then have f: "reply t r v i n d = Some (answer_of f ?a)"
      "answers f (ctrl (Usb_wOffset_update (\<lambda>_. 0)) ?a)" "class_routine f \<longrightarrow> t = 0xA1 \<or> t = 0xA2"
      using C by simp_all
    have cl: "class_routine f" if "class_request t r \<noteq> None"
    proof -
      have "t = 0xA1 \<or> t = 0xA2" using that by (auto simp: class_request_def split: if_splits)
      then have "Data_request ?a = None" by (elim disjE) (simp_all add: Data_request_def Let_def)
      then have "class_request t r = Some f" using Some by (simp add: chosen_def)
      then show ?thesis by (auto simp: class_request_def class_routine_def split: if_splits)
    qed
    have n: "USBwLength (pInformation ?a) \<noteq> 0" using assms(5) by simp
    obtain d' where d': "DataStageIn (ctrl (PacketSize_update (\<lambda>_. 0xFF)) (limit_length (start_in f ?a))) = Some d'"
      "ep0_ready d'" "tx_packet 0 d' = take (unat n) (answer_of f ?a)" "SaveTState d' = EP_TX_VALID"
      "SaveRState d' = EP_RX_VALID" "ControlState (pInformation d') = LAST_IN_DATA"
      "class_routine f \<and> unat n < length (answer_of f ?a) \<or> Usb_wLength (ep0 d') = 0"
      "class_routine f \<longrightarrow> Usb_wLength (ep0 d') = of_nat (length (answer_of f ?a) - unat n)"
      using setup_in [OF asked_ready [OF assms(1)] f(2) n] by auto
    have "Data_Setup0 ?a = Some d'"
      using S(2) Some d'(1) setup_in [OF asked_ready [OF assms(1)] f(2) n] assms(4) by simp
    then have p: "Setup0_Process epr d = Some (False, snd (Post0_Process d'))"
      using S(1) d'(6) by (simp add: prod_eq_iff)
    have e: "btable d' = 0" "pma d' 0 = 0x58" using d'(2) by (simp_all add: ep0_ready_def)
    show ?thesis
      using p d' f(1,3) cl ep0_ready_Post0 [OF d'(2)] tx_packet_Post0 [OF e] by auto
  qed
qed

lemma In0_status:
  assumes "ControlState (pInformation d) = LAST_IN_DATA" "Usb_wLength (ep0 d) = 0" "\<not> Data_Mul_MaxPacketSize d"
  shows "\<exists>d'. In0_Process epr d = Some (False, d') \<and> ControlState (pInformation d') = WAIT_STATUS_OUT \<and>
           SaveTState d' = EP_TX_STALL"
  using assms by (simp add: In0_Process_def DataStageIn_def Let_def prod_eq_iff)

section \<open>A string that does not exist\<close>

text \<open>A string that does not exist has no length of its own: the code takes the one left over.\<close>

lemma bad_string_setup:
  assumes "ep0_ready d" "ControlState (pInformation d) \<noteq> PAUSE" "setup_at 0x80 6 v i n (pma d)" "n \<noteq> 0"
    and "bad_string 0x80 6 v"
  shows "Setup0_Process epr d = None \<longleftrightarrow> Usb_wLength (ep0 d) \<noteq> 0 \<and> Usb_wLength (ep0 d) \<noteq> 0xFFFF"
proof -
  let ?a = "asked 0x80 6 v i n d"
  define e where "e = ctrl (\<lambda>e. e\<lparr>Usb_wOffset := 0, CopyData := Some StringDescriptor\<rparr>) ?a"
  have q: "Data_request ?a = Some StringDescriptor"
    using assms(5) by (simp add: Data_request_def Let_def bb_ByteSwap bad_string_def)
  have nul: "TMC_GetStringDescriptor L x = (Null, x)" if "USBwValue (pInformation x) = ByteSwap v" for L x
    using that assms(5) by (simp add: TMC_GetStringDescriptor_def bb_ByteSwap bad_string_def)
  have st: "snd (TMC_GetStringDescriptor 0 e) = e" by (simp add: nul e_def)
  have f: "Usb_wLength (ep0 e) = Usb_wLength (ep0 d)" "USBwLength (pInformation e) = n"
    "USBwValue (pInformation e) = ByteSwap v" "CopyData (ep0 e) = Some StringDescriptor"
    "ControlState (pInformation e) = SETTING_UP" "USBbmRequestType (pInformation e) = 0x80"
    by (simp_all add: e_def)
  define g where "g = ctrl (PacketSize_update (\<lambda>_. 0xFF)) (limit_length e)"
  have g: "USBwValue (pInformation g) = ByteSwap v" "CopyData (ep0 g) = Some StringDescriptor"
    "ControlState (pInformation g) = SETTING_UP" "PacketSize (ep0 g) = 0xFF"
    "Usb_wLength (ep0 d) \<noteq> 0 \<Longrightarrow> Usb_wLength (ep0 g) \<noteq> 0"
    using assms(4) by (simp_all add: g_def limit_length_def Let_def f set_wLength_def)
  have copy: "UserToPMABufferCopy [] 0 a L x = None" if "L \<noteq> 0" for a L and x :: "'a usb_core_scheme"
  proof -
    have "0 < unat L" using that by (simp add: unat_gt_0)
    then obtain k where "(unat L + 1) div 2 = Suc k" by (metis Suc_eq_plus1 add_gr_0 div_eq_0_iff gr0_implies_Suc less_2_cases_iff not_less_eq numeral_2_eq_2 gr0I less_numeral_extra(1) nat_less_le)
    then show ?thesis by (simp add: UserToPMABufferCopy_def)
  qed
  have "DataStageIn g = None" if "Usb_wLength (ep0 d) \<noteq> 0"
    using g(5) [OF that] by (simp add: DataStageIn_def Let_def g nul copy)
  then show ?thesis
    using Setup0_asked [OF assms(1-4), of epr] st
    by (simp add: Data_Setup0_def q Let_def f flip: e_def g_def)
qed

lemma bad_string_stalls:
  assumes "ep0_ready d" "ControlState (pInformation d) \<noteq> PAUSE" "setup_at 0x80 6 v i n (pma d)" "n \<noteq> 0"
    and "bad_string 0x80 6 v" "Usb_wLength (ep0 d) = 0"
  shows "\<exists>d'. Setup0_Process epr d = Some (False, d') \<and> ControlState (pInformation d') = STALLED \<and>
    SaveRState d' = EP_RX_STALL \<and> SaveTState d' = EP_TX_STALL"
proof -
  let ?a = "asked 0x80 6 v i n d"
  let ?e = "ctrl (\<lambda>e. e\<lparr>Usb_wOffset := 0, CopyData := Some StringDescriptor\<rparr>) ?a"
  have q: "Data_request ?a = Some StringDescriptor"
    using assms(5) by (simp add: Data_request_def Let_def bb_ByteSwap bad_string_def)
  have "snd (TMC_GetStringDescriptor 0 ?e) = ?e"
    using assms(5) by (simp add: TMC_GetStringDescriptor_def bb_ByteSwap bad_string_def)
  then have "Data_Setup0 ?a = Some (set_state STALLED ?e)"
    using assms(6) by (simp add: Data_Setup0_def q Let_def)
  then show ?thesis using Setup0_asked [OF assms(1-4), of epr] by (simp add: prod_eq_iff)
qed

section \<open>Properties\<close>

text \<open>A request that is refused: both directions of endpoint 0 stall.\<close>

definition setup_stalls :: "epr_write \<Rightarrow> 'r usb_core_scheme \<Rightarrow> bool" where
  "setup_stalls epr d \<longleftrightarrow> (case Setup0_Process epr d of
     Some (paused, d') \<Rightarrow> \<not> paused \<and> ControlState (pInformation d') = STALLED \<and>
       SaveRState d' = EP_RX_STALL \<and> SaveTState d' = EP_TX_STALL
   | None \<Rightarrow> False)"

definition interrupt_stalls :: "'r usb_core_scheme option \<Rightarrow> bool" where
  "interrupt_stalls r \<longleftrightarrow> (case r of
     Some d \<Rightarrow> GetEPRxStatus 0 d = EP_RX_STALL \<and> GetEPTxStatus 0 d = EP_TX_STALL
   | None \<Rightarrow> False)"

text \<open>C11: A setup packet that asks for data (from the device to the host, of a length that is not zero), when
  no answer is paused and the length left over from before is not the mark \<^verbatim>\<open>0xFFFF\<close>.  It is answered as the
  tables of the specifications have it: the packet that is handed to the peripheral holds the answer, cut at
  the length the host asks for; a request that is not supported stalls the endpoint.  When the host has
  taken the packet the endpoint waits for the status stage, except after a class request that was cut short.
  A string that does not exist is stalled only when the transfer before has left no length; otherwise its
  answer is read from address 0.\<close>

theorem control_read:
  assumes "ep0_ready d" "ControlState (pInformation d) \<noteq> PAUSE" "setup_at t r v i n (pma d)"
    and "bit t 7" "n \<noteq> 0" "Usb_wLength (ep0 d) \<noteq> 0xFFFF"
  shows "if bad_string t r v then (if Usb_wLength (ep0 d) = 0 then setup_stalls epr d else Setup0_Process epr d = None)
    else case reply t r v i n d of
      None \<Rightarrow> setup_stalls epr d
    | Some bs \<Rightarrow> \<exists>d'. Setup0_Process epr d = Some (False, d') \<and> ep0_ready d' \<and>
        tx_packet 0 d' = take (unat n) bs \<and> SaveTState d' = EP_TX_VALID \<and> SaveRState d' = EP_RX_VALID \<and>
        (t \<noteq> 0xA1 \<and> t \<noteq> 0xA2 \<or> length bs \<le> unat n \<longrightarrow>
           (\<forall>regs mem. \<exists>d''. In0_Process epr (d'\<lparr>ep_reg := regs, pma := mem\<rparr>) = Some (False, d'') \<and>
              ControlState (pInformation d'') = WAIT_STATUS_OUT \<and> SaveTState d'' = EP_TX_STALL))"
proof (cases "bad_string t r v")
  case True
  then have "t = 0x80" "r = 6" by (simp_all add: bad_string_def)
  then show ?thesis
    using True bad_string_setup [of d v i n epr] bad_string_stalls [of d v i n epr] assms
    by (auto simp: setup_stalls_def)
next
  case ok: False
  note R = read_setup_in [OF assms ok, of epr]
  show ?thesis
  proof (cases "reply t r v i n d")
    case None
    then show ?thesis using R ok by (auto simp: setup_stalls_def)
  next
    case (Some bs)
    then obtain d' where d': "Setup0_Process epr d = Some (False, d')" "ep0_ready d'"
      "tx_packet 0 d' = take (unat n) bs" "SaveTState d' = EP_TX_VALID" "SaveRState d' = EP_RX_VALID"
      "ControlState (pInformation d') = LAST_IN_DATA"
      "t \<noteq> 0xA1 \<and> t \<noteq> 0xA2 \<or> length bs \<le> unat n \<longrightarrow> Usb_wLength (ep0 d') = 0"
      using R by auto
    have "\<exists>d''. In0_Process epr (d'\<lparr>ep_reg := regs, pma := mem\<rparr>) = Some (False, d'') \<and>
        ControlState (pInformation d'') = WAIT_STATUS_OUT \<and> SaveTState d'' = EP_TX_STALL"
      if "t \<noteq> 0xA1 \<and> t \<noteq> 0xA2 \<or> length bs \<le> unat n" for regs mem
      using d'(2,6,7) that by (intro In0_status) (simp_all add: ep0_ready_def)
    then show ?thesis using Some d'(1-5) ok by auto
  qed
qed

text \<open>A device after its reset, with a packet memory.\<close>

definition usb_core0 :: "(nat \<Rightarrow> u16) \<Rightarrow> usb_core" where
  "usb_core0 m = \<lparr>ep_reg = (\<lambda>_. 0), pma = m, btable = 0, daddr = 0x80, gTmc = gTmcLayerInfo,
     gTxFinished = True, tmcLayerTxBuffer = replicate 64 0, tmcLayerRxBuffer = replicate 1024 0,
     bulk_in = [], usb_stdout = [],
     pInformation = \<lparr>USBbmRequestType = 0, USBbRequest = 0, USBwValue = 0, USBwIndex = 0, USBwLength = 0,
       ControlState = IN_DATA, Current_Feature = 0x80, Current_Configuration = 0, Current_Interface = 0,
       Current_AlternateSetting = 0,
       Ctrl_Info = \<lparr>Usb_wLength = 0, Usb_wOffset = 0, PacketSize = 0, CopyData = None\<rparr>\<rparr>,
     SaveRState = 0, SaveTState = 0, StatusInfo = 0, Data_Mul_MaxPacketSize = False,
     gCtrlCmdBuffer = replicate 24 0, TMC_StringSerial = TMC_StringSerial_initial, ProtocolValue = 0,
     bDeviceState = ATTACHED\<rparr>"

definition pma_setup :: "u8 \<Rightarrow> u8 \<Rightarrow> u16 \<Rightarrow> u16 \<Rightarrow> u16 \<Rightarrow> nat \<Rightarrow> u16" where
  "pma_setup t r v i n = (\<lambda>_. 0)(0 := 0x58, 2 := 0x18, 12 := ucast t OR push_bit 8 (ucast r), 13 := v, 14 := i, 15 := n)"

lemma setup_pma [simp]: "setup_at t r v i n (pma_setup t r v i n)"
  by (simp add: setup_at_def pma_setup_def)

lemma core0_ready: "ep0_ready (usb_core0 (pma_setup t r v i n))"
  by (simp add: ep0_ready_def usb_core0_def pma_setup_def TMC_StringSerial_initial_def string_descriptor_def)

lemma core0_fields [simp]: "pma (usb_core0 m) = m" "ControlState (pInformation (usb_core0 m)) = IN_DATA"
  "Usb_wLength (ep0 (usb_core0 m)) = 0" "Current_Configuration (pInformation (usb_core0 m)) = 0"
  by (simp_all add: usb_core0_def)

lemma control_read_witness:
  "\<exists>d'. Setup0_Process rm0008_epr (usb_core0 (pma_setup 0x80 6 0x0100 0 8)) = Some (False, d') \<and>
     tx_packet 0 d' = [0x12, 0x01, 0x00, 0x02, 0x00, 0x00, 0x00, 0x40]"
proof -
  let ?d = "usb_core0 (pma_setup 0x80 6 0x0100 0 8)"
  have r: "reply 0x80 6 0x0100 0 8 ?d = Some TMC_DeviceDescriptor" by (simp add: reply_def Let_def)
  have b: "\<not> bad_string 0x80 6 0x0100" by (simp add: bad_string_def)
  show ?thesis
    using control_read [OF core0_ready, of "0x80" 6 "0x0100" 0 8 "0x80" 6 "0x0100" 0 8 rm0008_epr] r b
    by (auto simp: TMC_DeviceDescriptor_def)
qed

text \<open>C16: \<^verbatim>\<open>GET_CAPABILITIES\<close> cut short by the host leaves a length behind, and the next request for a
  string that does not exist is answered from address 0; asked for in full it leaves none, and the
  request is stalled.\<close>

theorem capabilities_then_string:
  assumes "ep0_ready d" "ControlState (pInformation d) \<noteq> PAUSE" "Usb_wLength (ep0 d) \<noteq> 0xFFFF"
    and "setup_at 0xA1 7 v i n (pma d)" "n \<noteq> 0"
    and "mem 0 = 0x58" "mem 2 = 0x18" "setup_at 0x80 6 v' i' n' mem" "n' \<noteq> 0" "bad_string 0x80 6 v'"
  shows "\<exists>d'. Setup0_Process epr d = Some (False, d') \<and>
           tx_packet 0 d' = take (unat n) ([1, 0, 0, 2] @ replicate 20 0) \<and>
           (Setup0_Process epr (d'\<lparr>ep_reg := regs, pma := mem\<rparr>) = None \<longleftrightarrow> n < 24)"
proof -
  have r: "reply 0xA1 7 v i n d = Some ([1, 0, 0, 2] @ replicate 20 0)" by (simp add: reply_def Let_def)
  have b: "\<not> bad_string 0xA1 7 v" by (simp add: bad_string_def)
  have c: "class_request 0xA1 7 \<noteq> None" by (simp add: class_request_def)
  obtain d' where d': "Setup0_Process epr d = Some (False, d')" "ep0_ready d'"
    "tx_packet 0 d' = take (unat n) ([1, 0, 0, 2] @ replicate 20 0)"
    "ControlState (pInformation d') = LAST_IN_DATA" "Usb_wLength (ep0 d') = of_nat (24 - unat n)"
    using read_setup_in [OF assms(1,2,4) _ assms(5,3) b, of epr] r c by auto
  define d2 where "d2 = d'\<lparr>ep_reg := regs, pma := mem\<rparr>"
  have d2: "ep0_ready d2" "ControlState (pInformation d2) \<noteq> PAUSE" "setup_at 0x80 6 v' i' n' (pma d2)"
    using d'(2,4) assms(6-8) by (simp_all add: d2_def ep0_ready_def)
  have u: "unat (Usb_wLength (ep0 d2)) = 24 - unat n" using d'(5) by (simp add: d2_def unat_u16)
  have "Usb_wLength (ep0 d2) \<noteq> 0xFFFF"
  proof
    assume "Usb_wLength (ep0 d2) = 0xFFFF"
    then show False using u by simp
  qed
  moreover have "Usb_wLength (ep0 d2) \<noteq> 0 \<longleftrightarrow> n < 24" using u by (auto simp: word_less_nat_alt simp flip: unat_eq_0)
  ultimately have "Setup0_Process epr d2 = None \<longleftrightarrow> n < 24"
    using bad_string_setup [OF d2 assms(9,10), of epr] by simp
  then show ?thesis using d'(1,3) by (auto simp: d2_def)
qed

lemma capabilities_then_string_witness:
  "\<exists>d'. Setup0_Process rm0008_epr (usb_core0 (pma_setup 0xA1 7 0 0 2)) = Some (False, d') \<and>
     tx_packet 0 d' = [1, 0] \<and>
     Setup0_Process rm0008_epr (d'\<lparr>ep_reg := (\<lambda>_. 0), pma := pma_setup 0x80 6 0x0306 0 4\<rparr>) = None"
proof -
  have b: "bad_string 0x80 6 0x0306" by (simp add: bad_string_def)
  have m: "pma_setup 0x80 6 0x0306 0 4 0 = 0x58" "pma_setup 0x80 6 0x0306 0 4 2 = 0x18"
    by (simp_all add: pma_setup_def)
  show ?thesis
    using capabilities_then_string [where d = "usb_core0 (pma_setup 0xA1 7 0 0 2)" and v = 0 and i = 0 and n = 2
        and mem = "pma_setup 0x80 6 0x0306 0 4" and v' = "0x0306" and i' = 0 and n' = 4
        and epr = rm0008_epr and regs = "\<lambda>_. 0"] b m core0_ready [of "0xA1" 7 0 0 2]
    by auto
qed

section \<open>A new address\<close>

lemma SetDeviceAddress_fields [simp]:
  "daddr (SetDeviceAddress epr val d) = ucast val OR 0x80"
  "pInformation (SetDeviceAddress epr val d) = pInformation d"
  by (simp_all add: SetDeviceAddress_def SetDADDR_def SetEPAddress_def SetENDPOINT_def numeral_3_eq_3)

lemma address_range:
  "(ucast (v :: u16) :: u8) \<le> 127 \<and> (ucast (drop_bit 8 v) :: u8) = 0 \<longleftrightarrow> v < 128"
proof -
  have u: "unat v = unat (ucast v :: u8) + 256 * unat (ucast (drop_bit 8 v) :: u8)"
  proof -
    have v: "unat v < 65536" using unsigned_less [of v] by simp
    have "unat (ucast v :: u8) = unat v mod 256" by (simp add: unsigned_ucast_eq take_bit_eq_mod)
    moreover have "unat (ucast (drop_bit 8 v) :: u8) = unat v div 256"
    proof -
      have "unat (drop_bit 8 v) = unat v div 256"
        by (simp only: drop_bit_eq_div) (simp add: unat_div)
      moreover have "unat v div 256 < 256" using v by (intro less_mult_imp_div_less) simp
      ultimately show ?thesis by (simp add: unsigned_ucast_eq take_bit_eq_mod)
    qed
    ultimately show ?thesis by (metis mod_mult_div_eq)
  qed
  have "(ucast v :: u8) \<le> 127 \<longleftrightarrow> unat (ucast v :: u8) \<le> 127" by (simp add: word_le_nat_alt)
  moreover have "(ucast (drop_bit 8 v) :: u8) = 0 \<longleftrightarrow> unat (ucast (drop_bit 8 v) :: u8) = 0" by (simp only: unat_eq_0)
  moreover have "v < 128 \<longleftrightarrow> unat v < 128" by (simp add: word_less_nat_alt)
  ultimately show ?thesis using u by linarith
qed

lemma address_joined: "v < 128 \<Longrightarrow> ucast (ucast (v :: u16) :: u8) = v"
  using address_range [of v] bytes_join [of v] by (simp add: bb0_def bb1_def)

lemma Setup0_asked_no_data:
  assumes "ep0_ready d" "ControlState (pInformation d) \<noteq> PAUSE" "setup_at t r v i 0 (pma d)"
  shows "Setup0_Process epr d = Some (Post0_Process (NoData_Setup0 epr (asked t r v i 0 d)))"
proof -
  have s: "set_state SETTING_UP (read_setup d) = asked t r v i 0 d" by (rule setup_read [OF assms(1,3)])
  then have "pInformation (set_state SETTING_UP (read_setup d)) = pInformation (asked t r v i 0 d)" by simp
  then have "USBwLength (pInformation (set_state SETTING_UP (read_setup d))) = 0" by (simp del: pInformation_set_state)
  then show ?thesis using assms(2) by (simp add: Setup0_Process_def Let_def s del: pInformation_set_state)
qed

text \<open>C13: \<^verbatim>\<open>SET_ADDRESS\<close> is answered with an empty packet under the old address; the device takes the new
  one only when the host has taken that packet.  An address above 127, an index or a configured device
  stalls the endpoint and changes nothing.\<close>

theorem address_after_status:
  assumes "ep0_ready d" "ControlState (pInformation d) \<noteq> PAUSE" "setup_at 0 5 v i 0 (pma d)"
  defines "accepted \<equiv> v < 128 \<and> i = 0 \<and> Current_Configuration (pInformation d) = 0"
  shows "\<exists>d'. Setup0_Process epr d = Some (False, d') \<and> daddr d' = daddr d \<and> bDeviceState d' = bDeviceState d \<and>
    (if accepted
     then SaveTState d' = EP_TX_VALID \<and> tx_packet 0 d' = [] \<and>
       (\<forall>regs mem. \<exists>d''. In0_Process epr (d'\<lparr>ep_reg := regs, pma := mem\<rparr>) = Some (False, d'') \<and>
          daddr d'' = v OR 0x80 \<and> bDeviceState d'' = ADDRESSED)
     else ControlState (pInformation d') = STALLED \<and> SaveRState d' = EP_RX_STALL \<and> SaveTState d' = EP_TX_STALL)"
proof -
  let ?a = "asked 0 5 v i 0 d"
  have S: "Setup0_Process epr d = Some (Post0_Process (NoData_Setup0 epr ?a))"
    by (rule Setup0_asked_no_data [OF assms(1,2,3)])
  have q: "NoData_request epr ?a = (if accepted then (Some USB_SUCCESS, ?a) else (None, ?a))"
    using address_range [of v]
    by (auto simp: NoData_request_def Let_def bb_ByteSwap swapped_zero accepted_def not_le)
  have a: "daddr ?a = daddr d" "bDeviceState ?a = bDeviceState d" by (simp_all add: asked_def)
  show ?thesis
  proof (cases accepted)
    case False
    then show ?thesis using S a by (simp add: NoData_Setup0_def q prod_eq_iff)
  next
    case True
    define d1 where "d1 = NoData_Setup0 epr ?a"
    have d1: "d1 = set_state WAIT_STATUS_IN (USB_StatusIn ?a)" using True by (simp add: d1_def NoData_Setup0_def q)
    have f: "ControlState (pInformation d1) = WAIT_STATUS_IN" "USBbRequest (pInformation d1) = 5"
      "USBbmRequestType (pInformation d1) = 0" "USBwValue (pInformation d1) = ByteSwap v"
      "daddr d1 = daddr d" "bDeviceState d1 = bDeviceState d" "SaveTState d1 = EP_TX_VALID"
      using a by (simp_all add: d1 USB_StatusIn_def SetEPTxCount_def)
    have m: "btable d1 = 0" "pma d1 0 = 0x58" "pma d1 1 = 0"
      using assms(1)
      by (simp_all add: d1 USB_StatusIn_def SetEPTxCount_def pEPTxCount_def set_state_def ep0_ready_def asked_def)
    have "tx_packet 0 (snd (Post0_Process d1)) = []"
      using m by (simp add: tx_packet_Post0) (simp add: tx_packet_def GetEPTxCount_def pEPTxCount_def)
    moreover have "\<exists>d''. In0_Process epr ((snd (Post0_Process d1))\<lparr>ep_reg := regs, pma := mem\<rparr>) = Some (False, d'') \<and>
        daddr d'' = v OR 0x80 \<and> bDeviceState d'' = ADDRESSED" for regs mem
    proof -
      have "v < 128" using True by (simp add: accepted_def)
      then show ?thesis
        using f address_joined [of v]
        by (simp add: In0_Process_def Let_def Type_Recipient_def TMC_SetDeviceAddress_def prod_eq_iff bb_ByteSwap)
    qed
    ultimately show ?thesis using S True f by (simp add: prod_eq_iff flip: d1_def)
  qed
qed

lemma address_after_status_witness:
  "\<exists>d' d''. Setup0_Process rm0008_epr (usb_core0 (pma_setup 0 5 9 0 0)) = Some (False, d') \<and>
     daddr d' = 0x80 \<and> In0_Process rm0008_epr (d'\<lparr>ep_reg := (\<lambda>_. 0), pma := (\<lambda>_. 0)\<rparr>) = Some (False, d'') \<and> daddr d'' = 0x89"
proof -
  have "daddr (usb_core0 m) = 0x80" for m by (simp add: usb_core0_def)
  then show ?thesis
    using address_after_status [of "usb_core0 (pma_setup 0 5 9 0 0)" 9 0 rm0008_epr] core0_ready [of 0 5 9 0 0]
    by fastforce
qed

section \<open>A request with the wrong direction\<close>

text \<open>C17: \<^verbatim>\<open>GET_CONFIGURATION\<close> with the direction from host to device is accepted after any earlier transfer
  to the host, and the first two bytes that the host then sends become the current configuration and the
  current interface, whatever they are.\<close>

theorem get_request_stores:
  assumes "ep0_ready d" "ControlState (pInformation d) \<noteq> PAUSE" "setup_at 0 8 v i n (pma d)" "n \<noteq> 0"
    and "PacketSize (ep0 d) \<noteq> 0" "mem 2 = 0x18"
  shows "\<exists>d' d''. Setup0_Process epr d = Some (False, d') \<and> SaveRState d' = EP_RX_VALID \<and>
           Out0_Process (d'\<lparr>ep_reg := regs, pma := mem\<rparr>) = Some (False, d'') \<and>
           Current_Configuration (pInformation d'') = ucast (mem 12) \<and>
           Current_Interface (pInformation d'') = ucast (drop_bit 8 (mem 12)) \<and>
           ControlState (pInformation d'') = WAIT_STATUS_IN"
proof -
  let ?a = "asked 0 8 v i n d"
  have q: "Data_request ?a = Some GetConfiguration" by (simp add: Data_request_def Let_def)
  define d1 where "d1 = snd (Standard_GetConfiguration 0 (ctrl (\<lambda>e. e\<lparr>Usb_wOffset := 0, CopyData := Some GetConfiguration\<rparr>) ?a))"
  have d1: "Usb_wLength (ep0 d1) = 1" "CopyData (ep0 d1) = Some GetConfiguration" "PacketSize (ep0 d1) = PacketSize (ep0 d)"
    "USBbmRequestType (pInformation d1) = 0" "btable d1 = 0"
    using assms(1)
    by (simp_all add: d1_def Standard_GetConfiguration_def set_wLength_def ep0_ready_def asked_def)
  define d2 where "d2 = (set_state OUT_DATA d1)\<lparr>SaveRState := EP_RX_VALID\<rparr>"
  have s: "Data_Setup0 ?a = Some d2"
    by (simp add: Data_Setup0_def q Let_def d1 d2_def flip: d1_def)
  define d3 where "d3 = (snd (Post0_Process d2))\<lparr>ep_reg := regs, pma := mem\<rparr>"
  have d3: "Usb_wLength (ep0 d3) = 1" "CopyData (ep0 d3) = Some GetConfiguration" "PacketSize (ep0 d3) = PacketSize (ep0 d)"
    "ControlState (pInformation d3) = OUT_DATA" "btable d3 = 0" "pma d3 = mem"
    by (simp_all add: d3_def d2_def d1 set_state_def)
  have L: "(if 1 < PacketSize (ep0 d) then 1 else PacketSize (ep0 d)) = 1"
  proof (cases "1 < PacketSize (ep0 d)")
    case False
    then have "unat (PacketSize (ep0 d)) \<le> 1" "unat (PacketSize (ep0 d)) \<noteq> 0"
      using assms(5) by (simp_all add: word_less_nat_alt unat_eq_0)
    then have "unat (PacketSize (ep0 d)) = unat (1 :: u16)" by simp
    then have "PacketSize (ep0 d) = 1" by (metis word_unat_eq_iff)
    then show ?thesis by simp
  qed simp
  define d4 where "d4 = ctrl (\<lambda>e. e\<lparr>Usb_wLength := Usb_wLength e - 1, Usb_wOffset := Usb_wOffset e + 1\<rparr>) d3"
  have g: "GetEPRxAddr 0 d4 = 0x18"
    using assms(6) d3 by (simp add: GetEPRxAddr_def pEPRxAddr_def d4_def)
  define d5 where "d5 = info (\<lambda>i. i\<lparr>Current_Configuration := ucast (mem 12), Current_Interface := ucast (drop_bit 8 (mem 12)),
      Current_AlternateSetting := Current_AlternateSetting (pInformation d4)\<rparr>) d4"
  have c: "copy_from_pma (pma d4) 12 (readable At_Configuration d4) 0 1 =
      Some [ucast (mem 12), ucast (drop_bit 8 (mem 12)), Current_AlternateSetting (pInformation d4), 0, 0, 0]"
    by (simp add: d4_def d3)
  have p: "PMAToUserBufferCopy (readable At_Configuration d4) 0 0x18 1 d4 =
      Some (1, [ucast (mem 12), ucast (drop_bit 8 (mem 12)), Current_AlternateSetting (pInformation d4), 0, 0, 0])"
    using c by (simp add: PMAToUserBufferCopy_def)
  have z: "Usb_wLength (ep0 d5) = 0" "PacketSize (ep0 d5) = PacketSize (ep0 d)"
    by (simp_all add: d5_def d4_def d3)
  have st: "store At_Configuration [ucast (mem 12), ucast (drop_bit 8 (mem 12)), Current_AlternateSetting (pInformation d4), 0, 0, 0] d4
      = Some d5"
    by (simp add: d5_def numeral_2_eq_2)
  have k: "call_routine GetConfiguration 1 d3 = (At_Configuration, d3)"
    by (simp add: Standard_GetConfiguration_def)
  have D: "DataStageOut d3 = Some (USB_StatusIn (set_state WAIT_STATUS_IN d5))"
    unfolding DataStageOut_def Let_def d3(1,2,3)
    using assms(5) z by (simp add: L k g p st flip: d4_def del: call_routine.simps readable.simps store.simps)
  have "Setup0_Process epr d = Some (False, snd (Post0_Process d2))"
    using Setup0_asked [OF assms(1-4), of epr] s by (simp add: d2_def prod_eq_iff)
  moreover have "Out0_Process d3 = Some (False, snd (Post0_Process (USB_StatusIn (set_state WAIT_STATUS_IN d5))))"
    using d3(4) by (simp add: Out0_Process_def Let_def D prod_eq_iff USB_StatusIn_def SetEPTxCount_def)
  ultimately show ?thesis
    unfolding d3_def by (simp add: d2_def USB_StatusIn_def SetEPTxCount_def d5_def)
qed

text \<open>The control block after an earlier transfer to the host.\<close>

definition info_after_read :: device_info where
  "info_after_read = (let i = pInformation (usb_core0 (\<lambda>_. 0)) in
     i\<lparr>ControlState := STALLED, Ctrl_Info := (Ctrl_Info i)\<lparr>PacketSize := 0xFF\<rparr>\<rparr>)"

lemma get_request_stores_witness:
  "\<exists>d' d''. Setup0_Process rm0008_epr ((usb_core0 (pma_setup 0 8 0 0 1))\<lparr>pInformation := info_after_read\<rparr>) = Some (False, d') \<and>
     Out0_Process (d'\<lparr>ep_reg := (\<lambda>_. 0), pma := pma_setup 7 9 0 0 0\<rparr>) = Some (False, d'') \<and>
     Current_Configuration (pInformation d'') = 7 \<and> Current_Interface (pInformation d'') = 9"
proof -
  let ?d = "(usb_core0 (pma_setup 0 8 0 0 1))\<lparr>pInformation := info_after_read\<rparr>"
  have r: "ep0_ready ?d" using core0_ready [of 0 8 0 0 1] by (simp add: ep0_ready_def)
  have i: "ControlState (pInformation ?d) \<noteq> PAUSE" "PacketSize (ep0 ?d) \<noteq> 0" "setup_at 0 8 0 0 1 (pma ?d)"
    by (simp_all add: info_after_read_def Let_def)
  have m: "pma_setup 7 9 0 0 0 12 = 0x0907" "pma_setup 7 9 0 0 0 2 = 0x18" by (simp_all add: pma_setup_def)
  have b: "(ucast (0x0907 :: u16) :: u8) = 7" "(ucast (drop_bit 8 (0x0907 :: u16)) :: u8) = 9" by code_simp+
  show ?thesis
    using get_request_stores [where d = ?d and v = 0 and i = 0 and n = 1 and mem = "pma_setup 7 9 0 0 0" and epr = rm0008_epr
        and regs = "\<lambda>_. 0", OF r i(1,3) one_neq_zero i(2) m(2)]
    unfolding m(1) b by blast
qed

section \<open>The interrupt around a control transfer\<close>

lemma frame_SetENDPOINT [simp]:
  "pInformation (SetENDPOINT epr n v d) = pInformation d" "SaveRState (SetENDPOINT epr n v d) = SaveRState d"
  "SaveTState (SetENDPOINT epr n v d) = SaveTState d" "gTmc (SetENDPOINT epr n v d) = gTmc d"
  "btable (SetENDPOINT epr n v d) = btable d" "daddr (SetENDPOINT epr n v d) = daddr d"
  "pma (SetENDPOINT epr n v d) = pma d" "gCtrlCmdBuffer (SetENDPOINT epr n v d) = gCtrlCmdBuffer d"
  "TMC_StringSerial (SetENDPOINT epr n v d) = TMC_StringSerial d" "bDeviceState (SetENDPOINT epr n v d) = bDeviceState d"
  "Data_Mul_MaxPacketSize (SetENDPOINT epr n v d) = Data_Mul_MaxPacketSize d"
  by (simp_all add: SetENDPOINT_def)

text \<open>The state in which the interrupt handler runs \<^verbatim>\<open>Setup0_Process\<close>.\<close>

definition polled :: "epr_write \<Rightarrow> (nat \<Rightarrow> u16) \<Rightarrow> (nat \<Rightarrow> u16) \<Rightarrow> 'r usb_core_scheme \<Rightarrow> 'r usb_core_scheme" where
  "polled epr regs mem d = ClearEP_CTR_RX epr 0 (save_nak epr (d\<lparr>ep_reg := regs, pma := mem\<rparr>))"

lemmas status_write = SetEPRxStatus_def SetEPTxStatus_def ClearEP_CTR_RX_def Let_def

lemma polled_fields [simp]:
  "pInformation (polled epr regs mem d) = pInformation d" "pma (polled epr regs mem d) = mem"
  "ep0_ready (polled epr regs mem d) = ep0_ready (d\<lparr>pma := mem\<rparr>)"
  by (simp_all add: polled_def save_nak_def status_write ep0_ready_def)

lemma restore_status_fields:
  assumes "endpoint_register epr" "SaveRState e = r" "SaveTState e = s"
  shows "\<exists>d'. restore_status epr (Some (b, e)) = Some d' \<and> tx_packet 0 d' = tx_packet 0 e \<and>
           GetEPRxStatus 0 d' = r AND EPRX_STAT \<and> GetEPTxStatus 0 d' = s AND EPTX_STAT \<and> pInformation d' = pInformation e"
proof -
  define d' where "d' = SetEPTxStatus epr 0 s (SetEPRxStatus epr 0 r e)"
  have "restore_status epr (Some (b, e)) = Some d'"
    by (simp add: restore_status_def d'_def assms(2,3) Let_def) (simp add: status_write assms(3))
  moreover have "tx_packet 0 d' = tx_packet 0 e"
    by (simp add: d'_def status_write tx_packet_def GetEPTxCount_def GetEPTxAddr_def pEPTxCount_def pEPTxAddr_def)
  moreover have "GetEPRxStatus 0 d' = r AND EPRX_STAT" "GetEPTxStatus 0 d' = s AND EPTX_STAT"
    unfolding GetEPRxStatus_def GetEPTxStatus_def d'_def endpoint_register.Set_status [OF assms(1)]
    by (rule word16_eqI; simp add: usb_bits bit_simps)+
  moreover have "pInformation d' = pInformation e" by (simp add: d'_def status_write)
  ultimately show ?thesis by blast
qed

text \<open>C12: The interrupt of a setup packet that asks for data (from the device to the host, of a length that is not
  zero), when no answer is paused and the length left over is not the mark \<^verbatim>\<open>0xFFFF\<close>: the handler reads the request, answers it as the tables have it and leaves endpoint 0 ready to send
  the answer and to take what follows; for a request that is not supported both directions stall.  For a string
  that does not exist they stall as well, but if the transfer before has left a length the handler reads
  from address 0 and does not come back.\<close>

theorem setup_interrupt:
  assumes "endpoint_register epr" "ep0_ready (d\<lparr>pma := mem\<rparr>)" "ControlState (pInformation d) \<noteq> PAUSE"
    and "wIstr AND ISTR_CTR \<noteq> 0" "wIstr AND ISTR_EP_ID = 0" "wIstr AND ISTR_DIR \<noteq> 0"
    and "regs 0 AND EP_CTR_TX = 0" "regs 0 AND EP_SETUP \<noteq> 0"
    and "setup_at t r v i n mem" "bit t 7" "n \<noteq> 0" "Usb_wLength (ep0 d) \<noteq> 0xFFFF"
  shows "if bad_string t r v
     then (if Usb_wLength (ep0 d) = 0 then interrupt_stalls (CTR_LP epr ((wIstr, regs, mem) # es) d)
           else CTR_LP epr ((wIstr, regs, mem) # es) d = None)
     else case reply t r v i n (polled epr regs mem d) of
        None \<Rightarrow> interrupt_stalls (CTR_LP epr ((wIstr, regs, mem) # es) d)
      | Some bs \<Rightarrow> \<exists>d'. CTR_LP epr ((wIstr, regs, mem) # es) d = Some d' \<and>
          GetEPRxStatus 0 d' = EP_RX_VALID \<and> GetEPTxStatus 0 d' = EP_TX_VALID \<and>
          tx_packet 0 d' = take (unat n) bs \<and> ControlState (pInformation d') = LAST_IN_DATA"
proof -
  let ?p = "polled epr regs mem d"
  have c: "CTR_LP epr ((wIstr, regs, mem) # es) d = restore_status epr (Setup0_Process epr ?p)"
  proof -
    define s where "s = save_nak epr (d\<lparr>ep_reg := regs, pma := mem\<rparr>)"
    have "GetENDPOINT 0 s = (regs 0 AND NOT EPRX_STAT OR EP_RX_NAK AND EPRX_STAT) AND NOT EPTX_STAT OR EP_TX_NAK AND EPTX_STAT"
      by (simp add: s_def save_nak_def Let_def endpoint_register.Set_status [OF assms(1)]) (simp add: GetENDPOINT_def)
    then have "GetENDPOINT 0 s AND EP_CTR_TX = regs 0 AND EP_CTR_TX" "GetENDPOINT 0 s AND EP_SETUP = regs 0 AND EP_SETUP"
      by (simp_all only:) (rule word16_eqI; simp add: usb_bits bit_simps)+
    then show ?thesis using assms(4-8) by (simp add: serve_ep0_def polled_def Let_def flip: s_def)
  qed
  have m: "EP_RX_STALL AND EPRX_STAT = EP_RX_STALL" "EP_TX_STALL AND EPTX_STAT = EP_TX_STALL"
    "EP_RX_VALID AND EPRX_STAT = EP_RX_VALID" "EP_TX_VALID AND EPTX_STAT = EP_TX_VALID"
    by (rule word16_eqI; simp add: usb_bits bit_simps)+
  have p: "ep0_ready ?p" "ControlState (pInformation ?p) \<noteq> PAUSE" "setup_at t r v i n (pma ?p)" "Usb_wLength (ep0 ?p) \<noteq> 0xFFFF"
    using assms(2,3,9,12) by simp_all
  have stall: "interrupt_stalls (CTR_LP epr ((wIstr, regs, mem) # es) d)"
    if "Setup0_Process epr ?p = Some (False, e)" "SaveRState e = EP_RX_STALL" "SaveTState e = EP_TX_STALL" for e
    using restore_status_fields [OF assms(1) that(2,3), of False] unfolding interrupt_stalls_def c that(1) m by auto
  show ?thesis
  proof (cases "bad_string t r v")
    case True
    then have tr: "t = 0x80" "r = 6" by (simp_all add: bad_string_def)
    show ?thesis
    proof (cases "Usb_wLength (ep0 d) = 0")
      case zero: True
      then obtain e where "Setup0_Process epr ?p = Some (False, e)" "SaveRState e = EP_RX_STALL" "SaveTState e = EP_TX_STALL"
        using bad_string_stalls [of ?p v i n epr] True p assms(11) by (auto simp: tr)
      then show ?thesis using True zero stall by simp
    next
      case False
      then have "Setup0_Process epr ?p = None"
        using bad_string_setup [of ?p v i n epr] True p assms(11,12) by (simp add: tr)
      then have "CTR_LP epr ((wIstr, regs, mem) # es) d = None" unfolding c by (simp add: restore_status_def)
      then show ?thesis using True False by (simp del: CTR_LP.simps)
    qed
  next
    case ok: False
    note R = read_setup_in [OF p(1-3) assms(10,11) p(4) ok, of epr]
    show ?thesis
    proof (cases "reply t r v i n ?p")
      case None
      then obtain e where "Setup0_Process epr ?p = Some (False, e)" "SaveRState e = EP_RX_STALL" "SaveTState e = EP_TX_STALL"
        using R by auto
      then show ?thesis using None ok stall by simp
    next
      case (Some bs)
      then obtain e where e: "Setup0_Process epr ?p = Some (False, e)" "SaveRState e = EP_RX_VALID" "SaveTState e = EP_TX_VALID"
        "tx_packet 0 e = take (unat n) bs" "ControlState (pInformation e) = LAST_IN_DATA"
        using R by auto
      show ?thesis
        using restore_status_fields [OF assms(1) e(2,3), of False] e(4,5) ok unfolding c e(1) m Some by auto
    qed
  qed
qed

lemma setup_interrupt_witness:
  "\<exists>d'. CTR_LP rm0008_epr [(0x8010, (\<lambda>_. 0xBA60), pma_setup 0x80 6 0x0100 0 8)] (usb_core0 (\<lambda>_. 0)) = Some d' \<and>
     GetEPTxStatus 0 d' = EP_TX_VALID \<and> tx_packet 0 d' = [0x12, 0x01, 0x00, 0x02, 0x00, 0x00, 0x00, 0x40]"
proof -
  let ?d = "usb_core0 (\<lambda>_. 0)" and ?m = "pma_setup 0x80 6 0x0100 0 8"
  have r: "reply 0x80 6 0x0100 0 8 (polled rm0008_epr regs ?m ?d) = Some TMC_DeviceDescriptor" for regs
    by (simp add: reply_def Let_def)
  have b: "\<not> bad_string 0x80 6 0x0100" by (simp add: bad_string_def)
  have p: "ep0_ready (?d\<lparr>pma := ?m\<rparr>)"
    using core0_ready [of "0x80" 6 "0x0100" 0 8] by (simp add: ep0_ready_def usb_core0_def)
  have w: "(0x8010 :: u16) AND ISTR_CTR \<noteq> 0" "(0x8010 :: u16) AND ISTR_EP_ID = 0" "(0x8010 :: u16) AND ISTR_DIR \<noteq> 0"
    "(\<lambda>_. 0xBA60 :: u16) 0 AND EP_CTR_TX = 0" "(\<lambda>_. 0xBA60 :: u16) 0 AND EP_SETUP \<noteq> 0"
    by (simp_all add: usb_bits)
  have c: "ControlState (pInformation ?d) \<noteq> PAUSE" "bit (0x80 :: u8) 7" "(8 :: u16) \<noteq> 0" "Usb_wLength (ep0 ?d) \<noteq> 0xFFFF"
    by simp_all
  show ?thesis
    using setup_interrupt [OF rm0008.endpoint_register_axioms p c(1) w setup_pma c(2,3,4), of "[]"] b
    unfolding r by (auto simp: TMC_DeviceDescriptor_def)
qed

section \<open>The reset\<close>

text \<open>A receive buffer as the peripheral reads its entry of the buffer table: address and size.\<close>

definition rx_buffer :: "nat \<Rightarrow> 'r usb_core_scheme \<Rightarrow> nat \<times> nat" where
  "rx_buffer n d =
     (let c = pma d (pEPRxCount n d); blocks = unat (drop_bit 10 c AND 0x1F)
      in (unat (GetEPRxAddr n d), if bit c 15 then 32 * (blocks + 1) else 2 * blocks))"

lemma table_index:
  "btable d = 0 \<Longrightarrow> pEPTxAddr n d = 4 * n" "btable d = 0 \<Longrightarrow> pEPTxCount n d = 4 * n + 1"
  "btable d = 0 \<Longrightarrow> pEPRxAddr n d = 4 * n + 2" "btable d = 0 \<Longrightarrow> pEPRxCount n d = 4 * n + 3"
  by (simp_all add: pEPTxAddr_def pEPTxCount_def pEPRxAddr_def pEPRxCount_def)

lemma block_counts:
  "BlocksOf32 0xFF = 0x9C00" "BlocksOf32 0x40 = 0x8400"
  by code_simp+

lemmas register_write = status_write SetEPType_def Clear_Status_Out_def SetEPRxValid_def SetEPAddress_def

lemma only_registers:
  assumes "d' \<in> {SetEPTxStatus epr n st d, SetEPRxStatus epr n st d, SetEPRxValid epr n d, SetEPType epr n st d,
    Clear_Status_Out epr n d, SetEPAddress epr n a d}"
  shows "\<exists>v. d' = SetENDPOINT epr n v d"
  using assms by (elim insertE emptyE) (auto simp: register_write)

lemma bit_15: "bit (0xF :: u16) k \<longleftrightarrow> k < 4"
proof -
  have "(0xF :: u16) = mask 4" by (simp add: mask_eq_exp_minus_1)
  then show ?thesis by (simp only: bit_mask_iff) auto
qed

text \<open>A chain of register and table writes: what it leaves of the table and of the other fields.\<close>

definition table_of :: "'r usb_core_scheme \<Rightarrow> u16 \<times> (nat \<Rightarrow> u16) \<times> device_info \<times> u8 list \<times> u8 list \<times> bool" where
  "table_of d = (btable d, pma d, pInformation d, gCtrlCmdBuffer d, TMC_StringSerial d, Data_Mul_MaxPacketSize d)"

lemma table_of_registers [simp]:
  "table_of (SetEPTxStatus epr n st d) = table_of d" "table_of (SetEPRxStatus epr n st d) = table_of d"
  "table_of (SetEPRxValid epr n d) = table_of d" "table_of (SetEPType epr n st d) = table_of d"
  "table_of (Clear_Status_Out epr n d) = table_of d" "table_of (SetEPAddress epr n a d) = table_of d"
  "table_of (SetDADDR v d) = table_of d" "table_of (d\<lparr>bDeviceState := s\<rparr>) = table_of d"
  "table_of (SetDeviceAddress epr w d) = table_of d"
  by (simp_all add: table_of_def register_write SetDADDR_def SetDeviceAddress_def numeral_3_eq_3)

lemma table_of_entries:
  assumes "table_of d = (0, m, t)"
  shows "table_of (SetEPTxAddr n a d) = (0, m(4 * n := push_bit 1 (drop_bit 1 a)), t)"
    "table_of (SetEPRxAddr n a d) = (0, m(4 * n + 2 := push_bit 1 (drop_bit 1 a)), t)"
    "table_of (SetEPTxCount n a d) = (0, m(4 * n + 1 := a), t)"
    "table_of (SetEPRxCount n a d) = (0, m(4 * n + 3 := if 62 < a then BlocksOf32 a else BlocksOf2 a), t)"
  using assms
  by (auto simp: table_of_def SetEPTxAddr_def SetEPRxAddr_def SetEPTxCount_def SetEPRxCount_def table_index)

lemma regs_table [simp]:
  "ep_reg (SetEPTxAddr n a d) = ep_reg d" "ep_reg (SetEPRxAddr n a d) = ep_reg d"
  "ep_reg (SetEPTxCount n a d) = ep_reg d" "ep_reg (SetEPRxCount n a d) = ep_reg d"
  "ep_reg (SetDADDR w d) = ep_reg d" "ep_reg (SetBTABLE w d) = ep_reg d"
  by (simp_all add: SetEPTxAddr_def SetEPRxAddr_def SetEPTxCount_def SetEPRxCount_def pma_put_def SetDADDR_def SetBTABLE_def)

context endpoint_register begin

lemma address_write:
  assumes "a \<in> {0, 1, 2 :: u8}" "old AND EPADDR_FIELD = 0"
  shows "epr old (old AND EPREG_MASK OR ucast a) = old OR ucast a"
proof -
  have "\<not> bit (old AND EPADDR_FIELD) k" for k by (simp add: assms(2))
  then have z: "k < 4 \<Longrightarrow> \<not> bit old k" for k
    unfolding EPADDR_FIELD_def bit_and_iff bit_15 by blast
  show ?thesis
    using assms(1) z [of 0] z [of 1] z [of 2] z [of 3]
    by (elim insertE emptyE; hypsubst; intro word16_eqI; simp add: toggled cleared written kept usb_bits bit_simps)
qed

lemma regs:
  "ep_reg (SetEPTxStatus epr n st d) = (ep_reg d)(n := ep_reg d n AND NOT EPTX_STAT OR st AND EPTX_STAT)"
  "ep_reg (SetEPRxStatus epr n st d) = (ep_reg d)(n := ep_reg d n AND NOT EPRX_STAT OR st AND EPRX_STAT)"
  "ep_reg (SetEPRxValid epr n d) = (ep_reg d)(n := ep_reg d n AND NOT EPRX_STAT OR EP_RX_VALID AND EPRX_STAT)"
  "ep_reg (SetEPType epr n EP_BULK d) = (ep_reg d)(n := ep_reg d n AND NOT EP_T_FIELD OR EP_BULK)"
  "ep_reg (SetEPType epr n EP_CONTROL d) = (ep_reg d)(n := ep_reg d n AND NOT EP_T_FIELD OR EP_CONTROL)"
  "ep_reg (Clear_Status_Out epr n d) = (ep_reg d)(n := ep_reg d n AND NOT EP_KIND)"
  by (simp_all add: fun_eq_iff SetEPRxValid_def SetEPType_def Clear_Status_Out_def Set_status [unfolded GetENDPOINT_def]
      GetENDPOINT_def set_type clear_flags)

end

lemma reset_table:
  assumes "table_of d = (b, m, i, t)"
  shows "table_of (TMC_Reset epr d) = (0, m(0 := 0x58, 2 := 0x18, 3 := 0x9C00, 6 := 0x98, 7 := 0x8400, 8 := 0x118, 9 := 0x40),
     i\<lparr>Current_Configuration := 0, Current_Interface := 0, Current_Feature := TMC_ConfigDescriptor ! 7\<rparr>, t)"
proof -
  let ?i = "i\<lparr>Current_Configuration := 0, Current_Interface := 0, Current_Feature := TMC_ConfigDescriptor ! 7\<rparr>"
  have s: "table_of (SetBTABLE 0 (info (\<lambda>i. i\<lparr>Current_Configuration := 0, Current_Interface := 0,
      Current_Feature := TMC_ConfigDescriptor ! 7\<rparr>) d)) = (0, m, ?i, t)"
    using assms by (auto simp: table_of_def SetBTABLE_def)
  show ?thesis
    by (simp add: TMC_Reset_def Let_def table_of_entries s block_counts) (simp add: fun_eq_iff)
qed

lemma reset_registers:
  assumes "endpoint_register epr" "ep_reg d 0 = 0" "ep_reg d 1 = 0" "ep_reg d 2 = 0"
  shows "ep_reg (TMC_Reset epr d) = (ep_reg d)(0 := EP_CONTROL OR EP_RX_VALID OR EP_TX_STALL,
     1 := EP_BULK OR EP_RX_VALID OR 1, 2 := EP_BULK OR EP_TX_NAK OR 2)"
proof -
  note R = endpoint_register.regs [OF assms(1)]
  have A: "ep_reg (SetEPAddress epr n a h) = (ep_reg h)(n := ep_reg h n OR ucast a)"
    if "a \<in> {0, 1, 2}" "ep_reg h n AND EPADDR_FIELD = 0" for n a and h :: "'a usb_core_scheme"
    using endpoint_register.address_write [OF assms(1) that] by (simp add: SetEPAddress_def SetENDPOINT_def GetENDPOINT_def)
  have D: "ep_reg (SetDeviceAddress epr w h) = (ep_reg h)(1 := ep_reg h 1 OR 1, 2 := ep_reg h 2 OR 2)"
    if "ep_reg h 0 AND EPADDR_FIELD = 0" "ep_reg h 1 AND EPADDR_FIELD = 0" "ep_reg h 2 AND EPADDR_FIELD = 0"
    for w and h :: "'a usb_core_scheme"
  proof -
    have l: "[0..<3] = [0, 1, 2 :: nat]" by (simp add: upt_rec)
    show ?thesis using that by (simp add: SetDeviceAddress_def l A)
  qed
  show ?thesis
    using assms(2-4) by (simp add: TMC_Reset_def Let_def D [unfolded usb_bits] R [unfolded usb_bits] usb_bits)
qed

text \<open>C18: After a reset of the bus, on every peripheral whose registers behave as documented, endpoint 0 waits for
  a setup packet with its buffers where the control transfers expect them, endpoint 1 can receive and endpoint 2
  is idle.  The receive buffer of endpoint 0 is announced with 256 bytes and so reaches over its own transmit
  buffer and over the receive buffer of endpoint 1.\<close>

theorem reset_ready:
  assumes "endpoint_register epr" "ep_reg d 0 = 0" "ep_reg d 1 = 0" "ep_reg d 2 = 0"
    and "length (gCtrlCmdBuffer d) = 24" "length (TMC_StringSerial d) = 26" "\<not> Data_Mul_MaxPacketSize d"
  shows "ep0_ready (TMC_Reset epr d) \<and> daddr (TMC_Reset epr d) = 0x80 \<and>
     Current_Configuration (pInformation (TMC_Reset epr d)) = 0 \<and>
     (GetEPRxStatus 0 (TMC_Reset epr d), GetEPTxStatus 0 (TMC_Reset epr d)) = (EP_RX_VALID, EP_TX_STALL) \<and>
     GetEPRxStatus 1 (TMC_Reset epr d) = EP_RX_VALID \<and> GetEPTxStatus 2 (TMC_Reset epr d) = EP_TX_NAK \<and>
     rx_buffer 0 (TMC_Reset epr d) = (0x18, 256) \<and> rx_buffer 1 (TMC_Reset epr d) = (0x98, 64) \<and>
     GetEPTxAddr 0 (TMC_Reset epr d) = 0x58 \<and> GetEPTxAddr 2 (TMC_Reset epr d) = 0x118"
proof -
  obtain b m i t where d: "table_of d = (b, m, i, t)" by (cases "table_of d") auto
  note T = reset_table [OF d, of epr]
  have f: "btable (TMC_Reset epr d) = 0" using T by (simp add: table_of_def)
  have e: "ep0_ready (TMC_Reset epr d)" using T d assms(5-7) by (auto simp: table_of_def ep0_ready_def)
  have c: "Current_Configuration (pInformation (TMC_Reset epr d)) = 0" using T by (simp add: table_of_def)
  have a: "daddr (TMC_Reset epr d) = 0x80" by (simp add: TMC_Reset_def Let_def)
  have s: "(GetEPRxStatus 0 (TMC_Reset epr d), GetEPTxStatus 0 (TMC_Reset epr d)) = (EP_RX_VALID, EP_TX_STALL)"
    "GetEPRxStatus 1 (TMC_Reset epr d) = EP_RX_VALID" "GetEPTxStatus 2 (TMC_Reset epr d) = EP_TX_NAK"
    by (simp_all add: GetEPRxStatus_def GetEPTxStatus_def GetENDPOINT_def reset_registers [OF assms(1-4)] usb_bits)
  have m: "pma (TMC_Reset epr d) = m(0 := 0x58, 2 := 0x18, 3 := 0x9C00, 6 := 0x98, 7 := 0x8400, 8 := 0x118, 9 := 0x40)"
    using T by (simp add: table_of_def)
  have x: "rx_buffer 0 (TMC_Reset epr d) = (0x18, 256)" "rx_buffer 1 (TMC_Reset epr d) = (0x98, 64)"
    by (simp_all add: rx_buffer_def GetEPRxAddr_def table_index [OF f] m Let_def)
  have y: "GetEPTxAddr 0 (TMC_Reset epr d) = 0x58" "GetEPTxAddr 2 (TMC_Reset epr d) = 0x118"
    by (simp_all add: GetEPTxAddr_def table_index [OF f] m)
  show ?thesis using e c a s x y by blast
qed

lemma reset_ready_witness:
  "ep0_ready (TMC_Reset rm0008_epr (usb_core0 (\<lambda>_. 0))) \<and>
   GetEPRxStatus 0 (TMC_Reset rm0008_epr (usb_core0 (\<lambda>_. 0))) = EP_RX_VALID"
  using reset_ready [OF rm0008.endpoint_register_axioms, of "usb_core0 (\<lambda>_. 0)"]
  by (simp add: usb_core0_def TMC_StringSerial_initial_def string_descriptor_def)

end
