(* ===== verification/Crc.thy ===== *)
theory Crc
  imports Prelude
begin

unbundle bit_operations_syntax

text \<open>
  The CRC of \<^verbatim>\<open>Src/Src/crc.c\<close>: a table of 256 entries and a step that takes a byte.  The table is static
  in C and zero until \<open>init_crcccitt_tab\<close> fills it; here it is an argument.

  The reference is the bit-serial CRC-CCITT with the polynomial \<open>x\<^sup>1\<^sup>6 + x\<^sup>1\<^sup>2 + x\<^sup>5 + 1\<close>: a register of 16
  bits that takes the message bit by bit, most significant bit first.
\<close>

section \<open>The code\<close>

definition P_CCITT :: u16 where "P_CCITT = 0x1021"

definition tab_bit :: "u16 \<times> u16 \<Rightarrow> u16 \<times> u16" where
  "tab_bit = (\<lambda>(crc, ch).
     (if (crc XOR ch) AND 0x8000 \<noteq> 0 then push_bit 1 crc XOR P_CCITT else push_bit 1 crc, push_bit 1 ch))"

definition tab_entry :: "nat \<Rightarrow> u16" where
  "tab_entry i = fst ((tab_bit ^^ 8) (0, push_bit 8 (of_nat i)))"

definition init_crcccitt_tab :: "u16 list" where
  "init_crcccitt_tab = map tab_entry [0..<256]"

definition update_crc_ccitt :: "u16 list \<Rightarrow> u16 \<Rightarrow> u8 \<Rightarrow> u16" where
  "update_crc_ccitt crc_tabccitt crc ch =
     (let short_c = 0x00FF AND ucast ch;
          tmp = drop_bit 8 crc XOR short_c
      in push_bit 8 crc XOR crc_tabccitt ! unat tmp)"

section \<open>The reference\<close>

definition crc_shift :: "u16 \<Rightarrow> u16" where
  "crc_shift c = (if bit c 15 then push_bit 1 c XOR P_CCITT else push_bit 1 c)"

definition serial_bit :: "u16 \<Rightarrow> bool \<Rightarrow> u16" where
  "serial_bit c b = (if bit c 15 \<noteq> b then push_bit 1 c XOR P_CCITT else push_bit 1 c)"

definition bits_of :: "u8 \<Rightarrow> bool list" where
  "bits_of b = map (bit b) [7, 6, 5, 4, 3, 2, 1, 0]"

definition serial_crc :: "u16 \<Rightarrow> u8 list \<Rightarrow> u16" where
  "serial_crc c bs = foldl serial_bit c (concat (map bits_of bs))"

definition table_crc :: "u16 \<Rightarrow> u8 list \<Rightarrow> u16" where
  "table_crc c bs = foldl (update_crc_ccitt init_crcccitt_tab) c bs"

section \<open>Linearity\<close>

lemma crc_shift_xor: "crc_shift (a XOR b) = crc_shift a XOR crc_shift b"
  by (simp add: crc_shift_def bit_xor_iff push_bit_xor ac_simps)

lemma crc_shifts_xor: "(crc_shift ^^ n) (a XOR b) = (crc_shift ^^ n) a XOR (crc_shift ^^ n) b"
  by (induction n) (simp_all add: crc_shift_xor)

lemma crc_shifts_push:
  assumes "\<And>i. 16 - n \<le> i \<Longrightarrow> \<not> bit a i" "n \<le> 16"
  shows "(crc_shift ^^ n) a = push_bit n a"
  using assms
proof (induction n)
  case (Suc n)
  then have "(crc_shift ^^ n) a = push_bit n a" by (intro Suc.IH) auto
  moreover have "\<not> bit (push_bit n a) 15"
    using Suc.prems(1) [of "15 - n"] Suc.prems(2) by (auto simp: bit_push_bit_iff)
  ultimately have "(crc_shift ^^ Suc n) a = push_bit 1 (push_bit n a)"
    by (simp only: funpow.simps comp_apply) (simp only: crc_shift_def if_False)
  then show ?case by (simp only: push_bit_push_bit plus_1_eq_Suc)
qed simp

lemma tab_bits: "(crc_shift ^^ n) (crc XOR ch) = fst ((tab_bit ^^ n) (crc, ch)) XOR push_bit n ch \<and>
                 snd ((tab_bit ^^ n) (crc, ch)) = push_bit n ch"
proof (induction n)
  case (Suc n)
  obtain c h where c: "(tab_bit ^^ n) (crc, ch) = (c, h)" by fastforce
  have t: "x AND 0x8000 \<noteq> 0 \<longleftrightarrow> bit x 15" for x :: u16
    using and_exp_eq_0_iff_not_bit [of x 15] by simp
  have h: "h = push_bit n ch" "(crc_shift ^^ n) (crc XOR ch) = c XOR push_bit n ch"
    using Suc c by simp_all
  have p: "push_bit 1 (push_bit n ch) = push_bit (Suc n) ch" by (simp only: push_bit_push_bit plus_1_eq_Suc)
  have "(tab_bit ^^ Suc n) (crc, ch) = tab_bit (c, push_bit n ch)" by (simp add: c h)
  then have s: "(tab_bit ^^ Suc n) (crc, ch) =
      (if bit (c XOR push_bit n ch) 15 then push_bit 1 c XOR P_CCITT else push_bit 1 c, push_bit (Suc n) ch)"
    by (simp only: tab_bit_def prod.case t p)
  have "(crc_shift ^^ Suc n) (crc XOR ch) = crc_shift (c XOR push_bit n ch)"
    by (simp only: funpow.simps comp_apply h)
  also have "\<dots> = (if bit (c XOR push_bit n ch) 15 then push_bit 1 c XOR P_CCITT else push_bit 1 c) XOR
      push_bit (Suc n) ch"
    by (simp only: crc_shift_def push_bit_xor p) (simp only: ac_simps split: if_split, simp)
  finally show ?case by (simp only: s fst_conv snd_conv simp_thms)
qed simp

lemma tab_entry_shifts: "i < 256 \<Longrightarrow> tab_entry i = (crc_shift ^^ 8) (push_bit 8 (of_nat i))"
proof -
  assume "i < 256"
  have "push_bit 8 (push_bit 8 (of_nat i :: u16)) = 0"
    by (rule bit_word_eqI) (simp add: bit_simps)
  then show ?thesis
    using tab_bits [of 8 0 "push_bit 8 (of_nat i)"] by (simp add: tab_entry_def)
qed

lemma update_shifts:
  "update_crc_ccitt init_crcccitt_tab crc ch = (crc_shift ^^ 8) (crc XOR push_bit 8 (ucast ch))"
proof -
  define t where "t = drop_bit 8 crc XOR (0x00FF AND ucast ch)"
  have t: "t = drop_bit 8 crc XOR ucast ch"
  proof -
    have "0x00FF AND (ucast ch :: u16) = ucast ch"
    proof (rule bit_word_eqI)
      fix n assume "n < LENGTH(16)"
      have m: "(0x00FF :: u16) = mask 8" by (simp add: mask_eq_exp_minus_1)
      show "bit (0x00FF AND (ucast ch :: u16)) n = bit (ucast ch :: u16) n"
        unfolding m by (auto simp: bit_simps dest: bit_imp_le_length)
    qed
    then show ?thesis by (simp add: t_def)
  qed
  have "unat t < 2 ^ 8"
  proof -
    have "t = take_bit 8 t"
      by (rule bit_word_eqI) (auto simp: t bit_simps dest: bit_imp_le_length)
    then have "unat t = take_bit 8 (unat t)" by (metis unsigned_take_bit_eq)
    then show ?thesis by (metis take_bit_nat_less_exp)
  qed
  then have e: "init_crcccitt_tab ! unat t = (crc_shift ^^ 8) (push_bit 8 t)"
    by (simp add: init_crcccitt_tab_def tab_entry_shifts)
  have lo: "(crc_shift ^^ 8) (take_bit 8 crc) = push_bit 8 crc"
  proof -
    have "push_bit 8 (take_bit 8 crc) = push_bit 8 crc"
      by (rule bit_word_eqI) (auto simp: bit_simps)
    then show ?thesis by (subst crc_shifts_push) (auto simp: bit_simps)
  qed
  have "crc XOR push_bit 8 (ucast ch) = take_bit 8 crc XOR push_bit 8 t"
    by (rule bit_word_eqI) (auto simp: t bit_simps)
  then show ?thesis
    by (simp add: update_crc_ccitt_def Let_def crc_shifts_xor e lo flip: t_def)
qed

section \<open>Table and register agree\<close>

fun aligned :: "bool list \<Rightarrow> u16" where
  "aligned [] = 0"
| "aligned (b # bs) = (if b then 0x8000 else 0) XOR drop_bit 1 (aligned bs)"

lemma bit_aligned:
  "length bs \<le> 16 \<Longrightarrow> bit (aligned bs) i \<longleftrightarrow> 16 - length bs \<le> i \<and> i < 16 \<and> bs ! (15 - i)"
proof (induction bs arbitrary: i)
  case (Cons b bs)
  have t: "bit (if b then 0x8000 else 0 :: u16) i = (b \<and> i = 15)" for i
    using bit_exp_iff [where 'a = "16 word", of 15 i] by (auto simp: eq_commute)
  have e: "bit (aligned (b # bs)) i = ((b \<and> i = 15) \<noteq> bit (aligned bs) (Suc i))" for i
    unfolding aligned.simps bit_xor_iff t bit_drop_bit_eq by simp
  consider "i = 15" | "i < 15" | "15 < i" by linarith
  then show ?case
  proof cases
    case 2
    then have n: "(b # bs) ! (15 - i) = bs ! (15 - Suc i)"
      by (subst Suc_diff_Suc [symmetric]) simp_all
    have h: "bit (aligned bs) (Suc i) = (16 - length bs \<le> Suc i \<and> Suc i < 16 \<and> bs ! (15 - Suc i))"
      using Cons by simp
    have l: "(16 - length bs \<le> Suc i) = (16 - length (b # bs) \<le> i)" using Cons.prems by auto
    have "i \<noteq> 15" "Suc i < 16" "i < 16" using 2 by simp_all
    then show ?thesis unfolding e h n l by blast
  qed (use Cons in \<open>simp_all add: e del: aligned.simps\<close>)
qed simp

lemma serial_bits:
  "length bs \<le> 16 \<Longrightarrow> foldl serial_bit c bs = (crc_shift ^^ length bs) (c XOR aligned bs)"
proof (induction bs arbitrary: c)
  case (Cons b bs)
  define t :: u16 where "t = (if b then 0x8000 else 0)"
  have "bit t 15 = b" and t1: "push_bit 1 t = 0" by (simp_all add: t_def)
  have "push_bit 1 (c XOR t) = push_bit 1 c" unfolding push_bit_xor t1 by simp
  then have s: "serial_bit c b = crc_shift (c XOR t)"
    unfolding serial_bit_def crc_shift_def using \<open>bit t 15 = b\<close> by (auto simp: bit_xor_iff simp del: push_bit_Suc)
  have "\<not> bit (drop_bit 1 (aligned bs)) 15"
    by (auto simp: bit_drop_bit_eq dest: bit_imp_le_length)
  then have "crc_shift (drop_bit 1 (aligned bs)) = push_bit 1 (drop_bit 1 (aligned bs))"
    by (simp only: crc_shift_def if_False)
  also have "\<dots> = aligned bs"
  proof (rule bit_word_eqI)
    fix n assume "n < LENGTH(16)"
    have "\<not> bit (aligned bs) 0" using Cons.prems by (simp add: bit_aligned)
    then show "bit (push_bit 1 (drop_bit 1 (aligned bs))) n = bit (aligned bs) n"
      using \<open>n < LENGTH(16)\<close> unfolding bit_push_bit_iff bit_drop_bit_eq comp_apply
      by (cases n) simp_all
  qed
  finally have d: "crc_shift (drop_bit 1 (aligned bs)) = aligned bs" .
  have "foldl serial_bit c (b # bs) = (crc_shift ^^ length bs) (crc_shift (c XOR t) XOR aligned bs)"
    using Cons by (simp add: s)
  also have "crc_shift (c XOR t) XOR aligned bs = crc_shift (c XOR aligned (b # bs))"
    by (simp only: aligned.simps crc_shift_xor d xor.assoc flip: t_def)
  also have "(crc_shift ^^ length bs) (crc_shift x) = (crc_shift ^^ length (b # bs)) x" for x
    by (simp add: funpow_swap1)
  finally show ?case .
qed simp

lemma bits_of_map: "bits_of b = map (\<lambda>j. bit b (7 - j)) [0..<8]"
  by (simp add: bits_of_def upt_rec [of _ 8])

lemma aligned_byte: "aligned (bits_of b) = push_bit 8 (ucast b)"
proof (rule bit_word_eqI)
  fix i assume "i < LENGTH(16)"
  then show "bit (aligned (bits_of b)) i = bit (push_bit 8 (ucast b :: u16)) i"
    by (auto simp: bit_aligned bits_of_map bit_simps Suc_diff_le)
qed

lemma update_serial: "update_crc_ccitt init_crcccitt_tab c b = foldl serial_bit c (bits_of b)"
proof -
  have "length (bits_of b) = 8" by (simp add: bits_of_map)
  then show ?thesis using serial_bits [of "bits_of b" c] by (simp add: update_shifts aligned_byte)
qed

text \<open>C40: With the table that \<open>init_crcccitt_tab\<close> computes, updating byte by byte is the bit-serial
  CRC-CCITT of the message, from any start; and a message followed by its own CRC, high byte first,
  has the CRC 0.\<close>

theorem table_is_serial:
  "table_crc c bs = serial_crc c bs \<and>
   table_crc c (bs @ [ucast (drop_bit 8 (table_crc c bs)), ucast (table_crc c bs)]) = 0"
proof
  show "table_crc c bs = serial_crc c bs"
    unfolding table_crc_def serial_crc_def by (induction bs arbitrary: c) (simp_all add: update_serial)
  define x where "x = table_crc c bs"
  have z: "(crc_shift ^^ n) 0 = 0" for n by (induction n) (simp_all add: crc_shift_def)
  have "update_crc_ccitt init_crcccitt_tab x (ucast (drop_bit 8 x)) = push_bit 8 x"
  proof -
    have "x XOR push_bit 8 (ucast (ucast (drop_bit 8 x) :: u8)) = take_bit 8 x"
      by (rule bit_word_eqI) (auto simp: bit_simps)
    moreover have "push_bit 8 (take_bit 8 x) = push_bit 8 x"
      by (rule bit_word_eqI) (auto simp: bit_simps)
    moreover have "(crc_shift ^^ 8) (take_bit 8 x) = push_bit 8 (take_bit 8 x)"
      by (rule crc_shifts_push) (auto simp: bit_simps)
    ultimately show ?thesis by (simp add: update_shifts)
  qed
  moreover have "push_bit 8 x XOR push_bit 8 (ucast (ucast x :: u8)) = 0"
    by (rule bit_word_eqI) (auto simp: bit_simps)
  ultimately show "table_crc c (bs @ [ucast (drop_bit 8 (table_crc c bs)), ucast (table_crc c bs)]) = 0"
    by (simp add: table_crc_def x_def update_shifts z)
qed

end
