(* ===== verification/Spec2Isabelle.thy ===== *)
theory Spec2Isabelle
  imports MatchProps OutputProps CommandProps ReadBack ExpressionProps DoublePrint Instrument Mainloop
    TmcProps UsbCoreProps Crc
begin

text \<open>
  \<^bold>\<open>A verification library of the SCPI instrument firmware.\<close>

  The program is the firmware of a measuring instrument for STM32 microcontrollers: it takes SCPI
  commands (IEEE 488.2), runs them and writes their answers.  Its own logic is the SCPI library
  \<^verbatim>\<open>Utilities/Scpi\<close>, the instrument's commands and main loop \<^verbatim>\<open>Src\<close>, and the USBTMC device
  \<^verbatim>\<open>Utilities/Usb\<close>.  The theories follow these parts; names of functions, fields and constants are
  those of the code, and each definition is the function of that name unless its theory says otherwise.

  \<^bold>\<open>The parts and how they interact.\<close>

  Bytes arrive in \<^verbatim>\<open>SCPI_Input\<close> (called by the main loop), which collects them in the input buffer and
  runs every complete line.  \<^verbatim>\<open>SCPI_Parse\<close> cuts a line into message units with the lexer, completes a
  header with the path of the one before, finds its command in the command list and calls its callback.
  The callback reads the arguments with the parameter functions, and writes its results with the result
  functions, which call the \<^verbatim>\<open>write\<close> function of the firmware's interface.  Whatever goes wrong is pushed
  on the error queue, which sets bits of the status registers; a register write can raise a service
  request through the interface.  The USB device is a second way in: the control endpoint answers the
  host's requests, and the USBTMC layer puts packets together to messages and cuts answers into packets.

  \<^bold>\<open>Theories, in the order of the code.\<close>

  \<^item> \<open>Prelude\<close>: C integer types, character classes, reads from a block of memory.
  \<^item> \<open>Fifo\<close> (\<^verbatim>\<open>fifo.c\<close>): the ring buffer with its struct; an access outside \<^verbatim>\<open>data[]\<close> is recorded in a
    ghost field.  Its contract is the locale \<open>error_fifo\<close>, interpreted as \<open>eq\<close>.
  \<^item> \<open>Context\<close> (\<^verbatim>\<open>types.h\<close>): the enums and structs; \<open>scpi_t\<close> is the context that all functions update.
    The locale \<open>scpi_port\<close> says what the interface's functions may do, and is interpreted in \<open>Port\<close>
    as \<open>port\<close>.
  \<^item> \<open>ErrorTable\<close>, \<open>ErrorQueue\<close> (\<^verbatim>\<open>error.h\<close>, \<^verbatim>\<open>error.c\<close>), \<open>Registers\<close> (\<^verbatim>\<open>ieee488.c\<close>, register part): errors and
    status; \<open>errors_ok\<close> and \<open>status_ok\<close> are their invariants.  The pointer \<^verbatim>\<open>error_queue\<close> is \<open>None\<close> while it is
    NULL, as in the static context, and \<^verbatim>\<open>SCPI_ErrorInit\<close> sets it.
  \<^item> \<open>Port\<close> (\<^verbatim>\<open>scpi-def.c\<close>, interface part): the functions behind the interface; the standard output is a
    list of events.  \<open>scpi_context\<close> is the static initial state.
  \<^item> \<open>Convert\<close>, \<open>Double\<close>, \<open>DoubleFacts\<close> (\<^verbatim>\<open>utils.c\<close>, conversions), \<open>Snprintf\<close>, \<open>SnprintfProps\<close>, \<open>DoublePrint\<close>
    (\<^verbatim>\<open>snprintf.c\<close>): numbers to text and back.
  \<^item> \<open>Match\<close>, \<open>MatchProps\<close> (\<^verbatim>\<open>utils.c\<close>, patterns): keyword matching, \<^verbatim>\<open>matchCommand\<close> and the completion of
    headers.
  \<^item> \<open>Lexer\<close>, \<open>LexerFacts\<close>, \<open>LexerProps\<close> (\<^verbatim>\<open>lexer.c\<close>); \<open>ProgramData\<close>, \<open>ProgramDataFacts\<close>, \<open>ProgramDataProps\<close>
    (\<^verbatim>\<open>parser.c\<close>, program data and message units).
  \<^item> \<open>Output\<close>, \<open>OutputProps\<close> (\<^verbatim>\<open>parser.c\<close>, results): the locale \<open>scpi_writer\<close>, interpreted as \<open>fw\<close>, is what the
    result functions rely on.  \<open>ReadBack\<close>: what they write, read by the parameter functions.
  \<^item> \<open>Params\<close>, \<open>ParamsProps\<close> (\<^verbatim>\<open>parser.c\<close>, parameters); \<open>Expression\<close>, \<open>ExpressionProps\<close> (\<^verbatim>\<open>expression.c\<close>);
    \<open>Units\<close> (\<^verbatim>\<open>units.c\<close> and the floating point functions of \<^verbatim>\<open>parser.c\<close> and \<^verbatim>\<open>expression.c\<close>).
  \<^item> \<open>Parser\<close>, \<open>ParserProps\<close>, \<open>LineRuns\<close>, \<open>InputProps\<close> (\<^verbatim>\<open>parser.c\<close>, the parser): the locale \<open>command_set\<close> is
    what the parser asks of a command list - patterns of keywords, callbacks that return and keep the
    input buffer - and is interpreted as \<open>required\<close> on the mandatory commands.
  \<^item> \<open>Commands\<close> (\<^verbatim>\<open>ieee488.c\<close>, \<^verbatim>\<open>minimal.c\<close>), \<open>Firmware\<close>, \<open>Instrument\<close> (\<^verbatim>\<open>scpi-def.c\<close>), \<open>CommandProps\<close>: the
    commands and what whole lines do.
  \<^item> \<open>Mainloop\<close> (\<^verbatim>\<open>main.c\<close>, \<^verbatim>\<open>getstr.c\<close>), \<open>Timer\<close> (\<^verbatim>\<open>bsp.c\<close>, waiting), \<open>Crc\<close> (\<^verbatim>\<open>crc.c\<close>).
  \<^item> \<open>UsbHw\<close> (\<^verbatim>\<open>usb_regs.h\<close>, \<^verbatim>\<open>usb_mem.c\<close>): registers and packet memory.  What a write to an endpoint register
    leaves in it is the peripheral's business and a parameter; the locale \<open>endpoint_register\<close> states the
    documented behaviour, and its interpretation \<open>rm0008\<close> is a concrete peripheral.
  \<^item> \<open>Tmc\<close>, \<open>TmcProps\<close> (\<^verbatim>\<open>usb_endp.c\<close>, \<^verbatim>\<open>usb_tmc.c\<close>): the USBTMC layer.
  \<^item> \<open>UsbCore\<close>, \<open>UsbCoreProps\<close> (\<^verbatim>\<open>usb_core.c\<close>, \<^verbatim>\<open>usb_prop.c\<close>, \<^verbatim>\<open>usb_desc.c\<close>, \<^verbatim>\<open>usb_int.c\<close>): the control
    endpoint; \<open>reply\<close> is the table of requests and answers that the properties compare it with.

  \<^bold>\<open>How state and effects are modelled.\<close>

  A C struct is a record; a function that changes the state returns it.  The constant parts of a context
  (command list, unit list, interface) are arguments of the operations.  The input buffer is one block
  of memory and a pointer into it an offset.  Integers have their C width (\<open>u8\<close>, \<open>u16\<close>, \<open>u32\<close>) where the
  code can wrap them; \<open>int\<close> and \<open>nat\<close> are used for counters that are bounded by a buffer.  Characters are
  HOL's 8-bit characters.  A \<^verbatim>\<open>double\<close> or \<^verbatim>\<open>float\<close> is the rational number it stands for, rounded to its
  format after each operation; infinities and NaN are values of their own.

  \<open>None\<close> is the outcome of a run that does not come back, that leaves an array or that C leaves
  undefined; so \<open>\<exists>r. f x = Some r\<close> says that \<open>f\<close> returns and stays in bounds.  The error queue is the exception:
  its functions are total, an access outside \<^verbatim>\<open>data[]\<close> is recorded in the queue's ghost field \<open>fifo_oob\<close>, and
  one through a NULL \<^verbatim>\<open>error_queue\<close> in the context's ghost field \<open>null_used\<close>; a turn of the main loop that sets
  \<open>null_used\<close> is \<open>None\<close>.  Loops are structural or have
  a termination measure, or, where the code can hang (the lexer of quoted strings), are \<open>partial_function
  (option)\<close>.  The observations of hardware - timer readings, interrupts - are lists of what is seen, and
  waiting for more than there is, is \<open>None\<close>.

  \<^bold>\<open>What the lemmas show.\<close>

  Lexer and message units: every function stays inside its text, ends on 7-bit text, and recognises what
  it should.  Patterns: a keyword is matched by its full form and by its short one, in either case
  of letters and with digits behind a \<^verbatim>\<open>#\<close> (\<open>keyword_match_plain\<close>, \<open>keyword_match_number\<close>), and the greedy loops
  of \<^verbatim>\<open>matchCommand\<close> decide what the pattern spells.  Parser:
  it ends on every 7-bit input and refines a specification that runs a line's commands one after the
  other; handing a line over in pieces makes no difference.  Queue and registers: the ring buffer is a
  bounded list for its first sixteen adds, and for any number in an array of one entry more; the seventeenth
  add leaves the declared array; the summary bits stay consistent under every write but a direct one of the
  status byte.  Results and parameters: the values that are written are the values read back.  Formatted output: the text
  does not depend on the buffer, which is never left; a double comes back up to the digits printed.
  USB: the receive buffer is never left, messages and answers are cut and put together faithfully; a
  request for data is answered as the specifications' tables have it, also seen from the interrupt; a new
  address waits for the status stage; and three ways in which the control endpoint goes wrong.  Timers,
  CRC and main loop: what their loops compute, and where they go wrong: \<^verbatim>\<open>main\<close> never calls \<^verbatim>\<open>SCPI_Init\<close>, so that
  the first error follows NULL.

  \<^bold>\<open>Not modelled.\<close>

  The vendor libraries (\<^verbatim>\<open>Libraries\<close>) and the lwIP stack are third-party code; \<^verbatim>\<open>netconf.c\<close>, the rest of
  \<^verbatim>\<open>bsp.c\<close>, \<^verbatim>\<open>hw_config.c\<close>, \<^verbatim>\<open>usb_pwr.c\<close>, \<^verbatim>\<open>usb_init.c\<close> and the frame of the interrupt handler in \<^verbatim>\<open>usb_istr.c\<close>
  write hardware registers or call that code.  \<^verbatim>\<open>flash.c\<close> is an unused wrapper of the vendor's flash
  driver.  The operations of \<^verbatim>\<open>usb_regs.c\<close> on double buffered endpoints are never called.
\<close>

end
